(* ===== verification/Prelude.thy ===== *)
theory Prelude
  imports Complex_Main "HOL-Library.Word" "HOL-Library.AList"
begin

text \<open>
  Shared vocabulary of the development: the machine integer types of the C++ code, the statuses an
  HTTP filter returns to the Envoy filter manager, results that may be an \<^verbatim>\<open>EnvoyException\<close>,
  lower casing of bytes, and the generic facts on lists and association lists on which the
  component theories rest.

  A \<^verbatim>\<open>std::map\<close> or \<^verbatim>\<open>absl::flat_hash_map\<close> is an association list without repeated keys
  (\<^const>\<open>AList.update\<close>, \<^const>\<open>AList.delete\<close>, \<^const>\<open>map_of\<close>), so that its size is the
  length of the list and every model evaluates.
\<close>

section \<open>Types\<close>

type_synonym u8 = "8 word"
type_synonym u32 = "32 word"
type_synonym u64 = "64 word"

text \<open>A computation that may throw an \<^verbatim>\<open>EnvoyException\<close>: \<^const>\<open>Inl\<close> carries its message.\<close>

type_synonym 'a throws = "string + 'a"

text \<open>Return values of the filter callbacks (\<^verbatim>\<open>Http::FilterHeadersStatus\<close>, \<^verbatim>\<open>Http::FilterDataStatus\<close>).\<close>

datatype headers_status =
  Continue | StopIteration | StopAllIterationAndBuffer | StopAllIterationAndWatermark

datatype data_status = DataContinue | StopIterationNoBuffer | StopIterationAndBuffer

text \<open>
  What \<^verbatim>\<open>decoder_callbacks_->route()\<close> and \<^verbatim>\<open>resolveMostSpecificPerFilterConfig\<close> give a filter: no route,
  a route without a route entry, or a route entry with the most specific configuration of the filter,
  if there is one.
\<close>

datatype 'c route = NoRoute | NoRouteEntry | RouteEntry "'c option"

text \<open>The type of a list in the protos of the restriction filters; proto3 admits values that are not named.\<close>

datatype list_type = BLACK | WHITE | OtherListType

text \<open>Changes a local reply makes to its headers, in order; the keys are \<^verbatim>\<open>LowerCaseString\<close>s.\<close>

datatype header_edit = AddCopy string string | AddReference string string | SetReference string string

text \<open>The calls a filter makes on the callbacks of its stream.\<close>

datatype callback =
    SendLocalReply u32 string "header_edit list" string
  | ContinueDecoding
  | ContinueEncoding
  | AddEncodedData string
  | ClearRouteCache

section \<open>Collections of simplification rules\<close>

named_theorems entry_simps \<open>laws of cache entries\<close>
named_theorems inv_intros \<open>introduction rules for the invariants of the components\<close>

section \<open>Bytes\<close>

text \<open>\<^verbatim>\<open>::tolower\<close> of the C library in the C locale: only the ASCII letters change.\<close>

definition tolower :: "char \<Rightarrow> char" where
  "tolower c = (if 65 \<le> (of_char c :: nat) \<and> (of_char c :: nat) \<le> 90
                then char_of ((of_char c :: nat) + 32) else c)"

lemma of_char_tolower:
  "(of_char (tolower c) :: nat) =
     (if 65 \<le> (of_char c :: nat) \<and> (of_char c :: nat) \<le> 90 then of_char c + 32 else of_char c)"
  by (simp add: tolower_def)

lemma tolower_idem [simp]: "tolower (tolower c) = tolower c"
  by (simp add: tolower_def)

definition lower :: "string \<Rightarrow> string" where
  "lower s = map tolower s"

lemma lower_idem [simp]: "lower (lower s) = lower s"
  by (simp add: lower_def)

section \<open>C++ arithmetic\<close>

text \<open>Integer division of C++, which truncates towards zero.\<close>

definition cpp_div :: "int \<Rightarrow> int \<Rightarrow> int" where
  "cpp_div a b = sgn a * sgn b * (\<bar>a\<bar> div \<bar>b\<bar>)"

lemma cpp_div_nonneg: "0 \<le> a \<Longrightarrow> 0 < b \<Longrightarrow> cpp_div a b = a div b"
  by (auto simp: cpp_div_def sgn_if)

lemma cpp_div_mono: "a \<le> a' \<Longrightarrow> 0 < b \<Longrightarrow> cpp_div a b \<le> cpp_div a' b"
proof -
  assume "a \<le> a'" "0 < b"
  have np: "cpp_div x b = - ((- x) div b)" if "x \<le> 0" for x
    using that \<open>0 < b\<close> by (auto simp: cpp_div_def sgn_if)
  show ?thesis
  proof (cases "0 \<le> a")
    case True
    with \<open>a \<le> a'\<close> \<open>0 < b\<close> show ?thesis by (simp add: cpp_div_nonneg zdiv_mono1)
  next
    case neg: False
    show ?thesis
    proof (cases "0 \<le> a'")
      case True
      with neg \<open>0 < b\<close> have "cpp_div a b \<le> 0" "0 \<le> cpp_div a' b"
        by (simp_all add: np cpp_div_nonneg pos_imp_zdiv_nonneg_iff)
      then show ?thesis by simp
    next
      case False
      with neg \<open>a \<le> a'\<close> \<open>0 < b\<close> show ?thesis by (simp add: np zdiv_mono1)
    qed
  qed
qed

text \<open>
  A \<^verbatim>\<open>double\<close> operation is the real operation followed by rounding: the models take the rounding
  function \<open>rnd\<close> as an argument. What IEEE 754 promises of it and the code relies on: integers of
  magnitude up to \<open>2 ^ 53\<close> are represented exactly, and rounding is monotone.
\<close>

definition ieee_rounding :: "(real \<Rightarrow> real) \<Rightarrow> bool" where
  "ieee_rounding rnd \<longleftrightarrow> mono rnd \<and> (\<forall>x \<in> \<int>. \<bar>x\<bar> \<le> 2 ^ 53 \<longrightarrow> rnd x = x)"

lemma ieee_exact: "ieee_rounding rnd \<Longrightarrow> x \<in> \<int> \<Longrightarrow> \<bar>x\<bar> \<le> 2 ^ 53 \<Longrightarrow> rnd x = x"
  by (auto simp: ieee_rounding_def)

lemma ieee_mono: "ieee_rounding rnd \<Longrightarrow> x \<le> y \<Longrightarrow> rnd x \<le> rnd y"
  by (auto simp: ieee_rounding_def mono_def)

lemma ieee_rounding_id: "ieee_rounding (\<lambda>x. x)"
  by (simp add: ieee_rounding_def mono_def)

section \<open>Lists\<close>

lemma filter_neq_last:
  assumes "distinct (map f (xs @ [x]))"
  shows "filter (\<lambda>y. f y \<noteq> f x) (xs @ [x]) = xs"
proof -
  have "\<forall>y \<in> set xs. f y \<noteq> f x"
    using assms by (auto simp: image_iff)
  then show ?thesis
    by (simp add: filter_id_conv)
qed

lemma sum_list_filter_neq:
  fixes g :: "'b \<Rightarrow> 'c :: comm_monoid_add"
  assumes "distinct (map f xs)" and "x \<in> set xs"
  shows "sum_list (map g xs) = g x + sum_list (map g (filter (\<lambda>y. f y \<noteq> f x) xs))"
  using assms
proof (induction xs)
  case Nil
  then show ?case by simp
next
  case (Cons y ys)
  show ?case
  proof (cases "y = x")
    case True
    with Cons.prems have "filter (\<lambda>y. f y \<noteq> f x) ys = ys"
      by (auto simp: filter_id_conv image_iff)
    with True show ?thesis by simp
  next
    case False
    with Cons.prems have "x \<in> set ys" and "f y \<noteq> f x" by auto
    with Cons show ?thesis by (simp add: ac_simps)
  qed
qed

section \<open>Association lists\<close>

lemma map_of_update [simp]: "map_of (AList.update k v al) = (map_of al)(k \<mapsto> v)"
  by (simp add: update_conv')

lemma length_delete_mem:
  assumes "distinct (map fst al)" and "map_of al k = Some v"
  shows "Suc (length (AList.delete k al)) = length al"
  using assms
proof (induction al)
  case Nil
  then show ?case by simp
next
  case (Cons p al)
  show ?case
  proof (cases "fst p = k")
    case True
    with Cons.prems have "k \<notin> fst ` set al" by auto
    then have "AList.delete k al = al" by (simp add: delete_id)
    with True show ?thesis by (cases p) (simp add: AList.delete_eq)
  next
    case False
    with Cons show ?thesis by (cases p) (simp add: AList.delete_eq)
  qed
qed

section \<open>Sequences of operations\<close>

text \<open>Running a list of operations; the run stops at the first operation that does not return.\<close>

fun run_steps :: "('op \<Rightarrow> 'c \<Rightarrow> 'c option) \<Rightarrow> 'op list \<Rightarrow> 'c \<Rightarrow> 'c option" where
  "run_steps step [] c = Some c"
| "run_steps step (op # ops) c =
     (case step op c of None \<Rightarrow> None | Some c' \<Rightarrow> run_steps step ops c')"

lemma run_steps_invariant:
  assumes "\<And>op c. op \<in> set ops \<Longrightarrow> I c \<Longrightarrow> \<exists>c'. step op c = Some c' \<and> I c'" and "I c"
  shows "\<exists>c'. run_steps step ops c = Some c' \<and> I c'"
  using assms
proof (induction ops arbitrary: c)
  case Nil
  then show ?case by simp
next
  case (Cons op ops)
  obtain c1 where "step op c = Some c1" "I c1"
    using Cons.prems(1) [of op c] Cons.prems(2) by auto
  moreover have "\<exists>c'. run_steps step ops c1 = Some c' \<and> I c'"
    by (rule Cons.IH) (use Cons.prems(1) \<open>I c1\<close> in auto)
  ultimately show ?case by simp
qed

section \<open>Decimal numbers\<close>

text \<open>The digits of an unsigned number, as \<^verbatim>\<open>std::to_string\<close> writes them.\<close>

fun decimal_nat :: "nat \<Rightarrow> string" where
  "decimal_nat n = (if n < 10 then [char_of (48 + n)] else decimal_nat (n div 10) @ [char_of (48 + n mod 10)])"

declare decimal_nat.simps [simp del]

text \<open>The last \<open>k\<close> decimal digits of a number.\<close>

fun digits :: "nat \<Rightarrow> nat \<Rightarrow> string" where
  "digits 0 r = []"
| "digits (Suc k) r = digits k (r div 10) @ [char_of (48 + r mod 10)]"

lemma decimal_nat_less: "n < 10 \<Longrightarrow> decimal_nat n = [char_of (48 + n)]"
  by (simp add: decimal_nat.simps)

lemma decimal_nat_step: "10 \<le> n \<Longrightarrow> decimal_nat n = decimal_nat (n div 10) @ [char_of (48 + n mod 10)]"
  by (subst decimal_nat.simps) simp

lemma decimal_nat_split:
  "0 < q \<Longrightarrow> r < 10 ^ k \<Longrightarrow> decimal_nat (q * 10 ^ k + r) = decimal_nat q @ digits k r"
proof (induction k arbitrary: r)
  case (Suc k)
  have eq: "q * 10 ^ Suc k + r = r + 10 * (q * 10 ^ k)" by simp
  have "(q * 10 ^ Suc k + r) div 10 = q * 10 ^ k + r div 10" and "(q * 10 ^ Suc k + r) mod 10 = r mod 10"
    unfolding eq by simp_all
  moreover have "10 \<le> q * 10 ^ Suc k + r" using Suc.prems(1) by (simp add: Suc_leI trans_le_add1)
  moreover have "r div 10 < 10 ^ k" using Suc.prems(2) by (simp add: less_mult_imp_div_less mult.commute)
  ultimately show ?case using Suc.IH [OF Suc.prems(1)] by (simp only: decimal_nat_step digits.simps) simp
qed simp

lemma digits_zero [simp]: "digits k 0 = replicate k (CHR ''0'')"
  by (induction k) (simp_all add: replicate_append_same [symmetric] char_of_def bit_0)

lemma digits_pad:
  "r < 10 ^ Suc k \<Longrightarrow> digits (Suc k) r = replicate (Suc k - length (decimal_nat r)) (CHR ''0'') @ decimal_nat r"
proof (induction k arbitrary: r)
  case (Suc k)
  show ?case
  proof (cases "r < 10")
    case True
    then show ?thesis by (simp add: decimal_nat_less)
  next
    case False
    have "r div 10 < 10 ^ Suc k" using Suc.prems by (simp add: less_mult_imp_div_less mult.commute)
    with Suc.IH [OF this] False show ?thesis by (simp only: digits.simps(2) decimal_nat_step not_less) simp
  qed
qed (simp add: decimal_nat_less)

end
