(* ===== verification/Rolling_Number.thy ===== *)
theory Rolling_Number
  imports Prelude
begin

text \<open>
  \<^verbatim>\<open>RollingNumberImpl\<close> of \<^verbatim>\<open>source/common/stats/rolling_number.{h,cc}\<close>: a sum over a sliding window
  of seconds, kept in one bucket per second.

  \<^verbatim>\<open>buckets_\<close> is a \<^verbatim>\<open>std::map\<close> ordered by the second, here the list of its pairs in that order; a
  time is a number of nanoseconds since the epoch. The values are \<^verbatim>\<open>double\<close>s: every addition is
  rounded by the argument \<open>rnd\<close>. The methods read the clock through \<^verbatim>\<open>time_source_\<close>, which is the
  argument \<open>clock\<close>.
\<close>

section \<open>State and operations\<close>

type_synonym time = int

record rolling =
  window_size :: int
  buckets :: "(int \<times> real) list"

definition RollingNumberImpl :: "int \<Rightarrow> rolling" where
  "RollingNumberImpl window_ms = \<lparr>window_size = cpp_div window_ms 1000, buckets = []\<rparr>"

definition unixTimeNowSeconds :: "time \<Rightarrow> int" where
  "unixTimeNowSeconds now = cpp_div now 1000000000"

text \<open>\<^verbatim>\<open>getCurrentBucket\<close>: a bucket of the current second with value 0 unless there is one.\<close>

fun emplace_bucket :: "int \<Rightarrow> (int \<times> real) list \<Rightarrow> (int \<times> real) list" where
  "emplace_bucket t [] = [(t, 0)]"
| "emplace_bucket t ((k, v) # bs) =
     (if t < k then (t, 0) # (k, v) # bs
      else if t = k then (k, v) # bs
      else (k, v) # emplace_bucket t bs)"

definition getCurrentBucket :: "time \<Rightarrow> rolling \<Rightarrow> rolling" where
  "getCurrentBucket clock r = r\<lparr>buckets := emplace_bucket (unixTimeNowSeconds clock) (buckets r)\<rparr>"

text \<open>\<^verbatim>\<open>erase(begin(), lower_bound(tick))\<close>.\<close>

definition removeOldBuckets :: "time \<Rightarrow> rolling \<Rightarrow> rolling" where
  "removeOldBuckets clock r =
     (let tick = unixTimeNowSeconds clock - window_size r
      in r\<lparr>buckets := dropWhile (\<lambda>p. fst p < tick) (buckets r)\<rparr>)"

definition Increment :: "(real \<Rightarrow> real) \<Rightarrow> time \<Rightarrow> real \<Rightarrow> rolling \<Rightarrow> rolling" where
  "Increment rnd clock i r =
     (let tick = unixTimeNowSeconds clock; r = getCurrentBucket clock r
      in removeOldBuckets clock
           (r\<lparr>buckets := map (\<lambda>(k, v). if k = tick then (k, rnd (v + i)) else (k, v)) (buckets r)\<rparr>))"

definition RollingSum :: "(real \<Rightarrow> real) \<Rightarrow> time \<Rightarrow> time \<Rightarrow> rolling \<Rightarrow> real \<times> rolling" where
  "RollingSum rnd clock now r =
     (let tick = unixTimeNowSeconds now
      in (fold (\<lambda>(k, v) sum. if tick - window_size r < k then rnd (sum + v) else sum) (buckets r) 0,
          removeOldBuckets clock r))"

section \<open>Specification: the increments themselves\<close>

definition window_sum :: "int \<Rightarrow> (time \<times> real) list \<Rightarrow> real" where
  "window_sum after evs = (\<Sum>(t, i) \<leftarrow> evs. if after < unixTimeNowSeconds t then i else 0)"

definition increments :: "(real \<Rightarrow> real) \<Rightarrow> (time \<times> real) list \<Rightarrow> rolling \<Rightarrow> rolling" where
  "increments rnd evs r = fold (\<lambda>(t, i) r. Increment rnd t i r) evs r"

text \<open>The values a window holds beyond a second, summed exactly.\<close>

definition sum_after :: "int \<Rightarrow> (int \<times> real) list \<Rightarrow> real" where
  "sum_after c bs = (\<Sum>(k, v) \<leftarrow> bs. if c < k then v else 0)"

text \<open>Whole, non-negative bucket values that cannot exceed \<open>b\<close> together, in order of the second.\<close>

definition rolling_ok :: "real \<Rightarrow> rolling \<Rightarrow> bool" where
  "rolling_ok b r \<longleftrightarrow> sorted_wrt (<) (map fst (buckets r)) \<and>
     (\<forall>p \<in> set (buckets r). snd p \<in> \<int> \<and> 0 \<le> snd p) \<and> (\<Sum>p \<leftarrow> buckets r. snd p) \<le> b"

section \<open>Buckets\<close>

lemma fst_set_emplace: "fst ` set (emplace_bucket t bs) = insert t (fst ` set bs)"
  by (induction t bs rule: emplace_bucket.induct) auto

lemma sorted_emplace:
  "sorted_wrt (<) (map fst bs) \<Longrightarrow> sorted_wrt (<) (map fst (emplace_bucket t bs))"
proof (induction t bs rule: emplace_bucket.induct)
  case (1 t)
  then show ?case by simp
next
  case (2 t k v bs)
  then show ?case using fst_set_emplace [of t bs] by auto
qed

lemma set_emplace: "set (emplace_bucket t bs) \<subseteq> insert (t, 0) (set bs)"
  by (induction t bs rule: emplace_bucket.induct) auto

lemma sum_list_emplace:
  "f (t, 0) = (0 :: real) \<Longrightarrow> sum_list (map f (emplace_bucket t bs)) = sum_list (map f bs)"
  by (induction t bs rule: emplace_bucket.induct) auto

text \<open>Adding to the bucket of one second of an ordered list of buckets that has it.\<close>

lemma sum_list_bump:
  fixes f :: "int \<times> real \<Rightarrow> real"
  assumes "sorted_wrt (<) (map fst bs)" and "t \<in> fst ` set bs"
    and "\<And>v. f (t, v + i) = f (t, v) + d"
  shows "sum_list (map f (map (\<lambda>(k, v). if k = t then (k, v + i) else (k, v)) bs)) = sum_list (map f bs) + d"
  using assms(1,2)
proof (induction bs)
  case Nil
  then show ?case by simp
next
  case (Cons p bs)
  obtain k v where p: "p = (k, v)" by (cases p)
  show ?case
  proof (cases "k = t")
    case True
    with Cons.prems p have "map (\<lambda>(k, v). if k = t then (k, v + i) else (k, v)) bs = bs"
      by (intro map_idI) (auto split: prod.splits)
    with True p assms(3) show ?thesis by simp
  next
    case False
    with Cons p show ?thesis by (auto simp: split_def)
  qed
qed

lemma dropWhile_sorted:
  assumes "sorted_wrt (<) (map fst bs)"
  shows "dropWhile (\<lambda>p. fst p < (c :: int)) bs = filter (\<lambda>p. c \<le> fst p) bs"
  using assms
proof (induction bs)
  case Nil
  then show ?case by simp
next
  case (Cons p bs)
  show ?case
  proof (cases "fst p < c")
    case True
    with Cons show ?thesis by simp
  next
    case False
    with Cons.prems have "filter (\<lambda>p. c \<le> fst p) bs = bs" by (auto simp: filter_id_conv)
    with False show ?thesis by simp
  qed
qed

lemma sum_list_filter_le:
  "(\<And>p. p \<in> set bs \<Longrightarrow> 0 \<le> snd p) \<Longrightarrow> (\<Sum>p \<leftarrow> filter P bs. snd p) \<le> (\<Sum>p \<leftarrow> bs. (snd p :: real))"
  by (induction bs) (auto intro: add_increasing)

lemma member_le_sum:
  "(\<And>p. p \<in> set bs \<Longrightarrow> 0 \<le> snd p) \<Longrightarrow> q \<in> set bs \<Longrightarrow> snd q \<le> (\<Sum>p \<leftarrow> bs. (snd p :: real))"
proof (induction bs)
  case Nil
  then show ?case by simp
next
  case (Cons p bs)
  have "0 \<le> snd p" "0 \<le> (\<Sum>p \<leftarrow> bs. snd p)"
    by (rule Cons.prems(1), simp, rule sum_list_nonneg, use Cons.prems(1) in fastforce)
  moreover have "snd q \<le> (\<Sum>p \<leftarrow> bs. snd p)" if "q \<in> set bs"
    by (rule Cons.IH [OF _ that]) (simp add: Cons.prems(1))
  ultimately show ?case using Cons.prems(2) by auto
qed

section \<open>The operations are exact on whole numbers\<close>

abbreviation bump :: "int \<Rightarrow> real \<Rightarrow> (int \<times> real) list \<Rightarrow> (int \<times> real) list" where
  "bump t i bs \<equiv> map (\<lambda>(k, v). if k = t then (k, v + i) else (k, v)) bs"

lemma rolling_ok_emplace:
  assumes "rolling_ok b r"
  shows "rolling_ok b (r\<lparr>buckets := emplace_bucket t (buckets r)\<rparr>)"
proof -
  have "\<forall>p \<in> set (emplace_bucket t (buckets r)). snd p \<in> \<int> \<and> 0 \<le> snd p"
    using assms set_emplace [of t "buckets r"] by (auto simp: rolling_ok_def)
  with assms show ?thesis
    by (simp add: rolling_ok_def sorted_emplace sum_list_emplace)
qed

lemma rolling_ok_bump:
  assumes "rolling_ok b r" and "i \<in> \<int>" and "0 \<le> i" and "t \<in> fst ` set (buckets r)"
  shows "rolling_ok (b + i) (r\<lparr>buckets := bump t i (buckets r)\<rparr>)"
proof -
  have "sorted_wrt (<) (map fst (bump t i (buckets r)))"
  proof -
    have "map fst (bump t i (buckets r)) = map fst (buckets r)" by auto
    then show ?thesis using assms(1) by (simp only: rolling_ok_def)
  qed
  moreover have "(\<Sum>p \<leftarrow> bump t i (buckets r). snd p) = (\<Sum>p \<leftarrow> buckets r. snd p) + i"
    using assms by (intro sum_list_bump) (auto simp: rolling_ok_def)
  moreover have "snd p \<in> \<int> \<and> 0 \<le> snd p" if "p \<in> set (bump t i (buckets r))" for p
  proof -
    from that obtain k v where "(k, v) \<in> set (buckets r)" "p = (k, v) \<or> p = (k, v + i)"
      by (auto split: if_splits)
    with assms(1-3) show ?thesis by (fastforce simp: rolling_ok_def)
  qed
  moreover have "(\<Sum>p \<leftarrow> buckets r. snd p) \<le> b" using assms(1) by (simp add: rolling_ok_def)
  ultimately show ?thesis unfolding rolling_ok_def by (simp del: map_map)
qed

lemma rolling_ok_filter:
  assumes "rolling_ok b r" shows "rolling_ok b (r\<lparr>buckets := filter P (buckets r)\<rparr>)"
proof -
  have "(\<Sum>p \<leftarrow> filter P (buckets r). snd p) \<le> (\<Sum>p \<leftarrow> buckets r. snd p)"
    by (rule sum_list_filter_le) (use assms in \<open>auto simp: rolling_ok_def\<close>)
  moreover have "sorted_wrt (<) (map fst (filter P (buckets r)))"
    using assms by (simp add: rolling_ok_def sorted_wrt_map sorted_wrt_filter)
  ultimately show ?thesis using assms by (simp add: rolling_ok_def)
qed

lemma rolling_ok_remove: "rolling_ok b r \<Longrightarrow> rolling_ok b (removeOldBuckets clock r)"
  using rolling_ok_filter [of b r] by (simp add: removeOldBuckets_def Let_def dropWhile_sorted rolling_ok_def [of b r])

lemma Increment_exact:
  assumes rnd: "ieee_rounding rnd" and ok: "rolling_ok b r"
    and i: "i \<in> \<int>" "0 \<le> i" "b + i \<le> 2 ^ 53"
  shows "Increment rnd clock i r =
    removeOldBuckets clock (r\<lparr>buckets := bump (unixTimeNowSeconds clock) i
      (emplace_bucket (unixTimeNowSeconds clock) (buckets r))\<rparr>)"
proof -
  let ?bs = "emplace_bucket (unixTimeNowSeconds clock) (buckets r)"
  have ok': "rolling_ok b (r\<lparr>buckets := ?bs\<rparr>)" using ok by (rule rolling_ok_emplace)
  have "rnd (snd p + i) = snd p + i" if "p \<in> set ?bs" for p
  proof (rule ieee_exact [OF rnd])
    have "snd p \<in> \<int>" "0 \<le> snd p" using ok' that by (auto simp: rolling_ok_def)
    moreover have "snd p \<le> b"
      using member_le_sum [of ?bs p] ok' that by (fastforce simp: rolling_ok_def)
    ultimately show "snd p + i \<in> \<int>" "\<bar>snd p + i\<bar> \<le> 2 ^ 53" using i by auto
  qed
  then have eq: "map (\<lambda>(k, v). if k = unixTimeNowSeconds clock then (k, rnd (v + i)) else (k, v)) ?bs =
      bump (unixTimeNowSeconds clock) i ?bs"
    by (intro map_cong) auto
  show ?thesis by (simp add: Increment_def getCurrentBucket_def Let_def eq del: map_eq_conv)
qed

lemma Increment_ok:
  assumes "ieee_rounding rnd" and "rolling_ok b r" and "i \<in> \<int>" "0 \<le> i" "b + i \<le> 2 ^ 53"
  shows "rolling_ok (b + i) (Increment rnd clock i r)"
proof -
  let ?t = "unixTimeNowSeconds clock"
  have "rolling_ok (b + i) (r\<lparr>buckets := bump ?t i (emplace_bucket ?t (buckets r))\<rparr>)"
    using rolling_ok_bump [OF rolling_ok_emplace [OF assms(2), of ?t] assms(3,4), of ?t]
    by (simp add: fst_set_emplace)
  then show ?thesis by (simp add: Increment_exact [OF assms] rolling_ok_remove)
qed

lemma sum_after_remove:
  assumes "rolling_ok b r" and "unixTimeNowSeconds clock - window_size r \<le> c"
  shows "sum_after c (buckets (removeOldBuckets clock r)) = sum_after c (buckets r)"
proof -
  have "sum_after c (filter (\<lambda>p. x \<le> fst p) bs) = sum_after c bs" if "x \<le> c" for x bs
    using that by (induction bs) (auto simp: sum_after_def)
  with assms show ?thesis
    by (simp add: removeOldBuckets_def Let_def dropWhile_sorted rolling_ok_def)
qed

lemma window_size_Increment [simp]: "window_size (Increment rnd clock i r) = window_size r"
  by (simp add: Increment_def removeOldBuckets_def getCurrentBucket_def Let_def)

lemma sum_after_Increment:
  assumes "ieee_rounding rnd" and ok: "rolling_ok b r" and "i \<in> \<int>" "0 \<le> i" "b + i \<le> 2 ^ 53"
    and c: "unixTimeNowSeconds clock - window_size r \<le> c"
  shows "sum_after c (buckets (Increment rnd clock i r)) =
    sum_after c (buckets r) + (if c < unixTimeNowSeconds clock then i else 0)"
proof -
  let ?t = "unixTimeNowSeconds clock"
  let ?e = "emplace_bucket ?t (buckets r)"
  have sorted: "sorted_wrt (<) (map fst ?e)" using ok by (simp add: rolling_ok_def sorted_emplace)
  have ok': "rolling_ok (b + i) (r\<lparr>buckets := bump ?t i ?e\<rparr>)"
    using rolling_ok_bump [OF rolling_ok_emplace [OF ok, of ?t] assms(3,4), of ?t]
    by (simp add: fst_set_emplace)
  have "sum_after c (buckets (Increment rnd clock i r)) = sum_after c (bump ?t i ?e)"
    using sum_after_remove [OF ok', of clock c] c by (simp add: Increment_exact [OF assms(1-5)])
  also have "\<dots> = sum_after c ?e + (if c < ?t then i else 0)"
    unfolding sum_after_def using sorted by (intro sum_list_bump) (auto simp: fst_set_emplace)
  also have "sum_after c ?e = sum_after c (buckets r)"
    unfolding sum_after_def by (rule sum_list_emplace) simp
  finally show ?thesis .
qed

section \<open>A run of increments\<close>

lemma increments_window:
  assumes rnd: "ieee_rounding rnd" and ok: "rolling_ok b r"
    and whole: "\<And>e. e \<in> set evs \<Longrightarrow> snd e \<in> \<int> \<and> 0 \<le> snd e"
    and small: "b + (\<Sum>e \<leftarrow> evs. snd e) \<le> 2 ^ 53"
    and past: "\<And>e. e \<in> set evs \<Longrightarrow> unixTimeNowSeconds (fst e) - window_size r \<le> c"
  shows "rolling_ok (b + (\<Sum>e \<leftarrow> evs. snd e)) (increments rnd evs r) \<and>
    window_size (increments rnd evs r) = window_size r \<and>
    sum_after c (buckets (increments rnd evs r)) = sum_after c (buckets r) + window_sum c evs"
  using ok whole small past
proof (induction evs arbitrary: r b)
  case Nil
  then show ?case by (simp add: increments_def window_sum_def)
next
  case (Cons e evs)
  obtain t i where e: "e = (t, i)" by (cases e)
  have i: "i \<in> \<int>" "0 \<le> i" using Cons.prems(2) [of e] e by auto
  have rest: "0 \<le> (\<Sum>e \<leftarrow> evs. snd e)"
    by (rule sum_list_nonneg) (use Cons.prems(2) in fastforce)
  then have bi: "b + i \<le> 2 ^ 53" using Cons.prems(3) e by simp
  note step = Increment_ok [OF rnd Cons.prems(1) i bi, of t]
  have "sum_after c (buckets (Increment rnd t i r)) =
      sum_after c (buckets r) + (if c < unixTimeNowSeconds t then i else 0)"
    using sum_after_Increment [OF rnd Cons.prems(1) i bi] Cons.prems(4) [of e] e by simp
  moreover have "rolling_ok (b + i + (\<Sum>e \<leftarrow> evs. snd e)) (increments rnd evs (Increment rnd t i r)) \<and>
      window_size (increments rnd evs (Increment rnd t i r)) = window_size r \<and>
      sum_after c (buckets (increments rnd evs (Increment rnd t i r))) =
        sum_after c (buckets (Increment rnd t i r)) + window_sum c evs"
    using Cons.IH [OF step] Cons.prems(2-4) e by (simp add: algebra_simps)
  ultimately show ?case using e by (simp add: increments_def window_sum_def algebra_simps)
qed

lemma Sum_exact:
  assumes rnd: "ieee_rounding rnd" and ok: "rolling_ok b r" and b: "b \<le> 2 ^ 53"
  shows "fst (RollingSum rnd clock now r) = sum_after (unixTimeNowSeconds now - window_size r) (buckets r)"
proof -
  let ?c = "unixTimeNowSeconds now - window_size r"
  have "fold (\<lambda>(k, v) s. if ?c < k then rnd (s + v) else s) bs s = s + sum_after ?c bs"
    if "s \<in> \<int>" "0 \<le> s" "\<And>p. p \<in> set bs \<Longrightarrow> snd p \<in> \<int> \<and> 0 \<le> snd p" "s + (\<Sum>p \<leftarrow> bs. snd p) \<le> 2 ^ 53"
    for s bs
    using that
  proof (induction bs arbitrary: s)
    case Nil
    then show ?case by (simp add: sum_after_def)
  next
    case (Cons p bs)
    obtain k v where p: "p = (k, v)" by (cases p)
    have v: "v \<in> \<int>" "0 \<le> v" using Cons.prems(3) [of p] p by auto
    have "0 \<le> (\<Sum>p \<leftarrow> bs. snd p)" by (rule sum_list_nonneg) (use Cons.prems(3) in fastforce)
    then have "rnd (s + v) = s + v"
      using Cons.prems(1,2,4) v p by (intro ieee_exact [OF rnd]) auto
    then show ?case
      using Cons.IH [of "if ?c < k then s + v else s"] Cons.prems v p
      by (auto simp: sum_after_def)
  qed
  from this [of 0 "buckets r"] show ?thesis
    using ok b by (auto simp: RollingSum_def Let_def rolling_ok_def)
qed

text \<open>What a rolling number keeps of the increments \<open>evs\<close>, seen from the second \<open>c\<close> on.\<close>

definition tracks :: "real \<Rightarrow> int \<Rightarrow> int \<Rightarrow> (time \<times> real) list \<Rightarrow> rolling \<Rightarrow> bool" where
  "tracks b c w evs r \<longleftrightarrow>
     rolling_ok b r \<and> window_size r = w \<and> sum_after c (buckets r) = window_sum c evs"

lemma tracks_init: "tracks 0 c (cpp_div window_ms 1000) [] (RollingNumberImpl window_ms)"
  by (simp add: tracks_def rolling_ok_def RollingNumberImpl_def sum_after_def window_sum_def)

lemma tracks_Increment:
  assumes "ieee_rounding rnd" and "tracks b c w evs r" and "i \<in> \<int>" "0 \<le> i" "b + i \<le> 2 ^ 53"
    and "unixTimeNowSeconds t - w \<le> c"
  shows "tracks (b + i) c w (evs @ [(t, i)]) (Increment rnd t i r)"
  using assms Increment_ok [of rnd b r i t] sum_after_Increment [of rnd b r i t c]
  by (auto simp: tracks_def window_sum_def)

lemma tracks_remove:
  assumes "tracks b c w evs r" and "unixTimeNowSeconds t - w \<le> c"
  shows "tracks b c w evs (removeOldBuckets t r)"
  using assms sum_after_remove [of b r t c] rolling_ok_remove [of b r t]
  by (auto simp: tracks_def) (simp add: removeOldBuckets_def Let_def)

lemma tracks_Sum:
  assumes "ieee_rounding rnd" and "tracks b c w evs r" and "b \<le> 2 ^ 53" and "c = unixTimeNowSeconds now - w"
  shows "fst (RollingSum rnd clock now r) = window_sum c evs"
  using assms Sum_exact [of rnd b r clock now] by (simp add: tracks_def)

lemma snd_RollingSum [simp]: "snd (RollingSum rnd clock now r) = removeOldBuckets clock r"
  by (simp add: RollingSum_def Let_def)

section \<open>Properties\<close>

text \<open>
  C14: The rolling number is the sum over its window. After any increments by whole non-negative
  amounts that add up to at most \<open>2 ^ 53\<close>, made no later than \<open>now\<close>, \<^verbatim>\<open>Sum(now)\<close> is exactly the
  sum of the increments made in a second later than the second of \<open>now\<close> less the window: dropping
  old buckets never loses an increment of the window, and the rounding of \<^verbatim>\<open>double\<close> is exact.
\<close>

theorem rolling_sum_correct:
  assumes rnd: "ieee_rounding rnd"
    and whole: "\<And>e. e \<in> set evs \<Longrightarrow> snd e \<in> \<int> \<and> 0 \<le> snd e"
    and small: "(\<Sum>e \<leftarrow> evs. snd e) \<le> 2 ^ 53"
    and past: "\<And>e. e \<in> set evs \<Longrightarrow> fst e \<le> now"
  shows "fst (RollingSum rnd clock now (increments rnd evs (RollingNumberImpl window_ms))) =
    window_sum (unixTimeNowSeconds now - cpp_div window_ms 1000) evs"
proof -
  let ?r = "RollingNumberImpl window_ms" and ?c = "unixTimeNowSeconds now - cpp_div window_ms 1000"
  have ok: "rolling_ok 0 ?r" by (simp add: rolling_ok_def RollingNumberImpl_def)
  have "unixTimeNowSeconds (fst e) - window_size ?r \<le> ?c" if "e \<in> set evs" for e
    using past [OF that] by (simp add: RollingNumberImpl_def unixTimeNowSeconds_def cpp_div_mono)
  with increments_window [OF rnd ok whole, of evs ?c] small
  have run: "rolling_ok (\<Sum>e \<leftarrow> evs. snd e) (increments rnd evs ?r)"
      "window_size (increments rnd evs ?r) = cpp_div window_ms 1000"
      "sum_after ?c (buckets (increments rnd evs ?r)) = window_sum ?c evs"
    by (simp_all add: RollingNumberImpl_def sum_after_def)
  then show ?thesis using Sum_exact [OF rnd run(1) small] by simp
qed

theorem rolling_sum_correct_witness:
  "fst (RollingSum (\<lambda>x. x) 11000000000 11000000000
     (increments (\<lambda>x. x) [(1000000000, 5), (9000000000, 2), (9500000000, 4)] (RollingNumberImpl 10000))) = 6"
  by (subst rolling_sum_correct [OF ieee_rounding_id])
     (auto simp: window_sum_def unixTimeNowSeconds_def cpp_div_def)

end
