(* ===== verification/Circuit_Breaker.thy ===== *)
theory Circuit_Breaker
  imports Rolling_Number
begin

text \<open>
  The circuit breaker of \<^verbatim>\<open>source/filters/http/circuit_breaker/\<close>: the settings read from the
  configuration, the breaker itself over three rolling numbers, the manager that keeps one breaker
  per route, and the HTTP filter that consults the breaker on a request and reports the response.

  Each method reads the clock once (argument \<open>clock\<close>); the manager runs every method under its
  mutex, so the operations are atomic. Where the source calls \<^verbatim>\<open>systemTime()\<close> several times within one
  method, one reading stands for all of them, and times and durations, \<^verbatim>\<open>std::chrono\<close> counts in the
  source, are unbounded integers.
\<close>

section \<open>Settings\<close>

record cb_settings =
  consecutive_slow_requests :: u32
  average_response_time_threshold :: "int option"
  percentage :: real
  min_request_amount :: u32
  break_duration :: int
  lookback_duration :: int
  http_status :: u32
  http_headers :: "(string \<times> string) list"
  http_body :: string
  wait_body :: bool

text \<open>The fields of the message \<^verbatim>\<open>CircuitBreakerPerRoute\<close>; an optional field is an option.\<close>

record cb_proto =
  p_average_response_time :: "int option"
  p_consecutive_slow_requests :: u32
  p_error_percent_threshold :: "real option"
  p_min_request_amount :: u32
  p_break_duration :: int
  p_lookback_duration :: "int option"
  p_http_status :: u32
  p_headers :: "(string \<times> string) list"
  p_inline_bytes :: string
  p_inline_string :: string
  p_wait_body :: bool

definition defaultLookbackDuration :: int where
  "defaultLookbackDuration = 10000"

definition CircuitBreakerSettings :: "cb_proto \<Rightarrow> cb_settings" where
  "CircuitBreakerSettings p =
     \<lparr>consecutive_slow_requests = p_consecutive_slow_requests p,
      average_response_time_threshold = p_average_response_time p,
      percentage = (case p_error_percent_threshold p of None \<Rightarrow> 0 | Some v \<Rightarrow> v),
      min_request_amount = p_min_request_amount p,
      break_duration = p_break_duration p,
      lookback_duration = (case p_lookback_duration p of None \<Rightarrow> defaultLookbackDuration | Some d \<Rightarrow> d),
      http_status = p_http_status p,
      http_headers = p_headers p,
      http_body =
        (let temp = (if p_inline_bytes p \<noteq> '''' then p_inline_bytes p else p_inline_string p)
         in if length temp \<le> 4096 then temp else ''''),
      wait_body = p_wait_body p\<rparr>"

record cb_route_config =
  cb_uuid :: string
  cb_settings_of :: cb_settings

definition createRouteSpecificFilterConfigTyped :: "string \<Rightarrow> cb_proto \<Rightarrow> cb_route_config throws" where
  "createRouteSpecificFilterConfigTyped uuid p =
     (if p_average_response_time p = None \<and> p_error_percent_threshold p = None
      then Inl ''at least one of average_response_time and error_percent_threshold must be set''
      else if p_error_percent_threshold p \<noteq> None \<and> p_min_request_amount p = 0
      then Inl ''min_request_amount must be greater than 0 when error_percent_threshold is set''
      else if p_average_response_time p \<noteq> None \<and> p_consecutive_slow_requests p = 0
      then Inl ''consecutive_slow_requests must be greater than 0 when consecutive_slow_requests is set''
      else Inr \<lparr>cb_uuid = uuid, cb_settings_of = CircuitBreakerSettings p\<rparr>)"

section \<open>The breaker\<close>

record circuit_breaker =
  settings :: cb_settings
  consecutive_slow_request_count :: u32
  errors :: rolling
  response_times :: rolling
  requests :: rolling
  valid_time :: "time option"

definition CircuitBreakerImpl :: "cb_settings \<Rightarrow> circuit_breaker" where
  "CircuitBreakerImpl st =
     \<lparr>settings = st, consecutive_slow_request_count = 0,
      errors = RollingNumberImpl (lookback_duration st),
      response_times = RollingNumberImpl (lookback_duration st),
      requests = RollingNumberImpl (lookback_duration st),
      valid_time = None\<rparr>"

definition isOpen :: "time \<Rightarrow> circuit_breaker \<Rightarrow> bool \<times> circuit_breaker" where
  "isOpen clock cb =
     (case valid_time cb of
        None \<Rightarrow> (False, cb)
      | Some v \<Rightarrow> if v < clock then (False, cb\<lparr>valid_time := None, consecutive_slow_request_count := 0\<rparr>)
                  else (True, cb))"

text \<open>A duration in milliseconds as a time difference.\<close>

abbreviation ms :: "int \<Rightarrow> time" where
  "ms d \<equiv> d * 1000000"

text \<open>\<^verbatim>\<open>updateMetrics\<close> in its three parts: the rolling numbers, the run of slow requests, the decision.\<close>

definition count_response ::
    "(real \<Rightarrow> real) \<Rightarrow> time \<Rightarrow> bool \<Rightarrow> real \<Rightarrow> circuit_breaker \<Rightarrow> circuit_breaker" where
  "count_response rnd clock err rt cb =
     cb\<lparr>requests := Increment rnd clock 1 (requests cb),
        response_times := Increment rnd clock rt (response_times cb),
        errors := (if err then Increment rnd clock 1 (errors cb) else errors cb)\<rparr>"

definition count_slow :: "(real \<Rightarrow> real) \<Rightarrow> real \<Rightarrow> circuit_breaker \<Rightarrow> circuit_breaker" where
  "count_slow rnd rt cb =
     (case average_response_time_threshold (settings cb) of
        None \<Rightarrow> cb
      | Some thr \<Rightarrow>
          cb\<lparr>consecutive_slow_request_count :=
               (if rnd (of_int thr) < rt then consecutive_slow_request_count cb + 1 else 0)\<rparr>)"

definition updateMetrics ::
    "(real \<Rightarrow> real) \<Rightarrow> time \<Rightarrow> bool \<Rightarrow> int \<Rightarrow> circuit_breaker \<Rightarrow> circuit_breaker" where
  "updateMetrics rnd clock err rt_ms cb0 =
     (let st = settings cb0;
          rt = rnd (of_int rt_ms);
          cb = count_slow rnd rt (count_response rnd clock err rt cb0);
          slow_break = (0 < consecutive_slow_requests st \<and>
                        consecutive_slow_requests st \<le> consecutive_slow_request_count cb);
          rate_checked = (0 < min_request_amount st \<and> 0 < percentage st);
          total = RollingSum rnd clock clock (requests cb);
          errs = RollingSum rnd clock clock (errors cb);
          rate_break = (rate_checked \<and> of_nat (unat (min_request_amount st)) \<le> fst total \<and>
                        percentage st \<le> rnd (rnd (fst errs / fst total) * 100));
          cb' = (if rate_checked then cb\<lparr>requests := snd total, errors := snd errs\<rparr> else cb)
      in if slow_break \<or> rate_break
         then cb'\<lparr>valid_time := Some (clock + ms (break_duration st))\<rparr>
         else cb')"

section \<open>The manager\<close>

type_synonym cb_manager = "(string \<times> circuit_breaker) list"

definition mgr_isOpen :: "time \<Rightarrow> string \<Rightarrow> circuit_breaker \<Rightarrow> cb_manager \<Rightarrow> bool \<times> cb_manager" where
  "mgr_isOpen clock uuid fresh m =
     (let m' = (case map_of m uuid of None \<Rightarrow> AList.update uuid fresh m | Some _ \<Rightarrow> m)
      in case map_of m' uuid of
           None \<Rightarrow> (False, m')
         | Some cb \<Rightarrow> let r = isOpen clock cb in (fst r, AList.update uuid (snd r) m'))"

definition mgr_updateMetrics ::
    "(real \<Rightarrow> real) \<Rightarrow> time \<Rightarrow> string \<Rightarrow> bool \<Rightarrow> int \<Rightarrow> cb_manager \<Rightarrow> cb_manager" where
  "mgr_updateMetrics rnd clock uuid err rt m =
     (case map_of m uuid of
        None \<Rightarrow> m
      | Some cb \<Rightarrow> AList.update uuid (updateMetrics rnd clock err rt cb) m)"

definition getCircuitBreaker :: "string \<Rightarrow> cb_manager \<Rightarrow> circuit_breaker option" where
  "getCircuitBreaker uuid m = map_of m uuid"

section \<open>The filter\<close>

record cb_filter =
  route_uuid :: string
  start_time :: time
  local_replied :: bool
  filter_wait_body :: bool
  route_config :: "cb_route_config option"

definition CircuitBreakerFilter :: cb_filter where
  "CircuitBreakerFilter = \<lparr>route_uuid = '''', start_time = 0, local_replied = False,
     filter_wait_body = False, route_config = None\<rparr>"

definition abortWithHTTPStatus :: "cb_settings \<Rightarrow> callback" where
  "abortWithHTTPStatus st =
     (let body = (if http_body st = '''' then ''circuit breaker filter abort'' else http_body st)
      in SendLocalReply (http_status st) body
           (map (\<lambda>(k, v). AddCopy (lower k) v) (http_headers st)
              @ [SetReference ''x-envoy-circuitbreaking'' ''true'']) '''')"

text \<open>\<open>upgrade\<close> tells whether the request is a WebSocket or H2 upgrade request.\<close>

definition cb_decodeHeaders ::
    "time \<Rightarrow> cb_route_config route \<Rightarrow> bool \<Rightarrow> bool \<Rightarrow> cb_filter \<Rightarrow> cb_manager \<Rightarrow>
     headers_status \<times> callback list \<times> cb_filter \<times> cb_manager" where
  "cb_decodeHeaders clock rt upgrade end_stream f m =
     (case rt of
        RouteEntry (Some cfg) \<Rightarrow>
          (let f1 = f\<lparr>start_time := clock,
                      route_uuid := (if route_uuid f = '''' then cb_uuid cfg else route_uuid f)\<rparr>;
               (is_open, m') = mgr_isOpen clock (route_uuid f1) (CircuitBreakerImpl (cb_settings_of cfg)) m
           in if is_open
              then (let wait = (wait_body (cb_settings_of cfg) \<and> \<not> (end_stream \<or> upgrade));
                        f2 = f1\<lparr>filter_wait_body := wait\<rparr>
                    in if wait then (StopIteration, [], f2\<lparr>route_config := Some cfg\<rparr>, m')
                       else (StopIteration, [abortWithHTTPStatus (cb_settings_of cfg)],
                             f2\<lparr>local_replied := True\<rparr>, m'))
              else (Continue, [], f1, m'))
      | _ \<Rightarrow> (Continue, [], f, m))"

text \<open>The code asserts that \<^verbatim>\<open>route_config_\<close> is set when it waits for the body.\<close>

definition cb_decodeData :: "bool \<Rightarrow> cb_filter \<Rightarrow> data_status \<times> callback list \<times> cb_filter" where
  "cb_decodeData end_stream f =
     (if \<not> filter_wait_body f then (DataContinue, [], f)
      else (case route_config f of
              Some cfg \<Rightarrow>
                if end_stream
                then (StopIterationNoBuffer, [abortWithHTTPStatus (cb_settings_of cfg)], f\<lparr>local_replied := True\<rparr>)
                else (StopIterationNoBuffer, [], f)
            | None \<Rightarrow> (StopIterationNoBuffer, [], f)))"

text \<open>
  The response time that \<^verbatim>\<open>encodeHeaders\<close> reports, in milliseconds. \<open>upstream\<close> holds the monotonic
  times of the first byte received from and sent to the upstream, when there is upstream information.
\<close>

definition response_time ::
    "time \<Rightarrow> (time option \<times> time option) option \<Rightarrow> bool \<Rightarrow> cb_settings \<Rightarrow> cb_filter \<Rightarrow> int" where
  "response_time clock upstream err st f =
     (case (upstream, average_response_time_threshold st) of
        (Some (rx, tx), Some thr) \<Rightarrow>
          (case (rx, tx) of
             (Some r, Some t) \<Rightarrow> cpp_div (r - t) 1000000
           | _ \<Rightarrow> if err then thr + 1 else cpp_div (clock - start_time f) 1000000)
      | _ \<Rightarrow> 0)"

definition cb_encodeHeaders ::
    "(real \<Rightarrow> real) \<Rightarrow> time \<Rightarrow> cb_route_config route \<Rightarrow> bool \<Rightarrow> (time option \<times> time option) option \<Rightarrow>
     cb_filter \<Rightarrow> cb_manager \<Rightarrow> headers_status \<times> cb_manager" where
  "cb_encodeHeaders rnd clock rt is5xx upstream f m =
     (if local_replied f then (Continue, m)
      else (case rt of
              RouteEntry (Some cfg) \<Rightarrow>
                (Continue, mgr_updateMetrics rnd clock (route_uuid f) is5xx
                   (response_time clock upstream is5xx (cb_settings_of cfg) f) m)
            | _ \<Rightarrow> (Continue, m)))"

section \<open>Specification: the history of responses\<close>

text \<open>A response: the time of the report, whether it is an error, the response time in milliseconds.\<close>

type_synonym report = "time \<times> bool \<times> int"

definition cb_run :: "(real \<Rightarrow> real) \<Rightarrow> report list \<Rightarrow> circuit_breaker \<Rightarrow> circuit_breaker" where
  "cb_run rnd reps cb = fold (\<lambda>(t, err, rt) cb. updateMetrics rnd t err rt cb) reps cb"

text \<open>How many of the last responses in a row took longer than the threshold.\<close>

definition slow_run :: "int \<Rightarrow> report list \<Rightarrow> nat" where
  "slow_run thr reps = length (takeWhile (\<lambda>(t, err, rt). thr < rt) (rev reps))"

definition reqs :: "report list \<Rightarrow> (time \<times> real) list" where
  "reqs reps = map (\<lambda>(t, err, rt). (t, 1)) reps"

definition errs :: "report list \<Rightarrow> (time \<times> real) list" where
  "errs reps = map (\<lambda>(t, err, rt). (t, 1)) (filter (\<lambda>(t, err, rt). err) reps)"

definition trips :: "(real \<Rightarrow> real) \<Rightarrow> cb_settings \<Rightarrow> report list \<Rightarrow> time \<Rightarrow> bool" where
  "trips rnd st reps now \<longleftrightarrow>
     (let after = unixTimeNowSeconds now - cpp_div (lookback_duration st) 1000;
          total = window_sum after (reqs reps); bad = window_sum after (errs reps)
      in (0 < consecutive_slow_requests st \<and>
          (\<exists>thr. average_response_time_threshold st = Some thr \<and>
             unat (consecutive_slow_requests st) \<le> slow_run thr reps)) \<or>
         (0 < min_request_amount st \<and> 0 < percentage st \<and>
          of_nat (unat (min_request_amount st)) \<le> total \<and>
          percentage st \<le> rnd (rnd (bad / total) * 100)))"

section \<open>The state of a breaker follows the history\<close>

lemma slow_run_snoc: "slow_run thr (reps @ [(t, err, rt)]) = (if thr < rt then Suc (slow_run thr reps) else 0)"
  by (simp add: slow_run_def)

lemma slow_run_le: "slow_run thr reps \<le> length reps"
  unfolding slow_run_def using length_takeWhile_le [of _ "rev reps"] by simp

definition slow_count :: "cb_settings \<Rightarrow> report list \<Rightarrow> u32" where
  "slow_count st reps =
     (case average_response_time_threshold st of None \<Rightarrow> 0 | Some thr \<Rightarrow> of_nat (slow_run thr reps))"

text \<open>The rolling numbers of a breaker hold the reports of its history that lie after \<open>c\<close>.\<close>

definition cb_counts :: "int \<Rightarrow> cb_settings \<Rightarrow> report list \<Rightarrow> circuit_breaker \<Rightarrow> bool" where
  "cb_counts c st reps cb \<longleftrightarrow> settings cb = st \<and>
     tracks (of_nat (length reps)) c (cpp_div (lookback_duration st) 1000) (reqs reps) (requests cb) \<and>
     tracks (of_nat (length (errs reps))) c (cpp_div (lookback_duration st) 1000) (errs reps) (errors cb)"

definition cb_tracks :: "int \<Rightarrow> cb_settings \<Rightarrow> report list \<Rightarrow> circuit_breaker \<Rightarrow> bool" where
  "cb_tracks c st reps cb \<longleftrightarrow> cb_counts c st reps cb \<and> consecutive_slow_request_count cb = slow_count st reps"

text \<open>The milliseconds of the configuration and of the reports are exact as \<^verbatim>\<open>double\<close>s.\<close>

definition exact_ms :: "int \<Rightarrow> bool" where
  "exact_ms d \<longleftrightarrow> \<bar>d\<bar> \<le> 2 ^ 53"

lemma rnd_ms: "ieee_rounding rnd \<Longrightarrow> exact_ms d \<Longrightarrow> rnd (of_int d) = of_int d"
proof -
  assume "ieee_rounding rnd" "exact_ms d"
  moreover from this have "\<bar>real_of_int d\<bar> \<le> 2 ^ 53"
    unfolding exact_ms_def by (metis of_int_abs of_int_le_iff of_int_numeral of_int_power)
  ultimately show ?thesis by (intro ieee_exact) auto
qed

lemma length_errs: "length (errs reps) \<le> length reps"
  by (simp add: errs_def)

lemma slow_count_snoc:
  assumes "ieee_rounding rnd" and "exact_ms rt" and "\<And>thr. average_response_time_threshold st = Some thr \<Longrightarrow> exact_ms thr"
  shows "slow_count st (reps @ [(t, err, rt)]) =
    (case average_response_time_threshold st of
       None \<Rightarrow> 0
     | Some thr \<Rightarrow> if rnd (of_int thr) < rnd (of_int rt) then slow_count st reps + 1 else 0)"
  using assms by (auto simp: slow_count_def slow_run_snoc rnd_ms split: option.splits)

lemma count_fields [simp]:
  "settings (count_slow rnd rt cb) = settings cb" "requests (count_slow rnd rt cb) = requests cb"
  "errors (count_slow rnd rt cb) = errors cb" "valid_time (count_slow rnd rt cb) = valid_time cb"
  "settings (count_response rnd t err x cb) = settings cb"
  "valid_time (count_response rnd t err x cb) = valid_time cb"
  "requests (count_response rnd t err x cb) = Increment rnd t 1 (requests cb)"
  "errors (count_response rnd t err x cb) = (if err then Increment rnd t 1 (errors cb) else errors cb)"
  "consecutive_slow_request_count (count_response rnd t err x cb) = consecutive_slow_request_count cb"
  by (simp_all add: count_slow_def count_response_def split: option.split)

lemma updateMetrics_settings [simp]: "settings (updateMetrics rnd t err rt cb) = settings cb"
  by (simp add: updateMetrics_def Let_def)

lemma updateMetrics_count:
  "consecutive_slow_request_count (updateMetrics rnd t err rt cb) =
     consecutive_slow_request_count (count_slow rnd (rnd (of_int rt)) cb)"
  by (simp add: updateMetrics_def Let_def) (simp add: count_slow_def split: option.split)

lemma updateMetrics_requests:
  "requests (updateMetrics rnd t err rt cb) = Increment rnd t 1 (requests cb) \<or>
   requests (updateMetrics rnd t err rt cb) = removeOldBuckets t (Increment rnd t 1 (requests cb))"
  by (simp add: updateMetrics_def Let_def)

lemma updateMetrics_errors:
  "errors (updateMetrics rnd t err rt cb) = (if err then Increment rnd t 1 (errors cb) else errors cb) \<or>
   errors (updateMetrics rnd t err rt cb) = removeOldBuckets t (if err then Increment rnd t 1 (errors cb) else errors cb)"
  by (simp add: updateMetrics_def Let_def)

lemma cb_counts_init: "cb_counts c st [] (CircuitBreakerImpl st)"
  using tracks_init [of c "lookback_duration st"] by (simp add: cb_counts_def CircuitBreakerImpl_def reqs_def errs_def)

lemma cb_counts_step:
  assumes rnd: "ieee_rounding rnd" and tr: "cb_counts c st reps cb"
    and t: "unixTimeNowSeconds t - cpp_div (lookback_duration st) 1000 \<le> c"
    and len: "length reps < 2 ^ 32"
  shows "cb_counts c st (reps @ [(t, err, rt)]) (updateMetrics rnd t err rt cb)"
    and "tracks (of_nat (Suc (length reps))) c (cpp_div (lookback_duration st) 1000)
      (reqs (reps @ [(t, err, rt)])) (Increment rnd t 1 (requests cb))"
    and "tracks (of_nat (length (errs (reps @ [(t, err, rt)])))) c (cpp_div (lookback_duration st) 1000)
      (errs (reps @ [(t, err, rt)])) (if err then Increment rnd t 1 (errors cb) else errors cb)"
proof -
  let ?w = "cpp_div (lookback_duration st) 1000" and ?cb = "updateMetrics rnd t err rt cb"
  have small: "real (length reps) + 1 \<le> 2 ^ 53" using len by simp
  show r: "tracks (of_nat (Suc (length reps))) c ?w (reqs (reps @ [(t, err, rt)])) (Increment rnd t 1 (requests cb))"
    using tracks_Increment [OF rnd, of "of_nat (length reps)" c ?w "reqs reps" "requests cb" 1 t] tr t small
    by (simp add: cb_counts_def reqs_def add.commute)
  have "real (length (errs reps)) + 1 \<le> 2 ^ 53" using length_errs [of reps] small by linarith
  then show e: "tracks (of_nat (length (errs (reps @ [(t, err, rt)])))) c ?w (errs (reps @ [(t, err, rt)]))
      (if err then Increment rnd t 1 (errors cb) else errors cb)"
    using tracks_Increment [OF rnd, of "of_nat (length (errs reps))" c ?w "errs reps" "errors cb" 1 t] tr t
    by (auto simp: cb_counts_def errs_def add.commute)
  have "tracks (of_nat (Suc (length reps))) c ?w (reqs (reps @ [(t, err, rt)])) (requests ?cb)"
    using updateMetrics_requests [of rnd t err rt cb] r tracks_remove [OF r t] by metis
  moreover have "tracks (of_nat (length (errs (reps @ [(t, err, rt)])))) c ?w (errs (reps @ [(t, err, rt)])) (errors ?cb)"
    using updateMetrics_errors [of rnd t err rt cb]
    by (elim disjE) (use e tracks_remove [OF e t] in \<open>simp_all only:\<close>)
  ultimately show "cb_counts c st (reps @ [(t, err, rt)]) ?cb" using tr by (simp add: cb_counts_def)
qed

lemma cb_tracks_step:
  assumes rnd: "ieee_rounding rnd" and tr: "cb_tracks c st reps cb"
    and t: "unixTimeNowSeconds t - cpp_div (lookback_duration st) 1000 \<le> c"
    and ms: "exact_ms rt" "\<And>thr. average_response_time_threshold st = Some thr \<Longrightarrow> exact_ms thr"
    and len: "length reps < 2 ^ 32"
  shows "cb_tracks c st (reps @ [(t, err, rt)]) (updateMetrics rnd t err rt cb)"
proof -
  have counts: "cb_counts c st reps cb" using tr by (simp add: cb_tracks_def)
  have "consecutive_slow_request_count (updateMetrics rnd t err rt cb) = slow_count st (reps @ [(t, err, rt)])"
    using tr slow_count_snoc [OF rnd ms(1), of st reps t err] ms(2) unfolding updateMetrics_count
    by (cases "average_response_time_threshold st")
       (auto simp: cb_tracks_def cb_counts_def slow_count_def count_slow_def split: if_splits)
  then show ?thesis using cb_counts_step(1) [OF rnd counts t len] by (simp add: cb_tracks_def)
qed

lemma cb_tracks_run:
  assumes rnd: "ieee_rounding rnd"
    and past: "\<And>r. r \<in> set reps \<Longrightarrow> unixTimeNowSeconds (fst r) - cpp_div (lookback_duration st) 1000 \<le> c"
    and ms: "\<And>r. r \<in> set reps \<Longrightarrow> exact_ms (snd (snd r))"
      "\<And>thr. average_response_time_threshold st = Some thr \<Longrightarrow> exact_ms thr"
    and len: "length reps < 2 ^ 32"
  shows "cb_tracks c st reps (cb_run rnd reps (CircuitBreakerImpl st))"
  using past ms(1) len
proof (induction reps rule: rev_induct)
  case Nil
  show ?case
    using cb_counts_init [of c st]
    by (simp add: cb_tracks_def cb_run_def CircuitBreakerImpl_def slow_count_def slow_run_def split: option.splits)
next
  case (snoc r reps)
  obtain t err rt where r: "r = (t, err, rt)" by (cases r)
  have "cb_tracks c st reps (cb_run rnd reps (CircuitBreakerImpl st))"
    by (rule snoc.IH) (use snoc.prems in auto)
  from cb_tracks_step [OF rnd this, of t rt err] show ?case
    using snoc.prems(1,2) [of r] snoc.prems(3) ms(2) r by (simp add: cb_run_def)
qed

lemma slow_count_reached:
  assumes len: "Suc (length reps) < 2 ^ 32"
  shows "(0 < consecutive_slow_requests st \<and> consecutive_slow_requests st \<le> slow_count st (reps @ [r])) \<longleftrightarrow>
    (0 < consecutive_slow_requests st \<and> (\<exists>thr. average_response_time_threshold st = Some thr \<and>
       unat (consecutive_slow_requests st) \<le> slow_run thr (reps @ [r])))"
proof (cases "average_response_time_threshold st")
  case None
  then show ?thesis by (auto simp: slow_count_def word_le_nat_alt word_less_nat_alt)
next
  case (Some thr)
  have "slow_run thr (reps @ [r]) < 2 ^ 32" using slow_run_le [of thr "reps @ [r]"] len by simp
  then have "unat (of_nat (slow_run thr (reps @ [r])) :: u32) = slow_run thr (reps @ [r])"
    by (simp add: unat_of_nat)
  with Some show ?thesis by (simp add: slow_count_def word_le_nat_alt)
qed

text \<open>The decision of a report, in terms of the history and the count of slow responses in a row.\<close>

definition rate_reached :: "(real \<Rightarrow> real) \<Rightarrow> cb_settings \<Rightarrow> report list \<Rightarrow> time \<Rightarrow> bool" where
  "rate_reached rnd st reps now \<longleftrightarrow>
     (let after = unixTimeNowSeconds now - cpp_div (lookback_duration st) 1000;
          total = window_sum after (reqs reps); bad = window_sum after (errs reps)
      in 0 < min_request_amount st \<and> 0 < percentage st \<and>
         of_nat (unat (min_request_amount st)) \<le> total \<and>
         percentage st \<le> rnd (rnd (bad / total) * 100))"

lemma updateMetrics_decides:
  assumes rnd: "ieee_rounding rnd"
    and tr: "cb_counts (unixTimeNowSeconds t - cpp_div (lookback_duration st) 1000) st reps cb"
    and len: "Suc (length reps) < 2 ^ 32"
  shows "valid_time (updateMetrics rnd t err rt cb) =
    (if 0 < consecutive_slow_requests st \<and>
        consecutive_slow_requests st \<le> consecutive_slow_request_count (updateMetrics rnd t err rt cb) \<or>
        rate_reached rnd st (reps @ [(t, err, rt)]) t
     then Some (t + ms (break_duration st)) else valid_time cb)"
proof -
  let ?w = "cpp_div (lookback_duration st) 1000" and ?reps = "reps @ [(t, err, rt)]"
  let ?c = "unixTimeNowSeconds t - ?w"
  have st: "settings cb = st" using tr by (simp add: cb_counts_def)
  have len32: "length reps < 2 ^ 32" using len by simp
  note step = cb_counts_step [OF rnd tr order_refl len32, of err]
  have total: "fst (RollingSum rnd t t (Increment rnd t 1 (requests cb))) = window_sum ?c (reqs ?reps)"
    by (rule tracks_Sum [OF rnd step(2)]) (use len in simp_all)
  have "real (length (errs ?reps)) \<le> real (length ?reps)"
    using length_errs [of ?reps] by (simp only: of_nat_le_iff)
  also have "\<dots> \<le> 2 ^ 53" using len by simp
  finally have bad: "fst (RollingSum rnd t t (if err then Increment rnd t 1 (errors cb) else errors cb)) =
      window_sum ?c (errs ?reps)"
    by (intro tracks_Sum [OF rnd step(3)]) simp_all
  have count: "consecutive_slow_request_count (count_slow rnd (rnd (of_int rt))
      (count_response rnd t err (rnd (of_int rt)) cb)) = consecutive_slow_request_count (count_slow rnd (rnd (of_int rt)) cb)"
    by (cases "average_response_time_threshold st") (auto simp: count_slow_def st)
  show ?thesis unfolding updateMetrics_count
    unfolding updateMetrics_def Let_def rate_reached_def
    by (simp add: st total bad count)
qed

lemma trips_eq:
  assumes len: "Suc (length reps) < 2 ^ 32"
  shows "trips rnd st (reps @ [r]) t \<longleftrightarrow>
    0 < consecutive_slow_requests st \<and> consecutive_slow_requests st \<le> slow_count st (reps @ [r]) \<or>
    rate_reached rnd st (reps @ [r]) t"
  unfolding slow_count_reached [OF len] trips_def rate_reached_def by (simp add: Let_def)

lemma updateMetrics_valid_time:
  assumes rnd: "ieee_rounding rnd"
    and tr: "cb_tracks (unixTimeNowSeconds t - cpp_div (lookback_duration st) 1000) st reps cb"
    and ms: "exact_ms rt" "\<And>thr. average_response_time_threshold st = Some thr \<Longrightarrow> exact_ms thr"
    and len: "Suc (length reps) < 2 ^ 32"
  shows "valid_time (updateMetrics rnd t err rt cb) =
    (if trips rnd st (reps @ [(t, err, rt)]) t then Some (t + ms (break_duration st)) else valid_time cb)"
proof -
  have len32: "length reps < 2 ^ 32" using len by simp
  have "consecutive_slow_request_count (updateMetrics rnd t err rt cb) = slow_count st (reps @ [(t, err, rt)])"
    using cb_tracks_step [OF rnd tr order_refl ms len32, of err] by (simp add: cb_tracks_def)
  then show ?thesis
    using updateMetrics_decides [OF rnd, of t st reps cb err rt] tr len trips_eq [OF len, of rnd st "(t, err, rt)" t]
    by (simp add: cb_tracks_def)
qed

section \<open>Properties\<close>

text \<open>
  When the breaker trips. After a history of reports, each made no later than the last one, the
  last report opens the breaker for the break duration exactly if the run of slow responses has reached
  the configured length, or the window holds at least the configured number of requests and the
  percentage of errors among them (as computed in \<^verbatim>\<open>double\<close>) reaches the threshold; otherwise it
  leaves the state as it was. Histories of fewer than \<open>2 ^ 32\<close> reports keep the 32 bit counter from
  wrapping.
\<close>

theorem breaker_trips_iff:
  assumes rnd: "ieee_rounding rnd"
    and past: "\<And>r. r \<in> set reps \<Longrightarrow> fst r \<le> t"
    and ms: "\<And>r. r \<in> set reps \<Longrightarrow> exact_ms (snd (snd r))" "exact_ms rt"
      "\<And>thr. average_response_time_threshold st = Some thr \<Longrightarrow> exact_ms thr"
    and len: "Suc (length reps) < 2 ^ 32"
  shows "valid_time (cb_run rnd (reps @ [(t, err, rt)]) (CircuitBreakerImpl st)) =
    (if trips rnd st (reps @ [(t, err, rt)]) t then Some (t + ms (break_duration st))
     else valid_time (cb_run rnd reps (CircuitBreakerImpl st)))"
proof -
  let ?c = "unixTimeNowSeconds t - cpp_div (lookback_duration st) 1000"
  have "cb_tracks ?c st reps (cb_run rnd reps (CircuitBreakerImpl st))"
    by (rule cb_tracks_run [OF rnd])
       (use past ms len in \<open>auto simp: unixTimeNowSeconds_def intro: cpp_div_mono\<close>)
  from updateMetrics_valid_time [OF rnd this ms(2,3) len] show ?thesis
    by (simp add: cb_run_def)
qed

definition example_settings :: cb_settings where
  "example_settings = \<lparr>consecutive_slow_requests = 2, average_response_time_threshold = Some 100, percentage = 50,
     min_request_amount = 3, break_duration = 1000, lookback_duration = 10000, http_status = 503,
     http_headers = [(''X-Why'', ''broken'')], http_body = '''', wait_body = False\<rparr>"

theorem breaker_trips_iff_witness:
  "valid_time (cb_run (\<lambda>x. x) ([(5000000000, True, 10), (6000000000, False, 20)] @ [(7000000000, True, 30)])
     (CircuitBreakerImpl example_settings)) = Some 8000000000"
  by (subst breaker_trips_iff [OF ieee_rounding_id])
     (auto simp: exact_ms_def example_settings_def trips_def window_sum_def reqs_def errs_def
        unixTimeNowSeconds_def cpp_div_def slow_run_def)

text \<open>
  The open window. A breaker whose last trip was at time \<open>t\<close> answers open exactly for queries up to
  \<open>t\<close> plus the break duration; the first query after it closes the breaker, forgets the run of slow
  requests and from then on the breaker stays closed until it trips again, while a query of an open
  breaker changes nothing.
\<close>

theorem breaker_open_window:
  "valid_time cb = Some (t + ms d) \<Longrightarrow>
     fst (isOpen now cb) = (now \<le> t + ms d) \<and>
     (now \<le> t + ms d \<longrightarrow> snd (isOpen now cb) = cb) \<and>
     (t + ms d < now \<longrightarrow>
        consecutive_slow_request_count (snd (isOpen now cb)) = 0 \<and>
        (\<forall>later. isOpen later (snd (isOpen now cb)) = (False, snd (isOpen now cb))))"
  by (auto simp: isOpen_def)

theorem breaker_open_window_witness:
  "fst (isOpen 7000000 ((CircuitBreakerImpl example_settings)\<lparr>valid_time := Some (5000000 + ms 3)\<rparr>)) \<and>
   \<not> fst (isOpen 8000001 ((CircuitBreakerImpl example_settings)\<lparr>valid_time := Some (5000000 + ms 3)\<rparr>))"
  using breaker_open_window [of "(CircuitBreakerImpl example_settings)\<lparr>valid_time := Some (5000000 + ms 3)\<rparr>"
      5000000 3 7000000]
    breaker_open_window [of "(CircuitBreakerImpl example_settings)\<lparr>valid_time := Some (5000000 + ms 3)\<rparr>"
      5000000 3 8000001]
  by simp

text \<open>
  A whole request: its headers, \<open>n\<close> pieces of data that are not the last, and the way it ends. A request that ends with
  trailers has no data with \<^verbatim>\<open>end_stream\<close>, and the filter leaves the trailers to \<^verbatim>\<open>PassThroughFilter\<close>. The result has the
  status and the replies of the headers' callback and of every data callback.
\<close>

datatype request_end = EndsWithHeaders | EndsWithData | EndsWithTrailers

fun cb_pieces :: "bool list \<Rightarrow> cb_filter \<Rightarrow> (data_status \<times> callback list) list \<times> cb_filter" where
  "cb_pieces [] f = ([], f)"
| "cb_pieces (e # es) f =
     (let (status, cbs, f1) = cb_decodeData e f; (outs, f2) = cb_pieces es f1 in ((status, cbs) # outs, f2))"

definition data_flags :: "nat \<Rightarrow> request_end \<Rightarrow> bool list" where
  "data_flags n fin =
     (case fin of EndsWithHeaders \<Rightarrow> [] | EndsWithData \<Rightarrow> replicate n False @ [True] | EndsWithTrailers \<Rightarrow> replicate n False)"

definition cb_request ::
    "time \<Rightarrow> cb_route_config route \<Rightarrow> bool \<Rightarrow> nat \<Rightarrow> request_end \<Rightarrow> cb_filter \<Rightarrow> cb_manager \<Rightarrow>
     (headers_status \<times> callback list) \<times> (data_status \<times> callback list) list \<times> cb_filter \<times> cb_manager" where
  "cb_request clock rt upgrade n fin f m =
     (let (status, cbs, f1, m1) = cb_decodeHeaders clock rt upgrade (fin = EndsWithHeaders) f m;
          (outs, f2) = cb_pieces (data_flags n fin) f1
      in ((status, cbs), outs, f2, m1))"

lemma cb_pieces_passing:
  "\<not> filter_wait_body f \<Longrightarrow> cb_pieces es f = (map (\<lambda>_. (DataContinue, [])) es, f)"
  by (induction es) (simp_all add: cb_decodeData_def)

lemma cb_pieces_waiting:
  assumes "filter_wait_body f" and "route_config f = Some cfg"
  shows "cb_pieces (replicate n False @ es) f =
    (replicate n (StopIterationNoBuffer, []) @ fst (cb_pieces es f), snd (cb_pieces es f))"
  using assms by (induction n) (simp_all add: cb_decodeData_def split_beta)

text \<open>
  C16: A request that meets an open breaker, from its headers to its end. The filter chain is stopped and no breaker
  changes. Unless the filter must wait for the body, the one local reply with the configured status goes out with the
  headers, and the data callbacks send nothing. If it waits, all data is dropped and the one reply goes out with the last
  piece of the body, not before; but a request that ends with trailers has no such piece and gets no reply at all. The
  response to a request that got the reply is not reported to the breaker; the response to the request with trailers is.
\<close>

theorem open_breaker_replies_once:
  assumes cb: "map_of m (cb_uuid cfg) = Some cb" and op: "fst (isOpen clock cb)"
    and waits: "waits \<longleftrightarrow> wait_body (cb_settings_of cfg) \<and> fin \<noteq> EndsWithHeaders \<and> \<not> upgrade"
    and run: "cb_request clock (RouteEntry (Some cfg)) upgrade n fin CircuitBreakerFilter m = ((status, cbs), outs, f, m')"
  shows "status = StopIteration \<and> map_of m' = map_of m \<and>
    (if \<not> waits
     then cbs = [abortWithHTTPStatus (cb_settings_of cfg)] \<and> outs = map (\<lambda>_. (DataContinue, [])) (data_flags n fin)
     else cbs = [] \<and>
       outs = replicate n (StopIterationNoBuffer, []) @
         (if fin = EndsWithData then [(StopIterationNoBuffer, [abortWithHTTPStatus (cb_settings_of cfg)])] else [])) \<and>
    cb_encodeHeaders rnd clock' (RouteEntry (Some cfg)) is5xx upstream f m' =
      (Continue,
       if waits \<and> fin = EndsWithTrailers
       then mgr_updateMetrics rnd clock' (cb_uuid cfg) is5xx (response_time clock' upstream is5xx (cb_settings_of cfg) f) m'
       else m')"
proof -
  let ?st = "cb_settings_of cfg"
  have same: "snd (isOpen clock cb) = cb" using op by (auto simp: isOpen_def split: option.splits if_splits)
  have open_m: "mgr_isOpen clock (cb_uuid cfg) fresh m = (True, AList.update (cb_uuid cfg) cb m)" for fresh
    using cb op same by (simp add: mgr_isOpen_def Let_def)
  have upd: "(map_of m)(cb_uuid cfg \<mapsto> cb) = map_of m" using cb by (simp add: fun_upd_idem)
  let ?f = "CircuitBreakerFilter\<lparr>start_time := clock, route_uuid := cb_uuid cfg\<rparr>"
  have dec: "cb_decodeHeaders clock (RouteEntry (Some cfg)) upgrade (fin = EndsWithHeaders) CircuitBreakerFilter m =
      (StopIteration, if waits then [] else [abortWithHTTPStatus ?st],
       if waits then ?f\<lparr>filter_wait_body := True, route_config := Some cfg\<rparr>
       else ?f\<lparr>filter_wait_body := False, local_replied := True\<rparr>, AList.update (cb_uuid cfg) cb m)"
    using waits by (auto simp: cb_decodeHeaders_def CircuitBreakerFilter_def open_m Let_def)
  show ?thesis
  proof (cases waits)
    case False
    with run dec upd show ?thesis
      by (auto simp: cb_request_def cb_pieces_passing cb_encodeHeaders_def update_conv')
  next
    case True
    let ?g = "?f\<lparr>filter_wait_body := True, route_config := Some cfg\<rparr>"
    have flags: "data_flags n fin = replicate n False @ (if fin = EndsWithData then [True] else [])"
      using True waits by (cases fin) (auto simp: data_flags_def)
    from True waits have fin: "fin = EndsWithData \<or> fin = EndsWithTrailers" by (cases fin) auto
    have "cb_pieces (data_flags n fin) ?g =
        (replicate n (StopIterationNoBuffer, []) @
           (if fin = EndsWithData then [(StopIterationNoBuffer, [abortWithHTTPStatus ?st])] else []),
         if fin = EndsWithData then ?g\<lparr>local_replied := True\<rparr> else ?g)"
      unfolding flags by (simp add: cb_pieces_waiting [of ?g cfg] cb_decodeData_def)
    with run dec True have "((status, cbs), outs, f, m') = ((StopIteration, []), replicate n (StopIterationNoBuffer, []) @
        (if fin = EndsWithData then [(StopIterationNoBuffer, [abortWithHTTPStatus ?st])] else []),
        if fin = EndsWithData then ?g\<lparr>local_replied := True\<rparr> else ?g, AList.update (cb_uuid cfg) cb m)"
      by (simp add: cb_request_def)
    with upd True fin show ?thesis
      by (auto simp: cb_encodeHeaders_def CircuitBreakerFilter_def update_conv')
  qed
qed

theorem open_breaker_replies_once_witness:
  "let st = example_settings\<lparr>wait_body := True\<rparr>; cfg = \<lparr>cb_uuid = ''id'', cb_settings_of = st\<rparr>;
       m = [(''id'', (CircuitBreakerImpl st)\<lparr>valid_time := Some 100\<rparr>)];
       ((status, cbs), outs, f, m') = cb_request 50 (RouteEntry (Some cfg)) False 2 EndsWithData CircuitBreakerFilter m
   in status = StopIteration \<and> cbs = [] \<and>
      outs = [(StopIterationNoBuffer, []), (StopIterationNoBuffer, []), (StopIterationNoBuffer, [abortWithHTTPStatus st])] \<and>
      cb_encodeHeaders (\<lambda>x. x) 60 (RouteEntry (Some cfg)) False None f m' = (Continue, m')"
proof -
  let ?st = "example_settings\<lparr>wait_body := True\<rparr>"
  let ?cb = "(CircuitBreakerImpl ?st)\<lparr>valid_time := Some 100\<rparr>" and ?cfg = "\<lparr>cb_uuid = ''id'', cb_settings_of = ?st\<rparr>"
  obtain status cbs outs f m' where run: "cb_request 50 (RouteEntry (Some ?cfg)) False 2 EndsWithData CircuitBreakerFilter
      [(''id'', ?cb)] = ((status, cbs), outs, f, m')" by (metis prod.collapse)
  have "map_of [(''id'', ?cb)] (cb_uuid ?cfg) = Some ?cb" "fst (isOpen 50 ?cb)" by (simp_all add: isOpen_def)
  from open_breaker_replies_once [OF this _ run, of True "\<lambda>x. x" 60 False None] run show ?thesis
    by (simp add: numeral_2_eq_2 Let_def example_settings_def)
qed

end
