(* ===== verification/Circuit_Breaker_Traffic.thy ===== *)
theory Circuit_Breaker_Traffic
  imports Circuit_Breaker
begin

text \<open>
  The circuit breaker filters of one filter chain at work: \<^verbatim>\<open>source/filters/http/circuit_breaker/config.cc\<close>
  makes one manager for the chain, which all filters of its streams share, and a filter for every stream.

  \<^item> The streams are served in any order; an event is one callback of the filter of one stream.
  \<^item> The specification of a breaker is \<open>breaker_spec\<close>: the list of all responses that were reported, the number of slow
    responses in a row since the breaker last closed, and the time until which it is open. It has no buckets, no
    32 bit counter and no shared table.
  \<^item> The refinement is stated on what can be seen from outside: which requests are stopped.
\<close>

section \<open>Specification of one breaker\<close>

record breaker_spec =
  sp_reports :: "report list"
  sp_slow :: nat
  sp_until :: "time option"

definition spec_init :: breaker_spec where
  "spec_init = \<lparr>sp_reports = [], sp_slow = 0, sp_until = None\<rparr>"

definition spec_query :: "time \<Rightarrow> breaker_spec \<Rightarrow> bool \<times> breaker_spec" where
  "spec_query now s =
     (case sp_until s of
        None \<Rightarrow> (False, s)
      | Some v \<Rightarrow> if v < now then (False, s\<lparr>sp_until := None, sp_slow := 0\<rparr>) else (True, s))"

definition spec_report :: "(real \<Rightarrow> real) \<Rightarrow> cb_settings \<Rightarrow> report \<Rightarrow> breaker_spec \<Rightarrow> breaker_spec" where
  "spec_report rnd st r s =
     (let reps = sp_reports s @ [r];
          slow = (case average_response_time_threshold st of
                    None \<Rightarrow> 0 | Some thr \<Rightarrow> if thr < snd (snd r) then Suc (sp_slow s) else 0);
          trip = (0 < consecutive_slow_requests st \<and> unat (consecutive_slow_requests st) \<le> slow \<or>
                  rate_reached rnd st reps (fst r))
      in \<lparr>sp_reports = reps, sp_slow = slow,
          sp_until = (if trip then Some (fst r + ms (break_duration st)) else sp_until s)\<rparr>)"

text \<open>What happens to one breaker: requests that ask whether it is open, with the answer, and reports of responses.\<close>

datatype breaker_entry = Asked time bool | Reported report

fun spec_step :: "(real \<Rightarrow> real) \<Rightarrow> cb_settings \<Rightarrow> breaker_entry \<Rightarrow> breaker_spec \<Rightarrow> breaker_spec" where
  "spec_step rnd st (Asked now b) s = snd (spec_query now s)"
| "spec_step rnd st (Reported r) s = spec_report rnd st r s"

definition answer_ok :: "breaker_entry \<Rightarrow> breaker_spec \<Rightarrow> bool" where
  "answer_ok e s = (case e of Asked now b \<Rightarrow> b = fst (spec_query now s) | Reported r \<Rightarrow> True)"

fun spec_accepts :: "(real \<Rightarrow> real) \<Rightarrow> cb_settings \<Rightarrow> breaker_entry list \<Rightarrow> breaker_spec \<Rightarrow> bool" where
  "spec_accepts rnd st [] s = True"
| "spec_accepts rnd st (e # es) s =
     (answer_ok e s \<and> spec_accepts rnd st es (spec_step rnd st e s))"

definition spec_run :: "(real \<Rightarrow> real) \<Rightarrow> cb_settings \<Rightarrow> breaker_entry list \<Rightarrow> breaker_spec" where
  "spec_run rnd st es = fold (spec_step rnd st) es spec_init"

lemma spec_accepts_snoc:
  "spec_accepts rnd st (es @ [e]) s \<longleftrightarrow> spec_accepts rnd st es s \<and> answer_ok e (fold (spec_step rnd st) es s)"
  by (induction es arbitrary: s) simp_all

section \<open>A breaker implements its specification\<close>

definition cb_sim :: "cb_settings \<Rightarrow> breaker_spec \<Rightarrow> circuit_breaker \<Rightarrow> bool" where
  "cb_sim st s cb \<longleftrightarrow>
     settings cb = st \<and> valid_time cb = sp_until s \<and> sp_slow s \<le> length (sp_reports s) \<and>
     consecutive_slow_request_count cb = of_nat (sp_slow s) \<and>
     (average_response_time_threshold st = None \<longrightarrow> sp_slow s = 0) \<and>
     (\<forall>c. (\<forall>r \<in> set (sp_reports s). unixTimeNowSeconds (fst r) - cpp_div (lookback_duration st) 1000 \<le> c) \<longrightarrow>
          cb_counts c st (sp_reports s) cb)"

lemma cb_sim_init: "cb_sim st spec_init (CircuitBreakerImpl st)"
  using cb_counts_init [of _ st] by (simp add: cb_sim_def spec_init_def CircuitBreakerImpl_def)

lemma cb_sim_query:
  assumes "cb_sim st s cb"
  shows "fst (isOpen now cb) = fst (spec_query now s)" and "cb_sim st (snd (spec_query now s)) (snd (isOpen now cb))"
  using assms by (auto simp: cb_sim_def isOpen_def spec_query_def cb_counts_def split: option.splits)

lemma cb_sim_report:
  assumes rnd: "ieee_rounding rnd" and sim: "cb_sim st s cb"
    and past: "\<And>r. r \<in> set (sp_reports s) \<Longrightarrow> fst r \<le> t"
    and ms: "exact_ms rt" "\<And>thr. average_response_time_threshold st = Some thr \<Longrightarrow> exact_ms thr"
    and len: "Suc (length (sp_reports s)) < 2 ^ 32"
  shows "cb_sim st (spec_report rnd st (t, err, rt) s) (updateMetrics rnd t err rt cb)"
proof -
  let ?reps = "sp_reports s" and ?cb = "updateMetrics rnd t err rt cb" and ?s = "spec_report rnd st (t, err, rt) s"
  have st: "settings cb = st" and cnt: "consecutive_slow_request_count cb = of_nat (sp_slow s)"
    and small: "sp_slow s \<le> length ?reps" using sim by (auto simp: cb_sim_def)
  have cut: "unixTimeNowSeconds (fst r) - cpp_div (lookback_duration st) 1000 \<le>
      unixTimeNowSeconds t - cpp_div (lookback_duration st) 1000" if "r \<in> set ?reps" for r
    using past [OF that] by (simp add: unixTimeNowSeconds_def cpp_div_mono)
  then have now: "cb_counts (unixTimeNowSeconds t - cpp_div (lookback_duration st) 1000) st ?reps cb"
    using sim by (simp add: cb_sim_def)
  have count: "consecutive_slow_request_count ?cb = of_nat (sp_slow ?s)" and slow: "sp_slow ?s \<le> Suc (length ?reps)"
    using cnt small ms sim unfolding updateMetrics_count
    by (auto simp: spec_report_def Let_def count_slow_def st rnd_ms [OF rnd] cb_sim_def split: option.splits)
  have "unat (of_nat (sp_slow ?s) :: u32) = sp_slow ?s" using slow len by (simp add: unat_of_nat)
  then have "valid_time ?cb = sp_until ?s"
    using updateMetrics_decides [OF rnd now len, of err rt] sim count
    by (simp add: word_le_nat_alt cb_sim_def) (simp add: spec_report_def Let_def)
  moreover have "cb_counts c st (?reps @ [(t, err, rt)]) ?cb"
    if "\<forall>r \<in> set (?reps @ [(t, err, rt)]). unixTimeNowSeconds (fst r) - cpp_div (lookback_duration st) 1000 \<le> c" for c
    using that sim len by (intro cb_counts_step(1) [OF rnd]) (auto simp: cb_sim_def)
  moreover have "sp_reports ?s = ?reps @ [(t, err, rt)]"
    "average_response_time_threshold st = None \<longrightarrow> sp_slow ?s = 0" by (simp_all add: spec_report_def Let_def)
  ultimately show ?thesis using st count slow by (simp add: cb_sim_def)
qed

section \<open>The filters of a chain\<close>

text \<open>
  The state behind the callback that \<^verbatim>\<open>createFilterFactoryFromProtoTyped\<close> returns: the shared manager and the
  filters of the streams. \<open>ct_log\<close> records what each route's breaker was asked and told, and \<open>ct_replies\<close> the
  local replies.
\<close>

record cb_traffic =
  ct_manager :: cb_manager
  ct_filters :: "nat \<Rightarrow> cb_filter option"
  ct_log :: "(string \<times> breaker_entry) list"
  ct_replies :: "(nat \<times> callback) list"

definition createFilterFactory :: cb_traffic where
  "createFilterFactory = \<lparr>ct_manager = [], ct_filters = (\<lambda>_. None), ct_log = [], ct_replies = []\<rparr>"

definition addStreamFilter :: "nat \<Rightarrow> cb_traffic \<Rightarrow> cb_traffic" where
  "addStreamFilter s w = w\<lparr>ct_filters := (ct_filters w)(s \<mapsto> CircuitBreakerFilter)\<rparr>"

datatype cb_event =
    CbNewStream nat
  | CbRequestHeaders nat time "cb_route_config route" bool bool
  | CbRequestData nat bool
  | CbResponseHeaders nat time "cb_route_config route" bool "(time option \<times> time option) option"

definition asked_entry :: "time \<Rightarrow> cb_route_config route \<Rightarrow> headers_status \<Rightarrow> cb_filter \<Rightarrow> (string \<times> breaker_entry) list" where
  "asked_entry clock rt status f =
     (case rt of RouteEntry (Some cfg) \<Rightarrow> [(route_uuid f, Asked clock (status = StopIteration))] | _ \<Rightarrow> [])"

definition reported_entry ::
    "time \<Rightarrow> cb_route_config route \<Rightarrow> bool \<Rightarrow> (time option \<times> time option) option \<Rightarrow> cb_filter \<Rightarrow> (string \<times> breaker_entry) list" where
  "reported_entry clock rt is5xx upstream f =
     (case rt of
        RouteEntry (Some cfg) \<Rightarrow>
          (if local_replied f then []
           else [(route_uuid f, Reported (clock, is5xx, response_time clock upstream is5xx (cb_settings_of cfg) f))])
      | _ \<Rightarrow> [])"

fun cb_step :: "(real \<Rightarrow> real) \<Rightarrow> cb_event \<Rightarrow> cb_traffic \<Rightarrow> cb_traffic" where
  "cb_step rnd (CbNewStream s) w = addStreamFilter s w"
| "cb_step rnd (CbRequestHeaders s clock rt upgrade end_stream) w =
     (case ct_filters w s of
        None \<Rightarrow> w
      | Some f \<Rightarrow>
          (let (status, cbs, f', m') = cb_decodeHeaders clock rt upgrade end_stream f (ct_manager w)
           in w\<lparr>ct_manager := m', ct_filters := (ct_filters w)(s \<mapsto> f'), ct_log := ct_log w @ asked_entry clock rt status f',
                ct_replies := ct_replies w @ map (Pair s) cbs\<rparr>))"
| "cb_step rnd (CbRequestData s end_stream) w =
     (case ct_filters w s of
        None \<Rightarrow> w
      | Some f \<Rightarrow>
          (let (status, cbs, f') = cb_decodeData end_stream f
           in w\<lparr>ct_filters := (ct_filters w)(s \<mapsto> f'), ct_replies := ct_replies w @ map (Pair s) cbs\<rparr>))"
| "cb_step rnd (CbResponseHeaders s clock rt is5xx upstream) w =
     (case ct_filters w s of
        None \<Rightarrow> w
      | Some f \<Rightarrow>
          (let (status, m') = cb_encodeHeaders rnd clock rt is5xx upstream f (ct_manager w)
           in w\<lparr>ct_manager := m', ct_log := ct_log w @ reported_entry clock rt is5xx upstream f\<rparr>))"

definition cb_traffic_run :: "(real \<Rightarrow> real) \<Rightarrow> cb_event list \<Rightarrow> cb_traffic" where
  "cb_traffic_run rnd es = fold (cb_step rnd) es createFilterFactory"

text \<open>The entries of one route.\<close>

definition log_of :: "string \<Rightarrow> (string \<times> breaker_entry) list \<Rightarrow> breaker_entry list" where
  "log_of u l = map snd (filter (\<lambda>e. fst e = u) l)"

lemma log_of_append [simp]: "log_of u (l @ l') = log_of u l @ log_of u l'"
  by (simp add: log_of_def)

section \<open>Assumptions on the events\<close>

text \<open>
  The clock never goes back. A route configuration has an identifier of its own, which is not empty, so its settings
  are a function \<open>S\<close> of the identifier. The times in milliseconds are exact as \<^verbatim>\<open>double\<close>s.
\<close>

fun event_time :: "cb_event \<Rightarrow> time option" where
  "event_time (CbRequestHeaders s t rt up e) = Some t"
| "event_time (CbResponseHeaders s t rt err up) = Some t"
| "event_time _ = None"

fun event_route :: "cb_event \<Rightarrow> cb_route_config route" where
  "event_route (CbRequestHeaders s t rt up e) = rt"
| "event_route (CbResponseHeaders s t rt err up) = rt"
| "event_route _ = NoRoute"

definition route_ok :: "(string \<Rightarrow> cb_settings) \<Rightarrow> cb_route_config route \<Rightarrow> bool" where
  "route_ok S rt = (\<forall>cfg. rt = RouteEntry (Some cfg) \<longrightarrow> cb_uuid cfg \<noteq> '''' \<and> S (cb_uuid cfg) = cb_settings_of cfg)"

definition settings_exact :: "(string \<Rightarrow> cb_settings) \<Rightarrow> bool" where
  "settings_exact S = (\<forall>u thr. average_response_time_threshold (S u) = Some thr \<longrightarrow> exact_ms thr)"

definition log_exact :: "(string \<times> breaker_entry) list \<Rightarrow> bool" where
  "log_exact l = (\<forall>u t err rt. (u, Reported (t, err, rt)) \<in> set l \<longrightarrow> exact_ms rt)"

section \<open>The chain implements one specification per route\<close>

lemma decode_effect:
  assumes "cb_decodeHeaders clock (RouteEntry (Some cfg)) upgrade end_stream f m = (status, cbs, f', m')"
    and "u = (if route_uuid f = '''' then cb_uuid cfg else route_uuid f)"
    and "cb = (case map_of m u of None \<Rightarrow> CircuitBreakerImpl (cb_settings_of cfg) | Some c \<Rightarrow> c)"
  shows "(status = StopIteration) = fst (isOpen clock cb)" and "route_uuid f' = u"
    and "map_of m' = (map_of m)(u \<mapsto> snd (isOpen clock cb))"
  using assms
  by (auto simp: cb_decodeHeaders_def mgr_isOpen_def Let_def update_conv' split: option.splits prod.splits if_splits)

lemma decode_elsewhere:
  assumes "cb_decodeHeaders clock rt upgrade end_stream f m = (status, cbs, f', m')"
    and "\<And>cfg. rt \<noteq> RouteEntry (Some cfg)"
  shows "f' = f" and "m' = m" and "asked_entry clock rt status f' = []"
  using assms by (auto simp: cb_decodeHeaders_def asked_entry_def split: route.splits option.splits)

lemma encode_effect:
  assumes "cb_encodeHeaders rnd clock rt is5xx upstream f m = (status, m')"
  shows "reported_entry clock rt is5xx upstream f = [] \<and> m' = m \<or>
    (\<exists>r. reported_entry clock rt is5xx upstream f = [(route_uuid f, Reported (clock, is5xx, r))] \<and>
       m' = mgr_updateMetrics rnd clock (route_uuid f) is5xx r m)"
  using assms by (auto simp: cb_encodeHeaders_def reported_entry_def split: route.splits option.splits if_splits)

lemma decodeData_uuid: "cb_decodeData e f = (status, cbs, f') \<Longrightarrow> route_uuid f' = route_uuid f"
  by (auto simp: cb_decodeData_def split: if_splits option.splits)

fun entry_time :: "breaker_entry \<Rightarrow> time" where
  "entry_time (Asked t b) = t"
| "entry_time (Reported r) = fst r"

fun reports_of :: "breaker_entry list \<Rightarrow> report list" where
  "reports_of [] = []"
| "reports_of (Asked t b # es) = reports_of es"
| "reports_of (Reported r # es) = r # reports_of es"

lemma spec_run_reports: "sp_reports (spec_run rnd st es) = reports_of es"
proof -
  have "sp_reports (fold (spec_step rnd st) es s) = sp_reports s @ reports_of es" for s
    by (induction es arbitrary: s rule: reports_of.induct)
      (auto simp: spec_query_def spec_report_def Let_def split: option.splits if_splits)
  then show ?thesis by (simp add: spec_run_def spec_init_def)
qed

lemma reports_of_mem: "r \<in> set (reports_of es) \<longleftrightarrow> Reported r \<in> set es"
  by (induction es rule: reports_of.induct) auto

lemma log_of_mem: "e \<in> set (log_of u l) \<longleftrightarrow> (u, e) \<in> set l"
  by (force simp: log_of_def)

lemma reports_of_length: "length (reports_of (log_of u l)) \<le> length l"
proof -
  have "length (reports_of es) \<le> length es" for es
    by (induction es rule: reports_of.induct) auto
  from this [of "log_of u l"] show ?thesis by (auto simp: log_of_def intro: le_trans [OF _ length_filter_le])
qed

definition traffic_inv :: "(real \<Rightarrow> real) \<Rightarrow> (string \<Rightarrow> cb_settings) \<Rightarrow> cb_traffic \<Rightarrow> bool" where
  "traffic_inv rnd S w \<longleftrightarrow>
     (\<forall>u. u \<noteq> '''' \<longrightarrow> spec_accepts rnd (S u) (log_of u (ct_log w)) spec_init) \<and>
     (\<forall>u cb. map_of (ct_manager w) u = Some cb \<longrightarrow> u \<noteq> '''' \<and> cb_sim (S u) (spec_run rnd (S u) (log_of u (ct_log w))) cb) \<and>
     (\<forall>u. u \<noteq> '''' \<and> map_of (ct_manager w) u = None \<longrightarrow> log_of u (ct_log w) = []) \<and>
     (\<forall>s f. ct_filters w s = Some f \<and> route_uuid f \<noteq> '''' \<longrightarrow> map_of (ct_manager w) (route_uuid f) \<noteq> None)"

lemma traffic_inv_init: "traffic_inv rnd S createFilterFactory"
  by (simp add: traffic_inv_def createFilterFactory_def log_of_def)

text \<open>A step that asks or tells the breaker of \<open>u\<close> and changes no other.\<close>

lemma traffic_inv_entry:
  assumes inv: "traffic_inv rnd S w" and u: "u \<noteq> ''''" "ct_log w' = ct_log w @ [(u, e)]"
    and m: "map_of (ct_manager w') = (map_of (ct_manager w))(u \<mapsto> cb)"
    and ok: "answer_ok e (spec_run rnd (S u) (log_of u (ct_log w)))"
    and sim: "cb_sim (S u) (spec_step rnd (S u) e (spec_run rnd (S u) (log_of u (ct_log w)))) cb"
    and f: "\<And>s f. ct_filters w' s = Some f \<Longrightarrow> route_uuid f = u \<or> ct_filters w s = Some f"
  shows "traffic_inv rnd S w'"
proof -
  have log: "log_of u' (ct_log w') = log_of u' (ct_log w) @ (if u' = u then [e] else [])" for u'
    using u(2) by (simp add: log_of_def)
  have run: "spec_run rnd st (es @ [e]) = spec_step rnd st e (spec_run rnd st es)" for st es by (simp add: spec_run_def)
  show ?thesis unfolding traffic_inv_def
  proof (intro conjI allI impI)
    show "spec_accepts rnd (S u') (log_of u' (ct_log w')) spec_init" if "u' \<noteq> ''''" for u'
      using inv that ok by (auto simp: log traffic_inv_def spec_accepts_snoc spec_run_def)
    fix u' cb' assume a: "map_of (ct_manager w') u' = Some cb'"
    show "u' \<noteq> ''''" using a m u inv by (auto simp: traffic_inv_def split: if_splits)
    show "cb_sim (S u') (spec_run rnd (S u') (log_of u' (ct_log w'))) cb'"
      using a m inv sim by (auto simp: log run traffic_inv_def split: if_splits)
  next
    fix u' assume "u' \<noteq> '''' \<and> map_of (ct_manager w') u' = None"
    then show "log_of u' (ct_log w') = []" using m inv by (auto simp: log traffic_inv_def split: if_splits)
  next
    fix s f' assume a: "ct_filters w' s = Some f' \<and> route_uuid f' \<noteq> ''''"
    then show "map_of (ct_manager w') (route_uuid f') \<noteq> None"
      using f [of s f'] m inv by (auto simp: traffic_inv_def)
  qed
qed

lemma traffic_inv_quiet:
  assumes inv: "traffic_inv rnd S w" and "ct_manager w' = ct_manager w"
    and "\<And>u. u \<noteq> '''' \<Longrightarrow> log_of u (ct_log w') = log_of u (ct_log w)"
    and f: "\<And>s f. ct_filters w' s = Some f \<Longrightarrow>
      route_uuid f = '''' \<or> (\<exists>s' f'. ct_filters w s' = Some f' \<and> route_uuid f' = route_uuid f)"
  shows "traffic_inv rnd S w'"
proof -
  have "map_of (ct_manager w) (route_uuid f) \<noteq> None" if "ct_filters w' s = Some f" "route_uuid f \<noteq> ''''" for s f
    using f [OF that(1)] that(2) inv unfolding traffic_inv_def by metis
  moreover have "u \<noteq> ''''" if "map_of (ct_manager w) u = Some cb" for u cb using inv that by (auto simp: traffic_inv_def)
  ultimately show ?thesis using assms(1-3) by (auto simp: traffic_inv_def)
qed

lemma known_uuid:
  assumes "traffic_inv rnd S w" "ct_filters w s = Some f" "map_of (ct_manager w) (route_uuid f) = None"
  shows "route_uuid f = ''''"
  using assms(1) [unfolded traffic_inv_def] assms(2,3) by blast

lemma request_step_inv:
  assumes inv: "traffic_inv rnd S w" and rt: "route_ok S rt"
  shows "traffic_inv rnd S (cb_step rnd (CbRequestHeaders s clock rt upgrade end_stream) w)"
proof (cases "ct_filters w s")
  case (Some f)
  obtain status cbs f' m' where dec: "cb_decodeHeaders clock rt upgrade end_stream f (ct_manager w) = (status, cbs, f', m')"
    by (cases "cb_decodeHeaders clock rt upgrade end_stream f (ct_manager w)") auto
  let ?w = "cb_step rnd (CbRequestHeaders s clock rt upgrade end_stream) w"
  show ?thesis
  proof (cases "\<exists>cfg. rt = RouteEntry (Some cfg)")
    case True
    then obtain cfg where cfg: "rt = RouteEntry (Some cfg)" by blast
    define u where "u = (if route_uuid f = '''' then cb_uuid cfg else route_uuid f)"
    define cb where "cb = (case map_of (ct_manager w) u of None \<Rightarrow> CircuitBreakerImpl (cb_settings_of cfg) | Some c \<Rightarrow> c)"
    note eff = decode_effect [OF dec [unfolded cfg] u_def cb_def]
    have u: "u \<noteq> ''''" using rt cfg by (auto simp: u_def route_ok_def)
    have fresh: "S u = cb_settings_of cfg" if "map_of (ct_manager w) u = None"
      using that known_uuid [OF inv Some] rt cfg by (auto simp: u_def route_ok_def split: if_splits)
    have sim: "cb_sim (S u) (spec_run rnd (S u) (log_of u (ct_log w))) cb"
    proof (cases "map_of (ct_manager w) u")
      case None
      then have "log_of u (ct_log w) = []" using inv u by (simp add: traffic_inv_def)
      then show ?thesis using None fresh cb_sim_init [of "S u"] by (simp add: cb_def spec_run_def)
    next
      case (Some c)
      then show ?thesis using inv by (simp add: cb_def traffic_inv_def)
    qed
    have w: "ct_log ?w = ct_log w @ [(u, Asked clock (fst (isOpen clock cb)))]" "ct_manager ?w = m'"
      "ct_filters ?w = (ct_filters w)(s \<mapsto> f')"
      using Some dec cfg eff by (simp_all add: asked_entry_def)
    show ?thesis
    proof (rule traffic_inv_entry [OF inv u w(1)])
      show "map_of (ct_manager ?w) = (map_of (ct_manager w))(u \<mapsto> snd (isOpen clock cb))" using w(2) eff(3) by simp
      show "answer_ok (Asked clock (fst (isOpen clock cb))) (spec_run rnd (S u) (log_of u (ct_log w)))"
        using cb_sim_query(1) [OF sim] by (simp add: answer_ok_def)
      show "cb_sim (S u) (spec_step rnd (S u) (Asked clock (fst (isOpen clock cb))) (spec_run rnd (S u) (log_of u (ct_log w))))
              (snd (isOpen clock cb))"
        using cb_sim_query(2) [OF sim] by simp
      show "route_uuid g = u \<or> ct_filters w s' = Some g" if "ct_filters ?w s' = Some g" for s' g
        using that w(3) eff(2) by (auto split: if_splits)
    qed
  next
    case False
    then have "ct_manager ?w = ct_manager w" "ct_log ?w = ct_log w" "ct_filters ?w = ct_filters w"
      using decode_elsewhere [OF dec] Some dec by (auto simp: fun_upd_idem)
    then show ?thesis using inv by (intro traffic_inv_quiet [OF inv]) auto
  qed
qed (simp add: inv)

lemma response_step_inv:
  assumes rnd: "ieee_rounding rnd" and S: "settings_exact S" and inv: "traffic_inv rnd S w"
    and past: "\<And>u x. (u, x) \<in> set (ct_log w) \<Longrightarrow> entry_time x \<le> clock"
    and exact: "log_exact (ct_log (cb_step rnd (CbResponseHeaders s clock rt is5xx upstream) w))"
    and len: "Suc (length (ct_log w)) < 2 ^ 32"
  shows "traffic_inv rnd S (cb_step rnd (CbResponseHeaders s clock rt is5xx upstream) w)"
proof (cases "ct_filters w s")
  case (Some f)
  let ?w = "cb_step rnd (CbResponseHeaders s clock rt is5xx upstream) w" and ?u = "route_uuid f"
  obtain status m' where enc: "cb_encodeHeaders rnd clock rt is5xx upstream f (ct_manager w) = (status, m')"
    by (cases "cb_encodeHeaders rnd clock rt is5xx upstream f (ct_manager w)") auto
  have w: "ct_manager ?w = m'" "ct_filters ?w = ct_filters w"
    "ct_log ?w = ct_log w @ reported_entry clock rt is5xx upstream f" using Some enc by auto
  from encode_effect [OF enc] show ?thesis
  proof (elim disjE exE conjE)
    assume "reported_entry clock rt is5xx upstream f = []" "m' = ct_manager w"
    then show ?thesis using w by (intro traffic_inv_quiet [OF inv]) auto
  next
    fix r assume r: "reported_entry clock rt is5xx upstream f = [(?u, Reported (clock, is5xx, r))]"
      "m' = mgr_updateMetrics rnd clock ?u is5xx r (ct_manager w)"
    show ?thesis
    proof (cases "map_of (ct_manager w) ?u")
      case None
      then have "?u = ''''" by (rule known_uuid [OF inv Some])
      then show ?thesis using w r None
        by (intro traffic_inv_quiet [OF inv]) (auto simp: mgr_updateMetrics_def log_of_def)
    next
      case cb: (Some cb)
      let ?s = "spec_run rnd (S ?u) (log_of ?u (ct_log w))"
      have sim: "cb_sim (S ?u) ?s cb" and u: "?u \<noteq> ''''" using inv cb by (auto simp: traffic_inv_def)
      have "exact_ms r" using exact r w by (auto simp: log_exact_def)
      moreover have "fst x \<le> clock" if "x \<in> set (sp_reports ?s)" for x
        using that past [of ?u "Reported x"] by (simp add: spec_run_reports reports_of_mem log_of_mem)
      moreover have "Suc (length (sp_reports ?s)) < 2 ^ 32"
        using len reports_of_length [of ?u "ct_log w"] by (simp add: spec_run_reports)
      ultimately have sim': "cb_sim (S ?u) (spec_report rnd (S ?u) (clock, is5xx, r) ?s) (updateMetrics rnd clock is5xx r cb)"
        using S by (intro cb_sim_report [OF rnd sim]) (auto simp: settings_exact_def)
      have log: "ct_log ?w = ct_log w @ [(?u, Reported (clock, is5xx, r))]" using w(3) r(1) by simp
      show ?thesis
      proof (rule traffic_inv_entry [OF inv u log])
        show "map_of (ct_manager ?w) = (map_of (ct_manager w))(?u \<mapsto> updateMetrics rnd clock is5xx r cb)"
          unfolding w(1) r(2) mgr_updateMetrics_def by (simp add: cb update_conv')
        show "ct_filters ?w s' = Some g \<Longrightarrow> route_uuid g = ?u \<or> ct_filters w s' = Some g" for s' g by (simp add: w(2) del: cb_step.simps)
      qed (use sim' in \<open>simp_all add: answer_ok_def\<close>)
    qed
  qed
qed (simp add: inv)

lemma new_stream_inv: "traffic_inv rnd S w \<Longrightarrow> traffic_inv rnd S (addStreamFilter s w)"
  by (rule traffic_inv_quiet) (auto simp: addStreamFilter_def CircuitBreakerFilter_def split: if_splits)

lemma data_step_inv:
  assumes "traffic_inv rnd S w"
  shows "traffic_inv rnd S (cb_step rnd (CbRequestData s e) w)"
proof (cases "ct_filters w s")
  case (Some f)
  obtain status cbs f' where d: "cb_decodeData e f = (status, cbs, f')" by (cases "cb_decodeData e f") auto
  show ?thesis using Some d decodeData_uuid [OF d]
    by (intro traffic_inv_quiet [OF assms]) (auto split: if_splits)
qed (simp add: assms)

section \<open>All streams and routes\<close>

definition event_times :: "cb_event list \<Rightarrow> time list" where
  "event_times es = List.map_filter event_time es"

lemma event_times_snoc: "event_times (es @ [e]) = event_times es @ (case event_time e of None \<Rightarrow> [] | Some t \<Rightarrow> [t])"
  by (simp add: event_times_def map_filter_def split: option.splits)

lemma step_log:
  "\<exists>l. ct_log (cb_step rnd e w) = ct_log w @ l \<and> length l \<le> 1 \<and> (\<forall>(u, x) \<in> set l. event_time e = Some (entry_time x))"
  by (cases e) (auto simp: addStreamFilter_def asked_entry_def reported_entry_def
      split: option.splits route.splits prod.splits)

lemma traffic_log:
  "length (ct_log (cb_traffic_run rnd es)) \<le> length es \<and>
   (\<forall>(u, x) \<in> set (ct_log (cb_traffic_run rnd es)). entry_time x \<in> set (event_times es))"
proof (induction es rule: rev_induct)
  case (snoc e es)
  obtain l where l: "ct_log (cb_step rnd e (cb_traffic_run rnd es)) = ct_log (cb_traffic_run rnd es) @ l" "length l \<le> 1"
    "\<forall>(u, x) \<in> set l. event_time e = Some (entry_time x)" using step_log by blast
  have "entry_time x \<in> set (event_times (es @ [e]))" if "(u, x) \<in> set (ct_log (cb_traffic_run rnd es)) \<or> (u, x) \<in> set l" for u x
    using that snoc l(3) by (auto simp: event_times_snoc)
  moreover have "cb_traffic_run rnd (es @ [e]) = cb_step rnd e (cb_traffic_run rnd es)" by (simp add: cb_traffic_run_def)
  ultimately show ?case using snoc l(1,2) by auto
qed (simp add: cb_traffic_run_def createFilterFactory_def)

lemma traffic_inv_run:
  assumes rnd: "ieee_rounding rnd" and S: "settings_exact S"
    and "sorted (event_times es)" "\<forall>e \<in> set es. route_ok S (event_route e)" "length es < 2 ^ 32"
    and "log_exact (ct_log (cb_traffic_run rnd es))"
  shows "traffic_inv rnd S (cb_traffic_run rnd es)"
  using assms(3-)
proof (induction es rule: rev_induct)
  case Nil
  show ?case by (simp add: cb_traffic_run_def traffic_inv_init)
next
  case (snoc e es)
  let ?w = "cb_traffic_run rnd es"
  have run: "cb_traffic_run rnd (es @ [e]) = cb_step rnd e ?w" by (simp add: cb_traffic_run_def)
  obtain l where "ct_log (cb_step rnd e ?w) = ct_log ?w @ l" using step_log by blast
  then have exact: "log_exact (ct_log ?w)" "log_exact (ct_log (cb_step rnd e ?w))"
    using snoc.prems(4) run by (auto simp: log_exact_def)
  have inv: "traffic_inv rnd S ?w" using snoc exact by (simp add: event_times_snoc sorted_append)
  have past: "entry_time x \<le> t" if "(u, x) \<in> set (ct_log ?w)" "event_time e = Some t" for u x t
    using that traffic_log [of rnd es] snoc.prems(1) by (fastforce simp: event_times_snoc sorted_append)
  have len: "Suc (length (ct_log ?w)) < 2 ^ 32" using traffic_log [of rnd es] snoc.prems(3) by simp
  show ?case
  proof (cases e)
    case (CbNewStream s)
    then show ?thesis using inv run by (simp add: new_stream_inv)
  next
    case (CbRequestHeaders s t rt up en)
    then show ?thesis using request_step_inv [OF inv, of rt] snoc.prems(2) run by (simp del: cb_step.simps)
  next
    case (CbRequestData s en)
    then show ?thesis using data_step_inv [OF inv] run by (simp del: cb_step.simps)
  next
    case (CbResponseHeaders s t rt err up)
    then show ?thesis using response_step_inv [OF rnd S inv _ _ len, of t s rt err up] past exact(2) run
      by (simp del: cb_step.simps)
  qed
qed

text \<open>
  C3: The circuit breakers of a filter chain. Many streams on many routes share one table of breakers, in any order of their
  callbacks. For every route, the requests that are stopped are exactly those that the specification of one breaker with the
  settings of the route stops, given only the requests and responses of that route: other routes do not matter,
  and neither do the buckets, the rounding and the 32 bit counter of the implementation.
\<close>

theorem breaker_traffic_refines_history:
  assumes "ieee_rounding rnd" "settings_exact S" "sorted (event_times es)" "\<And>e. e \<in> set es \<Longrightarrow> route_ok S (event_route e)"
    and "length es < 2 ^ 32" "log_exact (ct_log (cb_traffic_run rnd es))" "u \<noteq> ''''"
  shows "spec_accepts rnd (S u) (log_of u (ct_log (cb_traffic_run rnd es))) spec_init"
  using traffic_inv_run [OF assms(1-3) _ assms(5,6)] assms(4,7) by (auto simp: traffic_inv_def)

text \<open>Two routes; the first one has two slow responses in a row and stops the third request, which the second one lets pass.\<close>

definition example_route :: "string \<Rightarrow> cb_route_config route" where
  "example_route u = RouteEntry (Some \<lparr>cb_uuid = u, cb_settings_of = example_settings\<rparr>)"

definition example_traffic :: "cb_event list" where
  "example_traffic =
     [CbNewStream 1, CbNewStream 2, CbRequestHeaders 1 0 (example_route ''a'') False True,
      CbRequestHeaders 2 0 (example_route ''a'') False True,
      CbResponseHeaders 2 300000000 (example_route ''a'') False (Some (Some 300000000, Some 0)),
      CbResponseHeaders 1 400000000 (example_route ''a'') False (Some (Some 400000000, Some 0)),
      CbNewStream 3, CbNewStream 4, CbRequestHeaders 3 500000000 (example_route ''a'') False True,
      CbRequestHeaders 4 600000000 (example_route ''b'') False True]"

theorem breaker_traffic_refines_history_witness:
  "log_of ''a'' (ct_log (cb_traffic_run (\<lambda>x. x) example_traffic)) =
     [Asked 0 False, Asked 0 False, Reported (300000000, False, 300), Reported (400000000, False, 400), Asked 500000000 True] \<and>
   log_of ''b'' (ct_log (cb_traffic_run (\<lambda>x. x) example_traffic)) = [Asked 600000000 False] \<and>
   spec_accepts (\<lambda>x. x) example_settings (log_of ''a'' (ct_log (cb_traffic_run (\<lambda>x. x) example_traffic))) spec_init"
proof -
  have log: "ct_log (cb_traffic_run (\<lambda>x. x) example_traffic) =
    [(''a'', Asked 0 False), (''a'', Asked 0 False), (''a'', Reported (300000000, False, 300)),
     (''a'', Reported (400000000, False, 400)), (''a'', Asked 500000000 True), (''b'', Asked 600000000 False)]"
    by code_simp
  have exact: "log_exact (ct_log (cb_traffic_run (\<lambda>x. x) example_traffic))"
    unfolding log by (auto simp: log_exact_def exact_ms_def)
  have routes: "route_ok (\<lambda>_. example_settings) (event_route e)" if "e \<in> set example_traffic" for e
    using that by (auto simp: example_traffic_def route_ok_def example_route_def)
  have "settings_exact (\<lambda>_. example_settings)" by (simp add: settings_exact_def example_settings_def exact_ms_def)
  moreover have "sorted (event_times example_traffic)" "length example_traffic < 2 ^ 32"
    by (simp_all add: example_traffic_def event_times_def map_filter_def)
  ultimately have "spec_accepts (\<lambda>x. x) example_settings (log_of ''a'' (ct_log (cb_traffic_run (\<lambda>x. x) example_traffic))) spec_init"
    using exact routes by (intro breaker_traffic_refines_history [OF ieee_rounding_id]) auto
  then show ?thesis unfolding log by (simp add: log_of_def)
qed

end
