(* ===== verification/Proxy_Matcher.thy ===== *)
theory Proxy_Matcher
  imports Prelude
begin

text \<open>
  Matching of requests, \<^verbatim>\<open>source/common/http/proxy_matcher.{h,cc}\<close>.

  \<^item> A \<open>matcher_context\<close> computes the path, the query parameters and the cookies of a request when a matcher
    first needs them and keeps them, so every match passes the context on.
  \<^item> The matchers of Envoy for strings, headers and query parameters and its parsers are the parameter
    \<open>matcher_env\<close>. The constructor of such a matcher throws for an invalid regular expression, for instance;
    \<open>string_error\<close>, \<open>header_error\<close> and \<open>query_error\<close> give the message of the exception, if there is one.
  \<^item> \<open>matcher_valid\<close> tells for which configurations the constructor does not throw.
  \<^item> \<open>common_matches\<close> is the specification: every condition of the configuration holds of the request.
\<close>

section \<open>Contexts\<close>

record ('h, 'hm, 'qm, 'sm) matcher_env =
  getPathValue :: "'h \<Rightarrow> string"
  remove_query :: "string \<Rightarrow> string"
  parse_query :: "string \<Rightarrow> (string \<times> string) list"
  parseCookies :: "'h \<Rightarrow> (string \<times> string) list"
  string_match :: "'sm \<Rightarrow> string \<Rightarrow> bool"
  matchHeaders :: "'h \<Rightarrow> 'hm list \<Rightarrow> bool"
  matchQueryParams :: "(string \<times> string) list \<Rightarrow> 'qm list \<Rightarrow> bool"
  string_error :: "'sm \<Rightarrow> string option"
  header_error :: "'hm \<Rightarrow> string option"
  query_error :: "'qm \<Rightarrow> string option"

text \<open>\<open>ctx_typed\<close> tells whether the dynamic cast of the headers to a request header map succeeds.\<close>

record 'h matcher_context =
  ctx_headers :: 'h
  ctx_typed :: bool
  ctx_path :: string
  ctx_parameters :: "(string \<times> string) list option"
  ctx_cookies :: "(string \<times> string) list option"

definition HttpCommonMatcherContext :: "'h \<Rightarrow> bool \<Rightarrow> 'h matcher_context" where
  "HttpCommonMatcherContext h typed =
     \<lparr>ctx_headers = h, ctx_typed = typed, ctx_path = '''', ctx_parameters = None, ctx_cookies = None\<rparr>"

definition getPath ::
    "('h, 'hm, 'qm, 'sm) matcher_env \<Rightarrow> 'h matcher_context \<Rightarrow> string \<times> 'h matcher_context" where
  "getPath M c =
     (let c' = (if ctx_path c = '''' \<and> ctx_typed c
                then c\<lparr>ctx_path := remove_query M (getPathValue M (ctx_headers c))\<rparr> else c)
      in (ctx_path c', c'))"

definition getQueryParams ::
    "('h, 'hm, 'qm, 'sm) matcher_env \<Rightarrow> 'h matcher_context \<Rightarrow> (string \<times> string) list \<times> 'h matcher_context" where
  "getQueryParams M c =
     (case ctx_parameters c of
        Some ps \<Rightarrow> (ps, c)
      | None \<Rightarrow>
          (let ps = (if ctx_typed c then parse_query M (getPathValue M (ctx_headers c)) else [])
           in (ps, c\<lparr>ctx_parameters := Some ps\<rparr>)))"

text \<open>The static cast never gives a null pointer.\<close>

definition getCookies ::
    "('h, 'hm, 'qm, 'sm) matcher_env \<Rightarrow> 'h matcher_context \<Rightarrow> (string \<times> string) list \<times> 'h matcher_context" where
  "getCookies M c =
     (case ctx_cookies c of
        Some cs \<Rightarrow> (cs, c)
      | None \<Rightarrow> (let cs = parseCookies M (ctx_headers c) in (cs, c\<lparr>ctx_cookies := Some cs\<rparr>)))"

section \<open>Matchers\<close>

datatype ('hm, 'qm, 'sm) matcher =
    PathMatcher 'sm
  | HeadersMatcher "'hm list"
  | ParametersMatcher "'qm list"
  | CookiesMatcher "(string \<times> 'sm option) list"

fun cookies_match :: "('sm \<Rightarrow> string \<Rightarrow> bool) \<Rightarrow> (string \<times> 'sm option) list \<Rightarrow> (string \<times> string) list \<Rightarrow> bool" where
  "cookies_match sm [] cookies = True"
| "cookies_match sm ((name, m) # ms) cookies =
     (case (map_of cookies name, m) of
        (None, None) \<Rightarrow> False
      | (None, Some s) \<Rightarrow> False
      | (Some v, Some s) \<Rightarrow> (if \<not> sm s v then False else cookies_match sm ms cookies)
      | (Some v, None) \<Rightarrow> cookies_match sm ms cookies)"

definition matcher_match ::
    "('h, 'hm, 'qm, 'sm) matcher_env \<Rightarrow> ('hm, 'qm, 'sm) matcher \<Rightarrow> 'h matcher_context \<Rightarrow> bool \<times> 'h matcher_context" where
  "matcher_match M m c =
     (case m of
        PathMatcher s \<Rightarrow> (let (path, c') = getPath M c in (string_match M s path, c'))
      | HeadersMatcher hs \<Rightarrow> (matchHeaders M (ctx_headers c) hs, c)
      | ParametersMatcher qs \<Rightarrow> (let (ps, c') = getQueryParams M c in (matchQueryParams M ps qs, c'))
      | CookiesMatcher ms \<Rightarrow> (let (cs, c') = getCookies M c in (cookies_match (string_match M) ms cs, c')))"

record ('hm, 'qm, 'sm) common_matcher_proto =
  cm_path :: "'sm option"
  cm_headers :: "'hm list"
  cm_parameters :: "'qm list"
  cm_cookies :: "(string \<times> 'sm option) list"

text \<open>
  The constructors. An element that cannot be made ends the construction with its exception; \<open>append_made\<close> is
  \<^verbatim>\<open>push_back\<close> of what may throw.
\<close>

fun construct_all :: "('a \<Rightarrow> 'b throws) \<Rightarrow> 'a list \<Rightarrow> 'b list throws" where
  "construct_all f [] = Inr []"
| "construct_all f (x # xs) =
     (case f x of
        Inl err \<Rightarrow> Inl err
      | Inr y \<Rightarrow> (case construct_all f xs of Inl err \<Rightarrow> Inl err | Inr ys \<Rightarrow> Inr (y # ys)))"

definition make_or_throw :: "('a \<Rightarrow> string option) \<Rightarrow> 'a \<Rightarrow> 'a throws" where
  "make_or_throw error x = (case error x of Some err \<Rightarrow> Inl err | None \<Rightarrow> Inr x)"

definition make_cookie ::
    "('h, 'hm, 'qm, 'sm) matcher_env \<Rightarrow> string \<times> 'sm option \<Rightarrow> (string \<times> 'sm option) throws" where
  "make_cookie M c =
     (case snd c of None \<Rightarrow> Inr c | Some s \<Rightarrow> map_sum id (\<lambda>s. (fst c, Some s)) (make_or_throw (string_error M) s))"

definition append_made :: "'b list throws \<Rightarrow> 'b throws option \<Rightarrow> 'b list throws" where
  "append_made made next =
     (case made of
        Inl err \<Rightarrow> Inl err
      | Inr xs \<Rightarrow> (case next of None \<Rightarrow> Inr xs | Some (Inl err) \<Rightarrow> Inl err | Some (Inr x) \<Rightarrow> Inr (xs @ [x])))"

definition CommonMatcher ::
    "('h, 'hm, 'qm, 'sm) matcher_env \<Rightarrow> ('hm, 'qm, 'sm) common_matcher_proto \<Rightarrow> ('hm, 'qm, 'sm) matcher list throws" where
  "CommonMatcher M p =
     (let made0 = append_made (Inr [])
            (case cm_path p of None \<Rightarrow> None | Some s \<Rightarrow> Some (map_sum id PathMatcher (make_or_throw (string_error M) s)));
          made1 = append_made made0
            (if 0 < length (cm_headers p)
             then Some (map_sum id HeadersMatcher (construct_all (make_or_throw (header_error M)) (cm_headers p))) else None);
          made2 = append_made made1
            (if 0 < length (cm_parameters p)
             then Some (map_sum id ParametersMatcher (construct_all (make_or_throw (query_error M)) (cm_parameters p))) else None)
      in append_made made2
            (if 0 < length (cm_cookies p)
             then Some (map_sum id CookiesMatcher (construct_all (make_cookie M) (cm_cookies p))) else None))"

fun CommonMatcher_match ::
    "('h, 'hm, 'qm, 'sm) matcher_env \<Rightarrow> ('hm, 'qm, 'sm) matcher list \<Rightarrow> 'h matcher_context \<Rightarrow> bool \<times> 'h matcher_context" where
  "CommonMatcher_match M [] c = (True, c)"
| "CommonMatcher_match M (m # ms) c =
     (let (ok, c') = matcher_match M m c in if \<not> ok then (False, c') else CommonMatcher_match M ms c')"

section \<open>What the constructor makes\<close>

lemma construct_all_ok: "(\<exists>ys. construct_all f xs = Inr ys) \<longleftrightarrow> (\<forall>x\<in>set xs. \<exists>y. f x = Inr y)"
  by (induction xs) (auto split: sum.splits)

lemma construct_all_InrD: "construct_all f xs = Inr ys \<Longrightarrow> y \<in> set ys \<Longrightarrow> \<exists>x\<in>set xs. f x = Inr y"
  by (induction xs arbitrary: ys) (auto split: sum.splits)

lemma construct_all_map:
  "construct_all f xs = Inr ys \<Longrightarrow> (\<And>x y. x \<in> set xs \<Longrightarrow> f x = Inr y \<Longrightarrow> y = g x) \<Longrightarrow> ys = map g xs"
  by (induction xs arbitrary: ys) (auto split: sum.splits)

definition matchers_of :: "('hm, 'qm, 'sm) common_matcher_proto \<Rightarrow> ('hm, 'qm, 'sm) matcher list" where
  "matchers_of p =
     (case cm_path p of None \<Rightarrow> [] | Some s \<Rightarrow> [PathMatcher s])
     @ (if cm_headers p \<noteq> [] then [HeadersMatcher (cm_headers p)] else [])
     @ (if cm_parameters p \<noteq> [] then [ParametersMatcher (cm_parameters p)] else [])
     @ (if cm_cookies p \<noteq> [] then [CookiesMatcher (cm_cookies p)] else [])"

text \<open>Every string, header and query matcher that the configuration names can be made.\<close>

definition matcher_valid :: "('h, 'hm, 'qm, 'sm) matcher_env \<Rightarrow> ('hm, 'qm, 'sm) common_matcher_proto \<Rightarrow> bool" where
  "matcher_valid M p \<longleftrightarrow>
     (\<forall>s \<in> set_option (cm_path p). string_error M s = None) \<and> (\<forall>h \<in> set (cm_headers p). header_error M h = None) \<and>
     (\<forall>q \<in> set (cm_parameters p). query_error M q = None) \<and>
     (\<forall>c \<in> set (cm_cookies p). \<forall>s \<in> set_option (snd c). string_error M s = None)"

lemma make_or_throw_Inr [simp]: "make_or_throw error x = Inr y \<longleftrightarrow> error x = None \<and> y = x"
  by (auto simp: make_or_throw_def split: option.splits)

lemma make_cookie_Inr [simp]:
  "make_cookie M c = Inr d \<longleftrightarrow> (\<forall>s \<in> set_option (snd c). string_error M s = None) \<and> d = c"
  by (cases c) (auto simp: make_cookie_def make_or_throw_def split: option.splits)

lemma construct_all_Inr:
  assumes "\<And>x y. f x = Inr y \<longleftrightarrow> good x \<and> y = x"
  shows "construct_all f xs = Inr ys \<longleftrightarrow> (\<forall>x \<in> set xs. good x) \<and> ys = xs"
proof (induction xs arbitrary: ys)
  case (Cons x xs)
  show ?case
  proof (cases "f x")
    case (Inl err)
    then show ?thesis using assms [of x x] by auto
  next
    case (Inr y)
    then show ?thesis using assms [of x y] Cons.IH by (cases "construct_all f xs") auto
  qed
qed auto

lemma map_sum_Inr: "map_sum id f r = Inr y \<longleftrightarrow> (\<exists>x. r = Inr x \<and> y = f x)"
  by (cases r) auto

lemma append_made_Inr:
  "append_made made next = Inr zs \<longleftrightarrow>
     (\<exists>xs. made = Inr xs \<and> (case next of None \<Rightarrow> zs = xs | Some r \<Rightarrow> (\<exists>x. r = Inr x \<and> zs = xs @ [x])))"
  by (auto simp: append_made_def split: sum.splits option.splits)

lemmas matcher_constructors =
  construct_all_Inr [where f = "make_or_throw _", OF make_or_throw_Inr] construct_all_Inr [where f = "make_cookie _", OF make_cookie_Inr]

lemma CommonMatcher_Inr: "CommonMatcher M p = Inr ms \<longleftrightarrow> matcher_valid M p \<and> ms = matchers_of p"
  by (cases "cm_path p")
     (auto simp: CommonMatcher_def Let_def append_made_Inr map_sum_Inr matcher_constructors matcher_valid_def matchers_of_def)

section \<open>Specification\<close>

definition request_path :: "('h, 'hm, 'qm, 'sm) matcher_env \<Rightarrow> 'h \<Rightarrow> bool \<Rightarrow> string" where
  "request_path M h typed = (if typed then remove_query M (getPathValue M h) else '''')"

definition request_parameters :: "('h, 'hm, 'qm, 'sm) matcher_env \<Rightarrow> 'h \<Rightarrow> bool \<Rightarrow> (string \<times> string) list" where
  "request_parameters M h typed = (if typed then parse_query M (getPathValue M h) else [])"

definition cookie_holds :: "('sm \<Rightarrow> string \<Rightarrow> bool) \<Rightarrow> (string \<times> string) list \<Rightarrow> string \<times> 'sm option \<Rightarrow> bool" where
  "cookie_holds sm cookies m \<longleftrightarrow>
     (case map_of cookies (fst m) of None \<Rightarrow> False | Some v \<Rightarrow> (case snd m of None \<Rightarrow> True | Some s \<Rightarrow> sm s v))"

definition common_matches ::
    "('h, 'hm, 'qm, 'sm) matcher_env \<Rightarrow> ('hm, 'qm, 'sm) common_matcher_proto \<Rightarrow> 'h \<Rightarrow> bool \<Rightarrow> bool" where
  "common_matches M p h typed \<longleftrightarrow>
     (\<forall>s. cm_path p = Some s \<longrightarrow> string_match M s (request_path M h typed)) \<and>
     (cm_headers p \<noteq> [] \<longrightarrow> matchHeaders M h (cm_headers p)) \<and>
     (cm_parameters p \<noteq> [] \<longrightarrow> matchQueryParams M (request_parameters M h typed) (cm_parameters p)) \<and>
     (\<forall>m \<in> set (cm_cookies p). cookie_holds (string_match M) (parseCookies M h) m)"

text \<open>What a context has kept is what it would compute now.\<close>

definition ctx_ok :: "('h, 'hm, 'qm, 'sm) matcher_env \<Rightarrow> 'h \<Rightarrow> bool \<Rightarrow> 'h matcher_context \<Rightarrow> bool" where
  "ctx_ok M h typed c \<longleftrightarrow>
     ctx_headers c = h \<and> ctx_typed c = typed \<and> ctx_path c \<in> {'''', request_path M h typed} \<and>
     ctx_parameters c \<in> {None, Some (request_parameters M h typed)} \<and>
     ctx_cookies c \<in> {None, Some (parseCookies M h)}"

lemma ctx_ok_new [simp]: "ctx_ok M h typed (HttpCommonMatcherContext h typed)"
  by (simp add: ctx_ok_def HttpCommonMatcherContext_def)

lemma getPath_ok: "ctx_ok M h typed c \<Longrightarrow> \<exists>c'. getPath M c = (request_path M h typed, c') \<and> ctx_ok M h typed c'"
  by (auto simp: getPath_def ctx_ok_def request_path_def Let_def)

lemma getQueryParams_ok:
  "ctx_ok M h typed c \<Longrightarrow> \<exists>c'. getQueryParams M c = (request_parameters M h typed, c') \<and> ctx_ok M h typed c'"
  by (auto simp: getQueryParams_def ctx_ok_def request_parameters_def Let_def)

lemma getCookies_ok: "ctx_ok M h typed c \<Longrightarrow> \<exists>c'. getCookies M c = (parseCookies M h, c') \<and> ctx_ok M h typed c'"
  by (auto simp: getCookies_def ctx_ok_def Let_def)

lemma cookies_match_iff: "cookies_match sm ms cookies \<longleftrightarrow> (\<forall>m \<in> set ms. cookie_holds sm cookies m)"
  by (induction sm ms cookies rule: cookies_match.induct) (auto simp: cookie_holds_def split: option.splits)

definition matcher_holds ::
    "('h, 'hm, 'qm, 'sm) matcher_env \<Rightarrow> 'h \<Rightarrow> bool \<Rightarrow> ('hm, 'qm, 'sm) matcher \<Rightarrow> bool" where
  "matcher_holds M h typed m \<longleftrightarrow>
     (case m of
        PathMatcher s \<Rightarrow> string_match M s (request_path M h typed)
      | HeadersMatcher hs \<Rightarrow> matchHeaders M h hs
      | ParametersMatcher qs \<Rightarrow> matchQueryParams M (request_parameters M h typed) qs
      | CookiesMatcher ms \<Rightarrow> (\<forall>m \<in> set ms. cookie_holds (string_match M) (parseCookies M h) m))"

lemma matcher_match_ok:
  assumes c: "ctx_ok M h typed c"
  shows "\<exists>c'. matcher_match M m c = (matcher_holds M h typed m, c') \<and> ctx_ok M h typed c'"
proof (cases m)
  case (PathMatcher s)
  from getPath_ok [OF c] PathMatcher show ?thesis by (auto simp: matcher_match_def matcher_holds_def)
next
  case (HeadersMatcher hs)
  with c show ?thesis by (simp add: matcher_match_def matcher_holds_def ctx_ok_def)
next
  case (ParametersMatcher qs)
  from getQueryParams_ok [OF c] ParametersMatcher show ?thesis by (auto simp: matcher_match_def matcher_holds_def)
next
  case (CookiesMatcher ms)
  from getCookies_ok [OF c] CookiesMatcher show ?thesis
    by (auto simp: matcher_match_def matcher_holds_def cookies_match_iff)
qed

lemma matchers_match_ok:
  "ctx_ok M h typed c \<Longrightarrow>
   \<exists>c'. CommonMatcher_match M ms c = (\<forall>m \<in> set ms. matcher_holds M h typed m, c') \<and> ctx_ok M h typed c'"
proof (induction ms arbitrary: c)
  case (Cons m ms)
  from matcher_match_ok [OF Cons.prems, of m] obtain c1
    where "matcher_match M m c = (matcher_holds M h typed m, c1)" "ctx_ok M h typed c1" by blast
  with Cons.IH [of c1] show ?case by auto
qed simp

lemma CommonMatcher_match_ok:
  assumes "ctx_ok M h typed c" and "CommonMatcher M p = Inr ms"
  shows "\<exists>c'. CommonMatcher_match M ms c = (common_matches M p h typed, c') \<and> ctx_ok M h typed c'"
proof -
  have "(\<forall>m \<in> set (matchers_of p). matcher_holds M h typed m) = common_matches M p h typed"
    by (cases "cm_path p"; cases "cm_cookies p = []") (auto simp: matchers_of_def common_matches_def matcher_holds_def)
  with assms(2) show ?thesis using matchers_match_ok [OF assms(1), of ms] by (simp add: CommonMatcher_Inr)
qed

end
