(* ===== verification/Header_Restriction.thy ===== *)
theory Header_Restriction
  imports Proxy_Matcher
begin

text \<open>
  The header restriction filter, \<^verbatim>\<open>source/filters/http/header_restriction/header_restriction.{h,cc}\<close>: a list of
  request patterns at the filter and one at the route, each a black list or a white list, decide whether a
  request passes. Strategies other than \<^verbatim>\<open>OVERRIDE\<close> merge the two lists when they are of the same kind.
\<close>

section \<open>Configuration\<close>

datatype strategy = OVERRIDE | PRIORTO

record ('hm, 'qm, 'sm) restriction_proto =
  rp_type :: list_type
  rp_list :: "('hm, 'qm, 'sm) common_matcher_proto list"

record ('hm, 'qm, 'sm) restriction_config =
  is_black_list :: bool
  hr_list :: "('hm, 'qm, 'sm) matcher list list"

definition HeaderRestrictionConfig ::
    "('h, 'hm, 'qm, 'sm) matcher_env \<Rightarrow> ('hm, 'qm, 'sm) restriction_proto \<Rightarrow> ('hm, 'qm, 'sm) restriction_config throws" where
  "HeaderRestrictionConfig M p =
     (case construct_all (CommonMatcher M) (rp_list p) of
        Inl err \<Rightarrow> Inl err
      | Inr list \<Rightarrow>
          Inr \<lparr>is_black_list = (case rp_type p of BLACK \<Rightarrow> True | WHITE \<Rightarrow> False | OtherListType \<Rightarrow> False), hr_list = list\<rparr>)"

record ('hm, 'qm, 'sm) hr_route_proto =
  hrp_config :: "('hm, 'qm, 'sm) restriction_proto"
  hrp_disabled :: bool
  hrp_strategy :: strategy

record ('hm, 'qm, 'sm) hr_route_config =
  hr_config :: "('hm, 'qm, 'sm) restriction_config"
  hr_disabled :: bool
  hr_strategy :: strategy

definition RouteConfig ::
    "('h, 'hm, 'qm, 'sm) matcher_env \<Rightarrow> ('hm, 'qm, 'sm) hr_route_proto \<Rightarrow> ('hm, 'qm, 'sm) hr_route_config throws" where
  "RouteConfig M p =
     (case HeaderRestrictionConfig M (hrp_config p) of
        Inl err \<Rightarrow> Inl err
      | Inr config \<Rightarrow> Inr \<lparr>hr_config = config, hr_disabled = hrp_disabled p, hr_strategy = hrp_strategy p\<rparr>)"

section \<open>The filter\<close>

text \<open>The loop over a list: whether some item matches, and the context after it.\<close>

fun any_match ::
    "('h, 'hm, 'qm, 'sm) matcher_env \<Rightarrow> ('hm, 'qm, 'sm) matcher list list \<Rightarrow> 'h matcher_context \<Rightarrow> bool \<times> 'h matcher_context" where
  "any_match M [] c = (False, c)"
| "any_match M (item # items) c =
     (let (ok, c') = CommonMatcher_match M item c in if ok then (True, c') else any_match M items c')"

definition denied_reply :: callback where
  "denied_reply =
     SendLocalReply 403 ''Your request is not allowed.'' [AddReference ''x-header-restriction-denied'' ''true'']
       ''forbidden_by_header_restriction''"

text \<open>
  \<open>common\<close> is the configuration of the filter, \<open>route\<close> the most specific configuration of the route, if any.
\<close>

definition hr_decodeHeaders ::
    "('h, 'hm, 'qm, 'sm) matcher_env \<Rightarrow> ('hm, 'qm, 'sm) restriction_config \<Rightarrow> ('hm, 'qm, 'sm) hr_route_config option \<Rightarrow>
     'h \<Rightarrow> headers_status \<times> callback list" where
  "hr_decodeHeaders M common route h =
     (if (case route of Some r \<Rightarrow> hr_disabled r | None \<Rightarrow> False) then (Continue, [])
      else
        let override_common =
              (case route of
                 Some r \<Rightarrow> hr_strategy r = OVERRIDE \<or> is_black_list (hr_config r) \<noteq> is_black_list common
               | None \<Rightarrow> False);
            is_white_list = (case route of Some r \<Rightarrow> \<not> is_black_list (hr_config r) | None \<Rightarrow> \<not> is_black_list common);
            (route_hit, c1) =
              (case route of
                 Some r \<Rightarrow> any_match M (hr_list (hr_config r)) (HttpCommonMatcherContext h True)
               | None \<Rightarrow> (False, HttpCommonMatcherContext h True))
        in if route_hit \<and> is_white_list then (Continue, [])
           else let (common_hit, c2) =
                      (if \<not> route_hit \<and> \<not> override_common then any_match M (hr_list common) c1 else (False, c1))
                in if common_hit \<and> is_white_list then (Continue, [])
                   else let denied = (route_hit \<or> common_hit \<or> is_white_list)
                        in if \<not> denied then (Continue, []) else (StopIteration, [denied_reply]))"

section \<open>Specification\<close>

text \<open>The lists that apply to a request, and whether they are white lists.\<close>

definition effective_list ::
    "('hm, 'qm, 'sm) restriction_proto \<Rightarrow> ('hm, 'qm, 'sm) hr_route_proto option \<Rightarrow> ('hm, 'qm, 'sm) common_matcher_proto list" where
  "effective_list p route =
     (case route of
        None \<Rightarrow> rp_list p
      | Some r \<Rightarrow>
          rp_list (hrp_config r)
          @ (if hrp_strategy r = PRIORTO \<and> (rp_type (hrp_config r) = BLACK) = (rp_type p = BLACK) then rp_list p else []))"

definition effective_white ::
    "('hm, 'qm, 'sm) restriction_proto \<Rightarrow> ('hm, 'qm, 'sm) hr_route_proto option \<Rightarrow> bool" where
  "effective_white p route = (rp_type (case route of None \<Rightarrow> p | Some r \<Rightarrow> hrp_config r) \<noteq> BLACK)"

lemma any_match_ok:
  "ctx_ok M h True c \<Longrightarrow> construct_all (CommonMatcher M) ps = Inr ms \<Longrightarrow>
   \<exists>c'. any_match M ms c = (\<exists>p \<in> set ps. common_matches M p h True, c') \<and> ctx_ok M h True c'"
proof (induction ps arbitrary: c ms)
  case (Cons p ps)
  from Cons.prems(2) obtain m ms' where ms: "CommonMatcher M p = Inr m" "construct_all (CommonMatcher M) ps = Inr ms'" "ms = m # ms'"
    by (auto split: sum.splits)
  from CommonMatcher_match_ok [OF Cons.prems(1) ms(1)] obtain c1
    where "CommonMatcher_match M m c = (common_matches M p h True, c1)" "ctx_ok M h True c1" by blast
  with Cons.IH [OF _ ms(2), of c1] ms(3) show ?case by auto
qed simp

lemma HeaderRestrictionConfigD:
  assumes "HeaderRestrictionConfig M p = Inr c"
  shows "is_black_list c \<longleftrightarrow> rp_type p = BLACK" and "construct_all (CommonMatcher M) (rp_list p) = Inr (hr_list c)"
  using assms by (auto simp: HeaderRestrictionConfig_def split: sum.splits list_type.splits)

lemma RouteConfigD:
  assumes "RouteConfig M p = Inr r"
  shows "HeaderRestrictionConfig M (hrp_config p) = Inr (hr_config r)" and "hr_disabled r = hrp_disabled p"
    and "hr_strategy r = hrp_strategy p"
  using assms by (auto simp: RouteConfig_def split: sum.splits)

section \<open>Properties\<close>

text \<open>A list is accepted exactly if every matcher of every entry can be made.\<close>

lemma restriction_accepted: "(\<exists>c. HeaderRestrictionConfig M p = Inr c) \<longleftrightarrow> (\<forall>e \<in> set (rp_list p). matcher_valid M e)"
  using construct_all_ok [of "CommonMatcher M" "rp_list p"]
  by (auto simp: HeaderRestrictionConfig_def CommonMatcher_Inr split: sum.splits)

text \<open>
  The decision of the filter. A request passes if the route disables the filter; otherwise it is
  answered with 403, and with nothing else, exactly when it matches some entry of a black list or no entry
  of a white list, where the entries are those of the route, followed by those of the filter if there is no
  route configuration or it asks to merge and both lists are of the same kind. The values that the matching
  context keeps between entries do not change the decision.
\<close>

theorem header_restriction_decision:
  assumes p: "HeaderRestrictionConfig M p = Inr common"
    and r: "rel_option (\<lambda>rp rc. RouteConfig M rp = Inr rc) route rc"
  shows "hr_decodeHeaders M common rc h =
     (if (case route of Some r \<Rightarrow> hrp_disabled r | None \<Rightarrow> False) then (Continue, [])
      else if (\<exists>e \<in> set (effective_list p route). common_matches M e h True) = effective_white p route
      then (Continue, [])
      else (StopIteration, [denied_reply]))"
proof (cases route)
  case None
  with r have [simp]: "rc = None" by simp
  obtain c1 where "any_match M (hr_list common) (HttpCommonMatcherContext h True) =
       (\<exists>e \<in> set (rp_list p). common_matches M e h True, c1)"
    using any_match_ok [OF ctx_ok_new HeaderRestrictionConfigD(2) [OF p]] by blast
  with None show ?thesis
    by (simp add: hr_decodeHeaders_def effective_list_def effective_white_def Let_def HeaderRestrictionConfigD(1) [OF p])
next
  case (Some rp)
  with r obtain rc' where rc: "rc = Some rc'" "RouteConfig M rp = Inr rc'" by (cases rc) auto
  note rp = RouteConfigD [OF rc(2)] and rl = HeaderRestrictionConfigD [OF RouteConfigD(1) [OF rc(2)]]
  obtain c1 where c1: "ctx_ok M h True c1"
    "any_match M (hr_list (hr_config rc')) (HttpCommonMatcherContext h True) =
       (\<exists>e \<in> set (rp_list (hrp_config rp)). common_matches M e h True, c1)"
    using any_match_ok [OF ctx_ok_new rl(2)] by blast
  obtain c2 where c2: "any_match M (hr_list common) c1 = (\<exists>e \<in> set (rp_list p). common_matches M e h True, c2)"
    using any_match_ok [OF c1(1) HeaderRestrictionConfigD(2) [OF p]] by blast
  have s: "hrp_strategy rp = PRIORTO \<longleftrightarrow> hrp_strategy rp \<noteq> OVERRIDE" by (cases "hrp_strategy rp") auto
  from c1(2) c2 Some rc(1) show ?thesis
    by (simp add: hr_decodeHeaders_def effective_list_def effective_white_def Let_def s bex_Un rp(2,3) rl(1)
        HeaderRestrictionConfigD(1) [OF p]) blast
qed

end
