(* ===== verification/Regex.thy ===== *)
theory Regex
  imports Prelude
begin

text \<open>
  The fragment of \<^verbatim>\<open>std::regex\<close> (ECMAScript) that the fixed patterns of the repository use: classes of
  characters, sequences, alternatives, options and bounded repetitions. \<open>regex_match\<close> is
  \<^verbatim>\<open>std::regex_match\<close>: the whole text must match. Its matcher returns every rest of the text that a match of
  a prefix leaves; \<open>lang\<close> is the set of texts an expression describes, and \<open>regex_match_iff\<close> connects the two.
\<close>

datatype regex =
    Cls string
  | Seq regex regex
  | Alt regex regex
  | Opt regex
  | Rep nat regex

primrec rests :: "regex \<Rightarrow> string \<Rightarrow> string list" where
  "rests (Cls cs) s = (case s of [] \<Rightarrow> [] | c # s' \<Rightarrow> if c \<in> set cs then [s'] else [])"
| "rests (Seq a b) s = concat (map (rests b) (rests a s))"
| "rests (Alt a b) s = rests a s @ rests b s"
| "rests (Opt a) s = rests a s @ [s]"
| "rests (Rep n a) s = ((\<lambda>ss. concat (map (rests a) ss)) ^^ n) [s]"

definition regex_match :: "regex \<Rightarrow> string \<Rightarrow> bool" where
  "regex_match r s \<longleftrightarrow> [] \<in> set (rests r s)"

text \<open>Texts of one to four repetitions, \<^verbatim>\<open>{1,4}\<close>.\<close>

definition one_to_four :: "regex \<Rightarrow> regex" where
  "one_to_four a = Seq a (Opt (Seq a (Opt (Seq a (Opt a)))))"

section \<open>Languages\<close>

definition app :: "string set \<Rightarrow> string set \<Rightarrow> string set" where
  "app A B = {a @ b | a b. a \<in> A \<and> b \<in> B}"

primrec times :: "nat \<Rightarrow> string set \<Rightarrow> string set" where
  "times 0 A = {[]}"
| "times (Suc n) A = app (times n A) A"

primrec lang :: "regex \<Rightarrow> string set" where
  "lang (Cls cs) = {[c] | c. c \<in> set cs}"
| "lang (Seq a b) = app (lang a) (lang b)"
| "lang (Alt a b) = lang a \<union> lang b"
| "lang (Opt a) = lang a \<union> {[]}"
| "lang (Rep n a) = times n (lang a)"

lemma app_prefix: "(\<exists>p \<in> app A B. s = p @ t) \<longleftrightarrow> (\<exists>a \<in> A. \<exists>b \<in> B. s = a @ b @ t)"
  by (force simp: app_def)

lemma in_concat_map: "t \<in> set (concat (map f us)) \<longleftrightarrow> (\<exists>u. u \<in> set us \<and> t \<in> set (f u))"
  by auto

lemma rests_rep:
  assumes "\<And>s t. t \<in> set (f s) \<longleftrightarrow> (\<exists>p \<in> A. s = p @ t)"
  shows "t \<in> set (((\<lambda>ss. concat (map f ss)) ^^ n) [s]) \<longleftrightarrow> (\<exists>p \<in> times n A. s = p @ t)"
proof (induction n arbitrary: t)
  case (Suc n)
  have "t \<in> set (((\<lambda>ss. concat (map f ss)) ^^ Suc n) [s]) \<longleftrightarrow>
      (\<exists>u. (\<exists>p \<in> times n A. s = p @ u) \<and> (\<exists>q \<in> A. u = q @ t))"
    unfolding funpow.simps comp_apply in_concat_map Suc.IH assms ..
  then show ?case unfolding times.simps app_prefix by blast
qed auto

lemma rests_iff: "t \<in> set (rests r s) \<longleftrightarrow> (\<exists>p \<in> lang r. s = p @ t)"
proof (induction r arbitrary: s t)
  case (Seq a b)
  have "t \<in> set (rests (Seq a b) s) \<longleftrightarrow> (\<exists>u. (\<exists>p \<in> lang a. s = p @ u) \<and> (\<exists>q \<in> lang b. u = q @ t))"
    unfolding rests.simps in_concat_map Seq.IH ..
  then show ?case unfolding lang.simps app_prefix by blast
next
  case (Rep n a)
  from rests_rep [OF Rep.IH] show ?case by simp
qed (auto split: list.splits)

lemma regex_match_iff: "regex_match r s \<longleftrightarrow> s \<in> lang r"
  by (simp add: regex_match_def rests_iff)

lemma app_iff: "s \<in> app A B \<longleftrightarrow> (\<exists>a b. s = a @ b \<and> a \<in> A \<and> b \<in> B)"
  by (auto simp: app_def)

text \<open>The characters of the texts of a language.\<close>

primrec letters :: "regex \<Rightarrow> char set" where
  "letters (Cls cs) = set cs"
| "letters (Seq a b) = letters a \<union> letters b"
| "letters (Alt a b) = letters a \<union> letters b"
| "letters (Opt a) = letters a"
| "letters (Rep n a) = letters a"

lemma lang_letters: "s \<in> lang r \<Longrightarrow> set s \<subseteq> letters r"
proof (induction r arbitrary: s)
  case (Rep n a)
  have "set s \<subseteq> letters a" if "s \<in> times n (lang a)" for s n
    using that
  proof (induction n arbitrary: s)
    case (Suc n)
    then obtain u v where "s = u @ v" "u \<in> times n (lang a)" "v \<in> lang a" by (auto simp: app_iff)
    with Suc.IH [of u] Rep.IH [of v] show ?case by simp
  qed simp
  with Rep.prems show ?case by auto
qed (fastforce simp: app_iff)+

section \<open>Joined texts\<close>

text \<open>The texts \<open>ps\<close> with the separator \<open>c\<close> between them.\<close>

definition join :: "char \<Rightarrow> string list \<Rightarrow> string" where
  "join c ps = concat (map (\<lambda>p. p @ [c]) (butlast ps)) @ last ps"

lemma times_iff: "s \<in> times n A \<longleftrightarrow> (\<exists>ps. length ps = n \<and> set ps \<subseteq> A \<and> s = concat ps)"
proof (induction n arbitrary: s)
  case (Suc n)
  have "s \<in> times (Suc n) A \<longleftrightarrow> (\<exists>ps p. length ps = n \<and> set ps \<subseteq> A \<and> p \<in> A \<and> s = concat ps @ p)"
    by (auto simp: app_iff Suc.IH)
  also have "\<dots> \<longleftrightarrow> (\<exists>ps. length ps = Suc n \<and> set ps \<subseteq> A \<and> s = concat ps)"
  proof
    assume "\<exists>ps p. length ps = n \<and> set ps \<subseteq> A \<and> p \<in> A \<and> s = concat ps @ p"
    then obtain ps p where "length ps = n \<and> set ps \<subseteq> A \<and> p \<in> A \<and> s = concat ps @ p" by blast
    then show "\<exists>ps. length ps = Suc n \<and> set ps \<subseteq> A \<and> s = concat ps" by (intro exI [of _ "ps @ [p]"]) simp
  next
    assume "\<exists>ps. length ps = Suc n \<and> set ps \<subseteq> A \<and> s = concat ps"
    then obtain ps where ps: "length ps = Suc n" "set ps \<subseteq> A" "s = concat ps" by blast
    then have "ps \<noteq> []" by auto
    then obtain qs p where "ps = qs @ [p]" by (metis rev_exhaust)
    with ps show "\<exists>ps p. length ps = n \<and> set ps \<subseteq> A \<and> p \<in> A \<and> s = concat ps @ p" by auto
  qed
  finally show ?case .
qed simp

lemma ends_with_list: "set ps \<subseteq> app A {[c]} \<longleftrightarrow> (\<exists>qs. set qs \<subseteq> A \<and> ps = map (\<lambda>q. q @ [c]) qs)"
proof -
  have "app A {[c]} = (\<lambda>q. q @ [c]) ` A" by (auto simp: app_iff)
  then have "set ps \<subseteq> app A {[c]} \<longleftrightarrow> ps \<in> map (\<lambda>q. q @ [c]) ` lists A"
    unfolding lists_image [symmetric] in_lists_conv_set subset_iff by blast
  then show ?thesis by (auto simp: in_lists_conv_set subset_iff)
qed

text \<open>A pattern followed by a separator, repeated, and then the pattern once more.\<close>

lemma lang_join:
  "s \<in> lang (Seq (Rep n (Seq r (Cls [c]))) r) \<longleftrightarrow> (\<exists>ps. length ps = Suc n \<and> set ps \<subseteq> lang r \<and> s = join c ps)"
proof -
  have c: "lang (Cls [c]) = {[c]}" by auto
  have *: "u \<in> times n (app (lang r) {[c]}) \<longleftrightarrow> (\<exists>qs. length qs = n \<and> set qs \<subseteq> lang r \<and> u = concat (map (\<lambda>q. q @ [c]) qs))" for u
    unfolding times_iff ends_with_list by (intro iffI; elim exE conjE; intro exI conjI) auto
  have "s \<in> lang (Seq (Rep n (Seq r (Cls [c]))) r) \<longleftrightarrow>
      (\<exists>qs p. length qs = n \<and> set qs \<subseteq> lang r \<and> p \<in> lang r \<and> s = concat (map (\<lambda>q. q @ [c]) qs) @ p)"
    unfolding lang.simps(2,5) c app_iff [of s] * by blast
  also have "\<dots> \<longleftrightarrow> (\<exists>ps. length ps = Suc n \<and> set ps \<subseteq> lang r \<and> s = join c ps)"
  proof
    assume "\<exists>qs p. length qs = n \<and> set qs \<subseteq> lang r \<and> p \<in> lang r \<and> s = concat (map (\<lambda>q. q @ [c]) qs) @ p"
    then obtain qs p where "length qs = n \<and> set qs \<subseteq> lang r \<and> p \<in> lang r \<and> s = concat (map (\<lambda>q. q @ [c]) qs) @ p" by blast
    then show "\<exists>ps. length ps = Suc n \<and> set ps \<subseteq> lang r \<and> s = join c ps"
      by (intro exI [of _ "qs @ [p]"]) (simp add: join_def)
  next
    assume "\<exists>ps. length ps = Suc n \<and> set ps \<subseteq> lang r \<and> s = join c ps"
    then obtain ps where ps: "length ps = Suc n" "set ps \<subseteq> lang r" "s = join c ps" by blast
    then have "ps \<noteq> []" by auto
    then obtain qs p where "ps = qs @ [p]" by (metis rev_exhaust)
    with ps show "\<exists>qs p. length qs = n \<and> set qs \<subseteq> lang r \<and> p \<in> lang r \<and> s = concat (map (\<lambda>q. q @ [c]) qs) @ p"
      by (intro exI [of _ qs] exI [of _ p]) (simp add: join_def)
  qed
  finally show ?thesis .
qed

lemma app_Cls [simp]:
  "c # t \<in> app {[c] | c. c \<in> S} X \<longleftrightarrow> c \<in> S \<and> t \<in> X" "[] \<notin> app {[c] | c. c \<in> S} X"
proof -
  have "(\<exists>a b. c # t = a @ b \<and> a \<in> {[c] | c. c \<in> S} \<and> b \<in> X) \<longleftrightarrow> (\<exists>a b. a \<in> S \<and> c = a \<and> t = b \<and> b \<in> X)"
    by (intro iffI; elim exE conjE) (auto intro: exI [of _ "[c]"])
  then show "c # t \<in> app {[c] | c. c \<in> S} X \<longleftrightarrow> c \<in> S \<and> t \<in> X" by (simp add: app_iff)
qed (simp add: app_iff)

lemma lang_one_to_four:
  "s \<in> lang (one_to_four (Cls cs)) \<longleftrightarrow> 1 \<le> length s \<and> length s \<le> 4 \<and> set s \<subseteq> set cs"
  by (cases s; cases "tl s"; cases "tl (tl s)"; cases "tl (tl (tl s))"; cases "tl (tl (tl (tl s)))")
     (simp_all add: one_to_four_def)

section \<open>Texts character by character\<close>

lemma lang_cases:
  "c # t \<in> lang (Seq (Cls cs) r) \<longleftrightarrow> c \<in> set cs \<and> t \<in> lang r" "[] \<notin> lang (Seq (Cls cs) r)"
  "c # t \<in> lang (Cls cs) \<longleftrightarrow> c \<in> set cs \<and> t = []" "[] \<notin> lang (Cls cs)"
  "s \<in> lang (Opt r) \<longleftrightarrow> s \<in> lang r \<or> s = []" "s \<in> lang (Alt p q) \<longleftrightarrow> s \<in> lang p \<or> s \<in> lang q"
  "s \<in> lang (Seq (Opt p) q) \<longleftrightarrow> s \<in> lang (Seq p q) \<or> s \<in> lang q"
proof -
  show "s \<in> lang (Seq (Opt p) q) \<longleftrightarrow> s \<in> lang (Seq p q) \<or> s \<in> lang q"
    by (auto simp: app_iff)
qed (auto simp: app_Cls)

end
