(* ===== verification/Header_Map.thy ===== *)
theory Header_Map
  imports Prelude
begin

text \<open>
  The parts of Envoy and of rapidjson that the components share. Neither library is part of this
  repository, so the operations are parameters of the model, and what the code relies on is a named
  hypothesis.

  \<^item> \<open>header_map_ops\<close>: the methods of \<^verbatim>\<open>Http::HeaderMap\<close>, with \<open>header_map_laws\<close> their documented
    behaviour. \<open>inl\<close> are the names with an inline slot, which hold one value; \<open>valid\<close> is what Envoy's
    header strings guarantee (lower case names, no NUL characters).
  \<^item> \<open>json\<close>: a parsed document, and \<open>json_event\<close> the calls made on a JSON writer; \<open>json_reads_back\<close> states
    that the text the writer makes of a document is not empty and that the parser reads it back.
  \<^item> \<open>list_headers\<close> is one concrete header map, on which the laws are shown to hold.
\<close>

section \<open>Header maps\<close>

record 'h header_map_ops =
  hm_create :: 'h
  hm_copy :: "'h \<Rightarrow> 'h"
  hm_get :: "string \<Rightarrow> 'h \<Rightarrow> (string \<times> string) list"
  hm_addCopy :: "string \<Rightarrow> string \<Rightarrow> 'h \<Rightarrow> 'h"
  hm_setCopy :: "string \<Rightarrow> string \<Rightarrow> 'h \<Rightarrow> 'h"
  hm_remove :: "string \<Rightarrow> 'h \<Rightarrow> 'h"
  hm_iterate :: "'h \<Rightarrow> (string \<times> string) list"
  hm_byteSize :: "'h \<Rightarrow> u64"

definition text_ok :: "string \<Rightarrow> bool" where
  "text_ok s \<longleftrightarrow> CHR 0x00 \<notin> set s"

text \<open>\<^verbatim>\<open>std::string(p)\<close> for a C string \<open>p\<close> stops at the first NUL.\<close>

definition c_str :: "string \<Rightarrow> string" where
  "c_str s = takeWhile (\<lambda>c. c \<noteq> CHR 0x00) s"

lemma c_str_id [simp]: "text_ok s \<Longrightarrow> c_str s = s"
  by (auto simp: c_str_def text_ok_def takeWhile_eq_all_conv)

definition name_ok :: "string \<Rightarrow> bool" where
  "name_ok k \<longleftrightarrow> lower k = k \<and> text_ok k"

definition header_map_laws :: "'h header_map_ops \<Rightarrow> (string \<Rightarrow> bool) \<Rightarrow> ('h \<Rightarrow> bool) \<Rightarrow> bool" where
  "header_map_laws H inl valid \<longleftrightarrow>
     valid (hm_create H) \<and> hm_iterate H (hm_create H) = [] \<and>
     (\<forall>h. hm_iterate H (hm_copy H h) = hm_iterate H h) \<and>
     (\<forall>h k. hm_get H k h = filter (\<lambda>e. fst e = k) (hm_iterate H h)) \<and>
     (\<forall>h. valid h \<longrightarrow> (\<forall>e\<in>set (hm_iterate H h). name_ok (fst e) \<and> text_ok (snd e)) \<and>
        (\<forall>k. inl k \<longrightarrow> length (hm_get H k h) \<le> 1)) \<and>
     (\<forall>h k v. valid h \<and> name_ok k \<and> text_ok v \<longrightarrow>
        valid (hm_addCopy H k v h) \<and> valid (hm_setCopy H k v h) \<and> valid (hm_remove H k h)) \<and>
     (\<forall>h k k' v. \<not> inl k \<or> hm_get H k h = [] \<longrightarrow>
        hm_get H k' (hm_addCopy H k v h) = (if k' = k then hm_get H k h @ [(k, v)] else hm_get H k' h)) \<and>
     (\<forall>h k k' v. hm_get H k' (hm_setCopy H k v h) = (if k' = k then [(k, v)] else hm_get H k' h)) \<and>
     (\<forall>h k k'. hm_get H k' (hm_remove H k h) = (if k' = k then [] else hm_get H k' h)) \<and>
     (\<forall>h k k' v. k' \<noteq> k \<longrightarrow> hm_get H k' (hm_addCopy H k v h) = hm_get H k' h)"

lemma header_map_lawsD:
  assumes "header_map_laws H inl valid"
  shows "valid (hm_create H)" and "hm_iterate H (hm_create H) = []"
    and "hm_get H k h = filter (\<lambda>e. fst e = k) (hm_iterate H h)"
    and "valid h \<Longrightarrow> e \<in> set (hm_iterate H h) \<Longrightarrow> name_ok (fst e) \<and> text_ok (snd e)"
    and "valid h \<Longrightarrow> inl k \<Longrightarrow> length (hm_get H k h) \<le> 1"
    and "\<not> inl k \<or> hm_get H k h = [] \<Longrightarrow>
      hm_get H k' (hm_addCopy H k v h) = (if k' = k then hm_get H k h @ [(k, v)] else hm_get H k' h)"
    and "hm_get H k' (hm_setCopy H k v h) = (if k' = k then [(k, v)] else hm_get H k' h)"
    and "hm_get H k' (hm_remove H k h) = (if k' = k then [] else hm_get H k' h)"
    and "hm_get H k (hm_copy H h) = hm_get H k h"
    and "k' \<noteq> k \<Longrightarrow> hm_get H k' (hm_addCopy H k v h) = hm_get H k' h"
proof -
  note l = assms [unfolded header_map_laws_def]
  note l3 = l [THEN conjunct2, THEN conjunct2]
  note l5 = l3 [THEN conjunct2, THEN conjunct2]
  note l7 = l5 [THEN conjunct2, THEN conjunct2]
  show "valid (hm_create H)" using l by (elim conjE)
  show "hm_iterate H (hm_create H) = []" using l by (elim conjE)
  have g: "hm_get H k h = filter (\<lambda>e. fst e = k) (hm_iterate H h)" for k h
    using l3 [THEN conjunct2, THEN conjunct1] by blast
  show "hm_get H k h = filter (\<lambda>e. fst e = k) (hm_iterate H h)" by (rule g)
  show "hm_get H k (hm_copy H h) = hm_get H k h" using l3 [THEN conjunct1] by (simp add: g)
  show "valid h \<Longrightarrow> e \<in> set (hm_iterate H h) \<Longrightarrow> name_ok (fst e) \<and> text_ok (snd e)"
    "valid h \<Longrightarrow> inl k \<Longrightarrow> length (hm_get H k h) \<le> 1"
    using l5 [THEN conjunct1] by blast+
  show "\<not> inl k \<or> hm_get H k h = [] \<Longrightarrow>
      hm_get H k' (hm_addCopy H k v h) = (if k' = k then hm_get H k h @ [(k, v)] else hm_get H k' h)"
    using l7 [THEN conjunct1] by blast
  show "hm_get H k' (hm_setCopy H k v h) = (if k' = k then [(k, v)] else hm_get H k' h)"
    using l7 [THEN conjunct2, THEN conjunct1] by blast
  show "hm_get H k' (hm_remove H k h) = (if k' = k then [] else hm_get H k' h)"
    using l7 [THEN conjunct2, THEN conjunct2, THEN conjunct1] by blast
  show "k' \<noteq> k \<Longrightarrow> hm_get H k' (hm_addCopy H k v h) = hm_get H k' h"
    using l7 [THEN conjunct2, THEN conjunct2, THEN conjunct2] by blast
qed

text \<open>Copying the entries of a header map one by one into a new map gives every name its values.\<close>

lemma get_fold_addCopy:
  assumes H: "header_map_laws H inl valid"
    and inl: "\<And>k. inl k \<Longrightarrow> length (filter (\<lambda>e. fst e = k) es) \<le> 1"
  shows "hm_get H k (fold (\<lambda>(n, v). hm_addCopy H n v) es (hm_create H)) = filter (\<lambda>e. fst e = k) es"
  using inl
proof (induction es arbitrary: k rule: rev_induct)
  case Nil
  show ?case using header_map_lawsD(2,3) [OF H] by simp
next
  case (snoc e es)
  obtain n v where e: "e = (n, v)" by (cases e)
  have "length (filter (\<lambda>e. fst e = k) es) \<le> 1" if "inl k" for k
    using snoc.prems [OF that] by (simp split: if_splits)
  note IH = snoc.IH [OF this]
  have "\<not> inl n \<or> filter (\<lambda>e. fst e = n) es = []"
    using snoc.prems [of n] by (auto simp: e)
  then have "\<not> inl n \<or> hm_get H n (fold (\<lambda>(n, v). hm_addCopy H n v) es (hm_create H)) = []"
    by (simp add: IH)
  from header_map_lawsD(6) [OF H this] show ?case by (simp add: e IH)
qed

subsection \<open>A concrete header map\<close>

definition list_headers :: "(string \<times> string) list header_map_ops" where
  "list_headers =
     \<lparr>hm_create = [], hm_copy = \<lambda>h. h, hm_get = \<lambda>k h. filter (\<lambda>e. fst e = k) h,
      hm_addCopy = \<lambda>k v h. h @ [(k, v)],
      hm_setCopy = \<lambda>k v h. filter (\<lambda>e. fst e \<noteq> k) h @ [(k, v)],
      hm_remove = \<lambda>k h. filter (\<lambda>e. fst e \<noteq> k) h,
      hm_iterate = \<lambda>h. h,
      hm_byteSize = \<lambda>h. of_nat (sum_list (map (\<lambda>e. length (fst e) + length (snd e)) h))\<rparr>"

lemma list_headers_laws:
  "header_map_laws list_headers (\<lambda>k. False) (\<lambda>h. \<forall>e\<in>set h. name_ok (fst e) \<and> text_ok (snd e))"
  by (auto simp: header_map_laws_def list_headers_def intro: filter_cong)

section \<open>JSON\<close>

text \<open>
  \<open>JInt\<close> and \<open>JDouble\<close> are the number types of rapidjson: an integral token that fits 64 bits, signed or
  unsigned, and every other number.
\<close>

datatype json =
    JNull
  | JBool bool
  | JInt int
  | JDouble real
  | JString string
  | JArray "json list"
  | JObject "(string \<times> json) list"

datatype json_event =
    WNull
  | WBool bool
  | WInt64 int
  | WDouble real
  | WKey string
  | WString string
  | WRaw string
  | StartArray
  | EndArray
  | StartObject
  | EndObject

fun json_events :: "json \<Rightarrow> json_event list" where
  "json_events JNull = [WNull]"
| "json_events (JBool b) = [WBool b]"
| "json_events (JInt i) = [WInt64 i]"
| "json_events (JDouble d) = [WDouble d]"
| "json_events (JString s) = [WString s]"
| "json_events (JArray vs) = [StartArray] @ concat (map json_events vs) @ [EndArray]"
| "json_events (JObject ms) = [StartObject] @ concat (map (\<lambda>(k, v). WKey k # json_events v) ms) @ [EndObject]"

definition json_reads_back :: "(json_event list \<Rightarrow> string) \<Rightarrow> (string \<Rightarrow> json option) \<Rightarrow> json \<Rightarrow> bool" where
  "json_reads_back render parse v \<longleftrightarrow>
     render (json_events v) \<noteq> '''' \<and> parse (render (json_events v)) = Some v"

text \<open>\<^verbatim>\<open>doc.HasMember(name)\<close> and \<^verbatim>\<open>doc[name]\<close> on an object: the first member of that name.\<close>

definition json_member :: "string \<Rightarrow> json \<Rightarrow> json option" where
  "json_member name v = (case v of JObject ms \<Rightarrow> map_of ms name | _ \<Rightarrow> None)"

end
