(* ===== verification/Ip_Restriction.thy ===== *)
theory Ip_Restriction
  imports Regex Header_Map
begin

text \<open>
  The IP restriction filter, \<^verbatim>\<open>source/filters/http/ip_restriction/ip_restriction.{h,cc}\<close>: a black list or white
  list of addresses and ranges for a route, with the fixed patterns that decide what an entry of the list is.

  \<^item> Addresses are words. The parsers and the ranges of Envoy are the parameter \<open>ip_env\<close>; parsing may throw.
  \<^item> \<^verbatim>\<open>isBlackList_\<close> has no initial value in the code: what it holds for a list type that the constructor does
    not know is the argument \<open>garbage\<close>.
\<close>

section \<open>What an entry is\<close>

abbreviation digit_class :: regex where "digit_class \<equiv> Cls ''0123456789''"
abbreviation hex_class :: regex where "hex_class \<equiv> Cls ''0123456789abcdefABCDEF''"

definition octet_regex :: regex where
  "octet_regex =
     Alt (Seq (Cls ''2'') (Seq (Cls ''5'') (Cls ''012345'')))
       (Alt (Seq (Cls ''2'') (Seq (Cls ''01234'') digit_class))
            (Seq (Opt (Cls ''01'')) (Seq digit_class (Opt digit_class))))"

definition REGEXIPV4 :: regex where
  "REGEXIPV4 = Seq (Rep 3 (Seq octet_regex (Cls ''.''))) octet_regex"

definition REGEXIPV6 :: regex where
  "REGEXIPV6 = Seq (Rep 7 (Seq (one_to_four hex_class) (Cls '':''))) (one_to_four hex_class)"

definition IPV4WITHCIDR :: regex where
  "IPV4WITHCIDR =
     Seq REGEXIPV4 (Seq (Cls ''/'')
       (Alt (Seq (Cls ''3'') (Cls ''01'')) (Alt (Seq (Cls ''12'') digit_class) digit_class)))"

definition IPV6WITHCIDR :: regex where
  "IPV6WITHCIDR =
     Seq REGEXIPV6 (Seq (Cls ''/'')
       (Alt (Seq (Cls ''1'') (Seq (Cls ''012'') (Cls ''01234567'')))
            (Alt (Seq (Cls ''123456789'') digit_class) digit_class)))"

datatype ip_type = RAWIPV4 | RAWIPV6 | CIDRV4 | CIDRV6 | NONE

definition parseIpType :: "string \<Rightarrow> ip_type" where
  "parseIpType entry =
     (if regex_match REGEXIPV4 entry then RAWIPV4
      else if regex_match IPV4WITHCIDR entry then CIDRV4
      else if regex_match REGEXIPV6 entry then RAWIPV6
      else if regex_match IPV6WITHCIDR entry then CIDRV6
      else NONE)"

section \<open>Lists\<close>

type_synonym v6 = "128 word"

datatype address = V4 u32 | V6 v6 | NotIp

record ip_env =
  Ipv4Instance :: "string \<Rightarrow> u32 throws"
  Ipv6Instance :: "string \<Rightarrow> v6 throws"
  addressAsString :: "v6 \<Rightarrow> string"
  isInRange4 :: "u32 \<Rightarrow> nat \<Rightarrow> u32 \<Rightarrow> bool"
  isInRange6 :: "v6 \<Rightarrow> nat \<Rightarrow> v6 \<Rightarrow> bool"
  parseInternetAddress :: "string \<Rightarrow> address throws"

record ip_list =
  isBlackList :: bool
  rawIpV4 :: "u32 list"
  rawIpV6 :: "string list"
  cidrIpV4 :: "(u32 \<times> nat) list"
  cidrIpV6 :: "(v6 \<times> nat) list"

text \<open>\<^verbatim>\<open>find_last_of("/")\<close> with the two \<^verbatim>\<open>substr\<close> around it, and \<^verbatim>\<open>std::stoi\<close> of a text of digits.\<close>

definition after_slash :: "string \<Rightarrow> string" where
  "after_slash s = rev (takeWhile (\<lambda>c. c \<noteq> CHR ''/'') (rev s))"

definition before_slash :: "string \<Rightarrow> string" where
  "before_slash s = take (length s - length (after_slash s) - 1) s"

definition stoi :: "string \<Rightarrow> nat" where
  "stoi s = foldl (\<lambda>n c. 10 * n + (of_char c - 48)) 0 s"

definition parseIpEntry :: "ip_env \<Rightarrow> string \<Rightarrow> ip_list \<Rightarrow> ip_list throws" where
  "parseIpEntry E entry l =
     (if entry = '''' then Inr l
      else case parseIpType entry of
        RAWIPV4 \<Rightarrow>
          (case Ipv4Instance E entry of Inl err \<Rightarrow> Inl err | Inr a \<Rightarrow> Inr (l\<lparr>rawIpV4 := List.insert a (rawIpV4 l)\<rparr>))
      | RAWIPV6 \<Rightarrow>
          (case Ipv6Instance E entry of
             Inl err \<Rightarrow> Inl err
           | Inr a \<Rightarrow> Inr (l\<lparr>rawIpV6 := List.insert (addressAsString E a) (rawIpV6 l)\<rparr>))
      | CIDRV4 \<Rightarrow>
          (case Ipv4Instance E (before_slash entry) of
             Inl err \<Rightarrow> Inl err
           | Inr a \<Rightarrow> Inr (l\<lparr>cidrIpV4 := cidrIpV4 l @ [(a, stoi (after_slash entry))]\<rparr>))
      | CIDRV6 \<Rightarrow>
          (case Ipv6Instance E (before_slash entry) of
             Inl err \<Rightarrow> Inl err
           | Inr a \<Rightarrow> Inr (l\<lparr>cidrIpV6 := cidrIpV6 l @ [(a, stoi (after_slash entry))]\<rparr>))
      | NONE \<Rightarrow> Inr l)"

fun parse_entries :: "ip_env \<Rightarrow> string list \<Rightarrow> ip_list \<Rightarrow> ip_list throws" where
  "parse_entries E [] l = Inr l"
| "parse_entries E (e # es) l = (case parseIpEntry E e l of Inl err \<Rightarrow> Inl err | Inr l' \<Rightarrow> parse_entries E es l')"

definition BlackOrWhiteListConfig :: "ip_env \<Rightarrow> bool \<Rightarrow> list_type \<Rightarrow> string list \<Rightarrow> ip_list throws" where
  "BlackOrWhiteListConfig E garbage type entries =
     parse_entries E entries
       \<lparr>isBlackList = (case type of BLACK \<Rightarrow> True | WHITE \<Rightarrow> False | OtherListType \<Rightarrow> garbage),
        rawIpV4 = [], rawIpV6 = [], cidrIpV4 = [], cidrIpV6 = []\<rparr>"

definition checkIpEntry :: "ip_env \<Rightarrow> ip_list \<Rightarrow> address \<Rightarrow> bool" where
  "checkIpEntry E l a =
     (case a of
        V4 w \<Rightarrow> (if w \<in> set (rawIpV4 l) then True else list_ex (\<lambda>(b, n). isInRange4 E b n w) (cidrIpV4 l))
      | V6 w \<Rightarrow>
          (if addressAsString E w \<in> set (rawIpV6 l) then True
           else list_ex (\<lambda>(b, n). isInRange6 E b n w) (cidrIpV6 l))
      | NotIp \<Rightarrow> False)"

definition isAllowed :: "ip_env \<Rightarrow> ip_list \<Rightarrow> address \<Rightarrow> bool" where
  "isAllowed E l a =
     (let result = checkIpEntry E l a in (result \<and> \<not> isBlackList l) \<or> (\<not> result \<and> isBlackList l))"

section \<open>The filter\<close>

record ip_stats =
  ok_count :: nat
  denied_count :: nat

definition ip_denied_reply :: callback where
  "ip_denied_reply =
     SendLocalReply 403 ''Your IP is not allowed.'' [AddReference ''x-ip-restriction-denied'' ''true'']
       ''forbidden_by_ip_restriction''"

text \<open>The address a request is judged by; \<open>None\<close> where the filter gives up and lets the request pass.\<close>

definition source_address ::
    "ip_env \<Rightarrow> 'h header_map_ops \<Rightarrow> string \<Rightarrow> address option \<Rightarrow> 'h \<Rightarrow> address option" where
  "source_address E H ip_source_header remote h =
     (case (if length ip_source_header = 0 then remote
            else case hm_get H ip_source_header h of
                   [] \<Rightarrow> None
                 | e # es \<Rightarrow> (case parseInternetAddress E (snd e) of Inl err \<Rightarrow> None | Inr a \<Rightarrow> Some a)) of
        None \<Rightarrow> None
      | Some NotIp \<Rightarrow> None
      | Some a \<Rightarrow> Some a)"

definition ip_decodeHeaders ::
    "ip_env \<Rightarrow> 'h header_map_ops \<Rightarrow> string \<Rightarrow> ip_list route \<Rightarrow> address option \<Rightarrow> 'h \<Rightarrow> ip_stats \<Rightarrow>
     headers_status \<times> callback list \<times> ip_stats" where
  "ip_decodeHeaders E H ip_source_header rt remote h st =
     (case rt of
        RouteEntry (Some listConfig) \<Rightarrow>
          (case source_address E H ip_source_header remote h of
             None \<Rightarrow> (Continue, [], st)
           | Some a \<Rightarrow>
               (if isAllowed E listConfig a then (Continue, [], st\<lparr>ok_count := ok_count st + 1\<rparr>)
                else (StopIteration, [ip_denied_reply], st\<lparr>denied_count := denied_count st + 1\<rparr>)))
      | _ \<Rightarrow> (Continue, [], st))"

section \<open>The set of addresses of a list\<close>

text \<open>What an entry of the configuration covers, read directly off its text.\<close>

definition entry_covers :: "ip_env \<Rightarrow> string \<Rightarrow> address \<Rightarrow> bool" where
  "entry_covers E entry a \<longleftrightarrow>
     (case (parseIpType entry, a) of
        (RAWIPV4, V4 w) \<Rightarrow> Ipv4Instance E entry = Inr w
      | (RAWIPV6, V6 w) \<Rightarrow> Ipv6Instance E entry = Inr w
      | (CIDRV4, V4 w) \<Rightarrow> (\<exists>b. Ipv4Instance E (before_slash entry) = Inr b \<and> isInRange4 E b (stoi (after_slash entry)) w)
      | (CIDRV6, V6 w) \<Rightarrow> (\<exists>b. Ipv6Instance E (before_slash entry) = Inr b \<and> isInRange6 E b (stoi (after_slash entry)) w)
      | _ \<Rightarrow> False)"

lemma empty_entry: "\<not> entry_covers E '''' a"
proof -
  have "parseIpType '''' = NONE" by code_simp
  then show ?thesis by (simp add: entry_covers_def)
qed

lemma parseIpEntry_covers:
  assumes "inj (addressAsString E)" and "parseIpEntry E entry l = Inr l'"
  shows "checkIpEntry E l' a \<longleftrightarrow> checkIpEntry E l a \<or> entry_covers E entry a" and "isBlackList l' = isBlackList l"
proof -
  show "isBlackList l' = isBlackList l"
    using assms(2) by (auto simp: parseIpEntry_def split: if_splits ip_type.splits sum.splits)
  show "checkIpEntry E l' a \<longleftrightarrow> checkIpEntry E l a \<or> entry_covers E entry a"
  proof (cases "entry = ''''")
    case True
    with assms(2) show ?thesis by (simp add: parseIpEntry_def empty_entry)
  next
    case False
    with assms show ?thesis
      by (cases "parseIpType entry"; cases a)
         (auto simp: parseIpEntry_def checkIpEntry_def entry_covers_def list_ex_iff inj_eq split: sum.splits)
  qed
qed

lemma parse_entries_covers:
  assumes "inj (addressAsString E)"
  shows "parse_entries E es l = Inr l' \<Longrightarrow>
    (checkIpEntry E l' a \<longleftrightarrow> checkIpEntry E l a \<or> (\<exists>e \<in> set es. entry_covers E e a)) \<and> isBlackList l' = isBlackList l"
proof (induction es arbitrary: l)
  case (Cons e es)
  then obtain l1 where l1: "parseIpEntry E e l = Inr l1" "parse_entries E es l1 = Inr l'" by (auto split: sum.splits)
  from Cons.IH [OF l1(2)] parseIpEntry_covers [OF assms l1(1)] show ?case by auto
qed simp

section \<open>Which texts are which\<close>

abbreviation dchar :: "nat \<Rightarrow> char" where "dchar n \<equiv> char_of (48 + n)"

text \<open>Numbers up to 255 in one to three digits, and texts of one to four hexadecimal digits.\<close>

definition octet :: "string \<Rightarrow> bool" where
  "octet s \<longleftrightarrow> (\<exists>k n. 1 \<le> k \<and> k \<le> 3 \<and> n < 10 ^ k \<and> n \<le> 255 \<and> s = digits k n)"

definition hex_group :: "string \<Rightarrow> bool" where
  "hex_group s \<longleftrightarrow> 1 \<le> length s \<and> length s \<le> 4 \<and> set s \<subseteq> set ''0123456789abcdefABCDEF''"

definition ipv4_text :: "string \<Rightarrow> bool" where
  "ipv4_text s \<longleftrightarrow> (\<exists>ps. length ps = 4 \<and> list_all octet ps \<and> s = join (CHR ''.'') ps)"

definition ipv6_text :: "string \<Rightarrow> bool" where
  "ipv6_text s \<longleftrightarrow> (\<exists>ps. length ps = 8 \<and> list_all hex_group ps \<and> s = join (CHR '':'') ps)"

lemma digit_chars:
  "char_of (48 :: nat) = CHR ''0''" "char_of (49 :: nat) = CHR ''1''" "char_of (50 :: nat) = CHR ''2''"
  "char_of (51 :: nat) = CHR ''3''" "char_of (52 :: nat) = CHR ''4''" "char_of (53 :: nat) = CHR ''5''"
  "char_of (54 :: nat) = CHR ''6''" "char_of (55 :: nat) = CHR ''7''" "char_of (56 :: nat) = CHR ''8''"
  "char_of (57 :: nat) = CHR ''9''"
  by (simp_all add: char_of_eq_iff)

lemma dchar_classes:
  "''0123456789'' = map dchar [0..<10]" "''012345'' = map dchar [0..<6]" "''01234'' = map dchar [0..<5]"
  "''01'' = map dchar [0..<2]" "''012'' = map dchar [0..<3]" "''01234567'' = map dchar [0..<8]"
  "''12'' = map dchar [1..<3]" "''123456789'' = map dchar [1..<10]" "''1'' = map dchar [1..<2]"
  "''2'' = map dchar [2..<3]" "''5'' = map dchar [5..<6]" "''3'' = map dchar [3..<4]"
  by (simp_all add: upt_rec digit_chars)

lemma in_dchars: "c \<in> set (map dchar [i..<j]) \<longleftrightarrow> (\<exists>n. i \<le> n \<and> n < j \<and> c = dchar n)"
  by auto

lemmas class_iffs = dchar_classes [THEN arg_cong, of set, THEN arg_cong, where f = "\<lambda>S. c \<in> S" for c, unfolded in_dchars]

lemma digits_values:
  "a < 10 \<Longrightarrow> digits 1 a = [dchar a]"
  "a < 10 \<Longrightarrow> b < 10 \<Longrightarrow> digits 2 (10 * a + b) = [dchar a, dchar b]"
  "a < 10 \<Longrightarrow> b < 10 \<Longrightarrow> c < 10 \<Longrightarrow> digits 3 (100 * a + 10 * b + c) = [dchar a, dchar b, dchar c]"
proof -
  assume a: "a < 10"
  then show "digits 1 a = [dchar a]" by simp
  assume b: "b < 10"
  from a b show "digits 2 (10 * a + b) = [dchar a, dchar b]" by (simp add: numeral_2_eq_2)
  assume c: "c < 10"
  have eq: "100 * a + 10 * b + c = c + 10 * (10 * a + b)" by simp
  have "(100 * a + 10 * b + c) div 10 = 10 * a + b" "(100 * a + 10 * b + c) mod 10 = c"
    unfolding eq using c by (simp_all only: div_mult_self2 mod_mult_self2) simp_all
  moreover have "(10 * a + b) div 10 = a" "(10 * a + b) mod 10 = b" using b by auto
  ultimately show "digits 3 (100 * a + 10 * b + c) = [dchar a, dchar b, dchar c]"
    using a by (simp add: numeral_3_eq_3)
qed

lemma decimal_values:
  "a < 10 \<Longrightarrow> decimal_nat a = [dchar a]"
  "0 < a \<Longrightarrow> a < 10 \<Longrightarrow> b < 10 \<Longrightarrow> decimal_nat (10 * a + b) = [dchar a, dchar b]"
  "0 < a \<Longrightarrow> a < 10 \<Longrightarrow> b < 10 \<Longrightarrow> c < 10 \<Longrightarrow> decimal_nat (100 * a + 10 * b + c) = [dchar a, dchar b, dchar c]"
proof -
  assume a: "a < 10"
  then show d: "decimal_nat a = [dchar a]" by (rule decimal_nat_less)
  assume a0: "0 < a" and b: "b < 10"
  have "(10 * a + b) div 10 = a" "(10 * a + b) mod 10 = b" using b by auto
  then show d2: "decimal_nat (10 * a + b) = [dchar a, dchar b]"
    using decimal_nat_step [of "10 * a + b"] a0 d by simp
  assume c: "c < 10"
  have eq: "100 * a + 10 * b + c = c + 10 * (10 * a + b)" by simp
  have "(100 * a + 10 * b + c) div 10 = 10 * a + b" "(100 * a + 10 * b + c) mod 10 = c"
    unfolding eq using c by (simp_all only: div_mult_self2 mod_mult_self2) simp_all
  then show "decimal_nat (100 * a + 10 * b + c) = [dchar a, dchar b, dchar c]"
    using decimal_nat_step [of "100 * a + 10 * b + c"] a0 d2 by simp
qed

lemma octet_lang:
  "[] \<notin> lang octet_regex"
  "[a] \<in> lang octet_regex \<longleftrightarrow> a \<in> set ''0123456789''"
  "[a, b] \<in> lang octet_regex \<longleftrightarrow> a \<in> set ''0123456789'' \<and> b \<in> set ''0123456789''"
  "[a, b, c] \<in> lang octet_regex \<longleftrightarrow>
     a \<in> set ''2'' \<and> b \<in> set ''5'' \<and> c \<in> set ''012345'' \<or> a \<in> set ''2'' \<and> b \<in> set ''01234'' \<and> c \<in> set ''0123456789'' \<or>
     a \<in> set ''01'' \<and> b \<in> set ''0123456789'' \<and> c \<in> set ''0123456789''"
  "a # b # c # d # s \<notin> lang octet_regex"
  by (auto simp: octet_regex_def lang_cases simp del: lang.simps)

lemma octetI:
  "a < 10 \<Longrightarrow> octet [dchar a]"
  "a < 10 \<Longrightarrow> b < 10 \<Longrightarrow> octet [dchar a, dchar b]"
  "a < 10 \<Longrightarrow> b < 10 \<Longrightarrow> c < 10 \<Longrightarrow> 100 * a + 10 * b + c \<le> 255 \<Longrightarrow> octet [dchar a, dchar b, dchar c]"
  unfolding octet_def
  by (rule exI [of _ 1], rule exI [of _ a], simp add: digits_values(1))
     (rule exI [of _ 2], rule exI [of _ "10 * a + b"], simp add: digits_values(2),
      rule exI [of _ 3], rule exI [of _ "100 * a + 10 * b + c"], simp add: digits_values(3))

lemma octetE:
  assumes "octet s"
  obtains a where "a < 10" "s = [dchar a]"
  | a b where "a < 10" "b < 10" "s = [dchar a, dchar b]"
  | a b c where "a < 10" "b < 10" "c < 10" "100 * a + 10 * b + c \<le> 255" "s = [dchar a, dchar b, dchar c]"
proof -
  from assms obtain k n where kn: "1 \<le> k" "k \<le> 3" "n < 10 ^ k" "n \<le> 255" "s = digits k n" by (auto simp: octet_def)
  then consider "k = 1" | "k = 2" | "k = 3" by linarith
  then show thesis
  proof cases
    case 1
    with kn show ?thesis using that(1) [of n] digits_values(1) [of n] by simp
  next
    case 2
    then have "n div 10 < 10" "n mod 10 < 10" using kn(3) by auto
    with 2 kn show ?thesis using that(2) [of "n div 10" "n mod 10"] digits_values(2) [of "n div 10" "n mod 10"] by simp
  next
    case 3
    then have b: "n div 100 < 10" "n div 10 mod 10 < 10" "n mod 10 < 10" using kn(3) by auto
    have "10 * (n div 10) + n mod 10 = n" "10 * (n div 10 div 10) + n div 10 mod 10 = n div 10" by (rule mult_div_mod_eq)+
    moreover have "n div 100 = n div 10 div 10" using div_mult2_eq [of n 10 10] by simp
    ultimately have "n = 100 * (n div 100) + 10 * (n div 10 mod 10) + n mod 10" by linarith
    with b 3 kn show ?thesis using that(3) [OF b] digits_values(3) [OF b] by simp
  qed
qed

lemma octet_iff: "s \<in> lang octet_regex \<longleftrightarrow> octet s"
proof
  assume s: "s \<in> lang octet_regex"
  then obtain a t where t: "s = a # t" by (cases s) (auto simp: octet_lang)
  show "octet s"
  proof (cases t)
    case Nil
    with s t show ?thesis by (auto simp only: octet_lang class_iffs intro: octetI)
  next
    case (Cons b u)
    note b = Cons
    show ?thesis
    proof (cases u)
      case Nil
      with s t b show ?thesis by (auto simp only: octet_lang class_iffs intro: octetI)
    next
      case (Cons c v)
      with s t b have "v = []" by (cases v) (auto simp: octet_lang)
      with s t b Cons show ?thesis
        by (auto simp only: octet_lang class_iffs intro!: octetI)
    qed
  qed
next
  assume "octet s"
  then show "s \<in> lang octet_regex"
  proof (cases rule: octetE)
    case (3 a b c)
    then consider "a < 2" | "a = 2" "b < 5" | "a = 2" "b = 5" "c < 6" by linarith
    then show ?thesis using 3 by cases (auto simp only: octet_lang class_iffs)
  qed (auto simp only: octet_lang class_iffs)
qed

lemma suffix4_lang:
  "t \<in> lang (Alt (Seq (Cls ''3'') (Cls ''01'')) (Alt (Seq (Cls ''12'') digit_class) digit_class)) \<longleftrightarrow>
   (\<exists>n \<le> 31. t = decimal_nat n)" (is "t \<in> lang ?r \<longleftrightarrow> ?R")
proof
  assume t: "t \<in> lang ?r"
  then obtain a u where a: "t = a # u" by (cases t) (auto simp: lang_cases simp del: lang.simps)
  show ?R
  proof (cases u)
    case Nil
    with t a obtain n where "n < 10" "t = [dchar n]" by (auto simp only: lang_cases class_iffs)
    then show ?thesis using decimal_values(1) [of n] by (intro exI [of _ n]) simp
  next
    case (Cons b v)
    with t a have v: "v = []" by (cases v) (auto simp: lang_cases simp del: lang.simps)
    from t a Cons v obtain i j where ij: "t = [dchar i, dchar j]" "3 \<le> i \<and> i < 4 \<and> j < 2 \<or> 1 \<le> i \<and> i < 3 \<and> j < 10"
      by (auto simp only: lang_cases class_iffs)
    then have "decimal_nat (10 * i + j) = t" using decimal_values(2) [of i j] by auto
    moreover have "10 * i + j \<le> 31" using ij(2) by auto
    ultimately show ?thesis by metis
  qed
next
  assume ?R
  then obtain n where n: "n \<le> 31" "t = decimal_nat n" by blast
  show "t \<in> lang ?r"
  proof (cases "n < 10")
    case True
    with n show ?thesis using decimal_values(1) [of n] by (auto simp only: lang_cases class_iffs)
  next
    case False
    then have b: "0 < n div 10" "n div 10 < 10" "n mod 10 < 10" using n(1) by auto
    have "3 \<le> n div 10 \<and> n div 10 < 4 \<and> n mod 10 < 2 \<or> 1 \<le> n div 10 \<and> n div 10 < 3" using n(1) False by presburger
    with decimal_values(2) [OF b] b(3) n(2) show ?thesis by (auto simp only: lang_cases class_iffs mult_div_mod_eq)
  qed
qed

abbreviation suffix6 :: regex where
  "suffix6 \<equiv> Alt (Seq (Cls ''1'') (Seq (Cls ''012'') (Cls ''01234567''))) (Alt (Seq (Cls ''123456789'') digit_class) digit_class)"

text \<open>The prefix lengths that the pattern for IPv6 ranges admits.\<close>

definition length6 :: "nat \<Rightarrow> bool" where
  "length6 n \<longleftrightarrow> n < 100 \<or> n \<le> 127 \<and> n mod 10 < 8"

lemma suffix6_lang_to:
  assumes t: "t \<in> lang suffix6"
  shows "\<exists>n. length6 n \<and> t = decimal_nat n"
proof -
  from t obtain a u where a: "t = a # u" by (cases t) (auto simp: lang_cases simp del: lang.simps)
  show ?thesis
  proof (cases u)
    case Nil
    with t a obtain n where "n < 10" "t = [dchar n]" by (auto simp only: lang_cases class_iffs)
    then show ?thesis using decimal_values(1) [of n] by (intro exI [of _ n]) (simp add: length6_def)
  next
    case (Cons b v)
    note b = Cons
    show ?thesis
    proof (cases v)
      case Nil
      with t a b obtain i j where ij: "t = [dchar i, dchar j]" "1 \<le> i" "i < 10" "j < 10"
        by (auto simp only: lang_cases class_iffs)
      then have "decimal_nat (10 * i + j) = t" using decimal_values(2) [of i j] by auto
      moreover have "length6 (10 * i + j)" using ij by (simp add: length6_def)
      ultimately show ?thesis by metis
    next
      case (Cons c w)
      with t a b have w: "w = []" by (cases w) (auto simp: lang_cases simp del: lang.simps)
      with t a b Cons obtain h i j where hij: "t = [dchar h, dchar i, dchar j]" "1 \<le> h" "h < 2" "i < 3" "j < 8"
        by (auto simp only: lang_cases class_iffs)
      then have h: "h = 1" by simp
      have "decimal_nat (100 * 1 + 10 * i + j) = t" using hij decimal_values(3) [of 1 i j] h by auto
      moreover have "(100 * 1 + 10 * i + j) mod 10 = j" using hij(5) mod_mult_self3 [of "10 + i" 10 j] by (simp add: algebra_simps)
      then have "length6 (100 * 1 + 10 * i + j)" using hij by (simp add: length6_def)
      ultimately show ?thesis by metis
    qed
  qed
qed

lemma suffix6_lang_from:
  assumes n: "length6 n"
  shows "decimal_nat n \<in> lang suffix6"
proof -
  consider "n < 10" | "10 \<le> n" "n < 100" | "100 \<le> n" "n \<le> 127" "n mod 10 < 8"
    using n unfolding length6_def by linarith
  then show ?thesis
  proof cases
    case 1
    then show ?thesis using decimal_values(1) [of n] by (auto simp only: lang_cases class_iffs)
  next
    case 2
    then have b: "0 < n div 10" "n div 10 < 10" "n mod 10 < 10" by auto
    moreover have "1 \<le> n div 10" using b(1) by simp
    ultimately show ?thesis using decimal_values(2) [OF b] by (auto simp only: lang_cases class_iffs mult_div_mod_eq)
  next
    case 3
    define m where "m = n - 100"
    have m: "n = 100 + m" "m \<le> 27" using 3 by (auto simp: m_def)
    then have b: "m div 10 < 10" "m mod 10 < 10" "m div 10 < 3" by auto
    have "(100 + m) mod 10 = m mod 10" using mod_mult_self3 [of 10 10 m] by simp
    then have "m mod 10 < 8" using 3(3) m(1) by simp
    moreover have "100 * 1 + 10 * (m div 10) + m mod 10 = n" using m(1) mult_div_mod_eq [of 10 m] by linarith
    ultimately show ?thesis using decimal_values(3) [of 1, OF _ _ b(1,2)] b(3)
      by (auto simp only: lang_cases class_iffs)
  qed
qed

lemma hex_group_iff: "s \<in> lang (one_to_four hex_class) \<longleftrightarrow> hex_group s"
  by (simp only: lang_one_to_four hex_group_def)

lemma ipv4_lang: "s \<in> lang REGEXIPV4 \<longleftrightarrow> ipv4_text s"
  unfolding REGEXIPV4_def lang_join ipv4_text_def subset_iff octet_iff list_all_iff Ball_def by simp

lemma ipv6_lang: "s \<in> lang REGEXIPV6 \<longleftrightarrow> ipv6_text s"
  unfolding REGEXIPV6_def lang_join ipv6_text_def subset_iff hex_group_iff list_all_iff Ball_def by simp

lemma lang_slash: "s \<in> lang (Seq p (Seq (Cls ''/'') q)) \<longleftrightarrow> (\<exists>a t. s = a @ ''/'' @ t \<and> a \<in> lang p \<and> t \<in> lang q)"
proof -
  have "u \<in> lang (Seq (Cls ''/'') q) \<longleftrightarrow> (\<exists>t. u = ''/'' @ t \<and> t \<in> lang q)" for u
    by (cases u) (auto simp: lang_cases simp del: lang.simps)
  then show ?thesis unfolding lang.simps(2) [of p] app_iff by blast
qed

lemma cidr4_lang: "s \<in> lang IPV4WITHCIDR \<longleftrightarrow> (\<exists>a n. ipv4_text a \<and> n \<le> 31 \<and> s = a @ ''/'' @ decimal_nat n)"
  unfolding IPV4WITHCIDR_def lang_slash suffix4_lang ipv4_lang by blast

lemma cidr6_lang: "s \<in> lang IPV6WITHCIDR \<longleftrightarrow> (\<exists>a n. ipv6_text a \<and> length6 n \<and> s = a @ ''/'' @ decimal_nat n)"
  unfolding IPV6WITHCIDR_def lang_slash ipv6_lang using suffix6_lang_to suffix6_lang_from by blast

text \<open>The four kinds of texts are told apart by their separators.\<close>

lemma separators:
  "s \<in> lang REGEXIPV4 \<Longrightarrow> CHR ''/'' \<notin> set s \<and> CHR '':'' \<notin> set s"
  "s \<in> lang IPV4WITHCIDR \<Longrightarrow> CHR '':'' \<notin> set s \<and> CHR ''/'' \<in> set s"
  "s \<in> lang REGEXIPV6 \<Longrightarrow> CHR ''/'' \<notin> set s \<and> CHR '':'' \<in> set s"
  "s \<in> lang IPV6WITHCIDR \<Longrightarrow> CHR ''/'' \<in> set s \<and> CHR '':'' \<in> set s"
proof -
  have join: "c \<in> set (join c ps)" if "2 \<le> length ps" for c ps
    using that by (cases ps rule: rev_exhaust) (auto simp: join_def neq_Nil_conv Suc_le_length_iff numeral_2_eq_2)
  have v6: "CHR '':'' \<in> set s" if "ipv6_text s" for s using that join by (auto simp: ipv6_text_def)
  have no: "CHR ''/'' \<notin> letters REGEXIPV4" "CHR '':'' \<notin> letters REGEXIPV4" "CHR '':'' \<notin> letters IPV4WITHCIDR"
    "CHR ''/'' \<notin> letters REGEXIPV6"
    by (simp_all add: REGEXIPV4_def octet_regex_def IPV4WITHCIDR_def REGEXIPV6_def one_to_four_def)
  show "CHR ''/'' \<notin> set s \<and> CHR '':'' \<notin> set s" if "s \<in> lang REGEXIPV4" using lang_letters [OF that] no by blast
  show "CHR '':'' \<notin> set s \<and> CHR ''/'' \<in> set s" if "s \<in> lang IPV4WITHCIDR"
    using lang_letters [OF that] no that unfolding cidr4_lang by auto
  show "CHR ''/'' \<notin> set s \<and> CHR '':'' \<in> set s" if "s \<in> lang REGEXIPV6"
    using lang_letters [OF that] no v6 that unfolding ipv6_lang by blast
  show "CHR ''/'' \<in> set s \<and> CHR '':'' \<in> set s" if "s \<in> lang IPV6WITHCIDR"
    using that v6 unfolding cidr6_lang by auto
qed

section \<open>Properties\<close>

text \<open>
  C31: What an entry of an IP list is taken for. An entry is an IPv4 address exactly if it is four numbers
  up to 255 with dots between them, an IPv6 address exactly if it is eight groups of one to four hexadecimal
  digits with colons, and a range exactly if it is such an address, a slash and a length without leading
  zeros, where the length is at most 31 for IPv4 and, for IPv6, at most 99 or from 100 to 127 with a last digit
  below 8. Every other entry, among them ranges of length 32 or 128 and shortened IPv6 addresses, is ignored.
\<close>

theorem ip_entry_classification:
  "(parseIpType s = RAWIPV4 \<longleftrightarrow> ipv4_text s) \<and>
   (parseIpType s = RAWIPV6 \<longleftrightarrow> ipv6_text s) \<and>
   (parseIpType s = CIDRV4 \<longleftrightarrow> (\<exists>a n. ipv4_text a \<and> n \<le> 31 \<and> s = a @ ''/'' @ decimal_nat n)) \<and>
   (parseIpType s = CIDRV6 \<longleftrightarrow> (\<exists>a n. ipv6_text a \<and> length6 n \<and> s = a @ ''/'' @ decimal_nat n))"
proof -
  have "parseIpType s = RAWIPV4 \<longleftrightarrow> s \<in> lang REGEXIPV4"
    by (simp add: parseIpType_def regex_match_iff)
  moreover have "parseIpType s = RAWIPV6 \<longleftrightarrow> s \<in> lang REGEXIPV6"
    using separators [of s] by (auto simp: parseIpType_def regex_match_iff)
  moreover have "parseIpType s = CIDRV4 \<longleftrightarrow> s \<in> lang IPV4WITHCIDR"
    using separators [of s] by (auto simp: parseIpType_def regex_match_iff)
  moreover have "parseIpType s = CIDRV6 \<longleftrightarrow> s \<in> lang IPV6WITHCIDR"
    using separators [of s] by (auto simp: parseIpType_def regex_match_iff)
  ultimately show ?thesis by (simp only: ipv4_lang ipv6_lang cidr4_lang cidr6_lang)
qed

text \<open>
  The decision of a list. For a list that loads, the filter judges a request with an address on a route
  with that list by the entries alone: it passes and is counted as ok exactly if some entry covers the address
  and the list is a white list, or none does and it is a black list; otherwise it is answered with 403 and
  counted as denied. The four containers of the list and the comparison of IPv6 addresses by their text, which
  must tell addresses apart, do not show.
\<close>

theorem ip_list_decision:
  assumes "inj (addressAsString E)" and "BlackOrWhiteListConfig E garbage type entries = Inr l"
    and "type \<noteq> OtherListType" and "source_address E H hdr remote h = Some a"
  shows "ip_decodeHeaders E H hdr (RouteEntry (Some l)) remote h st =
     (if (\<exists>e \<in> set entries. entry_covers E e a) = (type = WHITE)
      then (Continue, [], st\<lparr>ok_count := ok_count st + 1\<rparr>)
      else (StopIteration, [ip_denied_reply], st\<lparr>denied_count := denied_count st + 1\<rparr>))"
proof -
  let ?l0 = "\<lparr>isBlackList = (case type of BLACK \<Rightarrow> True | WHITE \<Rightarrow> False | OtherListType \<Rightarrow> garbage),
        rawIpV4 = [], rawIpV6 = [], cidrIpV4 = [], cidrIpV6 = []\<rparr>"
  have "parse_entries E entries ?l0 = Inr l" using assms(2) by (simp add: BlackOrWhiteListConfig_def)
  from parse_entries_covers [OF assms(1) this, of a]
  have "checkIpEntry E l a \<longleftrightarrow> (\<exists>e \<in> set entries. entry_covers E e a)" "isBlackList l \<longleftrightarrow> type = BLACK"
    using assms(3) by (auto simp: checkIpEntry_def split: address.splits list_type.splits)
  then show ?thesis using assms(3,4) by (cases type) (auto simp: ip_decodeHeaders_def isAllowed_def Let_def)
qed

definition example_ip_env :: ip_env where
  "example_ip_env =
     \<lparr>Ipv4Instance = \<lambda>s. Inr (of_nat (length s)), Ipv6Instance = \<lambda>s. Inr (of_nat (length s)),
      addressAsString = \<lambda>w. replicate (unat w) (CHR ''x''), isInRange4 = \<lambda>b n w. b \<le> w, isInRange6 = \<lambda>b n w. b = w,
      parseInternetAddress = \<lambda>s. Inr (V4 (of_nat (length s)))\<rparr>"

theorem ip_list_decision_witness:
  "\<exists>l. BlackOrWhiteListConfig example_ip_env False BLACK [''1.2.3.4''] = Inr l \<and>
     ip_decodeHeaders example_ip_env list_headers '''' (RouteEntry (Some l)) (Some (V4 7)) [] \<lparr>ok_count = 0, denied_count = 0\<rparr> =
       (StopIteration, [ip_denied_reply], \<lparr>ok_count = 0, denied_count = 1\<rparr>)"
proof -
  have type: "parseIpType ''1.2.3.4'' = RAWIPV4" by code_simp
  then obtain l where l: "BlackOrWhiteListConfig example_ip_env False BLACK [''1.2.3.4''] = Inr l"
    by (simp add: BlackOrWhiteListConfig_def parseIpEntry_def example_ip_env_def)
  have inj: "inj (addressAsString example_ip_env)"
    by (rule injI) (simp add: example_ip_env_def replicate_eq_replicate word_unat_eq_iff)
  have "entry_covers example_ip_env ''1.2.3.4'' (V4 7)" by (simp add: entry_covers_def type example_ip_env_def)
  then show ?thesis
    using ip_list_decision [OF inj l, where H = list_headers and hdr = "''''" and remote = "Some (V4 7)" and h = "[]" and a = "V4 7"] l
    by (simp add: source_address_def)
qed

end
