(* ===== verification/Http_Base.thy ===== *)
theory Http_Base
  imports Header_Map
begin

text \<open>
  The helpers of \<^verbatim>\<open>source/common/http/proxy_base.{h,cc}\<close> and \<^verbatim>\<open>source/common/common/proxy_util{.h,ity.cc}\<close>:
  HTTP messages and their copies, the parser of absolute URIs, the escaping of JSON strings, the test for
  an MD5 string and the string hashes.
\<close>

section \<open>Messages\<close>

record 'h http_message =
  msg_headers :: 'h
  msg_body :: string

definition makeMessageCopy :: "'h header_map_ops \<Rightarrow> 'h http_message \<Rightarrow> 'h http_message" where
  "makeMessageCopy H m =
     (let h = hm_copy H (msg_headers m)
      in if length (msg_body m) \<le> 0
         then \<lparr>msg_headers = hm_setCopy H ''content-length'' (decimal_nat 0) (hm_remove H ''transfer-encoding'' h),
               msg_body = ''''\<rparr>
         else \<lparr>msg_headers = hm_setCopy H ''content-length'' (decimal_nat (length (msg_body m)))
                              (hm_remove H ''transfer-encoding'' h),
               msg_body = msg_body m\<rparr>)"

section \<open>URIs\<close>

text \<open>\<^verbatim>\<open>find\<close> of \<^verbatim>\<open>std::string\<close>: the first position at which the pattern occurs, \<open>None\<close> for \<^verbatim>\<open>npos\<close>.\<close>

fun str_find :: "string \<Rightarrow> string \<Rightarrow> nat option" where
  "str_find pat s =
     (if take (length pat) s = pat then Some 0
      else case s of [] \<Rightarrow> None | c # s' \<Rightarrow> map_option Suc (str_find pat s'))"

declare str_find.simps [simp del]

record HttpUri =
  uri_scheme :: string
  uri_host :: string
  uri_path :: string

definition makeHttpUri :: "string \<Rightarrow> HttpUri option" where
  "makeHttpUri uri =
     (case str_find ''://'' uri of
        None \<Rightarrow> None
      | Some sep \<Rightarrow>
          (let scheme = take sep uri
           in if scheme \<noteq> ''http'' \<and> scheme \<noteq> ''https'' then None
              else let uri_no_scheme = drop (sep + 3) uri
                   in if uri_no_scheme = '''' then None
                      else let (host, path) =
                             (case str_find ''/'' uri_no_scheme of
                                None \<Rightarrow> (uri_no_scheme, ''/'')
                              | Some path_start \<Rightarrow> (take path_start uri_no_scheme, drop path_start uri_no_scheme))
                           in if host = '''' then None
                              else Some \<lparr>uri_scheme = scheme, uri_host = host, uri_path = path\<rparr>))"

section \<open>Strings\<close>

definition hex_digit :: "nat \<Rightarrow> char" where
  "hex_digit n = char_of (if n < 10 then 48 + n else 87 + n)"

text \<open>\<^verbatim>\<open>char\<close> is signed, so only the codes 0 to 31 pass the range test of the default case.\<close>

definition escape_char :: "char \<Rightarrow> string" where
  "escape_char c =
     (let n = of_char c :: nat
      in if n = 34 then [CHR 0x5C, CHR 0x22]
         else if n = 92 then [CHR 0x5C, CHR 0x5C]
         else if n = 8 then [CHR 0x5C, CHR ''b'']
         else if n = 12 then [CHR 0x5C, CHR ''f'']
         else if n = 10 then [CHR 0x5C, CHR ''n'']
         else if n = 13 then [CHR 0x5C, CHR ''r'']
         else if n = 9 then [CHR 0x5C, CHR ''t'']
         else if n \<le> 31 then [CHR 0x5C, CHR ''u'', CHR ''0'', CHR ''0'', hex_digit (n div 16), hex_digit (n mod 16)]
         else [c])"

definition escapeForJson :: "string \<Rightarrow> string" where
  "escapeForJson source = concat (map escape_char source)"

definition md5StringOrNot :: "string \<Rightarrow> bool" where
  "md5StringOrNot s \<longleftrightarrow> length s = 32 \<and>
     (\<forall>ch\<in>set s. let n = of_char ch :: nat
                 in 48 \<le> n \<and> n \<le> 57 \<or> 97 \<le> n \<and> n \<le> 102 \<or> 65 \<le> n \<and> n \<le> 70)"

text \<open>The hashes run over the characters before the first NUL; a \<^verbatim>\<open>char\<close> is converted with its sign.\<close>

definition char_u32 :: "char \<Rightarrow> u32" where
  "char_u32 c = signed (of_char c :: u8)"

definition char_u64 :: "char \<Rightarrow> u64" where
  "char_u64 c = signed (of_char c :: u8)"

fun xxHash32 :: "string \<Rightarrow> u32 \<Rightarrow> u32" where
  "xxHash32 [] value = value"
| "xxHash32 (c # s) value = (if c = CHR 0x00 then value else xxHash32 s (xor value (char_u32 c) * 0x1000193))"

fun xxHash64 :: "string \<Rightarrow> u64 \<Rightarrow> u64" where
  "xxHash64 [] value = value"
| "xxHash64 (c # s) value = (if c = CHR 0x00 then value else xxHash64 s (xor value (char_u64 c) * 0x100000001b3))"

section \<open>A reference reader of escaped strings\<close>

definition hex_value :: "char \<Rightarrow> nat option" where
  "hex_value c =
     (let n = of_char c :: nat
      in if 48 \<le> n \<and> n \<le> 57 then Some (n - 48)
         else if 97 \<le> n \<and> n \<le> 102 then Some (n - 87)
         else if 65 \<le> n \<and> n \<le> 70 then Some (n - 55) else None)"

text \<open>
  The inside of a JSON string: a quotation mark or a control character may not occur, and the escapes
  are those of RFC 8259 (for \<^verbatim>\<open>\u\<close> only the codes below 256, which is one byte here).
\<close>

fun json_unescape :: "string \<Rightarrow> string option" where
  "json_unescape [] = Some []"
| "json_unescape (c # s) =
     (if of_char c = (92::nat) then
        (case s of
           [] \<Rightarrow> None
         | e # s' \<Rightarrow>
             (if e = CHR 0x22 then map_option ((#) (CHR 0x22)) (json_unescape s')
              else if e = CHR 0x5C then map_option ((#) (CHR 0x5C)) (json_unescape s')
              else if e = CHR ''/'' then map_option ((#) (CHR ''/'')) (json_unescape s')
              else if e = CHR ''b'' then map_option ((#) (CHR 0x08)) (json_unescape s')
              else if e = CHR ''f'' then map_option ((#) (CHR 0x0C)) (json_unescape s')
              else if e = CHR ''n'' then map_option ((#) (CHR 0x0A)) (json_unescape s')
              else if e = CHR ''r'' then map_option ((#) (CHR 0x0D)) (json_unescape s')
              else if e = CHR ''t'' then map_option ((#) (CHR 0x09)) (json_unescape s')
              else if e = CHR ''u'' then
                (case s' of
                   a # b # d1 # d2 # s'' \<Rightarrow>
                     (if a = CHR ''0'' \<and> b = CHR ''0'' then
                        (case (hex_value d1, hex_value d2) of
                           (Some x, Some y) \<Rightarrow> map_option ((#) (char_of (16 * x + y))) (json_unescape s'')
                         | _ \<Rightarrow> None)
                      else None)
                 | _ \<Rightarrow> None)
              else None))
      else if of_char c = (34::nat) \<or> of_char c < (32::nat) then None
      else map_option ((#) c) (json_unescape s))"

section \<open>Lemmas\<close>

lemma str_find_SomeD:
  "str_find pat s = Some n \<Longrightarrow> n \<le> length s \<and> take (length pat) (drop n s) = pat"
proof (induction s arbitrary: n)
  case (Cons c s)
  from Cons.prems Cons.IH show ?case
    by (subst (asm) str_find.simps) (auto split: if_splits)
qed (auto simp: str_find.simps split: if_splits)

lemma str_find_prefix:
  "c \<notin> set pre \<Longrightarrow> str_find (c # pat) (pre @ s) = map_option (\<lambda>n. length pre + n) (str_find (c # pat) s)"
proof (induction pre)
  case (Cons x pre)
  then show ?case
    by (subst str_find.simps) (cases "str_find (c # pat) s"; auto)
qed (cases "str_find (c # pat) s"; simp)

lemma str_find_head [simp]: "str_find pat (pat @ s) = Some 0"
  by (simp add: str_find.simps)

lemma dropWhile_found: "c \<in> set s \<Longrightarrow> \<exists>q. dropWhile (\<lambda>x. x \<noteq> c) s = c # q"
  by (induction s) auto

lemma split_uri:
  assumes "str_find sep s = Some n"
  shows "s = take n s @ sep @ drop (n + length sep) s"
  using str_find_SomeD [OF assms] by (metis add.commute append_take_drop_id drop_drop)

lemma str_find_char: "str_find [c] s = (if c \<in> set s then Some (length (takeWhile (\<lambda>x. x \<noteq> c) s)) else None)"
  by (induction s) (auto simp: str_find.simps)

lemma hex_value_digit [simp]: "d < 16 \<Longrightarrow> hex_value (hex_digit d) = Some d"
  by (simp add: hex_value_def hex_digit_def Let_def)

lemma json_unescape_escape_char [simp]:
  "json_unescape (escape_char c @ s) = map_option ((#) c) (json_unescape s)"
proof -
  have c: "c = char_of (of_char c :: nat)" by simp
  show ?thesis
  proof (cases "of_char c \<in> {34, 92, 8, 12, 10, 13, 9::nat}")
    case True
    then show ?thesis
      by (subst (2) c) (auto simp: escape_char_def char_of_def bit_0)
  next
    case False
    then show ?thesis
      by (auto simp: escape_char_def Let_def)
  qed
qed


lemma escape_char_printable: "x \<in> set (escape_char c) \<Longrightarrow> 32 \<le> (of_char x :: nat)"
  by (auto simp: escape_char_def Let_def hex_digit_def split: if_splits)

text \<open>
  Escaping is exactly undone by reading the text as the inside of a JSON string: for every byte string the escaped
  text is legal there (no bare quotation mark, no control character) and denotes the original string.
\<close>

lemma escapeForJson_roundtrip: "json_unescape (escapeForJson s) = Some s"
  by (induction s) (simp_all add: escapeForJson_def)

section \<open>Properties\<close>

text \<open>
  The URI parser accepts exactly the absolute \<^verbatim>\<open>http\<close> and \<^verbatim>\<open>https\<close> URIs with a host, and its result
  splits the input: scheme, separator, a host without slashes, and the path from the first slash on,
  where a missing path is read as \<^verbatim>\<open>/\<close>.
\<close>

theorem makeHttpUri_iff:
  "makeHttpUri u = Some \<lparr>uri_scheme = s, uri_host = h, uri_path = p\<rparr> \<longleftrightarrow>
     (s = ''http'' \<or> s = ''https'') \<and> h \<noteq> '''' \<and> CHR ''/'' \<notin> set h \<and>
     (u = s @ ''://'' @ h \<and> p = ''/'' \<or> (\<exists>q. p = CHR ''/'' # q) \<and> u = s @ ''://'' @ h @ p)"
  (is "?L \<longleftrightarrow> ?R")
proof
  assume ?L
  then obtain n where n: "str_find ''://'' u = Some n" by (auto simp: makeHttpUri_def split: option.splits)
  let ?r = "drop (n + 3) u"
  have u: "u = take n u @ ''://'' @ ?r" using split_uri [OF n] by (simp add: numeral_3_eq_3)
  have "(take n u = ''http'' \<or> take n u = ''https'') \<and> take n u = s \<and> ?r \<noteq> '''' \<and> h \<noteq> '''' \<and>
    (if CHR ''/'' \<in> set ?r
     then h = takeWhile (\<lambda>x. x \<noteq> CHR ''/'') ?r \<and> p = dropWhile (\<lambda>x. x \<noteq> CHR ''/'') ?r
     else h = ?r \<and> p = ''/'')"
    using \<open>?L\<close> n by (auto simp: makeHttpUri_def Let_def str_find_char takeWhile_eq_take [symmetric]
        dropWhile_eq_drop [symmetric] simp del: drop_drop split: if_splits)
  then show ?R
    by (cases "CHR ''/'' \<in> set ?r")
       (use u dropWhile_found [of "CHR ''/''" ?r] in \<open>auto dest: set_takeWhileD\<close>)
next
  assume R: ?R
  then have f: "str_find ''://'' (s @ ''://'' @ r) = Some (length s)" for r
    by (subst str_find_prefix) (auto simp: str_find.simps)
  from R f [of h] f [of "h @ p"] show ?L
    by (auto simp: makeHttpUri_def Let_def str_find_char takeWhile_append)
qed

end
