(* ===== verification/Response_Stream.thy ===== *)
theory Response_Stream
  imports Http_Base
begin

text \<open>
  The response side of a filter that may replace a response: what the filter manager of Envoy does with
  the answers of \<^verbatim>\<open>encodeHeaders\<close> and \<^verbatim>\<open>encodeData\<close>, as documented in \<^verbatim>\<open>envoy/http/filter.h\<close>, and the
  contract \<open>body_replacement\<close> that the three downgrade filters share. The helpers of
  \<^verbatim>\<open>source/common/http/proxy_header.{h,cc}\<close> stand here too.
\<close>

section \<open>Header helpers\<close>

text \<open>\<^verbatim>\<open>clear\<close> followed by \<^verbatim>\<open>copyFrom\<close>: the copy is made into an empty map, whatever it held before.\<close>

definition replaceHeaders :: "'h header_map_ops \<Rightarrow> 'h \<Rightarrow> 'h \<Rightarrow> 'h" where
  "replaceHeaders H headers replace_headers = hm_copy H replace_headers"

definition getHeaderValue :: "'h header_map_ops \<Rightarrow> string \<Rightarrow> 'h \<Rightarrow> string \<Rightarrow> string" where
  "getHeaderValue H key headers default_value =
     (case hm_get H key headers of [] \<Rightarrow> default_value | e # es \<Rightarrow> snd e)"

section \<open>The body of a response\<close>

text \<open>
  One call of \<^verbatim>\<open>encodeData\<close>: the bytes in the buffer, whether they end the stream, and the state of the
  filter give the status, the calls on the encoder callbacks, what is left in the buffer and the new state.
\<close>

type_synonym 's data_step = "string \<Rightarrow> bool \<Rightarrow> 's \<Rightarrow> data_status \<times> callback list \<times> string \<times> 's"

text \<open>The bytes that \<^verbatim>\<open>addEncodedData\<close> puts in front of what is left in the buffer.\<close>

fun added_data :: "callback list \<Rightarrow> string" where
  "added_data [] = ''''"
| "added_data (AddEncodedData b # cs) = b @ added_data cs"
| "added_data (_ # cs) = added_data cs"

text \<open>
  The body that the next filter receives when the body arrives in the chunks given. The last chunk ends the
  stream unless trailers follow. A chunk that is answered with \<^verbatim>\<open>StopIterationNoBuffer\<close> is not passed on.
\<close>

fun encode_body :: "'s data_step \<Rightarrow> bool \<Rightarrow> string list \<Rightarrow> 's \<Rightarrow> string \<times> 's" where
  "encode_body enc trailers [] s = ('''', s)"
| "encode_body enc trailers (chunk # chunks) s =
     (let (status, calls, left, s1) = enc chunk (chunks = [] \<and> \<not> trailers) s;
          (body, s2) = encode_body enc trailers chunks s1
      in (added_data calls @ (if status = DataContinue then left else '''') @ body, s2))"

section \<open>Replacing a body\<close>

text \<open>
  A filter that replaces bodies is, at any time, either passing the data on or replacing it by a body \<open>b\<close>,
  which it adds when the stream ends.
\<close>

locale body_replacement =
  fixes enc :: "'s data_step" and passing :: "'s \<Rightarrow> bool" and replacing :: "string \<Rightarrow> 's \<Rightarrow> bool"
  assumes pass_step: "passing s \<Longrightarrow> \<exists>s'. enc d fin s = (DataContinue, [], d, s') \<and> passing s'"
    and drop_step: "replacing b s \<Longrightarrow> \<exists>s'. enc d False s = (StopIterationNoBuffer, [], '''', s') \<and> replacing b s'"
    and last_step: "replacing b s \<Longrightarrow> \<exists>s'. enc d True s = (DataContinue, [AddEncodedData b], '''', s') \<and> passing s'"
begin

lemma passed_body: "passing s \<Longrightarrow> fst (encode_body enc trailers chunks s) = concat chunks"
proof (induction chunks arbitrary: s)
  case (Cons d ds)
  from pass_step [OF Cons.prems] obtain s' where
    "enc d (ds = [] \<and> \<not> trailers) s = (DataContinue, [], d, s')" "passing s'" by blast
  with Cons.IH [of s'] show ?case by (simp add: split_beta)
qed simp

lemma replaced_body: "replacing b s \<Longrightarrow> chunks \<noteq> [] \<Longrightarrow> fst (encode_body enc False chunks s) = b"
proof (induction chunks arbitrary: s)
  case (Cons d ds)
  show ?case
  proof (cases "ds = []")
    case True
    from last_step [OF Cons.prems(1), of d] obtain s' where
      "enc d True s = (DataContinue, [AddEncodedData b], '''', s')" by blast
    with True show ?thesis by simp
  next
    case False
    from drop_step [OF Cons.prems(1), of d] obtain s' where
      "enc d False s = (StopIterationNoBuffer, [], '''', s')" "replacing b s'" by blast
    with Cons.IH [of s'] False show ?thesis by (simp add: split_beta)
  qed
qed simp

text \<open>When trailers end the stream the body is never added.\<close>

lemma lost_body: "replacing b s \<Longrightarrow> fst (encode_body enc True chunks s) = ''''"
proof (induction chunks arbitrary: s)
  case (Cons d ds)
  from drop_step [OF Cons.prems, of d] obtain s' where
    "enc d False s = (StopIterationNoBuffer, [], '''', s')" "replacing b s'" by blast
  with Cons.IH [of s'] show ?case by (simp add: split_beta)
qed simp

end

section \<open>Storing a body\<close>

text \<open>The calls that a filter makes on its caches while a body passes in chunks.\<close>

type_synonym ('s, 'o) store_step =
  "string \<Rightarrow> bool \<Rightarrow> 's \<Rightarrow> (data_status \<times> callback list \<times> string \<times> 's) \<times> 'o list"

fun encode_ops :: "('s, 'o) store_step \<Rightarrow> bool \<Rightarrow> string list \<Rightarrow> 's \<Rightarrow> 'o list" where
  "encode_ops enc trailers [] s = []"
| "encode_ops enc trailers (chunk # chunks) s =
     (let ((status, calls, left, s1), ops) = enc chunk (chunks = [] \<and> \<not> trailers) s
      in ops @ encode_ops enc trailers chunks s1)"

text \<open>
  A filter that stores bodies has collected a part \<open>b\<close> of the body; when the stream ends it makes the calls that store
  the whole body.
\<close>

locale body_storing =
  fixes enc :: "('s, 'o) store_step" and storing :: "string \<Rightarrow> 's \<Rightarrow> bool" and store :: "string \<Rightarrow> 'o list"
  assumes collect: "storing b s \<Longrightarrow> \<exists>s'. enc d False s = ((DataContinue, [], d, s'), []) \<and> storing (b @ d) s'"
    and store_last: "storing b s \<Longrightarrow> snd (enc d True s) = store (b @ d)"
begin

lemma stored:
  "storing b s \<Longrightarrow> chunks \<noteq> [] \<Longrightarrow>
   encode_ops enc trailers chunks s = (if trailers then [] else store (b @ concat chunks))"
proof (induction chunks arbitrary: b s)
  case (Cons d ds)
  obtain s' where s': "enc d False s = ((DataContinue, [], d, s'), [])" "storing (b @ d) s'"
    using collect [OF Cons.prems(1)] by blast
  with Cons.IH [OF s'(2)] store_last [OF Cons.prems(1), of d] show ?case
    by (cases "ds = []") (simp_all add: split_beta)
qed simp

end

end
