(* ===== verification/Static_Downgrade.thy ===== *)
theory Static_Downgrade
  imports Response_Stream
begin

text \<open>
  The static downgrade filter, \<^verbatim>\<open>source/filters/http/static_downgrade/static_downgrade_filter.{h,cc}\<close>: a
  response that matches a configuration is replaced by a status, headers and a body of the configuration.

  \<^item> Envoy's header and string matchers, its table of response flags and the file system are the parameter
    \<open>downgrade_env\<close>.
  \<^item> The filter holds a pointer to the request headers. The model keeps whether it is set; the headers as they
    are when the response is encoded are an argument.
\<close>

unbundle bit_operations_syntax

section \<open>Configuration\<close>

record ('h, 'hm, 'sm) downgrade_env =
  match_headers :: "'h \<Rightarrow> 'hm list \<Rightarrow> bool"
  match_details :: "'sm \<Rightarrow> string \<Rightarrow> bool"
  toResponseFlag :: "string \<Rightarrow> u64 option"
  fileExists :: "string \<Rightarrow> bool"
  fileSize :: "string \<Rightarrow> int"
  fileReadToEnd :: "string \<Rightarrow> string throws"

text \<open>The message \<^verbatim>\<open>DataSource\<close>; the getters of the alternatives that are not set give the empty string.\<close>

record data_source =
  filename :: string
  inline_bytes :: string
  inline_string :: string

record static_response_proto =
  sr_http_status :: u32
  sr_headers :: "(string \<times> string) list"
  sr_body :: "data_source option"

record ('hm, 'sm) downgrade_proto =
  dp_rqx :: "'hm list"
  dp_rpx :: "'hm list"
  dp_response_flags :: "string option"
  dp_response_code_details :: "'sm option"
  dp_static_response :: "static_response_proto option"

record ('hm, 'sm) sd_route_proto = "('hm, 'sm) downgrade_proto" +
  specific_configs :: "('hm, 'sm) downgrade_proto list"

record ('hm, 'sm) static_config =
  downgrade_rqx :: "'hm list"
  downgrade_rpx :: "'hm list"
  response_flags :: "u64 option"
  response_code_details_matcher :: "'sm option"
  static_http_status :: u32
  static_http_headers :: "(string \<times> string) list"
  static_http_body :: string
  has_no_downgrade_rpx :: bool

text \<open>\<^verbatim>\<open>absl::StrSplit\<close> on a character.\<close>

fun str_split :: "char \<Rightarrow> string \<Rightarrow> string list" where
  "str_split sep [] = ['''']"
| "str_split sep (c # s) =
     (if c = sep then '''' # str_split sep s
      else case str_split sep s of [] \<Rightarrow> [[c]] | w # ws \<Rightarrow> (c # w) # ws)"

fun parse_flags :: "(string \<Rightarrow> u64 option) \<Rightarrow> string list \<Rightarrow> u64 \<Rightarrow> u64 throws" where
  "parse_flags flag_of [] flags = Inr flags"
| "parse_flags flag_of (view # views) flags =
     (case flag_of view of
        None \<Rightarrow> Inl (''Unsupported response flag: '' @ view)
      | Some flag \<Rightarrow> parse_flags flag_of views (flags OR flag))"

definition read_response_flags :: "(string \<Rightarrow> u64 option) \<Rightarrow> string option \<Rightarrow> u64 option throws" where
  "read_response_flags flag_of value =
     (case value of
        None \<Rightarrow> Inr None
      | Some v \<Rightarrow>
          (case parse_flags flag_of (filter (\<lambda>w. w \<noteq> '''') (str_split (CHR '','') v)) 0 of
             Inl err \<Rightarrow> Inl err
           | Inr flags \<Rightarrow> Inr (if flags \<noteq> 0 then Some flags else None)))"

definition max_body_size :: int where
  "max_body_size = 4096"

text \<open>The body of the response; it stays empty when it is rejected.\<close>

definition read_static_body :: "('h, 'hm, 'sm) downgrade_env \<Rightarrow> data_source \<Rightarrow> string throws" where
  "read_static_body F ds =
     (if filename ds \<noteq> '''' then
        (if \<not> fileExists F (filename ds) then Inr ''''
         else if fileSize F (filename ds) \<le> 0 \<and> fileSize F (filename ds) > max_body_size then Inr ''''
         else fileReadToEnd F (filename ds))
      else
        (let temp = (if inline_bytes ds \<noteq> '''' then inline_bytes ds else inline_string ds)
         in Inr (if int (length temp) \<le> max_body_size then temp else '''')))"

text \<open>\<^verbatim>\<open>std::map::insert\<close> keeps the value of a key that is present.\<close>

definition insert_header :: "string \<times> string \<Rightarrow> (string \<times> string) list \<Rightarrow> (string \<times> string) list" where
  "insert_header h m =
     (case map_of m (lower (fst h)) of None \<Rightarrow> m @ [(lower (fst h), snd h)] | Some v \<Rightarrow> m)"

definition StaticDowngradeConfig ::
    "('h, 'hm, 'sm) downgrade_env \<Rightarrow> ('hm, 'sm, 'x) downgrade_proto_scheme \<Rightarrow> ('hm, 'sm) static_config throws" where
  "StaticDowngradeConfig F p =
     (case read_response_flags (toResponseFlag F) (dp_response_flags p) of
        Inl err \<Rightarrow> Inl err
      | Inr flags \<Rightarrow>
          (let c = \<lparr>downgrade_rqx = dp_rqx p, downgrade_rpx = dp_rpx p, response_flags = flags,
                    response_code_details_matcher = dp_response_code_details p, static_http_status = 200,
                    static_http_headers = [], static_http_body = '''', has_no_downgrade_rpx = False\<rparr>
           in if dp_rpx p = [] then Inr (c\<lparr>has_no_downgrade_rpx := True\<rparr>)
              else case dp_static_response p of
                     None \<Rightarrow> Inr c
                   | Some sr \<Rightarrow>
                       (let c1 = c\<lparr>static_http_status := (if sr_http_status sr \<noteq> 0 then sr_http_status sr else 200),
                                   static_http_headers := fold insert_header (sr_headers sr) []\<rparr>
                        in case sr_body sr of
                             None \<Rightarrow> Inr c1
                           | Some ds \<Rightarrow>
                               (case read_static_body F ds of
                                  Inl err \<Rightarrow> Inl err
                                | Inr body \<Rightarrow> Inr (c1\<lparr>static_http_body := body\<rparr>)))))"

text \<open>What the filter reads of \<^verbatim>\<open>StreamInfo\<close>.\<close>

record stream_info =
  responseFlags :: u64
  responseCodeDetails :: "string option"

definition shouldDowngrade ::
    "('h, 'hm, 'sm) downgrade_env \<Rightarrow> 'h \<Rightarrow> 'h \<Rightarrow> stream_info \<Rightarrow> ('hm, 'sm) static_config \<Rightarrow> bool" where
  "shouldDowngrade F rqx rpx info c =
     (if has_no_downgrade_rpx c then False
      else
        let r0 = (match_headers F rqx (downgrade_rqx c) \<and> match_headers F rpx (downgrade_rpx c));
            r1 = (case response_flags c of None \<Rightarrow> r0 | Some flags \<Rightarrow> r0 \<and> responseFlags info AND flags \<noteq> 0)
        in case response_code_details_matcher c of
             None \<Rightarrow> r1
           | Some m \<Rightarrow> r1 \<and> match_details F m (case responseCodeDetails info of None \<Rightarrow> '''' | Some d \<Rightarrow> d))"

fun map_throws :: "('a \<Rightarrow> 'b throws) \<Rightarrow> 'a list \<Rightarrow> 'b list throws" where
  "map_throws f [] = Inr []"
| "map_throws f (x # xs) =
     (case f x of
        Inl err \<Rightarrow> Inl err
      | Inr y \<Rightarrow> (case map_throws f xs of Inl err \<Rightarrow> Inl err | Inr ys \<Rightarrow> Inr (y # ys)))"

text \<open>
  The fields of the route configuration make the first configuration. Its static response is always set,
  because the code copies it through \<^verbatim>\<open>mutable_static_response\<close>.
\<close>

definition empty_static_response :: static_response_proto where
  "empty_static_response = \<lparr>sr_http_status = 0, sr_headers = [], sr_body = None\<rparr>"

definition primary_proto_config :: "('hm, 'sm) sd_route_proto \<Rightarrow> ('hm, 'sm) downgrade_proto" where
  "primary_proto_config p =
     \<lparr>dp_rqx = dp_rqx p, dp_rpx = dp_rpx p, dp_response_flags = dp_response_flags p,
      dp_response_code_details = dp_response_code_details p,
      dp_static_response =
        Some (case dp_static_response p of None \<Rightarrow> empty_static_response | Some sr \<Rightarrow> sr)\<rparr>"

definition StaticDowngradeRouteConfig ::
    "('h, 'hm, 'sm) downgrade_env \<Rightarrow> ('hm, 'sm) sd_route_proto \<Rightarrow> ('hm, 'sm) static_config list throws" where
  "StaticDowngradeRouteConfig F p = map_throws (StaticDowngradeConfig F) (primary_proto_config p # specific_configs p)"

definition downgradeConfig ::
    "('h, 'hm, 'sm) downgrade_env \<Rightarrow> 'h \<Rightarrow> 'h \<Rightarrow> stream_info \<Rightarrow> ('hm, 'sm) static_config list \<Rightarrow>
     ('hm, 'sm) static_config option" where
  "downgradeConfig F rqx rpx info configs =
     (if length configs = 0 then None else find (shouldDowngrade F rqx rpx info) configs)"

section \<open>The filter\<close>

record ('hm, 'sm) sd_filter =
  sd_rqx_headers_set :: bool
  sd_downgrade_complete :: bool
  sd_downgrade_config :: "('hm, 'sm) static_config option"

definition HttpStaticDowngradeFilter :: "('hm, 'sm) sd_filter" where
  "HttpStaticDowngradeFilter =
     \<lparr>sd_rqx_headers_set = False, sd_downgrade_complete = False, sd_downgrade_config = None\<rparr>"

definition sd_decodeHeaders :: "('hm, 'sm) sd_filter \<Rightarrow> headers_status \<times> ('hm, 'sm) sd_filter" where
  "sd_decodeHeaders f = (Continue, f\<lparr>sd_rqx_headers_set := True\<rparr>)"

text \<open>The edits that \<^verbatim>\<open>encodeHeaders\<close> makes to the headers of a response it replaces, in order.\<close>

definition static_headers :: "'h header_map_ops \<Rightarrow> ('hm, 'sm) static_config \<Rightarrow> 'h \<Rightarrow> 'h" where
  "static_headers H c h =
     (let h1 = hm_setCopy H '':status'' (decimal_nat (unat (static_http_status c))) (hm_remove H '':status'' h);
          h2 = hm_addCopy H ''x-downgrade-status'' ''STATIC'' h1;
          h3 = fold (\<lambda>(k, v) h. hm_addCopy H k v (hm_remove H k h)) (static_http_headers c) h2
      in hm_setCopy H ''content-length'' (decimal_nat (length (static_http_body c))) (hm_remove H ''content-length'' h3))"

text \<open>
  \<open>route\<close> is the route of the stream, if there is one, with the most specific configuration on it, if any.
\<close>

definition sd_encodeHeaders ::
    "'h header_map_ops \<Rightarrow> ('h, 'hm, 'sm) downgrade_env \<Rightarrow> ('hm, 'sm) static_config list option option \<Rightarrow>
     stream_info \<Rightarrow> 'h \<Rightarrow> 'h \<Rightarrow> bool \<Rightarrow> ('hm, 'sm) sd_filter \<Rightarrow>
     headers_status \<times> callback list \<times> 'h \<times> ('hm, 'sm) sd_filter" where
  "sd_encodeHeaders H F route info rqx h end_stream f =
     (case route of
        None \<Rightarrow> (Continue, [], h, f)
      | Some None \<Rightarrow> (Continue, [], h, f)
      | Some (Some route_config) \<Rightarrow>
          (let request_headers = (if sd_rqx_headers_set f then rqx else hm_create H);
               f1 = f\<lparr>sd_downgrade_config := downgradeConfig F request_headers h info route_config\<rparr>
           in case sd_downgrade_config f1 of
                None \<Rightarrow> (Continue, [], h, f1)
              | Some c \<Rightarrow>
                  (if end_stream
                   then (Continue, [AddEncodedData (static_http_body c)], static_headers H c h,
                         f1\<lparr>sd_downgrade_complete := True\<rparr>)
                   else (StopIteration, [], static_headers H c h, f1))))"

definition sd_encodeData :: "('hm, 'sm) sd_filter data_step" where
  "sd_encodeData data end_stream f =
     (case sd_downgrade_config f of
        None \<Rightarrow> (DataContinue, [], data, f)
      | Some c \<Rightarrow>
          (if sd_downgrade_complete f then (DataContinue, [], data, f)
           else if end_stream
           then (DataContinue, [AddEncodedData (static_http_body c)], '''', f\<lparr>sd_downgrade_complete := True\<rparr>)
           else (StopIterationNoBuffer, [], '''', f)))"

section \<open>The filter replaces bodies\<close>

definition sd_passing :: "('hm, 'sm) sd_filter \<Rightarrow> bool" where
  "sd_passing f \<longleftrightarrow> sd_downgrade_config f = None \<or> sd_downgrade_complete f"

definition sd_replacing :: "string \<Rightarrow> ('hm, 'sm) sd_filter \<Rightarrow> bool" where
  "sd_replacing b f \<longleftrightarrow> \<not> sd_downgrade_complete f \<and> map_option static_http_body (sd_downgrade_config f) = Some b"

interpretation sd: body_replacement sd_encodeData sd_passing sd_replacing
  by unfold_locales
     (auto simp: sd_encodeData_def sd_passing_def sd_replacing_def split: option.splits)

text \<open>The names in the static headers of a configuration are distinct.\<close>

lemma distinct_insert_header:
  "distinct (map fst m) \<Longrightarrow> distinct (map fst (fold insert_header hs m))"
  by (induction hs arbitrary: m) (auto simp: insert_header_def map_of_eq_None_iff split: option.splits)

lemma StaticDowngradeConfig_distinct:
  "StaticDowngradeConfig F p = Inr c \<Longrightarrow> distinct (map fst (static_http_headers c))"
  by (auto simp: StaticDowngradeConfig_def Let_def distinct_insert_header split: sum.splits option.splits if_splits)

lemma map_throws_InrD: "map_throws f xs = Inr ys \<Longrightarrow> y \<in> set ys \<Longrightarrow> \<exists>x\<in>set xs. f x = Inr y"
  by (induction xs arbitrary: ys) (auto split: sum.splits)

lemma route_config_distinct:
  "StaticDowngradeRouteConfig F p = Inr cs \<Longrightarrow> downgradeConfig F rqx h info cs = Some c \<Longrightarrow>
   distinct (map fst (static_http_headers c))"
proof -
  assume "StaticDowngradeRouteConfig F p = Inr cs" "downgradeConfig F rqx h info cs = Some c"
  moreover from this have "c \<in> set cs"
    by (auto simp: downgradeConfig_def find_Some_iff split: if_splits)
  ultimately show ?thesis
    unfolding StaticDowngradeRouteConfig_def by (metis map_throws_InrD StaticDowngradeConfig_distinct)
qed

lemma get_fold_replace:
  assumes H: "header_map_laws H inl valid" and "distinct (map fst hs)"
  shows "hm_get H k (fold (\<lambda>(k, v) h. hm_addCopy H k v (hm_remove H k h)) hs h) =
    (case map_of hs k of None \<Rightarrow> hm_get H k h | Some v \<Rightarrow> [(k, v)])"
  using assms(2)
proof (induction hs arbitrary: h)
  case (Cons e hs)
  obtain n v where e: "e = (n, v)" by (cases e)
  have "hm_get H k' (hm_addCopy H n v (hm_remove H n h)) = (if k' = n then [(n, v)] else hm_get H k' h)" for k'
    using header_map_lawsD(8) [OF H] by (subst header_map_lawsD(6) [OF H]) auto
  moreover have "map_of hs n = None" using Cons.prems e by (simp add: map_of_eq_None_iff)
  ultimately show ?case using Cons e by (auto split: option.split)
qed simp

text \<open>The values of a name after the edits.\<close>

definition static_values :: "'h header_map_ops \<Rightarrow> ('hm, 'sm) static_config \<Rightarrow> 'h \<Rightarrow> string \<Rightarrow> string list" where
  "static_values H c h k =
     (if k = ''content-length'' then [decimal_nat (length (static_http_body c))]
      else case map_of (static_http_headers c) k of
             Some v \<Rightarrow> [v]
           | None \<Rightarrow>
               (if k = '':status'' then [decimal_nat (unat (static_http_status c))]
                else map snd (hm_get H k h) @ (if k = ''x-downgrade-status'' then [''STATIC''] else [])))"

lemma get_static_headers:
  assumes H: "header_map_laws H inl valid" and "distinct (map fst (static_http_headers c))"
    and "\<not> inl ''x-downgrade-status''"
  shows "map snd (hm_get H k (static_headers H c h)) = static_values H c h k"
  using assms(3)
  by (auto simp: static_headers_def static_values_def Let_def header_map_lawsD(6,7,8) [OF H]
        get_fold_replace [OF H assms(2)] split: option.splits)

section \<open>Properties\<close>

text \<open>
  C32: A static downgrade replaces the whole response. With the first configuration of the route that matches
  the request, the response and the stream, the response has the configured status, the mark
  \<^verbatim>\<open>x-downgrade-status: STATIC\<close>, the configured headers and the length of the configured body, and the next
  filter receives exactly that body, however the original body is cut into chunks; but nothing of it when the
  original response ends with trailers. Without such a configuration the response passes unchanged.
\<close>

theorem static_downgrade_response:
  assumes H: "header_map_laws H inl valid" "\<not> inl ''x-downgrade-status''"
    and rc: "StaticDowngradeRouteConfig F p = Inr cs"
    and f: "f = (if decoded then snd (sd_decodeHeaders HttpStaticDowngradeFilter) else HttpStaticDowngradeFilter)"
    and run: "sd_encodeHeaders H F (Some (Some cs)) info rqx h end_stream f = (status, calls, h', f')"
  shows "case find (shouldDowngrade F (if decoded then rqx else hm_create H) h info) cs of
      None \<Rightarrow> status = Continue \<and> calls = [] \<and> h' = h \<and>
        fst (encode_body sd_encodeData trailers chunks f') = concat chunks
    | Some c \<Rightarrow>
        map snd (hm_get H k h') = static_values H c h k \<and>
        (if end_stream then status = Continue \<and> calls = [AddEncodedData (static_http_body c)]
         else status = StopIteration \<and> calls = [] \<and>
           fst (encode_body sd_encodeData trailers (chunk # chunks) f') =
             (if trailers then '''' else static_http_body c))"
proof -
  have find: "downgradeConfig F rqx h info cs = find (shouldDowngrade F rqx h info) cs" for rqx
    by (simp add: downgradeConfig_def)
  let ?r = "if decoded then rqx else hm_create H"
  have req: "(if sd_rqx_headers_set f then rqx else hm_create H) = ?r"
    by (simp add: f sd_decodeHeaders_def HttpStaticDowngradeFilter_def)
  have new: "\<not> sd_downgrade_complete f"
    by (simp add: f sd_decodeHeaders_def HttpStaticDowngradeFilter_def)
  show ?thesis
  proof (cases "find (shouldDowngrade F ?r h info) cs")
    case None
    with run have "status = Continue \<and> calls = [] \<and> h' = h" and "sd_passing f'"
      by (auto simp: sd_encodeHeaders_def Let_def req find sd_passing_def)
    with None sd.passed_body show ?thesis by simp
  next
    case (Some c)
    then have "distinct (map fst (static_http_headers c))"
      using route_config_distinct [OF rc, of ?r h info c] by (simp add: find)
    from get_static_headers [OF H(1) this H(2)]
    have "map snd (hm_get H k h') = static_values H c h k"
      using run Some by (auto simp: sd_encodeHeaders_def Let_def req find split: if_splits)
    moreover have "end_stream \<or> sd_replacing (static_http_body c) f'"
      using run Some new by (auto simp: sd_encodeHeaders_def Let_def req find sd_replacing_def)
    ultimately show ?thesis
      using run Some sd.replaced_body [of _ f' "chunk # chunks"] sd.lost_body [of _ f' "chunk # chunks"]
      by (auto simp: sd_encodeHeaders_def Let_def req find split: if_splits)
  qed
qed

definition example_env :: "((string \<times> string) list, string \<times> string, string) downgrade_env" where
  "example_env =
     \<lparr>match_headers = \<lambda>h ms. \<forall>m \<in> set ms. m \<in> set h, match_details = \<lambda>m s. m = s,
      toResponseFlag = \<lambda>s. if s = ''UH'' then Some 2 else None,
      fileExists = \<lambda>n. False, fileSize = \<lambda>n. -1, fileReadToEnd = \<lambda>n. Inl ''unable to read file''\<rparr>"

definition example_static_proto :: "(string \<times> string, string) sd_route_proto" where
  "example_static_proto =
     \<lparr>dp_rqx = [], dp_rpx = [('':status'', ''503'')], dp_response_flags = Some ''UH,'',
      dp_response_code_details = None,
      dp_static_response =
        Some \<lparr>sr_http_status = 0, sr_headers = [(''X-From'', ''a''), (''x-from'', ''b'')],
              sr_body = Some \<lparr>filename = '''', inline_bytes = '''', inline_string = ''try later''\<rparr>\<rparr>,
      specific_configs = []\<rparr>"

theorem static_downgrade_response_witness:
  "\<exists>cs. StaticDowngradeRouteConfig example_env example_static_proto = Inr cs \<and>
    (let (status, calls, h', f') =
           sd_encodeHeaders list_headers example_env (Some (Some cs)) \<lparr>responseFlags = 6, responseCodeDetails = None\<rparr>
             [] [('':status'', ''503''), (''x-from'', ''c'')] False HttpStaticDowngradeFilter
     in status = StopIteration \<and> map snd (hm_get list_headers ''x-from'' h') = [''a''] \<and>
        fst (encode_body sd_encodeData False [''no healthy'', ''upstream''] f') = ''try later'')"
proof -
  define c where "c = \<lparr>downgrade_rqx = [], downgrade_rpx = [('':status'', ''503'')], response_flags = Some 2,
      response_code_details_matcher = (None :: string option), static_http_status = 200,
      static_http_headers = [(''x-from'', ''a'')], static_http_body = ''try later'', has_no_downgrade_rpx = False\<rparr>"
  let ?info = "\<lparr>responseFlags = 6, responseCodeDetails = None\<rparr>" and ?h = "[('':status'', ''503''), (''x-from'', ''c'')]"
  have cs: "StaticDowngradeRouteConfig example_env example_static_proto = Inr [c]"
    unfolding c_def by code_simp
  obtain status calls h' f' where run:
    "sd_encodeHeaders list_headers example_env (Some (Some [c])) ?info [] ?h False HttpStaticDowngradeFilter =
      (status, calls, h', f')" by (metis surj_pair)
  have found: "shouldDowngrade example_env [] ?h ?info c"
    unfolding c_def by code_simp
  from static_downgrade_response [where decoded = False, OF list_headers_laws _ cs, simplified, OF refl run,
      where trailers = False and k = "''x-from''" and chunk = "''no healthy''" and chunks = "[''upstream'']"]
  have "status = StopIteration \<and> map snd (hm_get list_headers ''x-from'' h') = [''a''] \<and>
      fst (encode_body sd_encodeData False [''no healthy'', ''upstream''] f') = ''try later''"
    using found by (simp add: list_headers_def static_values_def c_def)
  with cs run show ?thesis by simp
qed

end
