(* ===== verification/Service_Downgrade.thy ===== *)
theory Service_Downgrade
  imports Response_Stream
begin

text \<open>
  Downgrading by asking another service: the HTTP request sender of
  \<^verbatim>\<open>source/common/sender/httpx_request_sender.{h,cc}\<close> and the service downgrade filter of
  \<^verbatim>\<open>source/filters/http/service_downgrade/service_downgrade.{h,cc}\<close>.

  \<^item> The cluster manager and the asynchronous client of Envoy are the parameter \<open>async_env\<close>: sending a message
    gives the callbacks that the client calls before it returns, and whether it returns a request handle.
  \<^item> The answer of the other service is a call of \<open>remote_onSuccess\<close> or \<open>remote_onFailure\<close> at a later time. Both run
    with the headers of the response that waits, to which the filter holds a pointer.
\<close>

section \<open>The HTTP request sender\<close>

datatype send_status = FAILED | ONCALL

datatype 'h async_callback = OnSuccess "'h http_message" | OnFailure

record 'h async_env =
  cluster_exists :: "string \<Rightarrow> bool"
  client_send :: "string \<Rightarrow> 'h http_message \<Rightarrow> u32 \<Rightarrow> 'h async_callback list \<times> bool"

record httpx_config =
  hx_cluster :: string
  hx_timeout :: u32

record httpx_sender =
  hx_config :: "httpx_config option"
  hx_request :: bool

definition HttpxRequestSender :: "httpx_config option \<Rightarrow> httpx_sender" where
  "HttpxRequestSender config = \<lparr>hx_config = config, hx_request = False\<rparr>"

text \<open>\<^verbatim>\<open>cancel\<close> tells whether it cancels a request of the client.\<close>

definition hx_cancel :: "httpx_sender \<Rightarrow> bool \<times> httpx_sender" where
  "hx_cancel s = (if hx_request s then (True, s\<lparr>hx_request := False\<rparr>) else (False, s))"

text \<open>The second component is what goes to the client, the third the callbacks called before it returns.\<close>

definition hx_sendRequest ::
    "'h async_env \<Rightarrow> 'h http_message option \<Rightarrow> bool \<Rightarrow> httpx_sender \<Rightarrow>
     send_status \<times> (string \<times> 'h http_message \<times> u32) list \<times> 'h async_callback list \<times> httpx_sender" where
  "hx_sendRequest A message callback s =
     (case (hx_config s, message) of
        (Some cfg, Some m) \<Rightarrow>
          (if \<not> callback then (FAILED, [], [], s)
           else if cluster_exists A (hx_cluster cfg)
           then (let (cbs, handle) = client_send A (hx_cluster cfg) m (hx_timeout cfg)
                 in (if handle then ONCALL else FAILED, [(hx_cluster cfg, m, hx_timeout cfg)], cbs,
                     s\<lparr>hx_request := handle\<rparr>))
           else (FAILED, [], [], s))
      | _ \<Rightarrow> (FAILED, [], [], s))"

section \<open>The state that the service and the dynamic downgrade share\<close>

record remote_state =
  buffered_rqx_body :: string
  buffered_rpx_body :: string
  should_downgrade :: bool
  downgrade_complete :: bool
  downgrade_suspend :: bool
  headers_only_resp :: bool
  is_sending_request :: bool
  local_request_over :: bool

definition remote_init :: remote_state where
  "remote_init =
     \<lparr>buffered_rqx_body = '''', buffered_rpx_body = '''', should_downgrade = False, downgrade_complete = False,
      downgrade_suspend = False, headers_only_resp = False, is_sending_request = False, local_request_over = False\<rparr>"

text \<open>
  The callbacks of the request, which both filters have in the same form up to the mark they put on the
  response: the calls on the encoder, the headers of the response, the state.
\<close>

definition remote_onSuccess ::
    "'h header_map_ops \<Rightarrow> string \<Rightarrow> 'h http_message \<Rightarrow> 'h \<Rightarrow> 'x remote_state_scheme \<Rightarrow>
     callback list \<times> 'h \<times> 'x remote_state_scheme" where
  "remote_onSuccess H mark response rpx f =
     (if \<not> is_sending_request f then ([], rpx, f\<lparr>local_request_over := True\<rparr>)
      else
        let f1 = f\<lparr>is_sending_request := False, downgrade_complete := headers_only_resp f\<rparr>;
            h = hm_addCopy H ''x-downgrade-status'' mark (replaceHeaders H rpx (msg_headers response))
        in if downgrade_complete f1 then ([AddEncodedData (msg_body response), ContinueEncoding], h, f1)
           else ([ContinueEncoding], h, f1\<lparr>buffered_rpx_body := buffered_rpx_body f1 @ msg_body response\<rparr>))"

definition remote_onFailure :: "'x remote_state_scheme \<Rightarrow> callback list \<times> 'x remote_state_scheme" where
  "remote_onFailure f =
     (if \<not> is_sending_request f then ([], f\<lparr>local_request_over := True\<rparr>)
      else ([ContinueEncoding], f\<lparr>downgrade_suspend := True, is_sending_request := False\<rparr>))"

fun remote_callbacks ::
    "'h header_map_ops \<Rightarrow> string \<Rightarrow> 'h async_callback list \<Rightarrow> 'h \<Rightarrow> 'x remote_state_scheme \<Rightarrow>
     callback list \<times> 'h \<times> 'x remote_state_scheme" where
  "remote_callbacks H mark [] rpx f = ([], rpx, f)"
| "remote_callbacks H mark (OnSuccess m # cbs) rpx f =
     (let (cs, rpx1, f1) = remote_onSuccess H mark m rpx f;
          (cs', rpx2, f2) = remote_callbacks H mark cbs rpx1 f1
      in (cs @ cs', rpx2, f2))"
| "remote_callbacks H mark (OnFailure # cbs) rpx f =
     (let (cs, f1) = remote_onFailure f; (cs', rpx2, f2) = remote_callbacks H mark cbs rpx f1 in (cs @ cs', rpx2, f2))"

text \<open>What \<^verbatim>\<open>encodeHeaders\<close> returns after sending.\<close>

definition after_send :: "send_status \<Rightarrow> 'x remote_state_scheme \<Rightarrow> headers_status \<times> 'x remote_state_scheme" where
  "after_send status f =
     (if status = ONCALL \<and> \<not> local_request_over f
      then (if headers_only_resp f then StopIteration else StopAllIterationAndBuffer, f\<lparr>is_sending_request := True\<rparr>)
      else (Continue, f\<lparr>downgrade_suspend := True\<rparr>))"

section \<open>Configuration\<close>

datatype direction = DECODE | ENCODE

definition DefaultTimeout :: u32 where
  "DefaultTimeout = 200"

text \<open>The message of a remote service: its cluster and the timeout in milliseconds, if it is set.\<close>

definition remote_config :: "string \<times> u32 option \<Rightarrow> httpx_config" where
  "remote_config r = \<lparr>hx_cluster = fst r, hx_timeout = (case snd r of None \<Rightarrow> DefaultTimeout | Some t \<Rightarrow> t)\<rparr>"

record 'hm sv_route_proto =
  svp_downgrade_rqx :: "'hm list"
  svp_downgrade_rpx :: "'hm list"
  svp_downgrade_uri :: string
  svp_override_remote :: "(string \<times> u32 option) option"

record 'hm sv_route_config =
  sv_downgrade_rqx :: "'hm list"
  sv_downgrade_rpx :: "'hm list"
  sv_has_no_downgrade_rpx :: bool
  sv_downgrade_uri :: "HttpUri option"
  sv_override_remote :: "httpx_config option"

definition sv_RouteConfig :: "'hm sv_route_proto \<Rightarrow> 'hm sv_route_config" where
  "sv_RouteConfig p =
     (let c = \<lparr>sv_downgrade_rqx = svp_downgrade_rqx p, sv_downgrade_rpx = svp_downgrade_rpx p,
               sv_has_no_downgrade_rpx = False, sv_downgrade_uri = None, sv_override_remote = None\<rparr>
      in if length (svp_downgrade_rpx p) = 0 then c\<lparr>sv_has_no_downgrade_rpx := True\<rparr>
         else c\<lparr>sv_downgrade_uri := makeHttpUri (svp_downgrade_uri p),
                sv_override_remote := map_option remote_config (svp_override_remote p)\<rparr>)"

definition sv_shouldDowngrade ::
    "('h \<Rightarrow> 'hm list \<Rightarrow> bool) \<Rightarrow> 'hm sv_route_config \<Rightarrow> 'h \<Rightarrow> direction \<Rightarrow> bool" where
  "sv_shouldDowngrade match_headers c headers direc =
     (if sv_has_no_downgrade_rpx c then False
      else if direc = DECODE then match_headers headers (sv_downgrade_rqx c)
      else match_headers headers (sv_downgrade_rpx c))"

text \<open>\<^verbatim>\<open>CommonConfig\<close>: the remote service of the filter, if it is configured.\<close>

definition CommonConfig :: "(string \<times> u32 option) option \<Rightarrow> httpx_config option" where
  "CommonConfig used_remote = map_option remote_config used_remote"

section \<open>The filter\<close>

record 'hm sv_filter = remote_state +
  sv_request_sender :: "httpx_sender option"
  sv_router_config :: "'hm sv_route_config option"

definition sv_Filter :: "'hm sv_filter" where
  "sv_Filter = remote_state.extend remote_init \<lparr>sv_request_sender = None, sv_router_config = None\<rparr>"

definition sv_decodeHeaders ::
    "('h \<Rightarrow> 'hm list \<Rightarrow> bool) \<Rightarrow> 'hm sv_route_config option \<Rightarrow> 'h \<Rightarrow> 'hm sv_filter \<Rightarrow> headers_status \<times> 'hm sv_filter" where
  "sv_decodeHeaders match_headers route headers f =
     (case route of
        None \<Rightarrow> (Continue, f\<lparr>sv_router_config := None\<rparr>)
      | Some c \<Rightarrow>
          (Continue, f\<lparr>sv_router_config := Some c, should_downgrade := sv_shouldDowngrade match_headers c headers DECODE\<rparr>))"

definition sv_decodeData :: "string \<Rightarrow> 'hm sv_filter \<Rightarrow> data_status \<times> 'hm sv_filter" where
  "sv_decodeData data f =
     (DataContinue, if should_downgrade f then f\<lparr>buffered_rqx_body := buffered_rqx_body f @ data\<rparr> else f)"

text \<open>The request to the other service: the headers of the request with the configured URI and the kept body.\<close>

definition redirect_headers :: "'h header_map_ops \<Rightarrow> HttpUri option \<Rightarrow> 'h \<Rightarrow> 'h" where
  "redirect_headers H request_uri h =
     (case request_uri of
        None \<Rightarrow> h
      | Some u \<Rightarrow> hm_setCopy H '':path'' (uri_path u) (hm_setCopy H '':authority'' (uri_host u)
                    (hm_setCopy H '':scheme'' (uri_scheme u) h)))"

text \<open>
  \<open>used_remote\<close> is the configuration of the filter, \<open>rqx\<close> the headers of the request. When \<open>should_downgrade\<close>
  holds, \<^verbatim>\<open>decodeHeaders\<close> has set the route configuration. The result also lists what was sent.
\<close>

definition sv_encodeHeaders ::
    "'h header_map_ops \<Rightarrow> 'h async_env \<Rightarrow> ('h \<Rightarrow> 'hm list \<Rightarrow> bool) \<Rightarrow> httpx_config option \<Rightarrow> 'h \<Rightarrow> 'h \<Rightarrow> bool \<Rightarrow>
     'hm sv_filter \<Rightarrow>
     headers_status \<times> callback list \<times> (string \<times> 'h http_message \<times> u32) list \<times> 'h \<times> 'hm sv_filter" where
  "sv_encodeHeaders H A match_headers used_remote rqx rpx end_stream f =
     (case (should_downgrade f, sv_router_config f) of
        (True, Some c) \<Rightarrow>
          (let f1 = f\<lparr>should_downgrade := sv_shouldDowngrade match_headers c rpx ENCODE\<rparr>
           in if \<not> should_downgrade f1 then (Continue, [], [], rpx, f1)
              else
                let sender = HttpxRequestSender
                      (case sv_override_remote c of Some r \<Rightarrow> Some r | None \<Rightarrow> used_remote);
                    request = \<lparr>msg_headers = redirect_headers H (sv_downgrade_uri c) (hm_copy H rqx),
                               msg_body = buffered_rqx_body f1\<rparr>;
                    (status, sent, cbs, sender') = hx_sendRequest A (Some request) True sender;
                    f2 = f1\<lparr>headers_only_resp := end_stream, buffered_rqx_body := '''',
                            sv_request_sender := Some sender'\<rparr>;
                    (calls, rpx', f3) = remote_callbacks H ''SERVICE'' cbs rpx f2;
                    (headers_status, f4) = after_send status f3
                in (headers_status, calls, sent, rpx', f4))
      | _ \<Rightarrow> (Continue, [], [], rpx, f))"

definition sv_onSuccess ::
    "'h header_map_ops \<Rightarrow> 'h http_message \<Rightarrow> 'h \<Rightarrow> 'hm sv_filter \<Rightarrow> callback list \<times> 'h \<times> 'hm sv_filter" where
  "sv_onSuccess H = remote_onSuccess H ''SERVICE''"

definition sv_onFailure :: "'hm sv_filter \<Rightarrow> callback list \<times> 'hm sv_filter" where
  "sv_onFailure = remote_onFailure"

definition sv_encodeData :: "'hm sv_filter data_step" where
  "sv_encodeData data end_stream f =
     (if \<not> should_downgrade f \<or> downgrade_complete f \<or> downgrade_suspend f then (DataContinue, [], data, f)
      else if end_stream
      then (DataContinue, [AddEncodedData (buffered_rpx_body f)], '''',
            f\<lparr>buffered_rpx_body := '''', downgrade_complete := True\<rparr>)
      else (StopIterationNoBuffer, [], '''', f))"

text \<open>The first component tells whether a request of the client is cancelled.\<close>

definition sv_onDestroy :: "'hm sv_filter \<Rightarrow> bool \<times> 'hm sv_filter" where
  "sv_onDestroy f =
     (case sv_request_sender f of
        Some sender \<Rightarrow>
          (if is_sending_request f
           then (fst (hx_cancel sender),
                 f\<lparr>is_sending_request := False, downgrade_suspend := True, sv_request_sender := None\<rparr>)
           else (False, f))
      | None \<Rightarrow> (False, f))"

section \<open>The contract of the two filters\<close>

text \<open>
  When the filter passes data on, and when it replaces the body. A filter that waits for an answer keeps no
  part of it yet.
\<close>

definition remote_passing :: "'x remote_state_scheme \<Rightarrow> bool" where
  "remote_passing f \<longleftrightarrow> \<not> should_downgrade f \<or> downgrade_complete f \<or> downgrade_suspend f"

definition remote_replacing :: "string \<Rightarrow> 'x remote_state_scheme \<Rightarrow> bool" where
  "remote_replacing b f \<longleftrightarrow> \<not> remote_passing f \<and> buffered_rpx_body f = b"

definition remote_fresh :: "'x remote_state_scheme \<Rightarrow> bool" where
  "remote_fresh f \<longleftrightarrow> remote_replacing '''' f \<and> \<not> is_sending_request f \<and> \<not> local_request_over f"

definition remote_waiting :: "'x remote_state_scheme \<Rightarrow> bool" where
  "remote_waiting f \<longleftrightarrow> remote_replacing '''' f \<and> is_sending_request f"

lemmas remote_defs = remote_passing_def remote_replacing_def remote_fresh_def remote_waiting_def

interpretation sv: body_replacement sv_encodeData remote_passing remote_replacing
  by unfold_locales (auto simp: sv_encodeData_def remote_passing_def remote_replacing_def)

text \<open>A callback that arrives while no request is under way only leaves a note.\<close>

lemma early_callbacks:
  "\<not> is_sending_request f \<Longrightarrow>
   remote_callbacks H mark cbs rpx f = ([], rpx, f\<lparr>local_request_over := local_request_over f \<or> cbs \<noteq> []\<rparr>)"
  by (induction H mark cbs rpx f rule: remote_callbacks.induct)
     (simp_all add: remote_onSuccess_def remote_onFailure_def)

lemma after_send_fresh:
  assumes "remote_fresh f" and "after_send st (f\<lparr>local_request_over := local_request_over f \<or> cbs \<noteq> []\<rparr>) = (hs, f')"
  shows "(hs = Continue) = (st = FAILED \<or> cbs \<noteq> [])"
    and "hs = Continue \<Longrightarrow> remote_passing f'"
    and "hs \<noteq> Continue \<Longrightarrow> remote_waiting f' \<and> headers_only_resp f' = headers_only_resp f \<and>
      hs = (if headers_only_resp f then StopIteration else StopAllIterationAndBuffer)"
  using assms by (cases st; auto simp: after_send_def remote_defs split: if_splits)+

lemma waiting_success:
  assumes "header_map_laws H inl valid" and "\<not> inl ''x-downgrade-status''" and "remote_waiting f"
    and "remote_onSuccess H mark m rpx f = (calls, h, f')"
  shows "map snd (hm_get H k h) = map snd (hm_get H k (msg_headers m)) @ (if k = ''x-downgrade-status'' then [mark] else [])"
    and "headers_only_resp f \<Longrightarrow> calls = [AddEncodedData (msg_body m), ContinueEncoding] \<and> remote_passing f'"
    and "\<not> headers_only_resp f \<Longrightarrow> calls = [ContinueEncoding] \<and> remote_replacing (msg_body m) f'"
  using assms(3,4)
  by (auto simp: remote_onSuccess_def remote_defs replaceHeaders_def Let_def header_map_lawsD(6,9) [OF assms(1)] assms(2)
      split: if_splits)

lemma waiting_failure:
  "remote_waiting f \<Longrightarrow> remote_onFailure f = (calls, f') \<Longrightarrow> calls = [ContinueEncoding] \<and> remote_passing f'"
  by (auto simp: remote_onFailure_def remote_defs)

section \<open>Properties\<close>

text \<open>The filter after the headers and the body of a request.\<close>

definition sv_request ::
    "('h \<Rightarrow> 'hm list \<Rightarrow> bool) \<Rightarrow> 'hm sv_route_config \<Rightarrow> 'h \<Rightarrow> string list \<Rightarrow> 'hm sv_filter" where
  "sv_request matches c rqx body =
     fold (\<lambda>d f. snd (sv_decodeData d f)) body (snd (sv_decodeHeaders matches (Some c) rqx sv_Filter))"

lemma fold_decodeData:
  "fold (\<lambda>d f. snd (sv_decodeData d f)) ds f =
     (if should_downgrade f then f\<lparr>buffered_rqx_body := buffered_rqx_body f @ concat ds\<rparr> else f)"
  by (induction ds arbitrary: f) (simp_all add: sv_decodeData_def)

lemma sv_request_simps:
  "should_downgrade (sv_request matches c rqx body) = sv_shouldDowngrade matches c rqx DECODE"
  "sv_router_config (sv_request matches c rqx body) = Some c"
  "should_downgrade (sv_request matches c rqx body) \<Longrightarrow>
     buffered_rqx_body (sv_request matches c rqx body) = concat body \<and> remote_fresh (sv_request matches c rqx body)"
  by (auto simp: sv_request_def fold_decodeData sv_decodeHeaders_def sv_Filter_def remote_init_def
      remote_state.defs remote_defs)

lemma sent_request:
  "hx_sendRequest A (Some m) True (HttpxRequestSender remote) = (st, sent, cbs, s) \<Longrightarrow>
   (st = ONCALL \<and> cbs = [] \<longleftrightarrow>
      (\<exists>r. remote = Some r \<and> cluster_exists A (hx_cluster r) \<and> client_send A (hx_cluster r) m (hx_timeout r) = ([], True))) \<and>
   (st = ONCALL \<longrightarrow> (\<exists>r. remote = Some r \<and> sent = [(hx_cluster r, m, hx_timeout r)]))"
  by (cases remote) (auto simp: hx_sendRequest_def HttpxRequestSender_def split: if_splits prod.splits)



definition example_client :: "(string \<times> string) list async_env" where
  "example_client = \<lparr>cluster_exists = \<lambda>c. c = ''backup'', client_send = \<lambda>c m t. ([], True)\<rparr>"

definition example_service :: "(string \<times> string) sv_route_config" where
  "example_service =
     sv_RouteConfig \<lparr>svp_downgrade_rqx = [], svp_downgrade_rpx = [('':status'', ''503'')],
       svp_downgrade_uri = ''http://b/x'', svp_override_remote = None\<rparr>"


end
