(* ===== verification/Cache_Base.thy ===== *)
theory Cache_Base
  imports Prelude
begin

text \<open>
  The two interfaces of \<^verbatim>\<open>source/common/cache/cache_base.h\<close>.

  \<^item> \<^verbatim>\<open>CacheEntry\<close> is the record \<open>cache_entry_ops\<close> of the virtual methods a cache calls on its
    entries.
  \<^item> \<^verbatim>\<open>CommonCacheBase\<close> is the locale \<open>common_cache\<close>: the operations of a cache with the
    contract a client relies on, and the facts about sequences of operations that follow from the
    contract alone.
\<close>

section \<open>Cache entries\<close>

type_synonym cache_key = string

record 'e cache_entry_ops =
  cacheExpire :: "'e \<Rightarrow> u64"
  set_cacheExpire :: "u64 \<Rightarrow> 'e \<Rightarrow> 'e"
  cacheLength :: "'e \<Rightarrow> u64"
  createCopy :: "'e \<Rightarrow> 'e option"
  loadFromString :: "string \<Rightarrow> 'e \<Rightarrow> 'e"
  serializeAsString :: "'e \<Rightarrow> string option"

section \<open>The contract of a cache\<close>

text \<open>The requests a client can make of a cache, with the time at which they are made.\<close>

datatype 'e cache_op =
    Insert cache_key 'e
  | Remove cache_key
  | Lookup u64 cache_key

text \<open>
  The abstract history of one key: the entry that the last \<open>Insert\<close> of that key stored, provided no
  \<open>Remove\<close> of the key came after it.
\<close>

fun last_inserted :: "cache_key \<Rightarrow> 'e option \<Rightarrow> 'e cache_op list \<Rightarrow> 'e option" where
  "last_inserted k r [] = r"
| "last_inserted k r (Insert k' e # ops) = last_inserted k (if k' = k then Some e else r) ops"
| "last_inserted k r (Remove k' # ops) = last_inserted k (if k' = k then None else r) ops"
| "last_inserted k r (Lookup t k' # ops) = last_inserted k r ops"

text \<open>One request, over the three operations of some cache; the result of a lookup is dropped.\<close>

fun cache_step ::
    "(u64 \<Rightarrow> cache_key \<Rightarrow> 'c \<Rightarrow> 'e option \<times> 'c) \<Rightarrow> (cache_key \<Rightarrow> 'e \<Rightarrow> 'c \<Rightarrow> 'c option) \<Rightarrow>
     (cache_key \<Rightarrow> 'c \<Rightarrow> 'c) \<Rightarrow> 'e cache_op \<Rightarrow> 'c \<Rightarrow> 'c option" where
  "cache_step lk ins rm (Insert k e) c = ins k e c"
| "cache_step lk ins rm (Remove k) c = Some (rm k c)"
| "cache_step lk ins rm (Lookup t k) c = Some (snd (lk t k c))"

locale common_cache =
  fixes expire :: "'e \<Rightarrow> u64"
    and copy :: "'e \<Rightarrow> 'e option"
    and lookup :: "u64 \<Rightarrow> cache_key \<Rightarrow> 'c \<Rightarrow> 'e option \<times> 'c"
    and insert_entry :: "cache_key \<Rightarrow> 'e \<Rightarrow> 'c \<Rightarrow> 'c option"
    and remove :: "cache_key \<Rightarrow> 'c \<Rightarrow> 'c"
    and view :: "'c \<Rightarrow> cache_key \<rightharpoonup> 'e"
    and invar :: "'c \<Rightarrow> bool"
  assumes insert_returns: "invar c \<Longrightarrow> \<exists>c'. insert_entry k e c = Some c'"
    and insert_invar: "invar c \<Longrightarrow> insert_entry k e c = Some c' \<Longrightarrow> invar c'"
    and insert_view: "invar c \<Longrightarrow> insert_entry k e c = Some c' \<Longrightarrow>
      view c' \<subseteq>\<^sub>m (view c)(k \<mapsto> e)"
    and remove_invar: "invar c \<Longrightarrow> invar (remove k c)"
    and remove_view: "invar c \<Longrightarrow> view (remove k c) = (view c)(k := None)"
    and lookup_result: "invar c \<Longrightarrow> fst (lookup t k c) =
      (case view c k of None \<Rightarrow> None | Some e \<Rightarrow> if expire e \<le> t then None else copy e)"
    and lookup_invar: "invar c \<Longrightarrow> invar (snd (lookup t k c))"
    and lookup_view: "invar c \<Longrightarrow> view (snd (lookup t k c)) \<subseteq>\<^sub>m view c"
begin

abbreviation step :: "'e cache_op \<Rightarrow> 'c \<Rightarrow> 'c option" where
  "step \<equiv> cache_step lookup insert_entry remove"

lemma step_returns: "invar c \<Longrightarrow> \<exists>c'. step op c = Some c' \<and> invar c'"
  by (cases op) (auto intro: insert_invar remove_invar lookup_invar dest: insert_returns)

lemma run_steps_returns: "invar c \<Longrightarrow> \<exists>c'. run_steps step ops c = Some c' \<and> invar c'"
  by (rule run_steps_invariant [where I = invar]) (rule step_returns)

lemma step_view:
  assumes "invar c" and "step op c = Some c'" and "view c' k = Some e"
  shows "last_inserted k (view c k) [op] = Some e"
proof (cases op)
  case (Insert k' e')
  with assms have "view c' \<subseteq>\<^sub>m (view c)(k' \<mapsto> e')"
    by (auto intro: insert_view)
  with Insert assms(3) show ?thesis
    by (auto simp: map_le_def dom_def split: if_splits)
next
  case (Remove k')
  with assms show ?thesis by (auto simp: remove_view split: if_splits)
next
  case (Lookup t k')
  with assms lookup_view [of c t k'] show ?thesis by (auto simp: map_le_def dom_def)
qed

lemma last_inserted_mono:
  assumes "last_inserted k r ops = Some e" and "r = None \<or> r = r'"
  shows "last_inserted k r' ops = Some e"
  using assms
proof (induction k r ops arbitrary: r' rule: last_inserted.induct)
  case (1 k r)
  then show ?case by auto
next
  case (2 k r k' e' ops)
  then show ?case by (auto split: if_splits)
next
  case (3 k r k' ops)
  then show ?case by (auto split: if_splits)
next
  case (4 k r t k' ops)
  then show ?case by auto
qed

text \<open>Whatever a sequence of operations leaves stored under a key is what was last inserted there.\<close>

lemma run_steps_view:
  assumes "invar c" and "run_steps step ops c = Some c'" and "view c' k = Some e"
  shows "last_inserted k (view c k) ops = Some e"
  using assms
proof (induction ops arbitrary: c)
  case Nil
  then show ?case by simp
next
  case (Cons op ops)
  obtain c1 where c1: "step op c = Some c1" "invar c1"
    using step_returns [OF Cons.prems(1)] by blast
  with Cons.prems(2) have "run_steps step ops c1 = Some c'" by simp
  with Cons.IH [OF c1(2) _ Cons.prems(3)]
  have IH: "last_inserted k (view c1 k) ops = Some e" by blast
  have "view c1 k = None \<or> view c1 k = last_inserted k (view c k) [op]"
    using step_view [OF Cons.prems(1) c1(1)] by (cases "view c1 k") auto
  with IH have "last_inserted k (last_inserted k (view c k) [op]) ops = Some e"
    by (rule last_inserted_mono)
  then show ?case by (cases op) auto
qed

text \<open>A hit is a copy of the entry last inserted under the key, and that entry has not expired.\<close>

lemma hit_is_last_inserted:
  assumes "invar c" and "run_steps step ops c = Some c'" and "fst (lookup t k c') = Some r"
  shows "\<exists>e. last_inserted k (view c k) ops = Some e \<and> copy e = Some r \<and> t < expire e"
proof -
  have "invar c'" using assms(1,2) run_steps_returns [of c ops] by auto
  with assms(3) obtain e where "view c' k = Some e" "copy e = Some r" "t < expire e"
    by (auto simp: lookup_result split: option.splits if_splits)
  with run_steps_view [OF assms(1,2)] show ?thesis by blast
qed

lemma lookup_after_remove: "invar c \<Longrightarrow> fst (lookup t k (remove k c)) = None"
  by (simp add: lookup_result remove_invar remove_view)

end

end
