(* ===== verification/Lru_Cache.thy ===== *)
theory Lru_Cache
  imports Cache_Base
begin

text \<open>
  The LRU cache \<^verbatim>\<open>LruCacheImpl\<close> of \<^verbatim>\<open>source/common/cache/local_cache_impl.{h,cc}\<close>.

  \<^verbatim>\<open>m_list_\<close> is a linked list of keys whose nodes are addressed by iterators that \<^verbatim>\<open>m_dict_\<close>
  stores. A node is a pair of its address (a number, fresh at each \<^verbatim>\<open>push_front\<close>) and the key it
  holds; an iterator is the address. \<^verbatim>\<open>cache_length_\<close> is a 64 bit word that wraps around as
  \<^verbatim>\<open>uint64_t\<close> does. Every public method holds the mutex for its whole body, so an execution of
  several threads is a sequence of these operations.

  The detailed operations refine operations on the recency list \<open>lru_abs\<close> of key and entry, most
  recently used first; the invariant \<open>lru_inv\<close> ties the two containers and the length together.
\<close>

section \<open>State and operations\<close>

record 'e lru =
  m_dict :: "(cache_key \<times> (nat \<times> 'e)) list"
  m_list :: "(nat \<times> cache_key) list"
  next_node :: nat
  max_cache_length :: u64
  cache_length :: u64

definition LruCacheImpl :: "u64 \<Rightarrow> 'e lru" where
  "LruCacheImpl mx = \<lparr>m_dict = [], m_list = [], next_node = 0, max_cache_length = mx, cache_length = 0\<rparr>"

definition cacheNumber :: "'e lru \<Rightarrow> nat" where
  "cacheNumber s = length (m_dict s)"

definition checkMemory :: "'e lru \<Rightarrow> 'e lru" where
  "checkMemory s =
     (if length (m_list s) \<noteq> length (m_dict s)
      then s\<lparr>m_dict := [], m_list := [], cache_length := 0\<rparr> else s)"

text \<open>\<^verbatim>\<open>std::list::erase\<close> of an iterator.\<close>

definition erase_node :: "nat \<Rightarrow> (nat \<times> cache_key) list \<Rightarrow> (nat \<times> cache_key) list" where
  "erase_node it l = filter (\<lambda>p. fst p \<noteq> it) l"

definition removeImpl :: "('e, 'x) cache_entry_ops_scheme \<Rightarrow> cache_key \<Rightarrow> 'e lru \<Rightarrow> 'e lru" where
  "removeImpl E k s =
     (case map_of (m_dict s) k of
        None \<Rightarrow> s
      | Some (it, v) \<Rightarrow> s\<lparr>cache_length := cache_length s - cacheLength E v,
                          m_list := erase_node it (m_list s),
                          m_dict := AList.delete k (m_dict s)\<rparr>)"

text \<open>
  \<^verbatim>\<open>drainNumber\<close> removes up to \<open>n\<close> keys from the back of the list and counts them. Reading
  \<^verbatim>\<open>*m_list_.rbegin()\<close> of an empty list is undefined in C++; the model returns \<^const>\<open>None\<close> there.
\<close>

fun drainNumber :: "('e, 'x) cache_entry_ops_scheme \<Rightarrow> nat \<Rightarrow> 'e lru \<Rightarrow> (nat \<times> 'e lru) option" where
  "drainNumber E 0 s = Some (0, s)"
| "drainNumber E (Suc n) s =
     (if m_dict s = [] then Some (0, s)
      else if m_list s = [] then None
      else map_option (map_prod Suc id) (drainNumber E n (removeImpl E (snd (last (m_list s))) s)))"

text \<open>The reclaiming loop of \<^verbatim>\<open>insert\<close>; \<^const>\<open>None\<close> also stands for a loop that never ends.\<close>

partial_function (option) drain_loop ::
    "('e, 'x) cache_entry_ops_scheme \<Rightarrow> 'e lru \<Rightarrow> 'e lru option" where
  "drain_loop E s =
     (if max_cache_length s < cache_length s
      then (case drainNumber E (max (length (m_dict s) div 10) 1) s of
              None \<Rightarrow> None
            | Some (n, s') \<Rightarrow> drain_loop E s')
      else Some s)"

definition push_entry ::
    "('e, 'x) cache_entry_ops_scheme \<Rightarrow> cache_key \<Rightarrow> 'e \<Rightarrow> 'e lru \<Rightarrow> 'e lru" where
  "push_entry E k v s =
     s\<lparr>cache_length := cache_length s + cacheLength E v,
       m_list := (next_node s, k) # m_list s,
       m_dict := AList.update k (next_node s, v) (m_dict s),
       next_node := Suc (next_node s)\<rparr>"

definition lru_insert ::
    "('e, 'x) cache_entry_ops_scheme \<Rightarrow> cache_key \<Rightarrow> 'e \<Rightarrow> 'e lru \<Rightarrow> 'e lru option" where
  "lru_insert E k v s = drain_loop E (push_entry E k v (removeImpl E k s))"

definition lru_lookup ::
    "('e, 'x) cache_entry_ops_scheme \<Rightarrow> u64 \<Rightarrow> cache_key \<Rightarrow> 'e lru \<Rightarrow> 'e option \<times> 'e lru" where
  "lru_lookup E now k s0 =
     (let s = checkMemory s0 in
      case map_of (m_dict s) k of
        None \<Rightarrow> (None, s)
      | Some (it, v) \<Rightarrow>
          if cacheExpire E v \<le> now then (None, removeImpl E k s)
          else (createCopy E v,
                if m_list s \<noteq> [] \<and> fst (hd (m_list s)) = it then s
                else s\<lparr>m_list := (next_node s, k) # erase_node it (m_list s),
                       m_dict := AList.update k (next_node s, v) (m_dict s),
                       next_node := Suc (next_node s)\<rparr>))"

definition lru_remove :: "('e, 'x) cache_entry_ops_scheme \<Rightarrow> cache_key \<Rightarrow> 'e lru \<Rightarrow> 'e lru" where
  "lru_remove E k s = removeImpl E k s"

section \<open>Abstract view and invariant\<close>

definition abs_of :: "(cache_key \<times> (nat \<times> 'e)) list \<Rightarrow> (nat \<times> cache_key) list \<Rightarrow> (cache_key \<times> 'e) list" where
  "abs_of d l = map (\<lambda>p. (snd p, snd (the (map_of d (snd p))))) l"

definition lru_abs :: "'e lru \<Rightarrow> (cache_key \<times> 'e) list" where
  "lru_abs s = abs_of (m_dict s) (m_list s)"

definition total_length :: "('e, 'x) cache_entry_ops_scheme \<Rightarrow> (cache_key \<times> 'e) list \<Rightarrow> u64" where
  "total_length E al = sum_list (map (\<lambda>p. cacheLength E (snd p)) al)"

definition linked :: "'e lru \<Rightarrow> bool" where
  "linked s \<longleftrightarrow> distinct (map fst (m_dict s)) \<and> distinct (map fst (m_list s)) \<and>
     (\<forall>p \<in> set (m_list s). fst p < next_node s) \<and>
     (\<forall>it k. (it, k) \<in> set (m_list s) \<longleftrightarrow> (\<exists>v. map_of (m_dict s) k = Some (it, v)))"

definition lru_inv :: "('e, 'x) cache_entry_ops_scheme \<Rightarrow> 'e lru \<Rightarrow> bool" where
  "lru_inv E s \<longleftrightarrow> linked s \<and> cache_length s = total_length E (lru_abs s)"

text \<open>The operations on the recency list.\<close>

definition spec_remove :: "cache_key \<Rightarrow> (cache_key \<times> 'e) list \<Rightarrow> (cache_key \<times> 'e) list" where
  "spec_remove k al = filter (\<lambda>p. fst p \<noteq> k) al"

function spec_evict ::
    "('e, 'x) cache_entry_ops_scheme \<Rightarrow> u64 \<Rightarrow> (cache_key \<times> 'e) list \<Rightarrow> (cache_key \<times> 'e) list" where
  "spec_evict E mx al =
     (if mx < total_length E al
      then spec_evict E mx (take (length al - max (length al div 10) 1) al)
      else al)"
  by pat_completeness auto
termination
proof (relation "measure (\<lambda>(E, mx, al). length al)", simp, goal_cases)
  case (1 E mx al)
  then have "al \<noteq> []" by (auto simp: total_length_def)
  then show ?case by (cases al) auto
qed

declare spec_evict.simps [simp del]

definition spec_insert ::
    "('e, 'x) cache_entry_ops_scheme \<Rightarrow> u64 \<Rightarrow> cache_key \<Rightarrow> 'e \<Rightarrow>
     (cache_key \<times> 'e) list \<Rightarrow> (cache_key \<times> 'e) list" where
  "spec_insert E mx k v al = spec_evict E mx ((k, v) # spec_remove k al)"

definition spec_lookup ::
    "('e, 'x) cache_entry_ops_scheme \<Rightarrow> u64 \<Rightarrow> cache_key \<Rightarrow>
     (cache_key \<times> 'e) list \<Rightarrow> 'e option \<times> (cache_key \<times> 'e) list" where
  "spec_lookup E now k al =
     (case map_of al k of
        None \<Rightarrow> (None, al)
      | Some v \<Rightarrow> if cacheExpire E v \<le> now then (None, spec_remove k al)
                  else (createCopy E v, (k, v) # spec_remove k al))"

section \<open>Facts about linked states\<close>

lemma linked_dictD: "linked s \<Longrightarrow> map_of (m_dict s) k = Some (it, v) \<Longrightarrow> (it, k) \<in> set (m_list s)"
  by (auto simp: linked_def)

lemma linked_listD: "linked s \<Longrightarrow> (it, k) \<in> set (m_list s) \<Longrightarrow> \<exists>v. map_of (m_dict s) k = Some (it, v)"
  by (auto simp: linked_def)

lemma linked_nodeD: "linked s \<Longrightarrow> p \<in> set (m_list s) \<Longrightarrow> \<exists>v. map_of (m_dict s) (snd p) = Some (fst p, v)"
  by (cases p) (auto dest: linked_listD)

lemma linked_distinct_keys: "linked s \<Longrightarrow> distinct (map snd (m_list s))"
proof -
  assume l: "linked s"
  then have "distinct (map fst (m_list s))" by (simp add: linked_def)
  then have "distinct (m_list s)" by (simp add: distinct_map)
  moreover have "inj_on snd (set (m_list s))"
  proof (rule inj_onI)
    fix p q assume "p \<in> set (m_list s)" "q \<in> set (m_list s)" "snd p = snd q"
    then show "p = q" using linked_nodeD [OF l, of p] linked_nodeD [OF l, of q]
      by (auto simp: prod_eq_iff)
  qed
  ultimately show ?thesis by (simp add: distinct_map)
qed

lemma linked_length:
  assumes "linked s" shows "length (m_list s) = length (m_dict s)"
proof -
  have "snd ` set (m_list s) = fst ` set (m_dict s)"
  proof
    show "snd ` set (m_list s) \<subseteq> fst ` set (m_dict s)"
      using linked_listD [OF assms] by (force simp: dest: map_of_SomeD)
    show "fst ` set (m_dict s) \<subseteq> snd ` set (m_list s)"
    proof
      fix k assume "k \<in> fst ` set (m_dict s)"
      then obtain it v where "map_of (m_dict s) k = Some (it, v)"
        by (metis dom_map_of_conv_image_fst domD surj_pair)
      with linked_dictD [OF assms] show "k \<in> snd ` set (m_list s)" by force
    qed
  qed
  then have "card (set (map snd (m_list s))) = card (set (map fst (m_dict s)))" by simp
  with linked_distinct_keys [OF assms] show ?thesis
    using assms by (simp only: distinct_card linked_def length_map)
qed

lemma fst_lru_abs: "map fst (lru_abs s) = map snd (m_list s)"
  by (simp add: lru_abs_def abs_of_def)

lemma length_lru_abs [simp]: "length (lru_abs s) = length (m_list s)"
  by (simp add: lru_abs_def abs_of_def)

lemma lru_abs_distinct: "linked s \<Longrightarrow> distinct (map fst (lru_abs s))"
  by (simp add: fst_lru_abs linked_distinct_keys)

lemma map_of_lru_abs: "linked s \<Longrightarrow> map_of (lru_abs s) k = map_option snd (map_of (m_dict s) k)"
proof (cases "map_of (m_dict s) k")
  case None
  assume l: "linked s"
  with None have "k \<notin> snd ` set (m_list s)"
    using linked_listD [OF l] by fastforce
  then show ?thesis
    using None fst_lru_abs [of s] by (metis list.set_map map_of_eq_None_iff option.map_disc_iff)
next
  case (Some p)
  assume l: "linked s"
  obtain it v where p: "p = (it, v)" by (cases p)
  with l Some have "(it, k) \<in> set (m_list s)" by (auto dest: linked_dictD)
  then have "(k, v) \<in> set (lru_abs s)"
    using Some p by (force simp: lru_abs_def abs_of_def)
  with l have "map_of (lru_abs s) k = Some v"
    by (simp add: lru_abs_distinct)
  with Some p show ?thesis by simp
qed

lemma erase_node_key:
  assumes "linked s" and "map_of (m_dict s) k = Some (it, v)"
  shows "erase_node it (m_list s) = filter (\<lambda>p. snd p \<noteq> k) (m_list s)"
proof -
  have mem: "(it, k) \<in> set (m_list s)" using assms by (rule linked_dictD)
  have inj: "inj_on fst (set (m_list s))"
    using assms(1) by (simp add: linked_def distinct_map)
  have "fst p = it \<longleftrightarrow> snd p = k" if "p \<in> set (m_list s)" for p
  proof
    assume "fst p = it"
    with inj_onD [OF inj _ that mem] have "p = (it, k)" by simp
    then show "snd p = k" by simp
  next
    assume "snd p = k"
    with that have "(fst p, k) \<in> set (m_list s)" by (metis prod.collapse)
    with assms show "fst p = it" by (auto dest: linked_listD)
  qed
  then show ?thesis unfolding erase_node_def by (intro filter_cong) auto
qed

lemma abs_of_Nil [simp]: "abs_of d [] = []"
  by (simp add: abs_of_def)

lemma abs_of_Cons [simp]: "abs_of d (p # l) = (snd p, snd (the (map_of d (snd p)))) # abs_of d l"
  by (simp add: abs_of_def)

lemma abs_of_update_dict:
  "k \<notin> snd ` set l \<Longrightarrow> abs_of (AList.update k x d) l = abs_of d l"
  by (auto simp: abs_of_def)

lemma abs_of_filter:
  "abs_of (AList.delete k d) (filter (\<lambda>p. snd p \<noteq> k) l) = spec_remove k (abs_of d l)"
  unfolding spec_remove_def abs_of_def by (induction l) auto

lemma snd_set_filter: "k \<notin> snd ` set (filter (\<lambda>p. snd p \<noteq> k) l)"
  by auto

section \<open>Removal\<close>

lemma spec_remove_absent: "k \<notin> fst ` set al \<Longrightarrow> spec_remove k al = al"
  by (auto simp: spec_remove_def filter_id_conv)

lemma removeImpl_linked:
  assumes "linked s" shows "linked (removeImpl E k s)"
proof (cases "map_of (m_dict s) k")
  case None
  with assms show ?thesis by (simp add: removeImpl_def)
next
  case (Some p)
  obtain it v where p: "p = (it, v)" by (cases p)
  have "m_list (removeImpl E k s) = filter (\<lambda>p. snd p \<noteq> k) (m_list s)"
    using Some p assms by (simp add: removeImpl_def erase_node_key)
  moreover have "m_dict (removeImpl E k s) = AList.delete k (m_dict s)"
    and "next_node (removeImpl E k s) = next_node s"
    using Some p by (simp_all add: removeImpl_def)
  ultimately show ?thesis
    using assms by (auto simp: linked_def distinct_map_filter distinct_delete delete_conv')
qed

lemma lru_abs_removeImpl:
  assumes "linked s" shows "lru_abs (removeImpl E k s) = spec_remove k (lru_abs s)"
proof (cases "map_of (m_dict s) k")
  case None
  then have "map_of (lru_abs s) k = None" using assms by (simp add: map_of_lru_abs)
  then have "k \<notin> fst ` set (lru_abs s)" by (simp add: map_of_eq_None_iff)
  with None show ?thesis by (simp add: removeImpl_def spec_remove_absent)
next
  case (Some p)
  then show ?thesis
    using assms by (cases p) (simp add: removeImpl_def lru_abs_def erase_node_key abs_of_filter)
qed

lemma removeImpl_inv [inv_intros]:
  assumes "lru_inv E s" shows "lru_inv E (removeImpl E k s)"
proof -
  have l: "linked s" and len: "cache_length s = total_length E (lru_abs s)"
    using assms by (auto simp: lru_inv_def)
  have "cache_length (removeImpl E k s) = total_length E (spec_remove k (lru_abs s))"
  proof (cases "map_of (m_dict s) k")
    case None
    with len show ?thesis
      using lru_abs_removeImpl [OF l, of E k] by (simp add: removeImpl_def)
  next
    case (Some p)
    obtain it v where p: "p = (it, v)" by (cases p)
    then have "map_of (lru_abs s) k = Some v" using Some l by (simp add: map_of_lru_abs)
    then have "(k, v) \<in> set (lru_abs s)" by (rule map_of_SomeD)
    with lru_abs_distinct [OF l]
    have "total_length E (lru_abs s) = cacheLength E v + total_length E (spec_remove k (lru_abs s))"
      unfolding total_length_def spec_remove_def by (subst sum_list_filter_neq) auto
    with Some p len show ?thesis by (simp add: removeImpl_def)
  qed
  with l show ?thesis by (simp add: lru_inv_def removeImpl_linked lru_abs_removeImpl)
qed

lemma removeImpl_max [simp]: "max_cache_length (removeImpl E k s) = max_cache_length s"
  by (simp add: removeImpl_def split: option.splits)

section \<open>Reclaiming\<close>

lemma linked_empty_iff: "linked s \<Longrightarrow> m_dict s = [] \<longleftrightarrow> m_list s = []"
  by (metis length_0_conv linked_length)

lemma spec_remove_last:
  assumes "distinct (map fst al)" and "al \<noteq> []"
  shows "spec_remove (fst (last al)) al = butlast al"
proof -
  have "spec_remove (fst (last al)) (butlast al @ [last al]) = butlast al"
    unfolding spec_remove_def by (rule filter_neq_last) (use assms in simp)
  with assms(2) show ?thesis by simp
qed

lemma lru_abs_last: "m_list s \<noteq> [] \<Longrightarrow> fst (last (lru_abs s)) = snd (last (m_list s))"
  by (simp add: lru_abs_def abs_of_def last_map)

lemma lru_abs_remove_last:
  assumes "linked s" and "m_list s \<noteq> []"
  shows "lru_abs (removeImpl E (snd (last (m_list s))) s) = butlast (lru_abs s)"
proof -
  have "lru_abs s \<noteq> []" using assms(2) by (simp flip: length_greater_0_conv)
  with assms show ?thesis
    by (simp add: lru_abs_removeImpl spec_remove_last lru_abs_distinct flip: lru_abs_last)
qed

lemma drainNumber_refines:
  assumes "lru_inv E s"
  shows "\<exists>s'. drainNumber E n s = Some (min n (length (m_dict s)), s') \<and> lru_inv E s' \<and>
    lru_abs s' = take (length (lru_abs s) - n) (lru_abs s) \<and>
    max_cache_length s' = max_cache_length s"
  using assms
proof (induction n arbitrary: s)
  case 0
  then show ?case by simp
next
  case (Suc n)
  then have l: "linked s" by (simp add: lru_inv_def)
  show ?case
  proof (cases "m_dict s = []")
    case True
    then have "lru_abs s = []" using l by (simp add: lru_abs_def abs_of_def linked_empty_iff)
    with True Suc.prems show ?thesis by simp
  next
    case False
    then have ne: "m_list s \<noteq> []" using l by (simp add: linked_empty_iff)
    let ?t = "removeImpl E (snd (last (m_list s))) s"
    obtain s' where s': "drainNumber E n ?t = Some (min n (length (m_dict ?t)), s')" "lru_inv E s'"
        "lru_abs s' = take (length (lru_abs ?t) - n) (lru_abs ?t)"
        "max_cache_length s' = max_cache_length ?t"
      using Suc.IH [OF removeImpl_inv [OF Suc.prems]] by blast
    have abs_t: "lru_abs ?t = butlast (lru_abs s)" using l ne by (rule lru_abs_remove_last)
    have "length (m_dict ?t) = length (lru_abs ?t)"
      using l by (simp add: linked_length removeImpl_linked)
    also have "\<dots> = length (m_dict s) - 1"
      unfolding abs_t by (simp add: linked_length [OF l])
    finally have "Suc (min n (length (m_dict ?t))) = min (Suc n) (length (m_dict s))"
      using False by (cases "m_dict s") auto
    moreover have "lru_abs s' = take (length (lru_abs s) - Suc n) (lru_abs s)"
      using s'(3) abs_t by (simp add: butlast_conv_take)
    ultimately show ?thesis
      using s' False ne by simp
  qed
qed

lemma drain_loop_refines:
  assumes "lru_inv E s"
  shows "\<exists>s'. drain_loop E s = Some s' \<and> lru_inv E s' \<and>
    lru_abs s' = spec_evict E (max_cache_length s) (lru_abs s) \<and>
    max_cache_length s' = max_cache_length s"
  using assms
proof (induction "length (m_dict s)" arbitrary: s rule: less_induct)
  case less
  have l: "linked s" and len: "cache_length s = total_length E (lru_abs s)"
    using less.prems by (auto simp: lru_inv_def)
  show ?case
  proof (cases "max_cache_length s < cache_length s")
    case False
    with less.prems len show ?thesis
      by (simp add: drain_loop.simps [of E s] spec_evict.simps [of E "max_cache_length s"])
  next
    case True
    let ?n = "max (length (m_dict s) div 10) 1"
    have "lru_abs s \<noteq> []" using True len by (auto simp: total_length_def)
    then have pos: "0 < length (m_dict s)" using l by (simp add: linked_length flip: length_greater_0_conv)
    obtain t where t: "drainNumber E ?n s = Some (min ?n (length (m_dict s)), t)" "lru_inv E t"
        "lru_abs t = take (length (lru_abs s) - ?n) (lru_abs s)"
        "max_cache_length t = max_cache_length s"
      using drainNumber_refines [OF less.prems] by blast
    have "length (m_dict t) = length (lru_abs t)"
      using t(2) by (simp add: lru_inv_def linked_length)
    also have "\<dots> < length (m_dict s)"
      using t(3) pos linked_length [OF l] by simp
    finally obtain s' where "drain_loop E t = Some s'" "lru_inv E s'"
        "lru_abs s' = spec_evict E (max_cache_length t) (lru_abs t)"
        "max_cache_length s' = max_cache_length t"
      using less.hyps [OF _ t(2)] by blast
    with t True len show ?thesis
      by (simp add: drain_loop.simps [of E s] spec_evict.simps [of E "max_cache_length s"] linked_length [OF l])
  qed
qed

lemma spec_evict_bound: "total_length E (spec_evict E mx al) \<le> mx"
proof (induction E mx al rule: spec_evict.induct)
  case (1 E mx al)
  then show ?case by (simp add: spec_evict.simps [of E mx al] not_less)
qed

lemma spec_evict_prefix: "\<exists>n. spec_evict E mx al = take n al"
proof (induction E mx al rule: spec_evict.induct)
  case (1 E mx al)
  show ?case
  proof (cases "mx < total_length E al")
    case True
    with 1 obtain n where
      "spec_evict E mx (take (length al - max (length al div 10) 1) al) =
         take n (take (length al - max (length al div 10) 1) al)" by blast
    with True show ?thesis
      by (auto simp: spec_evict.simps [of E mx al] take_take)
  next
    case False
    then have "spec_evict E mx al = take (length al) al" by (simp add: spec_evict.simps [of E mx al])
    then show ?thesis by blast
  qed
qed

section \<open>Insertion and lookup\<close>

lemma push_entry_refines:
  assumes inv: "lru_inv E s" and fresh: "map_of (m_dict s) k = None"
  shows "lru_inv E (push_entry E k v s)" and "lru_abs (push_entry E k v s) = (k, v) # lru_abs s"
proof -
  have l: "linked s" using inv by (simp add: lru_inv_def)
  have notin: "k \<notin> snd ` set (m_list s)"
    using linked_listD [OF l] fresh by fastforce
  then show abs: "lru_abs (push_entry E k v s) = (k, v) # lru_abs s"
    by (simp add: lru_abs_def push_entry_def abs_of_update_dict)
  have "linked (push_entry E k v s)"
    using l fresh notin unfolding linked_def push_entry_def
    by (auto simp: distinct_update less_Suc_eq image_iff)
  with inv abs show "lru_inv E (push_entry E k v s)"
    by (simp add: lru_inv_def total_length_def push_entry_def)
qed

lemma map_of_removeImpl: "map_of (m_dict (removeImpl E k s)) k = None"
  by (auto simp: removeImpl_def delete_conv' split: option.splits)

lemma lru_insert_refines:
  assumes "lru_inv E s"
  shows "\<exists>s'. lru_insert E k v s = Some s' \<and> lru_inv E s' \<and>
    lru_abs s' = spec_insert E (max_cache_length s) k v (lru_abs s) \<and>
    max_cache_length s' = max_cache_length s"
proof -
  let ?t = "removeImpl E k s" and ?u = "push_entry E k v (removeImpl E k s)"
  have t: "lru_inv E ?t" using assms by (rule removeImpl_inv)
  note u = push_entry_refines [OF t map_of_removeImpl, of v]
  have "lru_abs ?u = (k, v) # spec_remove k (lru_abs s)"
    using u(2) assms by (simp add: lru_abs_removeImpl lru_inv_def)
  moreover have "max_cache_length ?u = max_cache_length s" by (simp add: push_entry_def)
  ultimately show ?thesis
    using drain_loop_refines [OF u(1)] by (simp add: lru_insert_def spec_insert_def)
qed

lemma checkMemory_linked: "linked s \<Longrightarrow> checkMemory s = s"
  by (simp add: checkMemory_def linked_length)

lemma moved_to_front:
  assumes inv: "lru_inv E s" and hit: "map_of (m_dict s) k = Some (it, v)"
  defines "t \<equiv> s\<lparr>m_list := (next_node s, k) # erase_node it (m_list s),
                  m_dict := AList.update k (next_node s, v) (m_dict s),
                  next_node := Suc (next_node s)\<rparr>"
  shows "lru_inv E t" and "lru_abs t = (k, v) # spec_remove k (lru_abs s)"
proof -
  have l: "linked s" using inv by (simp add: lru_inv_def)
  have e: "erase_node it (m_list s) = filter (\<lambda>p. snd p \<noteq> k) (m_list s)"
    using l hit by (rule erase_node_key)
  have rm: "abs_of (m_dict s) (filter (\<lambda>p. snd p \<noteq> k) (m_list s)) = spec_remove k (lru_abs s)"
    unfolding lru_abs_def spec_remove_def abs_of_def by (simp add: filter_map o_def)
  show abs: "lru_abs t = (k, v) # spec_remove k (lru_abs s)"
    unfolding t_def lru_abs_def [of "s\<lparr>m_list := _, m_dict := _, next_node := _\<rparr>"]
    by (simp add: e abs_of_update_dict [OF snd_set_filter] rm)
  have kv: "(k, v) \<in> set (lru_abs s)"
    using map_of_lru_abs [OF l, of k] hit by (auto intro: map_of_SomeD)
  have "linked t"
    using l unfolding linked_def t_def e
    by (auto simp: distinct_update distinct_map_filter less_Suc_eq)
  moreover have "total_length E (lru_abs t) = total_length E (lru_abs s)"
    unfolding abs total_length_def spec_remove_def
    using sum_list_filter_neq [OF lru_abs_distinct [OF l] kv, of "\<lambda>p. cacheLength E (snd p)"] by simp
  ultimately show "lru_inv E t" using inv by (simp add: lru_inv_def t_def)
qed

lemma lru_lookup_refines:
  assumes inv: "lru_inv E s"
  shows "fst (lru_lookup E now k s) = fst (spec_lookup E now k (lru_abs s)) \<and>
    lru_abs (snd (lru_lookup E now k s)) = snd (spec_lookup E now k (lru_abs s)) \<and>
    lru_inv E (snd (lru_lookup E now k s)) \<and>
    max_cache_length (snd (lru_lookup E now k s)) = max_cache_length s"
proof (cases "map_of (m_dict s) k")
  case None
  with inv show ?thesis
    by (simp add: lru_lookup_def lru_inv_def checkMemory_linked spec_lookup_def map_of_lru_abs)
next
  case (Some p)
  obtain it v where p: "p = (it, v)" by (cases p)
  have l: "linked s" using inv by (simp add: lru_inv_def)
  have m: "map_of (lru_abs s) k = Some v" using l Some p by (simp add: map_of_lru_abs)
  show ?thesis
  proof (cases "cacheExpire E v \<le> now")
    case True
    with inv l m Some p show ?thesis
      by (simp add: lru_lookup_def checkMemory_linked spec_lookup_def removeImpl_inv lru_abs_removeImpl)
  next
    case live: False
    show ?thesis
    proof (cases "m_list s \<noteq> [] \<and> fst (hd (m_list s)) = it")
      case True
      then obtain q l' where q: "m_list s = q # l'" "fst q = it" by (cases "m_list s") auto
      have "fst q \<notin> fst ` set l'" using l q by (simp add: linked_def)
      then have "q = (it, k)"
        using linked_dictD [OF l, of k it v] Some p q by (auto simp: image_iff)
      then have "lru_abs s = (k, v) # abs_of (m_dict s) l'"
        using q Some p by (simp add: lru_abs_def)
      moreover have "spec_remove k (abs_of (m_dict s) l') = abs_of (m_dict s) l'"
        using lru_abs_distinct [OF l] calculation by (intro spec_remove_absent) auto
      ultimately have "lru_abs s = (k, v) # spec_remove k (lru_abs s)"
        by (simp add: spec_remove_def)
      with live True inv l m Some p show ?thesis
        by (simp add: lru_lookup_def checkMemory_linked spec_lookup_def)
    next
      case False
      with live inv l m Some p show ?thesis
        using moved_to_front [OF inv, of k it v]
        by (auto simp: lru_lookup_def checkMemory_linked spec_lookup_def Let_def)
    qed
  qed
qed

text \<open>The eviction never takes an entry that fits the cache by itself from the front.\<close>

lemma spec_evict_head:
  "cacheLength E (snd p) \<le> mx \<Longrightarrow> \<exists>al'. spec_evict E mx (p # al) = p # al'"
proof (induction "length al" arbitrary: al rule: less_induct)
  case less
  show ?case
  proof (cases "mx < total_length E (p # al)")
    case True
    with less.prems have "al \<noteq> []" by (auto simp: total_length_def)
    then have "Suc (length al) - max (Suc (length al) div 10) 1 = Suc (length al - max (Suc (length al) div 10) 1)"
      by (cases al) auto
    then have take: "take (length (p # al) - max (length (p # al) div 10) 1) (p # al) =
        p # take (length al - max (length (p # al) div 10) 1) al" by simp
    have "length (take (length al - max (length (p # al) div 10) 1) al) < length al"
      using \<open>al \<noteq> []\<close> by (cases al) auto
    from less.hyps [OF this less.prems] show ?thesis
      using True by (subst spec_evict.simps) (simp only: take if_True)
  qed (simp add: spec_evict.simps)
qed

lemma LruCacheImpl_inv: "lru_inv E (LruCacheImpl mx)"
  by (simp add: lru_inv_def linked_def LruCacheImpl_def lru_abs_def abs_of_def total_length_def)

section \<open>Properties\<close>

text \<open>
  C1: \<^verbatim>\<open>LruCacheImpl::insert\<close> returns (its reclaiming loop ends), keeps the two containers and the
  length counter consistent, and refines the insertion on the recency list: the new entry goes to the
  front, an older entry of the key disappears, and the least recently used entries are dropped in
  batches of a tenth until the length counter is at most the maximum. What is kept is a prefix of the
  recency order.
\<close>

theorem lru_insert_correct:
  assumes "lru_inv E s"
  shows "\<exists>s' n. lru_insert E k v s = Some s' \<and> lru_inv E s' \<and>
    lru_abs s' = spec_insert E (max_cache_length s) k v (lru_abs s) \<and>
    lru_abs s' = take n ((k, v) # spec_remove k (lru_abs s)) \<and>
    cache_length s' \<le> max_cache_length s"
proof -
  obtain s' where s': "lru_insert E k v s = Some s'" "lru_inv E s'"
      "lru_abs s' = spec_insert E (max_cache_length s) k v (lru_abs s)"
    using lru_insert_refines [OF assms] by blast
  moreover have "cache_length s' \<le> max_cache_length s"
    using s'(2,3) by (simp add: lru_inv_def spec_insert_def spec_evict_bound)
  moreover obtain n where "lru_abs s' = take n ((k, v) # spec_remove k (lru_abs s))"
    using s'(3) spec_evict_prefix unfolding spec_insert_def by metis
  ultimately show ?thesis by blast
qed

text \<open>Entries for the examples: a pair of the length and the time of expiry.\<close>

definition pair_ops :: "(u64 \<times> u64) cache_entry_ops" where
  "pair_ops = \<lparr>cacheExpire = snd, set_cacheExpire = (\<lambda>t e. (fst e, t)), cacheLength = fst,
               createCopy = Some, loadFromString = (\<lambda>s e. e), serializeAsString = (\<lambda>e. None)\<rparr>"

definition lru_example :: "(u64 \<times> u64) lru" where
  "lru_example = push_entry pair_ops ''b'' (3, 20) (push_entry pair_ops ''a'' (4, 9) (LruCacheImpl 10))"

lemma lru_example_inv: "lru_inv pair_ops lru_example"
  unfolding lru_example_def
  by (intro push_entry_refines(1) LruCacheImpl_inv) (simp_all add: LruCacheImpl_def push_entry_def)

lemma lru_example_max: "max_cache_length lru_example = 10"
  by (simp add: lru_example_def push_entry_def LruCacheImpl_def)

lemma lru_example_abs: "lru_abs lru_example = [(''b'', (3, 20)), (''a'', (4, 9))]"
  by (simp add: lru_example_def lru_abs_def push_entry_def LruCacheImpl_def)

lemma lru_example_insert:
  "spec_insert pair_ops 10 ''c'' (5, 30) [(''b'', (3, 20)), (''a'', (4, 9))] = [(''c'', (5, 30)), (''b'', (3, 20))]"
  by (simp add: spec_insert_def spec_remove_def total_length_def pair_ops_def
      spec_evict.simps [of _ _ "[(''c'', (5, 30)), (''b'', (3, 20)), (''a'', (4, 9))]"]
      spec_evict.simps [of _ _ "[(''c'', (5, 30)), (''b'', (3, 20))]"])

theorem lru_insert_correct_witness:
  "lru_inv pair_ops lru_example \<and>
   (\<exists>s'. lru_insert pair_ops ''c'' (5, 30) lru_example = Some s' \<and> lru_abs s' = [(''c'', (5, 30)), (''b'', (3, 20))])"
  using lru_insert_correct [OF lru_example_inv, of "''c''" "(5, 30)"] lru_example_inv
  by (auto simp: lru_example_abs lru_example_insert lru_example_max)

text \<open>
  C11: \<^verbatim>\<open>LruCacheImpl::lookup\<close> refines the lookup on the recency list and keeps the invariant: a
  missing key changes nothing, an expired entry is removed and reported missing, and a live entry
  moves to the front while a copy of it is returned. The consistency check \<^verbatim>\<open>checkMemory\<close> never
  clears a consistent cache.
\<close>

theorem lru_lookup_correct:
  assumes "lru_inv E s"
  shows "checkMemory s = s \<and>
    map_prod id lru_abs (lru_lookup E now k s) = spec_lookup E now k (lru_abs s) \<and>
    lru_inv E (snd (lru_lookup E now k s))"
  using lru_lookup_refines [OF assms, of now k] assms
  by (simp add: checkMemory_linked lru_inv_def [of E s] prod_eq_iff)

theorem lru_lookup_correct_witness:
  "lru_inv pair_ops lru_example \<and>
   map_prod id lru_abs (lru_lookup pair_ops 5 ''a'' lru_example) =
     (Some (4, 9), [(''a'', (4, 9)), (''b'', (3, 20))]) \<and>
   map_prod id lru_abs (lru_lookup pair_ops 9 ''a'' lru_example) = (None, [(''b'', (3, 20))])"
  using lru_lookup_correct [OF lru_example_inv, of 5 "''a''"]
    lru_lookup_correct [OF lru_example_inv, of 9 "''a''"] lru_example_inv
  by (simp add: lru_example_abs spec_lookup_def spec_remove_def pair_ops_def)

end
