(* ===== verification/Local_Cache.thy ===== *)
theory Local_Cache
  imports Lru_Cache
begin

text \<open>
  \<^verbatim>\<open>LocalCache\<close> of \<^verbatim>\<open>source/common/cache/local_cache_impl.{h,cc}\<close>: sixteen LRU caches, the one for
  a key chosen by the first byte of the key. It is the in-process implementation of
  \<^verbatim>\<open>CommonCacheBase\<close> and interprets the locale \<open>common_cache\<close>.

  The asynchronous lookup performs the synchronous one at once and posts the callback to the
  dispatcher of the calling worker; the model returns the arguments of the posted callback.
\<close>

section \<open>State and operations\<close>

definition cache_list_number :: nat where
  "cache_list_number = 16"

definition DEFAULT_MAX_CACHE_SIZE :: u64 where
  "DEFAULT_MAX_CACHE_SIZE = 128 * 1024 * 1024"

type_synonym 'e local_cache = "'e lru list"

definition max_cache_size :: "u64 option \<Rightarrow> u64" where
  "max_cache_size config = (case config of Some n \<Rightarrow> n | None \<Rightarrow> DEFAULT_MAX_CACHE_SIZE)"

definition LocalCache :: "u64 option \<Rightarrow> 'e local_cache" where
  "LocalCache config =
     (let single_max_cache_size = max_cache_size config div of_nat cache_list_number
      in replicate cache_list_number (LruCacheImpl single_max_cache_size))"

text \<open>\<^verbatim>\<open>key[0]\<close> of an empty string is the terminating null byte.\<close>

definition shard :: "cache_key \<Rightarrow> nat" where
  "shard key = (case key of [] \<Rightarrow> 0 | c # _ \<Rightarrow> of_char c) mod cache_list_number"

definition lc_lookup ::
    "('e, 'x) cache_entry_ops_scheme \<Rightarrow> u64 \<Rightarrow> cache_key \<Rightarrow> 'e local_cache \<Rightarrow> 'e option \<times> 'e local_cache" where
  "lc_lookup E now key c =
     (let i = shard key; r = lru_lookup E now key (c ! i) in (fst r, c[i := snd r]))"

definition lc_lookup_async ::
    "('e, 'x) cache_entry_ops_scheme \<Rightarrow> u64 \<Rightarrow> cache_key \<Rightarrow> 'e local_cache \<Rightarrow>
     (string \<times> 'e option) \<times> 'e local_cache" where
  "lc_lookup_async E now key c =
     (let r = lc_lookup E now key c in (('''', fst r), snd r))"

definition lc_insert ::
    "('e, 'x) cache_entry_ops_scheme \<Rightarrow> cache_key \<Rightarrow> 'e \<Rightarrow> 'e local_cache \<Rightarrow> 'e local_cache option" where
  "lc_insert E key v c =
     (let i = shard key in
      case lru_insert E key v (c ! i) of None \<Rightarrow> None | Some l \<Rightarrow> Some (c[i := l]))"

definition lc_remove :: "('e, 'x) cache_entry_ops_scheme \<Rightarrow> cache_key \<Rightarrow> 'e local_cache \<Rightarrow> 'e local_cache" where
  "lc_remove E key c = (let i = shard key in c[i := lru_remove E key (c ! i)])"

definition lc_step ::
    "('e, 'x) cache_entry_ops_scheme \<Rightarrow> 'e cache_op \<Rightarrow> 'e local_cache \<Rightarrow> 'e local_cache option" where
  "lc_step E = cache_step (lc_lookup E) (lc_insert E) (lc_remove E)"

section \<open>View, invariant, memory\<close>

definition lc_view :: "'e local_cache \<Rightarrow> cache_key \<rightharpoonup> 'e" where
  "lc_view c k = map_of (lru_abs (c ! shard k)) k"

definition lc_inv :: "('e, 'x) cache_entry_ops_scheme \<Rightarrow> 'e local_cache \<Rightarrow> bool" where
  "lc_inv E c \<longleftrightarrow> length c = cache_list_number \<and> list_all (lru_inv E) c"

text \<open>The bytes a cache stores, as an exact number (\<^verbatim>\<open>cache_length_\<close> is this number modulo \<open>2 ^ 64\<close>).\<close>

definition stored :: "('e, 'x) cache_entry_ops_scheme \<Rightarrow> (cache_key \<times> 'e) list \<Rightarrow> nat" where
  "stored E al = sum_list (map (\<lambda>p. unat (cacheLength E (snd p))) al)"

definition lru_fits :: "('e, 'x) cache_entry_ops_scheme \<Rightarrow> u64 \<Rightarrow> 'e lru \<Rightarrow> bool" where
  "lru_fits E mx s \<longleftrightarrow> lru_inv E s \<and> max_cache_length s = mx \<and> stored E (lru_abs s) \<le> unat mx"

definition lc_stored :: "('e, 'x) cache_entry_ops_scheme \<Rightarrow> 'e local_cache \<Rightarrow> nat" where
  "lc_stored E c = sum_list (map (\<lambda>s. stored E (lru_abs s)) c)"

section \<open>Shards\<close>

lemma shard_less [simp]: "shard k < cache_list_number"
  by (simp add: shard_def cache_list_number_def)

lemma lc_inv_length: "lc_inv E c \<Longrightarrow> shard k < length c"
  by (simp add: lc_inv_def)

lemma lc_inv_nth: "lc_inv E c \<Longrightarrow> lru_inv E (c ! shard k)"
  by (simp add: lc_inv_def list_all_length)

lemma lc_inv_update: "lc_inv E c \<Longrightarrow> lru_inv E l \<Longrightarrow> lc_inv E (c[i := l])"
  using set_update_subset_insert [of c i l] by (auto simp: lc_inv_def list_all_iff)

lemma lc_view_update:
  assumes "lc_inv E c"
  shows "lc_view (c[shard k := l]) k' =
    (if shard k' = shard k then map_of (lru_abs l) k' else lc_view c k')"
  using lc_inv_length [OF assms] by (simp add: lc_view_def nth_list_update)

lemma lc_view_le:
  assumes inv: "lc_inv E c"
    and le: "map_of (lru_abs l) \<subseteq>\<^sub>m (map_of (lru_abs (c ! shard k)))(k := x)"
  shows "lc_view (c[shard k := l]) \<subseteq>\<^sub>m (lc_view c)(k := x)"
  unfolding map_le_def
proof
  fix a assume a: "a \<in> dom (lc_view (c[shard k := l]))"
  show "lc_view (c[shard k := l]) a = ((lc_view c)(k := x)) a"
  proof (cases "shard a = shard k")
    case True
    with a have "a \<in> dom (map_of (lru_abs l))" by (simp add: dom_def lc_view_update [OF inv])
    with le True show ?thesis by (auto simp: map_le_def lc_view_update [OF inv] lc_view_def [of c])
  next
    case False
    then show ?thesis by (auto simp: lc_view_update [OF inv])
  qed
qed

section \<open>The contract\<close>

lemma map_of_spec_remove: "map_of (spec_remove k al) = (map_of al)(k := None)"
  unfolding spec_remove_def by (induction al) auto

lemma map_of_take_le: "map_of (take n al) \<subseteq>\<^sub>m map_of al"
proof -
  have "map_of (take n al @ drop n al) = map_of (drop n al) ++ map_of (take n al)"
    by (rule map_of_append)
  then show ?thesis by (metis append_take_drop_id map_le_map_add)
qed

lemma spec_insert_view:
  "map_of (spec_insert E mx k v al) \<subseteq>\<^sub>m (map_of al)(k \<mapsto> v)"
proof -
  obtain n where "spec_insert E mx k v al = take n ((k, v) # spec_remove k al)"
    unfolding spec_insert_def using spec_evict_prefix by blast
  with map_of_take_le have "map_of (spec_insert E mx k v al) \<subseteq>\<^sub>m map_of ((k, v) # spec_remove k al)" by metis
  then show ?thesis by (simp add: map_of_spec_remove)
qed

lemma spec_lookup_view:
  "map_of (snd (spec_lookup E now k al)) \<subseteq>\<^sub>m map_of al"
  by (auto simp: spec_lookup_def map_of_spec_remove map_le_def split: option.splits)

lemma spec_lookup_result:
  "fst (spec_lookup E now k al) =
     (case map_of al k of None \<Rightarrow> None | Some e \<Rightarrow> if cacheExpire E e \<le> now then None else createCopy E e)"
  by (simp add: spec_lookup_def split: option.splits)

interpretation lc: common_cache "cacheExpire E" "createCopy E" "lc_lookup E" "lc_insert E" "lc_remove E"
    lc_view "lc_inv E"
  for E :: "('e, 'x) cache_entry_ops_scheme"
proof (unfold_locales, goal_cases)
  case (1 c k e)
  then show ?case
    using lru_insert_refines [OF lc_inv_nth [OF 1, of k], of k e] by (auto simp: lc_insert_def Let_def)
next
  case (2 c k e c')
  then show ?case
    using lru_insert_refines [OF lc_inv_nth [OF 2(1), of k], of k e]
    by (auto simp: lc_insert_def Let_def lc_inv_update)
next
  case (3 c k e c')
  then obtain l where l: "lru_insert E k e (c ! shard k) = Some l" "c' = c[shard k := l]"
    by (auto simp: lc_insert_def Let_def split: option.splits)
  with lru_insert_refines [OF lc_inv_nth [OF 3(1), of k], of k e]
  have "lru_abs l = spec_insert E (max_cache_length (c ! shard k)) k e (lru_abs (c ! shard k))" by auto
  then have "map_of (lru_abs l) \<subseteq>\<^sub>m (map_of (lru_abs (c ! shard k)))(k \<mapsto> e)"
    by (simp add: spec_insert_view)
  with 3(1) l(2) show ?case by (simp add: lc_view_le)
next
  case (4 c k)
  then show ?case
    using lc_inv_nth [OF 4, of k] by (simp add: lc_remove_def lru_remove_def Let_def lc_inv_update removeImpl_inv)
next
  case (5 c k)
  then have "lru_abs (removeImpl E k (c ! shard k)) = spec_remove k (lru_abs (c ! shard k))"
    using lc_inv_nth [OF 5, of k] by (auto simp: lru_inv_def intro: lru_abs_removeImpl)
  with 5 show ?case
    by (auto simp: lc_remove_def lru_remove_def Let_def lc_view_update map_of_spec_remove lc_view_def [of c])
next
  case (6 c t k)
  then show ?case
    using lru_lookup_refines [OF lc_inv_nth [OF 6, of k], of t k]
    by (simp add: lc_lookup_def Let_def spec_lookup_result lc_view_def)
next
  case (7 c t k)
  then show ?case
    using lru_lookup_refines [OF lc_inv_nth [OF 7, of k], of t k] by (simp add: lc_lookup_def Let_def lc_inv_update)
next
  case (8 c t k)
  have "map_of (lru_abs (snd (lru_lookup E t k (c ! shard k)))) \<subseteq>\<^sub>m map_of (lru_abs (c ! shard k))"
    using lru_lookup_refines [OF lc_inv_nth [OF 8, of k], of t k] by (simp add: spec_lookup_view)
  moreover have "(map_of (lru_abs (c ! shard k)))(k := lc_view c k) = map_of (lru_abs (c ! shard k))"
    by (simp add: lc_view_def fun_upd_idem)
  ultimately have "lc_view (c[shard k := snd (lru_lookup E t k (c ! shard k))]) \<subseteq>\<^sub>m (lc_view c)(k := lc_view c k)"
    by (intro lc_view_le [OF 8]) simp
  then show ?case by (simp add: lc_lookup_def Let_def)
qed

section \<open>Memory\<close>

lemma total_length_stored: "total_length E al = of_nat (stored E al)"
  by (induction al) (simp_all add: total_length_def stored_def)

lemma unat_total_length: "stored E al < 2 ^ 64 \<Longrightarrow> unat (total_length E al) = stored E al"
  by (simp add: total_length_stored unat_of_nat)

lemma stored_take: "stored E (take n al) \<le> stored E al"
proof -
  have "stored E al = stored E (take n al) + stored E (drop n al)"
    unfolding stored_def by (simp flip: sum_list_append map_append)
  then show ?thesis by simp
qed

lemma stored_spec_remove: "stored E (spec_remove k al) \<le> stored E al"
  unfolding stored_def spec_remove_def by (induction al) auto

lemma stored_spec_evict:
  assumes "stored E al < 2 ^ 64" shows "stored E (spec_evict E mx al) \<le> unat mx"
proof -
  obtain n where "spec_evict E mx al = take n al" using spec_evict_prefix by blast
  with stored_take [of E n al] assms have "stored E (spec_evict E mx al) < 2 ^ 64" by simp
  then have "stored E (spec_evict E mx al) = unat (total_length E (spec_evict E mx al))"
    by (simp add: unat_total_length)
  also have "\<dots> \<le> unat mx"
    using spec_evict_bound [of E mx al] by (simp add: word_le_nat_alt)
  finally show ?thesis .
qed

lemma lru_insert_fits:
  assumes "lru_fits E mx s" and "unat mx + unat (cacheLength E v) < 2 ^ 64"
  shows "\<exists>s'. lru_insert E k v s = Some s' \<and> lru_fits E mx s'"
proof -
  have inv: "lru_inv E s" and mx: "max_cache_length s = mx" and st: "stored E (lru_abs s) \<le> unat mx"
    using assms(1) by (auto simp: lru_fits_def)
  obtain s' where s': "lru_insert E k v s = Some s'" "lru_inv E s'"
      "lru_abs s' = spec_insert E mx k v (lru_abs s)" "max_cache_length s' = mx"
    using lru_insert_refines [OF inv, of k v] mx by auto
  have "stored E ((k, v) # spec_remove k (lru_abs s)) \<le> unat (cacheLength E v) + stored E (lru_abs s)"
    using stored_spec_remove [of E k "lru_abs s"] by (simp add: stored_def)
  with st assms(2) have "stored E (lru_abs s') \<le> unat mx"
    unfolding s'(3) spec_insert_def by (intro stored_spec_evict) simp
  with s' show ?thesis by (simp add: lru_fits_def)
qed

lemma lru_remove_fits: "lru_fits E mx s \<Longrightarrow> lru_fits E mx (lru_remove E k s)"
  using stored_spec_remove [of E k "lru_abs s"] lru_abs_removeImpl [of s E k]
  by (auto simp: lru_fits_def lru_remove_def removeImpl_inv lru_inv_def [of E s])

lemma stored_spec_lookup:
  assumes "distinct (map fst al)" shows "stored E (snd (spec_lookup E now k al)) \<le> stored E al"
proof (cases "map_of al k")
  case None
  then show ?thesis by (simp add: spec_lookup_def)
next
  case (Some v)
  then have "(k, v) \<in> set al" by (rule map_of_SomeD)
  then have "stored E al = unat (cacheLength E v) + stored E (spec_remove k al)"
    unfolding stored_def spec_remove_def 
    using sum_list_filter_neq [OF assms, of "(k, v)" "\<lambda>p. unat (cacheLength E (snd p))"] by simp
  with Some stored_spec_remove [of E k al] show ?thesis
    by (simp add: spec_lookup_def stored_def)
qed

lemma lru_lookup_fits: "lru_fits E mx s \<Longrightarrow> lru_fits E mx (snd (lru_lookup E now k s))"
  using lru_lookup_refines [of E s now k] stored_spec_lookup [of "lru_abs s" E now k]
  by (auto simp: lru_fits_def lru_inv_def lru_abs_distinct intro: order_trans)

definition lc_fits ::"('e, 'x) cache_entry_ops_scheme \<Rightarrow> u64 \<Rightarrow> 'e local_cache \<Rightarrow> bool" where
  "lc_fits E mx c \<longleftrightarrow> length c = cache_list_number \<and> list_all (lru_fits E mx) c"

lemma lc_fits_nth: "lc_fits E mx c \<Longrightarrow> lru_fits E mx (c ! shard k)"
  by (simp add: lc_fits_def list_all_length)

lemma lc_fits_update: "lc_fits E mx c \<Longrightarrow> lru_fits E mx l \<Longrightarrow> lc_fits E mx (c[i := l])"
  using set_update_subset_insert [of c i l] by (auto simp: lc_fits_def list_all_iff)

lemma lc_step_fits:
  assumes fits: "lc_fits E mx c"
    and small: "\<And>k e. op = Insert k e \<Longrightarrow> unat mx + unat (cacheLength E e) < 2 ^ 64"
  shows "\<exists>c'. lc_step E op c = Some c' \<and> lc_fits E mx c'"
proof (cases op)
  case (Insert k e)
  with lru_insert_fits [OF lc_fits_nth [OF fits, of k] small, of k e k] fits show ?thesis
    by (auto simp: lc_step_def lc_insert_def Let_def intro: lc_fits_update)
next
  case (Remove k)
  with lru_remove_fits [OF lc_fits_nth [OF fits, of k], of k] fits show ?thesis
    by (simp add: lc_step_def lc_remove_def Let_def lc_fits_update)
next
  case (Lookup t k)
  with lru_lookup_fits [OF lc_fits_nth [OF fits, of k], of t k] fits show ?thesis
    by (simp add: lc_step_def lc_lookup_def Let_def lc_fits_update)
qed

lemma lc_insert_stores:
  assumes "lc_inv E c" and "cacheLength E v \<le> max_cache_length (c ! shard k)"
  shows "\<exists>c'. lc_insert E k v c = Some c' \<and> lc_inv E c' \<and> lc_view c' k = Some v"
proof -
  obtain s' where s': "lru_insert E k v (c ! shard k) = Some s'" "lru_inv E s'"
      "lru_abs s' = spec_insert E (max_cache_length (c ! shard k)) k v (lru_abs (c ! shard k))"
    using lru_insert_refines [OF lc_inv_nth [OF assms(1)]] by blast
  then have "lc_insert E k v c = Some (c[shard k := s'])" by (simp add: lc_insert_def)
  moreover have "map_of (lru_abs s') k = Some v"
    using spec_evict_head [of E "(k, v)" "max_cache_length (c ! shard k)" "spec_remove k (lru_abs (c ! shard k))"]
      assms(2) s'(3) by (auto simp: spec_insert_def)
  ultimately show ?thesis
    using lc_inv_update [OF assms(1) s'(2)] by (simp add: lc_view_update [OF assms(1)])
qed

lemma LocalCache_inv: "lc_inv E (LocalCache config)"
  by (simp add: lc_inv_def LocalCache_def list_all_iff LruCacheImpl_inv)

lemma lc_view_LocalCache: "lc_view (LocalCache config) = Map.empty"
  by (rule ext) (simp add: lc_view_def LocalCache_def LruCacheImpl_def lru_abs_def abs_of_def)

lemma LocalCache_fits:
  "lc_fits E (max_cache_size config div of_nat cache_list_number) (LocalCache config)"
  using LruCacheImpl_inv [of E "max_cache_size config div of_nat cache_list_number"]
  by (simp add: lc_fits_def LocalCache_def list_all_iff lru_fits_def)
     (simp add: LruCacheImpl_def lru_abs_def abs_of_def stored_def)

lemma sum_list_bound: "(\<And>x. x \<in> set xs \<Longrightarrow> f x \<le> b) \<Longrightarrow> sum_list (map f xs) \<le> length xs * (b :: nat)"
  by (induction xs) (auto intro: add_mono)

lemma lc_fits_stored:
  assumes "lc_fits E (mx div of_nat cache_list_number) c" shows "lc_stored E c \<le> unat mx"
proof -
  have "lc_stored E c \<le> length c * unat (mx div of_nat cache_list_number)"
    unfolding lc_stored_def
    by (rule sum_list_bound) (use assms in \<open>auto simp: lc_fits_def list_all_iff lru_fits_def\<close>)
  also have "\<dots> = 16 * (unat mx div 16)"
    using assms by (simp add: lc_fits_def cache_list_number_def unat_div)
  finally show ?thesis by simp
qed

section \<open>Properties\<close>

text \<open>
  C4: Coherence of the local cache. After any sequence of insertions, removals and lookups from the
  empty cache, every operation of which returns, a lookup of a key either misses or returns the copy
  of the entry that was last inserted under that key and not removed since, and that entry has not
  expired at the time of the lookup.
\<close>

theorem local_cache_coherent:
  "\<exists>c. run_steps (lc_step E) ops (LocalCache config) = Some c \<and> lc_inv E c \<and>
     (case fst (lc_lookup E now k c) of
        None \<Rightarrow> True
      | Some r \<Rightarrow> \<exists>e. last_inserted k None ops = Some e \<and> createCopy E e = Some r \<and> now < cacheExpire E e)"
proof -
  obtain c where c: "run_steps (lc_step E) ops (LocalCache config) = Some c" "lc_inv E c"
    using lc.run_steps_returns [OF LocalCache_inv [of E config], of ops] by (auto simp: lc_step_def)
  show ?thesis
  proof (cases "fst (lc_lookup E now k c)")
    case None
    with c show ?thesis by simp
  next
    case (Some r)
    with c lc.hit_is_last_inserted [OF LocalCache_inv [of E config], of ops c now k r] show ?thesis
      by (simp add: lc_step_def lc_view_LocalCache)
  qed
qed

text \<open>
  C13: Memory bound of the local cache. Whatever sequence of operations runs, as long as the length
  of no inserted entry makes the 64 bit length counter of a shard overflow, the bytes stored in the
  sixteen shards together never exceed the configured maximum (128 MB by default).
\<close>

theorem local_cache_memory_bound:
  assumes "\<And>k e. Insert k e \<in> set ops \<Longrightarrow>
    unat (max_cache_size config div of_nat cache_list_number) + unat (cacheLength E e) < 2 ^ 64"
  shows "\<exists>c. run_steps (lc_step E) ops (LocalCache config) = Some c \<and>
    lc_stored E c \<le> unat (max_cache_size config)"
proof -
  have "\<exists>c. run_steps (lc_step E) ops (LocalCache config) = Some c \<and>
      lc_fits E (max_cache_size config div of_nat cache_list_number) c"
    by (rule run_steps_invariant [where I = "lc_fits E (max_cache_size config div of_nat cache_list_number)"])
       (use assms in \<open>blast intro: lc_step_fits\<close>, rule LocalCache_fits)
  then show ?thesis using lc_fits_stored by blast
qed

theorem local_cache_memory_bound_witness:
  "\<exists>c. run_steps (lc_step pair_ops)
        [Insert ''a'' (6, 9), Insert ''q'' (7, 9), Insert ''b'' (3, 9)] (LocalCache (Some 160)) = Some c \<and>
      lc_stored pair_ops c \<le> 160"
proof -
  let ?ops = "[Insert ''a'' (6, 9), Insert ''q'' (7, 9), Insert ''b'' (3, 9)] :: (u64 \<times> u64) cache_op list"
  have "unat (max_cache_size (Some 160) div of_nat cache_list_number) + unat (cacheLength pair_ops e) < 2 ^ 64"
    if "Insert k e \<in> set ?ops" for k e
    using that by (auto simp: max_cache_size_def cache_list_number_def pair_ops_def)
  then have "\<exists>c. run_steps (lc_step pair_ops) ?ops (LocalCache (Some 160)) = Some c \<and>
      lc_stored pair_ops c \<le> unat (max_cache_size (Some 160))"
    by (rule local_cache_memory_bound)
  then show ?thesis by (simp only: max_cache_size_def option.case) simp
qed

end
