(* ===== verification/Redis_Cache.thy ===== *)
theory Redis_Cache
  imports Cache_Base "HOL-Library.Multiset"
begin

text \<open>
  The asynchronous Redis client of \<^verbatim>\<open>source/common/redis/async_client.{h,cc}\<close> and the Redis cache of
  \<^verbatim>\<open>source/common/cache/redis_cache_impl.{h,cc}\<close>, one instance of which each worker thread owns.

  \<^item> The hiredis library and libevent are the environment: what it does is an event (a callback of
    hiredis, the one-shot reconnect timer), and what the client asks of it is an output. A hiredis
    context is a number; the client is in the \<^verbatim>\<open>data\<close> field of the context \<open>c\<close> exactly if \<open>c\<close> is its
    \<open>redis_async_context\<close>, because the code clears both together.
  \<^item> The result of opening a connection is the argument \<open>connect_result\<close>, and whether hiredis is already
    taking a context down (\<^verbatim>\<open>REDIS_DISCONNECTING\<close>) the argument \<open>disconnecting\<close>.
  \<^item> The command callbacks are values of a type variable; calling one is an output.
  \<^item> \<open>timer_armed\<close> is the state of libevent's one-shot timer.
\<close>

section \<open>Times\<close>

text \<open>A time in milliseconds as the seconds and microseconds that hiredis and libevent take.\<close>

record timeval =
  tv_sec :: u64
  tv_usec :: u64

definition setTimeval :: "u64 \<Rightarrow> timeval" where
  "setTimeval v = \<lparr>tv_sec = v div 1000, tv_usec = (v mod 1000) * 1000\<rparr>"

text \<open>No time is lost, the microseconds are less than a second, and the seconds fit the signed type of \<^verbatim>\<open>tv_sec\<close>.\<close>

lemma setTimeval_exact:
  "unat (tv_sec (setTimeval v)) * 1000000 + unat (tv_usec (setTimeval v)) = unat v * 1000 \<and>
   unat (tv_usec (setTimeval v)) < 1000000 \<and> unat (tv_sec (setTimeval v)) < 2 ^ 63"
proof -
  have m: "unat (v mod 1000) < 1000" by (simp add: unat_mod)
  then have u: "unat (v mod 1000 * 1000) = unat (v mod 1000) * 1000" by (intro unat_mult_lem [THEN iffD1, THEN trans]) simp_all
  have "unat v = unat (v div 1000) * 1000 + unat (v mod 1000)" by (simp add: unat_div unat_mod)
  moreover have "unat v < 2 ^ 64" using unsigned_less [of v] by simp
  ultimately show ?thesis using m u by (simp add: setTimeval_def)
qed

section \<open>The client\<close>

datatype redis_status = NOT_INIT | INIT_ERROR | CONNECTING | CONNECTED | WORKING | COMPLETED

datatype redis_command = AUTH string | SET string string int | GET string | DEL string

datatype 'cb redis_output =
    AsyncCommand nat redis_command "u64 option"
  | AsyncFree nat
  | StartTimer
  | DeleteTimer
  | CommandCallback 'cb "string option" "string option"

text \<open>
  What \<^verbatim>\<open>redisAsyncConnectWithOptions\<close> returned (no context, one with its error field set, or a
  good one), and for a good one whether the two callbacks could be set.
\<close>

datatype connect_result = NoContext | BadContext nat | Context nat bool bool

record 'cb redis_client =
  client_status :: redis_status
  next_command_id :: u64
  commands_map :: "(u64 \<times> 'cb) list"
  redis_password :: string
  should_reconnect :: bool
  try_reconnecting :: bool
  max_reconnect_count :: u32
  reconnect_count :: u32
  reconnect_event :: bool
  redis_async_context :: "nat option"
  timer_armed :: bool

type_synonym 'cb redis_action = "'cb redis_client \<Rightarrow> 'cb redis_output list \<times> 'cb redis_client"

definition resetAsyncContext :: "(nat \<Rightarrow> bool) \<Rightarrow> redis_status \<Rightarrow> 'cb redis_action" where
  "resetAsyncContext disconnecting new_status r =
     ((case redis_async_context r of
         Some c \<Rightarrow> (if disconnecting c then [] else [AsyncFree c])
       | None \<Rightarrow> []) @ map (\<lambda>(i, cb). CommandCallback cb None None) (commands_map r),
      r\<lparr>client_status := new_status, redis_async_context := None, commands_map := []\<rparr>)"

definition waitingToReconnect :: "'cb redis_action" where
  "waitingToReconnect r =
     (if try_reconnecting r then ([], r)
      else if \<not> should_reconnect r
      then ([], r\<lparr>should_reconnect := False, client_status := COMPLETED\<rparr>)
      else let r' = r\<lparr>reconnect_count := reconnect_count r + 1\<rparr>
           in if max_reconnect_count r < reconnect_count r
              then ([], r'\<lparr>should_reconnect := False, client_status := COMPLETED\<rparr>)
              else ([StartTimer], r'\<lparr>try_reconnecting := True, reconnect_event := True, timer_armed := True,
                      client_status := CONNECTING\<rparr>))"

definition redis_connect :: "(nat \<Rightarrow> bool) \<Rightarrow> connect_result \<Rightarrow> 'cb redis_action" where
  "redis_connect disconnecting res r =
     (case res of
        NoContext \<Rightarrow> resetAsyncContext disconnecting INIT_ERROR (r\<lparr>redis_async_context := None\<rparr>)
      | BadContext c \<Rightarrow> resetAsyncContext disconnecting INIT_ERROR (r\<lparr>redis_async_context := Some c\<rparr>)
      | Context c connect_set disconnect_set \<Rightarrow>
          (let r' = r\<lparr>redis_async_context := Some c\<rparr>
           in if \<not> connect_set then resetAsyncContext disconnecting INIT_ERROR r'
              else if \<not> disconnect_set then resetAsyncContext disconnecting INIT_ERROR r'
              else ([], r')))"

definition AsyncClient ::
    "string \<Rightarrow> bool \<Rightarrow> u32 \<Rightarrow> (nat \<Rightarrow> bool) \<Rightarrow> connect_result \<Rightarrow> 'cb redis_output list \<times> 'cb redis_client" where
  "AsyncClient password reconnect max_reconnect disconnecting res =
     redis_connect disconnecting res
       \<lparr>client_status = NOT_INIT, next_command_id = 0, commands_map = [], redis_password = password,
        should_reconnect = reconnect, try_reconnecting = False, max_reconnect_count = max_reconnect,
        reconnect_count = 0, reconnect_event = False, redis_async_context = None, timer_armed = False\<rparr>"

definition destroy_client :: "(nat \<Rightarrow> bool) \<Rightarrow> 'cb redis_action" where
  "destroy_client disconnecting r =
     (let (out, r') = resetAsyncContext disconnecting COMPLETED r
      in (out @ (if reconnect_event r' then [DeleteTimer] else []),
          r'\<lparr>try_reconnecting := False, reconnect_event := False, timer_armed := False\<rparr>))"

definition authenticate :: "'cb redis_action" where
  "authenticate r =
     (case redis_async_context r of
        Some c \<Rightarrow> ([AsyncCommand c (AUTH (redis_password r)) None], r)
      | None \<Rightarrow> ([], r))"

definition authenticateCb :: "(nat \<Rightarrow> bool) \<Rightarrow> nat \<Rightarrow> string option \<Rightarrow> 'cb redis_action" where
  "authenticateCb disconnecting c reply r =
     (if redis_async_context r \<noteq> Some c then ([], r)
      else if (case reply of Some str \<Rightarrow> take 2 str = ''OK'' | None \<Rightarrow> False)
      then ([], r\<lparr>client_status := WORKING\<rparr>)
      else resetAsyncContext disconnecting COMPLETED (r\<lparr>should_reconnect := False\<rparr>))"

definition connectCb :: "nat \<Rightarrow> bool \<Rightarrow> 'cb redis_action" where
  "connectCb c ok r =
     (if redis_async_context r \<noteq> Some c then ([], r)
      else let r1 = (if try_reconnecting r
                     then r\<lparr>reconnect_count := (if ok then 0 else reconnect_count r),
                            try_reconnecting := False, reconnect_event := False\<rparr>
                     else r)
           in if ok
              then (if redis_password r \<noteq> ''''
                    then authenticate (r1\<lparr>client_status := CONNECTED\<rparr>)
                    else ([], r1\<lparr>client_status := WORKING\<rparr>))
              else waitingToReconnect (r1\<lparr>client_status := NOT_INIT, redis_async_context := None\<rparr>))"

definition disconnectCb :: "nat \<Rightarrow> bool \<Rightarrow> 'cb redis_action" where
  "disconnectCb c ok r =
     (if ok \<or> redis_async_context r \<noteq> Some c then ([], r)
      else waitingToReconnect (r\<lparr>client_status := NOT_INIT, redis_async_context := None\<rparr>))"

definition reconnectCb :: "(nat \<Rightarrow> bool) \<Rightarrow> connect_result \<Rightarrow> 'cb redis_action" where
  "reconnectCb disconnecting res r = redis_connect disconnecting res (r\<lparr>timer_armed := False\<rparr>)"

text \<open>\<open>reply\<close> is the text of a reply with one, \<open>errstr\<close> the error text of the context if it has one.\<close>

definition commandCb :: "nat \<Rightarrow> string option \<Rightarrow> string option \<Rightarrow> u64 \<Rightarrow> 'cb redis_action" where
  "commandCb c reply errstr command_id r =
     (if redis_async_context r \<noteq> Some c then ([], r)
      else case map_of (commands_map r) command_id of
             None \<Rightarrow> ([], r)
           | Some cb \<Rightarrow>
               ([case reply of
                   Some str \<Rightarrow> CommandCallback cb (Some str) None
                 | None \<Rightarrow> CommandCallback cb None errstr],
                r\<lparr>commands_map := AList.delete command_id (commands_map r)\<rparr>))"

text \<open>The third argument of \<^verbatim>\<open>SET\<close> is printed with \<^verbatim>\<open>%lld\<close>, that is as a signed number.\<close>

definition redis_set :: "string \<Rightarrow> string \<Rightarrow> u64 \<Rightarrow> 'cb redis_action" where
  "redis_set key v expire_ms r =
     (case redis_async_context r of
        Some c \<Rightarrow> (if client_status r \<noteq> WORKING \<or> expire_ms = 0 then ([], r)
                   else ([AsyncCommand c (SET key v (sint expire_ms)) None], r))
      | None \<Rightarrow> ([], r))"

definition redis_get :: "string \<Rightarrow> 'cb \<Rightarrow> 'cb redis_action" where
  "redis_get key cb r =
     (case redis_async_context r of
        Some c \<Rightarrow>
          (if client_status r \<noteq> WORKING then ([], r)
           else ([AsyncCommand c (GET key) (Some (next_command_id r))],
                 r\<lparr>next_command_id := next_command_id r + 1,
                   commands_map := AList.update (next_command_id r) cb (commands_map r)\<rparr>))
      | None \<Rightarrow> ([], r))"

definition redis_del :: "string \<Rightarrow> 'cb redis_action" where
  "redis_del key r =
     (case redis_async_context r of
        Some c \<Rightarrow> (if client_status r \<noteq> WORKING then ([], r) else ([AsyncCommand c (DEL key) None], r))
      | None \<Rightarrow> ([], r))"

section \<open>The cache\<close>

text \<open>
  A lookup answers its callback with a message and an entry or null, through the dispatcher of the
  worker; \<open>PostAnswer\<close> is the posted call.
\<close>

datatype ('e, 'cb) redis_cache_output =
    Client "'cb redis_output"
  | PostAnswer 'cb string "'e option"

definition DEFAULT_REDIS_TIMEOUT :: u64 where
  "DEFAULT_REDIS_TIMEOUT = 5"

record redis_config =
  general :: "(string \<times> u32) option"
  rc_password :: string
  rc_timeout :: "u64 option"

text \<open>The constructor: the endpoint, password and timeout of each worker's client.\<close>

definition RedisCache :: "redis_config \<Rightarrow> (string \<times> int \<times> string \<times> u64) throws" where
  "RedisCache cfg =
     (case general cfg of
        None \<Rightarrow> Inl ''Unsupported redis mode and please check your config.''
      | Some (host, port) \<Rightarrow>
          Inr (host, sint port, rc_password cfg,
               (case rc_timeout cfg of Some t \<Rightarrow> t | None \<Rightarrow> DEFAULT_REDIS_TIMEOUT)))"

definition rc_insertCache ::
    "('e, 'x) cache_entry_ops_scheme \<Rightarrow> u64 \<Rightarrow> cache_key \<Rightarrow> 'e \<Rightarrow> 'cb redis_action" where
  "rc_insertCache E now key v r =
     (if client_status r \<noteq> WORKING then ([], r)
      else let ttl_count = cacheExpire E v - now
           in if ttl_count \<le> 0 then ([], r)
              else case serializeAsString E v of
                     None \<Rightarrow> ([], r)
                   | Some string_value \<Rightarrow> redis_set key string_value ttl_count r)"

definition rc_removeCache :: "cache_key \<Rightarrow> 'cb redis_action" where
  "rc_removeCache key r = (if client_status r \<noteq> WORKING then ([], r) else redis_del key r)"

definition rc_lookupCache :: "cache_key \<Rightarrow> 'e option" where
  "rc_lookupCache key = None"

definition rc_lookupCache_async ::
    "cache_key \<Rightarrow> 'cb \<Rightarrow> 'cb redis_client \<Rightarrow> ('e, 'cb) redis_cache_output list \<times> 'cb redis_client" where
  "rc_lookupCache_async key cb r =
     (if client_status r \<noteq> WORKING then ([PostAnswer cb ''NO CONNECTION TO REDIS'' None], r)
      else let (out, r') = redis_get key cb r in (map Client out, r'))"

text \<open>The callback that the cache passes to the client: \<open>creator\<close> makes an empty entry.\<close>

definition rc_command_done ::
    "('e, 'x) cache_entry_ops_scheme \<Rightarrow> 'e \<Rightarrow> 'cb \<Rightarrow> string option \<Rightarrow> string option \<Rightarrow>
     ('e, 'cb) redis_cache_output" where
  "rc_command_done E creator cb reply err =
     (case (err, reply) of
        (None, Some str) \<Rightarrow> PostAnswer cb '''' (Some (loadFromString E str creator))
      | _ \<Rightarrow> PostAnswer cb '''' None)"

section \<open>Runs of the client\<close>

datatype 'cb redis_event =
    EvConnect nat bool
  | EvDisconnect nat bool
  | EvTimer connect_result
  | EvReply nat "string option" "string option" u64
  | EvAuth nat "string option"
  | EvGet string 'cb
  | EvSet string string u64
  | EvDel string

fun redis_step :: "(nat \<Rightarrow> bool) \<Rightarrow> 'cb redis_event \<Rightarrow> 'cb redis_action" where
  "redis_step disc (EvConnect c ok) r = connectCb c ok r"
| "redis_step disc (EvDisconnect c ok) r = disconnectCb c ok r"
| "redis_step disc (EvTimer res) r = (if timer_armed r then reconnectCb disc res r else ([], r))"
| "redis_step disc (EvReply c reply errstr i) r = commandCb c reply errstr i r"
| "redis_step disc (EvAuth c reply) r = authenticateCb disc c reply r"
| "redis_step disc (EvGet key cb) r = redis_get key cb r"
| "redis_step disc (EvSet key v ttl) r = redis_set key v ttl r"
| "redis_step disc (EvDel key) r = redis_del key r"

text \<open>The callback that an event hands to the client and that the client accepts.\<close>

fun accepted :: "'cb redis_event \<Rightarrow> 'cb redis_client \<Rightarrow> 'cb list" where
  "accepted (EvGet key cb) r = (if client_status r = WORKING \<and> redis_async_context r \<noteq> None then [cb] else [])"
| "accepted _ r = []"

fun called :: "'cb redis_output list \<Rightarrow> 'cb list" where
  "called [] = []"
| "called (CommandCallback cb reply err # outs) = cb # called outs"
| "called (_ # outs) = called outs"

text \<open>A run: its outputs, the callbacks accepted on the way and the final state.\<close>

fun redis_run ::
    "(nat \<Rightarrow> bool) \<Rightarrow> 'cb redis_event list \<Rightarrow> 'cb redis_client \<Rightarrow>
     'cb redis_output list \<times> 'cb list \<times> 'cb redis_client" where
  "redis_run disc [] r = ([], [], r)"
| "redis_run disc (ev # evs) r =
     (let (out, r1) = redis_step disc ev r; (outs, acc, r2) = redis_run disc evs r1
      in (out @ outs, accepted ev r @ acc, r2))"

definition is_get :: "'cb redis_event \<Rightarrow> bool" where
  "is_get ev = (case ev of EvGet key cb \<Rightarrow> True | _ \<Rightarrow> False)"

section \<open>The invariant of the client\<close>

text \<open>
  \<open>n\<close> bounds the identifiers given out so far. A working client has a context, a client whose
  initialisation failed has neither a context nor an armed timer, and identifiers are not reused.
\<close>

definition redis_ok :: "nat \<Rightarrow> 'cb redis_client \<Rightarrow> bool" where
  "redis_ok n r \<longleftrightarrow>
     (client_status r = WORKING \<longrightarrow> redis_async_context r \<noteq> None) \<and>
     (client_status r = INIT_ERROR \<longrightarrow> redis_async_context r = None \<and> \<not> timer_armed r) \<and>
     (timer_armed r \<longrightarrow> client_status r \<noteq> INIT_ERROR) \<and>
     distinct (map fst (commands_map r)) \<and>
     unat (next_command_id r) \<le> n \<and> (\<forall>i\<in>set (map fst (commands_map r)). unat i < unat (next_command_id r))"

lemmas redis_action_defs =
  resetAsyncContext_def waitingToReconnect_def redis_connect_def authenticate_def authenticateCb_def
  connectCb_def disconnectCb_def reconnectCb_def commandCb_def redis_set_def redis_get_def redis_del_def

lemma called_append [simp]: "called (xs @ ys) = called xs @ called ys"
  by (induction xs rule: called.induct) simp_all

lemma called_map_reset [simp]: "called (map (\<lambda>(i, cb). CommandCallback cb None None) m) = map snd m"
  by (induction m) auto

text \<open>The pending callbacks as a multiset: what \<open>AList.update\<close> and \<open>AList.delete\<close> do to it.\<close>

lemma mset_update_fresh:
  "k \<notin> fst ` set m \<Longrightarrow> image_mset snd (mset (AList.update k v m)) = add_mset v (image_mset snd (mset m))"
  by (induction m) auto

lemma mset_delete:
  "distinct (map fst m) \<Longrightarrow> map_of m k = Some v \<Longrightarrow>
     image_mset snd (mset m) = add_mset v (image_mset snd (mset (AList.delete k m)))"
  by (induction m) (auto simp: AList.delete_idem image_iff rev_image_eqI split: if_splits)

lemma map_update_keys: "x \<in> set (AList.update k v m) \<Longrightarrow> fst x = k \<or> x \<in> set m"
  by (induction m) (auto split: if_splits)

lemma redis_step_conserves:
  assumes "redis_ok n r"
  shows "mset (called (fst (redis_step disc ev r))) + mset (map snd (commands_map (snd (redis_step disc ev r)))) =
    mset (map snd (commands_map r)) + mset (accepted ev r)"
proof (cases ev)
  case (EvReply c reply errstr i)
  show ?thesis
  proof (cases "map_of (commands_map r) i")
    case (Some cb)
    with assms have "image_mset snd (mset (commands_map r)) =
        add_mset cb (image_mset snd (mset (AList.delete i (commands_map r))))"
      by (intro mset_delete) (simp_all add: redis_ok_def)
    with EvReply Some show ?thesis by (simp add: commandCb_def split: option.splits)
  qed (simp add: EvReply commandCb_def)
next
  case (EvGet key cb)
  have "next_command_id r \<notin> fst ` set (commands_map r)"
    using assms by (auto simp: redis_ok_def)
  then show ?thesis
    using EvGet by (auto simp: redis_get_def mset_update_fresh split: option.splits)
qed (auto simp: redis_action_defs Let_def split: option.splits connect_result.splits)

lemma redis_step_ok [inv_intros]:
  assumes ok: "redis_ok n r" and n: "is_get ev \<Longrightarrow> Suc n < 2 ^ 64"
  shows "redis_ok (if is_get ev then Suc n else n) (snd (redis_step disc ev r))"
proof (cases ev)
  case (EvReply c reply errstr i)
  with ok show ?thesis
    by (auto simp: commandCb_def redis_ok_def is_get_def AList.delete_eq distinct_map inj_on_def
        split: option.splits)
next
  case (EvGet key cb)
  then have "unat (next_command_id r) + 1 < 2 ^ 64" using ok n by (simp add: redis_ok_def is_get_def)
  then have "unat (next_command_id r + 1) = unat (next_command_id r) + 1"
    by (simp add: unat_word_ariths)
  with EvGet ok show ?thesis
    by (auto simp: redis_get_def redis_ok_def is_get_def distinct_update less_Suc_eq
        dest!: map_update_keys split: option.splits)
qed (use ok in \<open>auto simp: redis_action_defs redis_ok_def is_get_def Let_def split: option.splits connect_result.splits\<close>)

lemma redis_run_conserves:
  assumes "redis_ok n r" and "n + length (filter is_get evs) < 2 ^ 64"
  shows "mset (called (fst (redis_run disc evs r))) + mset (map snd (commands_map (snd (snd (redis_run disc evs r))))) =
      mset (map snd (commands_map r)) + mset (fst (snd (redis_run disc evs r)))"
    and "redis_ok (n + length (filter is_get evs)) (snd (snd (redis_run disc evs r)))"
proof -
  have "mset (called (fst (redis_run disc evs r))) + mset (map snd (commands_map (snd (snd (redis_run disc evs r))))) =
      mset (map snd (commands_map r)) + mset (fst (snd (redis_run disc evs r))) \<and>
    redis_ok (n + length (filter is_get evs)) (snd (snd (redis_run disc evs r)))"
    using assms
  proof (induction evs arbitrary: n r)
    case (Cons ev evs)
    let ?n = "if is_get ev then Suc n else n" and ?r = "snd (redis_step disc ev r)"
    have ok: "redis_ok ?n ?r" using Cons.prems by (intro redis_step_ok) auto
    have "?n + length (filter is_get evs) < 2 ^ 64" using Cons.prems(2) by (simp split: if_splits)
    note ih = Cons.IH [OF ok this]
    have "mset (called (fst (redis_run disc (ev # evs) r))) +
        mset (map snd (commands_map (snd (snd (redis_run disc (ev # evs) r))))) =
      mset (called (fst (redis_step disc ev r))) + (mset (map snd (commands_map ?r)) +
        mset (fst (snd (redis_run disc evs ?r))))"
      using ih by (simp add: Let_def split_beta add.assoc)
    also have "\<dots> = mset (map snd (commands_map r)) + mset (fst (snd (redis_run disc (ev # evs) r)))"
      unfolding add.assoc [symmetric] redis_step_conserves [OF Cons.prems(1)]
      by (simp add: Let_def split_beta add.assoc)
    finally show ?case using ih by (simp add: Let_def split_beta split: if_splits)
  qed simp
  then show "mset (called (fst (redis_run disc evs r))) + mset (map snd (commands_map (snd (snd (redis_run disc evs r))))) =
      mset (map snd (commands_map r)) + mset (fst (snd (redis_run disc evs r)))"
    and "redis_ok (n + length (filter is_get evs)) (snd (snd (redis_run disc evs r)))" by blast+
qed

lemma AsyncClient_ok: "redis_ok 0 (snd (AsyncClient pw rec mx disc res))"
  by (auto simp: AsyncClient_def redis_connect_def resetAsyncContext_def redis_ok_def Let_def
      split: connect_result.splits)

lemma AsyncClient_commands: "commands_map (snd (AsyncClient pw rec mx disc res)) = []"
  by (auto simp: AsyncClient_def redis_connect_def resetAsyncContext_def Let_def split: connect_result.splits)

lemma init_error_step:
  assumes "redis_ok n r" and "client_status r = INIT_ERROR"
  shows "redis_step disc ev r = ([], r)"
  using assms by (cases ev) (auto simp: redis_ok_def connectCb_def disconnectCb_def commandCb_def authenticateCb_def
      redis_get_def redis_set_def redis_del_def)

lemma init_error_run:
  assumes "redis_ok n r" and "client_status r = INIT_ERROR"
  shows "fst (redis_run disc evs r) = [] \<and> snd (snd (redis_run disc evs r)) = r"
  by (induction evs) (simp_all add: init_error_step [OF assms] Let_def split_beta)

lemma triple_collapse: "x = (fst x, fst (snd x), snd (snd x))"
  by simp

section \<open>Properties\<close>

text \<open>
  C10: No command callback is lost and none is called twice. In every run of a client from its
  construction, with any order of connection events, disconnections, timers, replies, authentication
  replies and commands, the callbacks called so far together with the ones still pending are exactly
  the callbacks that \<^verbatim>\<open>get\<close> accepted (as a multiset), as long as fewer than \<open>2 ^ 64\<close> gets were made;
  and a lookup of the cache on the client it then has either posts its answer at once or is accepted.
\<close>

theorem redis_callbacks_conserved:
  assumes run: "redis_run disc evs (snd (AsyncClient pw rec mx disc res)) = (outs, acc, r)"
    and few: "length (filter is_get evs) < 2 ^ 64"
  shows "mset (called outs) + mset (map snd (commands_map r)) = mset acc \<and>
    (fst (rc_lookupCache_async key cb r) = [PostAnswer cb ''NO CONNECTION TO REDIS'' None] \<or>
     accepted (EvGet key cb) r = [cb])"
proof -
  note c = redis_run_conserves [OF AsyncClient_ok, of evs disc pw rec mx disc res]
  have "redis_ok (length (filter is_get evs)) r" using c(2) run few by simp
  then have "client_status r = WORKING \<longrightarrow> redis_async_context r \<noteq> None" by (simp add: redis_ok_def)
  moreover have "mset (called outs) + mset (map snd (commands_map r)) = mset acc"
    using c(1) run few by (simp add: AsyncClient_commands)
  ultimately show ?thesis by (auto simp: rc_lookupCache_async_def)
qed

theorem redis_callbacks_conserved_witness:
  "let (outs, acc, r) = redis_run (\<lambda>c. False)
         [EvConnect 7 True, EvGet ''a'' (1::nat), EvGet ''b'' 2, EvReply 7 (Some ''x'') None 0]
         (snd (AsyncClient '''' True 3 (\<lambda>c. False) (Context 7 True True)))
   in called outs = [1] \<and> map snd (commands_map r) = [2] \<and> mset acc = {#1, 2#} \<and>
      accepted (EvGet ''c'' 3) r = [3]"
  using redis_callbacks_conserved [of "\<lambda>c. False"
      "[EvConnect 7 True, EvGet ''a'' (1::nat), EvGet ''b'' 2, EvReply 7 (Some ''x'') None 0]"
      "''''" True 3 "Context 7 True True", OF triple_collapse]
  by (simp add: Let_def split_beta AsyncClient_def redis_action_defs is_get_def)

text \<open>
  C20: A client whose connection attempt fails at once is dead. Whatever happened before, once an attempt
  to open a connection (the first one, or one made by the reconnect timer) fails before hiredis takes
  it over, no later event changes the client and none makes it send anything: no timer is armed and
  every callback of hiredis is ignored, although reconnecting is enabled.
\<close>

theorem redis_init_error_final:
  assumes run: "redis_run disc evs (snd (AsyncClient pw rec mx disc res)) = (outs, acc, r)"
    and few: "length (filter is_get evs) < 2 ^ 64"
    and err: "client_status r = INIT_ERROR"
  shows "fst (redis_run disc later r) = [] \<and> snd (snd (redis_run disc later r)) = r"
  using redis_run_conserves(2) [OF AsyncClient_ok, of evs disc pw rec mx disc res] run few err
  by (intro init_error_run [of "length (filter is_get evs)"]) simp_all

theorem redis_init_error_final_witness:
  "let r = snd (snd (redis_run (\<lambda>c. False) [EvConnect 7 True, EvDisconnect 7 False, EvTimer NoContext]
                       (snd (AsyncClient '''' True 4294967295 (\<lambda>c. False) (Context 7 True True)))))
   in should_reconnect r \<and> snd (snd (redis_run (\<lambda>c. False) [EvTimer (Context 8 True True), EvGet ''k'' ()] r)) = r"
  using redis_init_error_final [of "\<lambda>c. False" "[EvConnect 7 True, EvDisconnect 7 False, EvTimer NoContext]"
      "''''" True 4294967295 "Context 7 True True", OF triple_collapse]
  by (simp add: Let_def split_beta AsyncClient_def redis_action_defs is_get_def)

lemma sint_minus_eq:
  fixes a b :: u64
  assumes "\<bar>uint a - uint b\<bar> < 2 ^ 63"
  shows "sint (a - b) = uint a - uint b"
proof -
  have "a - b = word_of_int (uint a - uint b)" by simp
  then have "sint (a - b) = signed_take_bit 63 (uint a - uint b)"
    by (simp only: sint_sbintrunc' len_bit0 len_num1) simp
  also have "\<dots> = uint a - uint b"
    using assms by (intro signed_take_bit_int_eq_self) auto
  finally show ?thesis .
qed

text \<open>
  What an insertion into Redis sends, for an entry whose expiry is less than \<open>2 ^ 63\<close> milliseconds
  away from the clock. A fresh entry is sent with its remaining lifetime, and an entry that expires
  now is not sent. But an entry that is already expired is sent too, with a negative lifetime: the
  guard \<^verbatim>\<open>ttl_count <= 0\<close> is on an unsigned difference and only stops the difference 0.
\<close>

theorem redis_insert_lifetime:
  assumes "client_status r = WORKING" and "redis_async_context r = Some c"
    and "serializeAsString E v = Some s"
    and near: "\<bar>uint (cacheExpire E v) - uint now\<bar> < 2 ^ 63"
  shows "rc_insertCache E now key v r =
    (if uint (cacheExpire E v) = uint now then ([], r)
     else ([AsyncCommand c (SET key s (uint (cacheExpire E v) - uint now)) None], r))"
proof (cases "cacheExpire E v = now")
  case False
  then have "cacheExpire E v - now \<noteq> 0" by simp
  moreover have "uint (cacheExpire E v) \<noteq> uint now" using False by (simp add: word_uint_eq_iff)
  ultimately show ?thesis
    using assms sint_minus_eq [OF near] by (simp add: rc_insertCache_def redis_set_def Let_def)
qed (simp add: rc_insertCache_def assms)

definition string_entry_ops :: "(u64 \<times> string) cache_entry_ops" where
  "string_entry_ops = \<lparr>cacheExpire = fst, set_cacheExpire = \<lambda>t e. (t, snd e), cacheLength = \<lambda>e. of_nat (length (snd e)),
     createCopy = \<lambda>e. Some (0, snd e), loadFromString = \<lambda>s e. (fst e, s), serializeAsString = \<lambda>e. Some (snd e)\<rparr>"

definition working_client :: "nat redis_client" where
  "working_client = snd (connectCb 7 True (snd (AsyncClient '''' True 3 (\<lambda>c. False) (Context 7 True True))))"

theorem redis_insert_lifetime_witness:
  "fst (rc_insertCache string_entry_ops 1000 ''k'' (1500, ''v'') working_client) =
     [AsyncCommand 7 (SET ''k'' ''v'' 500) None] \<and>
   fst (rc_insertCache string_entry_ops 1000 ''k'' (400, ''v'') working_client) =
     [AsyncCommand 7 (SET ''k'' ''v'' (- 600)) None]"
proof -
  have w: "client_status working_client = WORKING" "redis_async_context working_client = Some 7"
    by (simp_all add: working_client_def AsyncClient_def redis_action_defs)
  show ?thesis
    using redis_insert_lifetime [OF w, of string_entry_ops "(1500, ''v'')" "''v''" 1000 "''k''"]
      redis_insert_lifetime [OF w, of string_entry_ops "(400, ''v'')" "''v''" 1000 "''k''"]
    by (simp add: string_entry_ops_def)
qed

end
