(* ===== verification/Http_Cache_Entry.thy ===== *)
theory Http_Cache_Entry
  imports Cache_Base Http_Base
begin

text \<open>
  The cache entries of \<^verbatim>\<open>source/common/cache/http_cache_entry.h\<close>: an HTTP message with its expiry and
  the length it is accounted with, and its serialisation as JSON. The template is used for requests and
  for responses; \<open>required\<close> are the headers without which a loaded message is rejected.

  \<^item> The header map, the JSON writer's \<open>render\<close> and the parser \<open>parse\<close> are parameters.
  \<^item> rapidjson's assertions on the kind of a value (a member looked up in something that is no object, the
    string of a value that is none) end the process; here they are the error branch.
\<close>

section \<open>Entries\<close>

record 'h http_entry =
  cache_message :: "'h http_message option"
  he_cache_expire :: u64
  he_cache_length :: u64

definition HttpCacheEntryBase :: "'h header_map_ops \<Rightarrow> 'h http_message option \<Rightarrow> u64 \<Rightarrow> 'h http_entry" where
  "HttpCacheEntryBase H m expire =
     \<lparr>cache_message = m, he_cache_expire = expire,
      he_cache_length =
        (case m of
           None \<Rightarrow> 0
         | Some msg \<Rightarrow> 0 + hm_byteSize H (msg_headers msg) + of_nat (length (msg_body msg)))\<rparr>"

definition empty_entry :: "'h http_entry" where
  "empty_entry = \<lparr>cache_message = None, he_cache_expire = 0, he_cache_length = 0\<rparr>"

definition response_required :: "string list" where
  "response_required = ['':status'']"

definition request_required :: "string list" where
  "request_required = ['':authority'', '':path'', '':method'']"

section \<open>Serialisation\<close>

definition headersToJson :: "string \<times> string \<Rightarrow> json_event list" where
  "headersToJson e = [WKey (fst e), WString (snd e)]"

definition he_serializeAsString ::
    "'h header_map_ops \<Rightarrow> (json_event list \<Rightarrow> string) \<Rightarrow> 'h http_entry \<Rightarrow> string option" where
  "he_serializeAsString H render e =
     (case cache_message e of
        None \<Rightarrow> None
      | Some m \<Rightarrow> Some (render (
          [StartObject, WKey ''headers'', StartObject] @
          concat (map headersToJson (hm_iterate H (msg_headers m))) @
          [EndObject, WKey ''rawbody'', WString (msg_body m), EndObject])))"

text \<open>\<^verbatim>\<open>GetString\<close> of the members of an object.\<close>

fun string_members :: "(string \<times> json) list \<Rightarrow> (string \<times> string) list throws" where
  "string_members [] = Inr []"
| "string_members ((k, JString v) # ms) =
     (case string_members ms of Inl err \<Rightarrow> Inl err | Inr es \<Rightarrow> Inr ((lower (c_str k), c_str v) # es))"
| "string_members _ = Inl ''IsString()''"

definition read_headers :: "'h header_map_ops \<Rightarrow> json \<Rightarrow> 'h throws" where
  "read_headers H doc =
     (case json_member ''headers'' doc of
        None \<Rightarrow> Inr (hm_create H)
      | Some (JObject ms) \<Rightarrow>
          (case string_members ms of
             Inl err \<Rightarrow> Inl err
           | Inr es \<Rightarrow> Inr (fold (\<lambda>(k, v). hm_addCopy H k v) es (hm_create H)))
      | Some _ \<Rightarrow> Inl ''IsObject()'')"

definition read_body :: "json \<Rightarrow> string throws" where
  "read_body doc =
     (case json_member ''rawbody'' doc of
        None \<Rightarrow> Inr ''''
      | Some (JString s) \<Rightarrow> Inr s
      | Some _ \<Rightarrow> Inl ''IsString()'')"

definition he_loadFromString ::
    "'h header_map_ops \<Rightarrow> (string \<Rightarrow> json option) \<Rightarrow> string list \<Rightarrow> string \<Rightarrow> 'h http_entry \<Rightarrow>
     'h http_entry throws" where
  "he_loadFromString H parse required raw e =
     (if raw = '''' then Inr (e\<lparr>cache_message := None\<rparr>)
      else case parse raw of
        None \<Rightarrow> Inr (e\<lparr>cache_message := None\<rparr>)
      | Some (JObject doc) \<Rightarrow>
          (case read_headers H (JObject doc) of
             Inl err \<Rightarrow> Inl err
           | Inr h \<Rightarrow>
               (if hm_iterate H h = [] \<or> (\<exists>k\<in>set required. hm_get H k h = [])
                then Inr (e\<lparr>cache_message := None\<rparr>)
                else case read_body (JObject doc) of
                  Inl err \<Rightarrow> Inl err
                | Inr body \<Rightarrow>
                    Inr (e\<lparr>cache_message := Some
                      \<lparr>msg_headers = hm_setCopy H ''content-length'' (decimal_nat (length body))
                                      (hm_remove H ''transfer-encoding'' h),
                       msg_body = body\<rparr>\<rparr>)))
      | Some _ \<Rightarrow> Inl ''IsObject()'')"

section \<open>The entry as a cache entry\<close>

definition he_createCopy :: "'h header_map_ops \<Rightarrow> 'h http_entry \<Rightarrow> 'h http_entry option" where
  "he_createCopy H e =
     (case cache_message e of
        None \<Rightarrow> None
      | Some m \<Rightarrow> Some (HttpCacheEntryBase H (Some (makeMessageCopy H m)) 0))"

definition http_entry_ops ::
    "'h header_map_ops \<Rightarrow> (json_event list \<Rightarrow> string) \<Rightarrow> (string \<Rightarrow> json option) \<Rightarrow> string list \<Rightarrow>
     'h http_entry cache_entry_ops" where
  "http_entry_ops H render parse required =
     \<lparr>cacheExpire = he_cache_expire, set_cacheExpire = \<lambda>t e. e\<lparr>he_cache_expire := t\<rparr>,
      cacheLength = he_cache_length, createCopy = he_createCopy H,
      loadFromString = \<lambda>raw e. (case he_loadFromString H parse required raw e of Inr e' \<Rightarrow> e' | Inl err \<Rightarrow> e),
      serializeAsString = he_serializeAsString H render\<rparr>"

section \<open>Lemmas\<close>

text \<open>The document that the serialisation writes.\<close>

definition entry_json :: "'h header_map_ops \<Rightarrow> 'h http_message \<Rightarrow> json" where
  "entry_json H m =
     JObject [(''headers'', JObject (map (\<lambda>(k, v). (k, JString v)) (hm_iterate H (msg_headers m)))),
              (''rawbody'', JString (msg_body m))]"

lemma serialize_renders:
  "cache_message e = Some m \<Longrightarrow> he_serializeAsString H render e = Some (render (json_events (entry_json H m)))"
proof -
  have "concat (map (\<lambda>(k, v). WKey k # json_events v) (map (\<lambda>(k, v). (k, JString v)) es)) =
      concat (map headersToJson es)" for es
    by (induction es) (auto simp: headersToJson_def)
  then show "cache_message e = Some m \<Longrightarrow> he_serializeAsString H render e = Some (render (json_events (entry_json H m)))"
    by (simp add: he_serializeAsString_def entry_json_def)
qed

lemma string_members_strings:
  assumes "\<And>e. e \<in> set es \<Longrightarrow> name_ok (fst e) \<and> text_ok (snd e)"
  shows "string_members (map (\<lambda>(k, v). (k, JString v)) es) = Inr es"
  using assms
proof (induction es)
  case (Cons e es)
  obtain k v where "e = (k, v)" by (cases e)
  with Cons.IH Cons.prems(1) [of e] Cons.prems(1) show ?case by (simp add: name_ok_def)
qed simp

lemma read_entry_json:
  assumes H: "header_map_laws H inl valid" and v: "valid (msg_headers m)"
  shows "read_headers H (entry_json H m) =
      Inr (fold (\<lambda>(k, v). hm_addCopy H k v) (hm_iterate H (msg_headers m)) (hm_create H))"
    and "read_body (entry_json H m) = Inr (msg_body m)"
  using string_members_strings [of "hm_iterate H (msg_headers m)"] header_map_lawsD(4) [OF H v]
  by (simp_all add: read_headers_def read_body_def entry_json_def json_member_def)

lemma get_copied_entries:
  assumes H: "header_map_laws H inl valid" and v: "valid h"
  shows "hm_get H k (fold (\<lambda>(k, v). hm_addCopy H k v) (hm_iterate H h) (hm_create H)) = hm_get H k h"
proof -
  have "inl k \<Longrightarrow> length (filter (\<lambda>e. fst e = k) (hm_iterate H h)) \<le> 1" for k
    using header_map_lawsD(3) [OF H, of k h] header_map_lawsD(5) [OF H v, of k] by simp
  from get_fold_addCopy [OF H this] show ?thesis
    by (simp add: header_map_lawsD(3) [OF H, of k h])
qed

text \<open>What a copied or reloaded message has to agree on with the original.\<close>

definition same_message :: "'h header_map_ops \<Rightarrow> 'h http_message \<Rightarrow> 'h http_message \<Rightarrow> bool" where
  "same_message H m m' \<longleftrightarrow> msg_body m' = msg_body m \<and>
     hm_get H ''content-length'' (msg_headers m') = [(''content-length'', decimal_nat (length (msg_body m)))] \<and>
     hm_get H ''transfer-encoding'' (msg_headers m') = [] \<and>
     (\<forall>k. k \<noteq> ''content-length'' \<and> k \<noteq> ''transfer-encoding'' \<longrightarrow>
        hm_get H k (msg_headers m') = hm_get H k (msg_headers m))"

lemma makeMessageCopy_same:
  assumes "header_map_laws H inl valid"
  shows "same_message H m (makeMessageCopy H m)"
  using header_map_lawsD(7,8,9) [OF assms] by (simp add: makeMessageCopy_def same_message_def Let_def)

lemma load_serialized:
  assumes H: "header_map_laws H inl valid" and v: "valid (msg_headers m)"
    and req: "required \<noteq> []" "\<And>k. k \<in> set required \<Longrightarrow> hm_get H k (msg_headers m) \<noteq> []"
    and json: "json_reads_back render parse (entry_json H m)"
    and m: "cache_message e = Some m" and s: "he_serializeAsString H render e = Some s"
  shows "\<exists>m'. he_loadFromString H parse required s e0 = Inr (e0\<lparr>cache_message := Some m'\<rparr>) \<and> same_message H m m'"
proof -
  let ?h = "fold (\<lambda>(k, v). hm_addCopy H k v) (hm_iterate H (msg_headers m)) (hm_create H)"
  have s': "s \<noteq> ''''" "parse s = Some (entry_json H m)"
    using s json serialize_renders [OF m, of H render] by (simp_all add: json_reads_back_def)
  note get = get_copied_entries [OF H v]
  have present: "\<not> (\<exists>k\<in>set required. hm_get H k ?h = [])" using req(2) by (simp add: get)
  moreover have "hm_iterate H ?h \<noteq> []"
  proof
    assume "hm_iterate H ?h = []"
    then have "hm_get H (hd required) ?h = []" by (simp add: header_map_lawsD(3) [OF H])
    with present req(1) show False by (metis hd_in_set)
  qed
  ultimately have "he_loadFromString H parse required s e0 = Inr (e0\<lparr>cache_message := Some
      \<lparr>msg_headers = hm_setCopy H ''content-length'' (decimal_nat (length (msg_body m)))
         (hm_remove H ''transfer-encoding'' ?h), msg_body = msg_body m\<rparr>\<rparr>)"
    using s' read_entry_json [OF H v] by (simp add: he_loadFromString_def) (simp add: entry_json_def)
  then show ?thesis
    using header_map_lawsD(7,8) [OF H] get by (intro exI conjI) (auto simp: same_message_def)
qed

section \<open>Properties\<close>

text \<open>
  C15: Serialising a cached message and loading the text into any entry gives the message back: the same
  body and, for every header but the two that describe the framing, the same values in the same order;
  the transfer encoding is gone and the content length is the length of the body. The expiry and the
  accounted length of the entry that was loaded into are those it had before.
\<close>

theorem http_entry_roundtrip:
  assumes "header_map_laws H inl valid" and "valid (msg_headers m)"
    and "required = response_required \<or> required = request_required"
    and "\<And>k. k \<in> set required \<Longrightarrow> hm_get H k (msg_headers m) \<noteq> []"
    and "json_reads_back render parse (entry_json H m)"
    and "cache_message e = Some m" and "he_serializeAsString H render e = Some s"
  shows "\<exists>m'. he_loadFromString H parse required s e0 = Inr (e0\<lparr>cache_message := Some m'\<rparr>) \<and> same_message H m m'"
  by (rule load_serialized [OF assms(1,2) _ assms(4-7)])
     (use assms(3) in \<open>auto simp: response_required_def request_required_def\<close>)

definition example_message :: "(string \<times> string) list http_message" where
  "example_message = \<lparr>msg_headers = [('':status'', ''200''), (''x-a'', ''1'')], msg_body = ''hi''\<rparr>"

theorem http_entry_roundtrip_witness:
  "\<exists>m'. he_loadFromString list_headers (\<lambda>s. if s = ''text'' then Some (entry_json list_headers example_message) else None)
          response_required ''text'' empty_entry = Inr (empty_entry\<lparr>cache_message := Some m'\<rparr>) \<and>
        same_message list_headers example_message m'"
  by (rule http_entry_roundtrip [OF list_headers_laws, where render = "\<lambda>evs. ''text''"
        and e = "HttpCacheEntryBase list_headers (Some example_message) 0"])
     (auto simp: example_message_def response_required_def name_ok_def lower_def tolower_def text_ok_def
        list_headers_def json_reads_back_def HttpCacheEntryBase_def he_serializeAsString_def)

end
