(* ===== verification/Cache_Sender.thy ===== *)
theory Cache_Sender
  imports Local_Cache Redis_Cache Http_Cache_Entry
begin

text \<open>
  The client side of the caches, \<^verbatim>\<open>source/common/sender/cache_request_sender.{h,cc}\<close> with the factory
  \<^verbatim>\<open>source/common/cache/cache_config.cc\<close>: the key of a request, the lifetime configured for a response, and
  the state machine that asks a list of caches one after the other.

  \<^item> Asking a cache is the output \<open>CacheLookup i\<close>, its answer the event \<open>Reply\<close>; the two are apart in time,
    because every cache answers through the dispatcher.
  \<^item> MD5, the query parser, the removal of the query from a path and \<^verbatim>\<open>std::regex\<close> are parameters.
  \<^item> Calls on the caches are outputs with the index of the cache in \<^verbatim>\<open>used_caches_\<close>.
\<close>

section \<open>Configuration\<close>

datatype proto_cache = kRedis redis_config | kLocal "u64 option" | CACHE_TYPE_NOT_SET

datatype 'e created_cache = CreatedRedis "string \<times> int \<times> string \<times> u64" | CreatedLocal "'e local_cache"

definition CacheConfig_create :: "proto_cache \<Rightarrow> 'e created_cache throws" where
  "CacheConfig_create p =
     (case p of
        kRedis cfg \<Rightarrow> (case RedisCache cfg of Inl err \<Rightarrow> Inl err | Inr r \<Rightarrow> Inr (CreatedRedis r))
      | kLocal sz \<Rightarrow> Inr (CreatedLocal (LocalCache sz))
      | CACHE_TYPE_NOT_SET \<Rightarrow> Inl ''Error cache type and should never run here'')"

definition RedisCacheName :: string where "RedisCacheName = ''RedisCache''"
definition LocalCacheName :: string where "LocalCacheName = ''LocalCache''"
definition OldRedisCacheName :: string where "OldRedisCacheName = ''RedisHttpCache''"
definition OldLocalCacheName :: string where "OldLocalCacheName = ''LocalHttpCache''"

definition isRedisCache :: "string \<Rightarrow> bool" where
  "isRedisCache name \<longleftrightarrow> name = RedisCacheName \<or> name = OldRedisCacheName"

definition isLocalCache :: "string \<Rightarrow> bool" where
  "isLocalCache name \<longleftrightarrow> name = LocalCacheName \<or> name = OldLocalCacheName"

definition cache_type_name :: "proto_cache \<Rightarrow> string throws" where
  "cache_type_name p =
     (case p of
        kRedis cfg \<Rightarrow> Inr RedisCacheName
      | kLocal sz \<Rightarrow> Inr LocalCacheName
      | CACHE_TYPE_NOT_SET \<Rightarrow> Inl ''Error cache type and should never run here'')"

text \<open>The loop over the configured caches, with the names used so far and the list built so far.\<close>

fun getter_setter_caches ::
    "proto_cache list \<Rightarrow> string list \<Rightarrow> (string \<times> 'e created_cache) list \<Rightarrow> (string \<times> 'e created_cache) list throws" where
  "getter_setter_caches [] used caches = Inr caches"
| "getter_setter_caches (p # ps) used caches =
     (case cache_type_name p of
        Inl err \<Rightarrow> Inl err
      | Inr name \<Rightarrow>
          (if name \<in> set used then getter_setter_caches ps used caches
           else case CacheConfig_create p of
                  Inl err \<Rightarrow> Inl err
                | Inr c \<Rightarrow> getter_setter_caches ps (name # used) (caches @ [(name, c)])))"

definition CacheGetterSetterConfig :: "proto_cache list \<Rightarrow> (string \<times> 'e created_cache) list throws" where
  "CacheGetterSetterConfig ps = getter_setter_caches ps [] []"

record key_maker =
  exclude_path :: bool
  exclude_host :: bool
  query_params :: "string list"
  headers_keys :: "string list"
  ignore_case :: bool

record proto_ttl =
  ttl_default :: u64
  ttl_customs :: "(string \<times> u64) list"

type_synonym 'r cache_ttls = "(string \<times> (u64 \<times> ('r \<times> u64) list)) list"

definition ttl_cache_name :: "string \<Rightarrow> string" where
  "ttl_cache_name name =
     (if isRedisCache name then RedisCacheName else if isLocalCache name then LocalCacheName else name)"

text \<open>\<^verbatim>\<open>std::regex(v.first)\<close> throws on a malformed pattern.\<close>

fun compile_customs :: "(string \<Rightarrow> 'r throws) \<Rightarrow> (string \<times> u64) list \<Rightarrow> ('r \<times> u64) list throws" where
  "compile_customs regex [] = Inr []"
| "compile_customs regex ((p, ttl) # cs) =
     (case regex p of
        Inl err \<Rightarrow> Inl err
      | Inr r \<Rightarrow> (case compile_customs regex cs of Inl err \<Rightarrow> Inl err | Inr rs \<Rightarrow> Inr ((r, ttl) # rs)))"

fun add_ttls :: "(string \<Rightarrow> 'r throws) \<Rightarrow> (string \<times> proto_ttl) list \<Rightarrow> 'r cache_ttls \<Rightarrow> 'r cache_ttls throws" where
  "add_ttls regex [] ttls = Inr ttls"
| "add_ttls regex ((name, p) # ps) ttls =
     (case compile_customs regex (ttl_customs p) of
        Inl err \<Rightarrow> Inl err
      | Inr customs \<Rightarrow>
          (let cache_name = ttl_cache_name name;
               before = (case map_of ttls cache_name of None \<Rightarrow> [] | Some (d, cs) \<Rightarrow> cs)
           in add_ttls regex ps (AList.update cache_name (ttl_default p, before @ customs) ttls)))"

record 'r specific_cache_config =
  cache_ttls :: "'r cache_ttls"
  cache_key_prefix :: string
  key_maker_config :: key_maker

definition default_prefix :: string where
  "default_prefix = ''v1''"

definition SpecificCacheConfig ::
    "(string \<Rightarrow> 'r throws) \<Rightarrow> key_maker \<Rightarrow> (string \<times> proto_ttl) list \<Rightarrow> string \<Rightarrow> 'r specific_cache_config throws" where
  "SpecificCacheConfig regex km proto_ttls prefix =
     (case add_ttls regex proto_ttls [] of
        Inl err \<Rightarrow> Inl err
      | Inr ttls \<Rightarrow> Inr \<lparr>cache_ttls = ttls, cache_key_prefix = prefix, key_maker_config = km\<rparr>)"

definition cacheTTL :: "('r \<Rightarrow> string \<Rightarrow> bool) \<Rightarrow> 'r specific_cache_config \<Rightarrow> string \<Rightarrow> string \<Rightarrow> u64" where
  "cacheTTL regex_match cfg name code =
     (case map_of (cache_ttls cfg) name of
        None \<Rightarrow> 0
      | Some (dflt, customs) \<Rightarrow>
          (case find (\<lambda>(r, ttl). regex_match r code) customs of
             Some (r, ttl) \<Rightarrow> ttl
           | None \<Rightarrow> dflt))"

section \<open>Keys\<close>

record key_env =
  md5_hex :: "string \<Rightarrow> string"
  removeQueryAndFragment :: "string \<Rightarrow> string"
  parseQueryString :: "string \<Rightarrow> (string \<times> string) list"

text \<open>The code asserts that the request has a method, a path and a host.\<close>

definition header_value :: "'h header_map_ops \<Rightarrow> string \<Rightarrow> 'h \<Rightarrow> string" where
  "header_value H name h = (case hm_get H name h of [] \<Rightarrow> '''' | e # es \<Rightarrow> snd e)"

definition raw_cache_key :: "key_env \<Rightarrow> 'h header_map_ops \<Rightarrow> key_maker \<Rightarrow> 'h \<Rightarrow> string \<Rightarrow> string" where
  "raw_cache_key K H km h prefix =
     (let path = header_value H '':path'' h;
          params = parseQueryString K path;
          raw = prefix
            @ (if exclude_path km then '''' else header_value H '':method'' h)
            @ (if exclude_host km then '''' else header_value H '':authority'' h)
            @ (if exclude_path km then '''' else removeQueryAndFragment K path)
            @ concat (map (\<lambda>q. case map_of params q of None \<Rightarrow> '''' | Some v \<Rightarrow> q @ v) (query_params km))
            @ concat (map (\<lambda>n. case hm_get H (lower n) h of [] \<Rightarrow> '''' | (k, v) # es \<Rightarrow> k @ v) (headers_keys km))
      in if ignore_case km then map tolower raw else raw)"

definition cacheKey :: "key_env \<Rightarrow> 'h header_map_ops \<Rightarrow> key_maker \<Rightarrow> 'h \<Rightarrow> string \<Rightarrow> cache_key" where
  "cacheKey K H km h prefix = md5_hex K (raw_cache_key K H km h prefix)"

section \<open>Looking up, inserting and removing\<close>

record getter_setter =
  has_cache_key :: bool
  gs_cache_key :: cache_key
  lookup_cache_over :: bool
  lookup_cache_stop :: bool
  hit_in_cache :: int
  current_cache :: u32
  gs_callback :: bool

definition CacheGetterSetter :: getter_setter where
  "CacheGetterSetter =
     \<lparr>has_cache_key = False, gs_cache_key = '''', lookup_cache_over = False, lookup_cache_stop = False,
      hit_in_cache = -1, current_cache = 0, gs_callback = False\<rparr>"

datatype 'e gs_output = CacheLookup nat cache_key | CallbackSuccess 'e | CallbackFailure

datatype lookup_status = LookupFailed | LookupOnCall

definition setCacheKey :: "cache_key \<Rightarrow> getter_setter \<Rightarrow> getter_setter" where
  "setCacheKey key g = (if has_cache_key g then g else g\<lparr>gs_cache_key := key, has_cache_key := True\<rparr>)"

definition cancelLookup :: "getter_setter \<Rightarrow> getter_setter" where
  "cancelLookup g = g\<lparr>lookup_cache_stop := True, gs_callback := False\<rparr>"

definition lookupCacheOnce :: "string list \<Rightarrow> getter_setter \<Rightarrow> 'e gs_output list \<times> getter_setter" where
  "lookupCacheOnce used g =
     (if lookup_cache_over g \<or> lookup_cache_stop g \<or> \<not> gs_callback g then ([], g)
      else if length used \<le> unat (current_cache g)
      then ([CallbackFailure], g\<lparr>lookup_cache_stop := True, gs_callback := False\<rparr>)
      else ([CacheLookup (unat (current_cache g)) (gs_cache_key g)], g))"

text \<open>The function handed to the cache, called with the entry found there or null.\<close>

definition cache_lookup_callback ::
    "string list \<Rightarrow> 'e option \<Rightarrow> getter_setter \<Rightarrow> 'e gs_output list \<times> getter_setter" where
  "cache_lookup_callback used entry g =
     (if lookup_cache_over g \<or> lookup_cache_stop g \<or> \<not> gs_callback g then ([], g)
      else case entry of
             None \<Rightarrow> lookupCacheOnce used (g\<lparr>current_cache := current_cache g + 1\<rparr>)
           | Some e \<Rightarrow> ([CallbackSuccess e],
                g\<lparr>hit_in_cache := sint (current_cache g), lookup_cache_over := True, gs_callback := False\<rparr>))"

definition lookupCache ::
    "string list \<Rightarrow> bool \<Rightarrow> getter_setter \<Rightarrow> lookup_status \<times> 'e gs_output list \<times> getter_setter" where
  "lookupCache used callback g =
     (if used = [] \<or> \<not> callback \<or> \<not> has_cache_key g then (LookupFailed, [], g)
      else (LookupOnCall, lookupCacheOnce used (g\<lparr>gs_callback := True\<rparr>)))"

definition requestHitInCache :: "string list \<Rightarrow> getter_setter \<Rightarrow> string" where
  "requestHitInCache used g = (if hit_in_cache g = -1 then '''' else used ! nat (hit_in_cache g))"

text \<open>The calls made on the caches, with the index of the cache.\<close>

definition insertCache ::
    "('e, 'x) cache_entry_ops_scheme \<Rightarrow> (string \<Rightarrow> string \<Rightarrow> u64) \<Rightarrow> string list \<Rightarrow> u64 \<Rightarrow> 'e \<Rightarrow> string \<Rightarrow>
     getter_setter \<Rightarrow> (nat \<times> 'e cache_op) list" where
  "insertCache E ttl used now entry key_for_ttl g =
     (let insert_number = (if hit_in_cache g = -1 then int (length used) else hit_in_cache g)
      in concat (map (\<lambda>i.
           let entry_copy = (if int i = insert_number - 1 then Some entry else createCopy E entry);
               lifetime = ttl (used ! i) key_for_ttl
           in case entry_copy of
                None \<Rightarrow> []
              | Some e \<Rightarrow> (if lifetime = 0 then []
                           else [(i, Insert (gs_cache_key g) (set_cacheExpire E (now + lifetime) e))]))
         [0..<nat insert_number]))"

definition removeCache :: "string list \<Rightarrow> getter_setter \<Rightarrow> (nat \<times> 'e cache_op) list" where
  "removeCache used g = map (\<lambda>i. (i, Remove (gs_cache_key g))) [0..<length used]"

section \<open>The request sender\<close>

datatype 'm sender_output = AskCache nat cache_key | OriginSuccess 'm | OriginFailure

record request_sender = getter_setter +
  origin_callback :: bool

definition CacheRequestSender :: request_sender where
  "CacheRequestSender = getter_setter.extend CacheGetterSetter \<lparr>origin_callback = False\<rparr>"

text \<open>
  \<open>on_callbacks\<close> runs the callbacks that the lookup calls: \<^verbatim>\<open>onSuccess\<close> with the entry, if the dynamic cast
  to an HTTP entry succeeds (\<open>as_http\<close>), and \<^verbatim>\<open>onFailure\<close>.
\<close>

fun on_callbacks ::
    "('e \<Rightarrow> 'h http_entry option) \<Rightarrow> 'e gs_output list \<Rightarrow> request_sender \<Rightarrow>
     'h http_message sender_output list \<times> request_sender" where
  "on_callbacks as_http [] s = ([], s)"
| "on_callbacks as_http (CacheLookup i k # outs) s =
     (let (os, s') = on_callbacks as_http outs s in (AskCache i k # os, s'))"
| "on_callbacks as_http (CallbackSuccess e # outs) s =
     (case as_http e of
        Some http_result \<Rightarrow>
          (case cache_message http_result of
             Some m \<Rightarrow> (let (os, s') = on_callbacks as_http outs (s\<lparr>gs_callback := False\<rparr>) in (OriginSuccess m # os, s'))
           | None \<Rightarrow> (let (os, s') = on_callbacks as_http outs (s\<lparr>origin_callback := False\<rparr>) in (OriginFailure # os, s')))
      | None \<Rightarrow> (let (os, s') = on_callbacks as_http outs (s\<lparr>origin_callback := False\<rparr>) in (OriginFailure # os, s')))"
| "on_callbacks as_http (CallbackFailure # outs) s =
     (let (os, s') = on_callbacks as_http outs (s\<lparr>origin_callback := False\<rparr>) in (OriginFailure # os, s'))"

text \<open>Running an operation of the base class on a sender.\<close>

definition on_base :: "(getter_setter \<Rightarrow> 'a \<times> getter_setter) \<Rightarrow> request_sender \<Rightarrow> 'a \<times> request_sender" where
  "on_base f s =
     (let (outs, g) = f (getter_setter.truncate s)
      in (outs, getter_setter.extend g \<lparr>origin_callback = origin_callback s\<rparr>))"

text \<open>\<open>key\<close> is the key of the message if there is a message.\<close>

definition sendRequest ::
    "('e \<Rightarrow> 'h http_entry option) \<Rightarrow> string list \<Rightarrow> cache_key option \<Rightarrow> bool \<Rightarrow> bool \<Rightarrow> request_sender \<Rightarrow>
     lookup_status \<times> 'h http_message sender_output list \<times> request_sender" where
  "sendRequest as_http used key callback route_config s =
     (case key of
        None \<Rightarrow> (LookupFailed, [], s)
      | Some k \<Rightarrow>
          (if \<not> callback \<or> \<not> route_config then (LookupFailed, [], s)
           else let s1 = snd (on_base (\<lambda>g. ((), setCacheKey k g)) (s\<lparr>origin_callback := True\<rparr>));
                    ((status, outs), s2) =
                      on_base (\<lambda>g. let (st, os, g') = lookupCache used True g in ((st, os), g')) s1;
                    (os, s3) = on_callbacks as_http outs s2
                in (status, os, s3)))"

definition sender_reply ::
    "('e \<Rightarrow> 'h http_entry option) \<Rightarrow> string list \<Rightarrow> 'e option \<Rightarrow> request_sender \<Rightarrow>
     'h http_message sender_output list \<times> request_sender" where
  "sender_reply as_http used entry s =
     (let (outs, s1) = on_base (cache_lookup_callback used entry) s in on_callbacks as_http outs s1)"

definition MAX_CACHE_ENTRY_SIZE :: u64 where
  "MAX_CACHE_ENTRY_SIZE = 512 * 1024"

definition insertResponse ::
    "'h header_map_ops \<Rightarrow> ('h http_entry, 'x) cache_entry_ops_scheme \<Rightarrow> (string \<Rightarrow> string \<Rightarrow> u64) \<Rightarrow>
     string list \<Rightarrow> u64 \<Rightarrow> cache_key \<Rightarrow> 'h http_message \<Rightarrow> getter_setter \<Rightarrow>
     (nat \<times> 'h http_entry cache_op) list \<times> getter_setter" where
  "insertResponse H E ttl used now key m g =
     (let g' = setCacheKey key g;
          message_size = hm_byteSize H (msg_headers m) + of_nat (length (msg_body m))
      in if MAX_CACHE_ENTRY_SIZE < message_size then ([], g')
         else (insertCache E ttl used now (HttpCacheEntryBase H (Some m) 0)
                 (header_value H '':status'' (msg_headers m)) g', g'))"

definition removeResponse :: "string list \<Rightarrow> cache_key \<Rightarrow> getter_setter \<Rightarrow> (nat \<times> 'e cache_op) list \<times> getter_setter" where
  "removeResponse used key g = (let g' = setCacheKey key g in (removeCache used g', g'))"

section \<open>Runs of the lookup\<close>

datatype 'e gs_event = GsKey cache_key | GsLookup bool | GsReply "'e option" | GsCancel

fun gs_step :: "string list \<Rightarrow> 'e gs_event \<Rightarrow> getter_setter \<Rightarrow> 'e gs_output list \<times> getter_setter" where
  "gs_step used (GsKey key) g = ([], setCacheKey key g)"
| "gs_step used (GsLookup cb) g = snd (lookupCache used cb g)"
| "gs_step used (GsReply e) g = cache_lookup_callback used e g"
| "gs_step used GsCancel g = ([], cancelLookup g)"

fun gs_run :: "string list \<Rightarrow> 'e gs_event list \<Rightarrow> getter_setter \<Rightarrow> 'e gs_output list \<times> getter_setter" where
  "gs_run used [] g = ([], g)"
| "gs_run used (ev # evs) g =
     (let (out, g1) = gs_step used ev g; (outs, g2) = gs_run used evs g1 in (out @ outs, g2))"

fun is_callback :: "'e gs_output \<Rightarrow> bool" where
  "is_callback (CacheLookup i k) = False"
| "is_callback _ = True"

abbreviation callbacks :: "'e gs_output list \<Rightarrow> 'e gs_output list" where
  "callbacks outs \<equiv> filter is_callback outs"

lemma gs_run_append:
  "gs_run used (xs @ ys) g =
     (let (o1, g1) = gs_run used xs g; (o2, g2) = gs_run used ys g1 in (o1 @ o2, g2))"
  by (induction xs arbitrary: g) (auto simp: Let_def split_beta)

text \<open>A lookup that is over or was cancelled never calls back.\<close>

definition gs_done :: "getter_setter \<Rightarrow> bool" where
  "gs_done g \<longleftrightarrow> lookup_cache_over g \<or> lookup_cache_stop g"

lemmas gs_defs = setCacheKey_def lookupCache_def lookupCacheOnce_def cache_lookup_callback_def cancelLookup_def

lemma gs_step_done [inv_intros]:
  "gs_done g \<Longrightarrow> gs_done (snd (gs_step used ev g)) \<and> callbacks (fst (gs_step used ev g)) = []"
  by (cases ev) (auto simp: gs_done_def gs_defs split: option.splits)

lemma gs_step_callback:
  "length (callbacks (fst (gs_step used ev g))) \<le> 1 \<and>
   (callbacks (fst (gs_step used ev g)) \<noteq> [] \<longrightarrow> gs_done (snd (gs_step used ev g)))"
  by (cases ev) (auto simp: gs_done_def gs_defs split: option.splits)

lemma gs_run_done: "gs_done g \<Longrightarrow> callbacks (fst (gs_run used evs g)) = []"
  by (induction evs arbitrary: g) (use gs_step_done in \<open>auto simp: Let_def split_beta\<close>)

lemma gs_run_callbacks: "length (callbacks (fst (gs_run used evs g))) \<le> 1"
proof (induction evs arbitrary: g)
  case (Cons ev evs)
  show ?case
  proof (cases "callbacks (fst (gs_step used ev g)) = []")
    case True
    with Cons.IH [of "snd (gs_step used ev g)"] show ?thesis by (simp add: Let_def split_beta)
  next
    case False
    with gs_step_callback [of used ev g] gs_run_done [of "snd (gs_step used ev g)" used evs]
    show ?thesis by (simp add: Let_def split_beta)
  qed
qed simp

text \<open>What the lookup does when every cache answers: ask in order up to the first hit.\<close>

fun lookup_trace :: "nat \<Rightarrow> cache_key \<Rightarrow> 'e option list \<Rightarrow> 'e gs_output list" where
  "lookup_trace i k [] = [CallbackFailure]"
| "lookup_trace i k (None # rs) = CacheLookup i k # lookup_trace (Suc i) k rs"
| "lookup_trace i k (Some e # rs) = [CacheLookup i k, CallbackSuccess e]"

fun first_hit :: "'e option list \<Rightarrow> nat option" where
  "first_hit [] = None"
| "first_hit (None # rs) = map_option Suc (first_hit rs)"
| "first_hit (Some e # rs) = Some 0"

text \<open>The state in which the answer of cache \<open>i\<close> is awaited.\<close>

definition gs_waiting :: "cache_key \<Rightarrow> nat \<Rightarrow> getter_setter \<Rightarrow> bool" where
  "gs_waiting k i g \<longleftrightarrow> \<not> gs_done g \<and> gs_callback g \<and> gs_cache_key g = k \<and> hit_in_cache g = -1 \<and> current_cache g = of_nat i"

lemma unat_next: "Suc i < 2 ^ 31 \<Longrightarrow> unat ((of_nat i :: u32) + 1) = Suc i"
proof -
  assume "Suc i < 2 ^ 31"
  then have "unat (of_nat (Suc i) :: u32) = Suc i" by (simp only: unat_of_nat) simp
  then show ?thesis by (simp add: add.commute)
qed

lemma gs_done_run: "gs_done g \<Longrightarrow> gs_run used (map GsReply rs) g = ([], g)"
  by (induction rs) (auto simp: cache_lookup_callback_def gs_done_def)

lemma sint_small: "i < 2 ^ 31 \<Longrightarrow> sint (of_nat i :: u32) = int i"
  by (subst sint_sbintrunc' [of "int i", where 'a = 32, simplified])
     (simp add: signed_take_bit_int_eq_self)

lemma lookup_trace_Cons: "rs \<noteq> [] \<Longrightarrow> lookup_trace i k rs = CacheLookup i k # tl (lookup_trace i k rs)"
  by (induction i k rs rule: lookup_trace.induct) simp_all

lemma replies_trace:
  assumes "gs_waiting k i g" and "length rs = length used - i" and "i < length used" and "length used < 2 ^ 31"
  shows "fst (gs_run used (map GsReply rs) g) = tl (lookup_trace i k rs) \<and>
    hit_in_cache (snd (gs_run used (map GsReply rs) g)) =
      (case first_hit rs of None \<Rightarrow> -1 | Some n \<Rightarrow> int (i + n))"
  using assms
proof (induction rs arbitrary: i g)
  case (Cons r rs)
  show ?case
  proof (cases r)
    case (Some e)
    let ?g = "g\<lparr>hit_in_cache := int i, lookup_cache_over := True, gs_callback := False\<rparr>"
    have "cache_lookup_callback used r g = ([CallbackSuccess e], ?g)"
      using Cons.prems(1,3,4) Some
      by (simp add: cache_lookup_callback_def gs_waiting_def gs_done_def sint_small)
    with gs_done_run [of ?g used rs] Some show ?thesis by (simp add: gs_done_def)
  next
    case None
    let ?g = "g\<lparr>current_cache := of_nat (Suc i)\<rparr>"
    have n: "unat ((of_nat i :: u32) + 1) = Suc i" using Cons.prems(3,4) by (intro unat_next) simp
    have step: "cache_lookup_callback used r g = lookupCacheOnce used ?g"
      using Cons.prems(1) None
      by (simp add: cache_lookup_callback_def gs_waiting_def gs_done_def add.commute)
    show ?thesis
    proof (cases "Suc i < length used")
      case True
      have wait: "gs_waiting k (Suc i) ?g" using Cons.prems(1) by (simp add: gs_waiting_def gs_done_def)
      have "cache_lookup_callback used r g = ([CacheLookup (Suc i) k], ?g)"
        using wait n True by (simp add: step lookupCacheOnce_def gs_waiting_def gs_done_def add.commute)
      moreover have "length rs = length used - Suc i" using Cons.prems(2) by simp
      moreover have "lookup_trace (Suc i) k rs = CacheLookup (Suc i) k # tl (lookup_trace (Suc i) k rs)"
        using True Cons.prems(2) by (intro lookup_trace_Cons) auto
      ultimately show ?thesis
        using Cons.IH [OF wait _ True Cons.prems(4)] None
        by (cases "first_hit rs") (simp_all add: split_beta)
    next
      case False
      with Cons.prems(2,3) have "length (r # rs) = 1" by linarith
      then have "rs = []" by simp
      then show ?thesis
        using False Cons.prems(1) n None step
        by (simp add: lookupCacheOnce_def gs_waiting_def gs_done_def add.commute)
    qed
  qed
qed simp

section \<open>A new sender\<close>

text \<open>The sender of a filter that waits for the first cache.\<close>

definition waiting_sender :: "cache_key \<Rightarrow> request_sender" where
  "waiting_sender key =
     CacheRequestSender\<lparr>gs_cache_key := key, has_cache_key := True, gs_callback := True, origin_callback := True\<rparr>"

lemma sendRequest_new:
  assumes "used \<noteq> []"
  shows "sendRequest as_http used (Some key) True True CacheRequestSender =
    (LookupOnCall, [AskCache 0 key], waiting_sender key)"
  using assms
  by (simp add: sendRequest_def on_base_def CacheRequestSender_def CacheGetterSetter_def setCacheKey_def lookupCache_def
      lookupCacheOnce_def waiting_sender_def getter_setter.defs Let_def)

lemma sender_reply_hit:
  assumes "as_http r = Some r'" and "cache_message r' = Some m"
  shows "\<exists>s. sender_reply as_http used (Some r) (waiting_sender key) = ([OriginSuccess m], s)"
  using assms
  by (simp add: sender_reply_def on_base_def cache_lookup_callback_def waiting_sender_def CacheRequestSender_def
      CacheGetterSetter_def getter_setter.defs Let_def)

section \<open>The calls on one cache\<close>

text \<open>The operations that a list of cache calls makes on the cache with index \<open>i\<close>.\<close>

definition ops_for :: "nat \<Rightarrow> (nat \<times> 'e cache_op) list \<Rightarrow> 'e cache_op list" where
  "ops_for i calls = map snd (filter (\<lambda>c. fst c = i) calls)"

lemma filter_upt_eq: "i < n \<Longrightarrow> filter (\<lambda>j. j = i) [0..<n] = [i]"
  by (induction n) (auto simp: less_Suc_eq filter_empty_conv)

lemma ops_for_concat: "ops_for i (concat (map f is)) = concat (map (\<lambda>j. ops_for i (f j)) is)"
  by (induction "is") (auto simp: ops_for_def)

lemma concat_map_single:
  assumes "i < n" and "\<And>j. j \<noteq> i \<Longrightarrow> f j = []"
  shows "concat (map f [0..<n]) = f i"
proof -
  have "concat (map f [0..<n]) = concat (map f (filter (\<lambda>j. j = i) [0..<n]))"
    using assms(2) by (induction n) auto
  then show ?thesis by (simp add: filter_upt_eq [OF assms(1)])
qed

text \<open>On a miss, an insertion makes one call on every cache with a lifetime for the response.\<close>

lemma insertCache_on:
  assumes "i < length used" and "hit_in_cache g = -1" and "ttl (used ! i) code \<noteq> 0"
    and "createCopy E e = Some e'"
  shows "ops_for i (insertCache E ttl used now e code g) =
    [Insert (gs_cache_key g) (set_cacheExpire E (now + ttl (used ! i) code) (if Suc i = length used then e else e'))]"
proof -
  have "int i = int (length used) - 1 \<longleftrightarrow> Suc i = length used" by linarith
  then show ?thesis
    unfolding insertCache_def Let_def ops_for_concat
    by (subst concat_map_single [where i = i])
       (use assms in \<open>auto simp: ops_for_def split: option.splits\<close>)
qed

section \<open>Properties\<close>

text \<open>
  C12: A lookup calls its owner back at most once, and never after it was cancelled, whatever the order in
  which keys are set, lookups are started, caches answer (even more than once, or after the end) and the
  lookup is cancelled.
\<close>

theorem lookup_calls_back_at_most_once:
  "length (callbacks (fst (gs_run used evs CacheGetterSetter))) \<le> 1 \<and>
   callbacks (fst (gs_run used later (snd (gs_run used (evs @ [GsCancel]) CacheGetterSetter)))) = []"
proof -
  have "gs_done (snd (gs_run used (evs @ [GsCancel]) CacheGetterSetter))"
    by (simp add: gs_run_append Let_def split_beta gs_done_def cancelLookup_def)
  with gs_run_done gs_run_callbacks show ?thesis by blast
qed

text \<open>
  C2: A lookup whose caches all answer finishes: the caches are asked one at a time in the configured
  order, each with the key of the request, up to the first hit; the owner gets that entry (or the
  failure, if all caches miss), and the index of the cache with the hit is recorded.
\<close>

theorem lookup_asks_in_order:
  assumes "used \<noteq> []" and "length used < 2 ^ 31" and "length rs = length used"
  shows "fst (gs_run used ([GsKey k, GsLookup True] @ map GsReply rs) CacheGetterSetter) = lookup_trace 0 k rs \<and>
    hit_in_cache (snd (gs_run used ([GsKey k, GsLookup True] @ map GsReply rs) CacheGetterSetter)) =
      (case first_hit rs of None \<Rightarrow> -1 | Some n \<Rightarrow> int n)"
proof -
  let ?g = "CacheGetterSetter\<lparr>gs_cache_key := k, has_cache_key := True, gs_callback := True\<rparr>"
  have "lookup_trace 0 k rs = CacheLookup 0 k # tl (lookup_trace 0 k rs)"
    using assms by (intro lookup_trace_Cons) auto
  moreover have "gs_waiting k 0 ?g" by (simp add: gs_waiting_def gs_done_def CacheGetterSetter_def)
  ultimately show ?thesis
    using replies_trace [of k 0 ?g rs used] assms
    by (cases "first_hit rs") (simp_all add: gs_defs CacheGetterSetter_def Let_def split_beta)
qed

theorem lookup_asks_in_order_witness:
  "fst (gs_run [''LocalCache'', ''RedisCache''] ([GsKey ''k'', GsLookup True] @ map GsReply [None, Some ''hit'']) CacheGetterSetter) =
     [CacheLookup 0 ''k'', CacheLookup 1 ''k'', CallbackSuccess ''hit''] \<and>
   hit_in_cache (snd (gs_run [''LocalCache'', ''RedisCache''] ([GsKey ''k'', GsLookup True] @ map GsReply [None, Some ''hit''])
     CacheGetterSetter)) = 1"
  using lookup_asks_in_order [of "[''LocalCache'', ''RedisCache'']" "[None, Some ''hit'']" "''k''"]
  by (simp only: lookup_trace.simps first_hit.simps) simp

end
