(* ===== verification/Cache_Admin.thy ===== *)
theory Cache_Admin
  imports Cache_Sender
begin

text \<open>
  The administration interface of the filters with caches. The dynamic downgrade filter
  (\<^verbatim>\<open>dynamic_downgrade_filter.cc\<close>) and the super cache filter (\<^verbatim>\<open>cache_filter.cc\<close>) each register a handler that
  removes entries from all caches of the filter. Their code is the same up to the prefix of the path, so one
  set of definitions serves both.

  \<^item> The JSON parser and the query parser are parameters.
  \<^item> \<open>registry\<close> joins the static map \<^verbatim>\<open>ADMIN_HANDLER_UUID_MAP\<close> and the handlers of Envoy's admin server. A handler
    is named by the random identifier of the configuration whose caches it removes from.
\<close>

section \<open>The handler\<close>

text \<open>\<^verbatim>\<open>getStringArray(name, true)\<close> of Envoy's JSON objects; \<open>None\<close> is an exception.\<close>

fun json_strings :: "json list \<Rightarrow> string list option" where
  "json_strings [] = Some []"
| "json_strings (JString s # vs) = map_option (Cons s) (json_strings vs)"
| "json_strings (_ # vs) = None"

definition getStringArray :: "string \<Rightarrow> json \<Rightarrow> string list option" where
  "getStringArray name v =
     (case v of
        JObject ms \<Rightarrow>
          (case map_of ms name of
             None \<Rightarrow> Some []
           | Some (JArray vs) \<Rightarrow> json_strings vs
           | Some _ \<Rightarrow> None)
      | _ \<Rightarrow> None)"

text \<open>The keys to remove, each once; every exception gives no keys.\<close>

definition readCacheKeys :: "(string \<Rightarrow> json option) \<Rightarrow> string \<Rightarrow> cache_key list" where
  "readCacheKeys parse_json body =
     (let cache_keys =
            (case parse_json body of
               None \<Rightarrow> []
             | Some v \<Rightarrow> (case getStringArray ''cache_keys'' v of None \<Rightarrow> [] | Some ks \<Rightarrow> ks))
      in remdups (map lower (filter md5StringOrNot cache_keys)))"

datatype http_code = OK | BadRequest

text \<open>The answer of the handler, and the calls it makes on the caches, each for a sender of its own.\<close>

definition admin_handler ::
    "(string \<Rightarrow> json option) \<Rightarrow> (string \<Rightarrow> (string \<times> string) list) \<Rightarrow> string list \<Rightarrow> string \<Rightarrow> string option \<Rightarrow>
     http_code \<times> string \<times> (nat \<times> 'e cache_op) list" where
  "admin_handler parse_json parse_query used path_and_query body =
     (let action = (case map_of (parse_query path_and_query) ''action'' of None \<Rightarrow> '''' | Some a \<Rightarrow> a)
      in if action = '''' \<or> action \<noteq> ''remove''
         then (BadRequest, ''{\"error\":\"no action or unsupported action.\"}'', [])
         else
           let string_body = (case body of None \<Rightarrow> '''' | Some b \<Rightarrow> b)
           in if string_body = '''' then (BadRequest, ''{\"error\":\"empty body is unsupported.\"}'', [])
              else (OK, ''{\"info\":\"ok\"}'',
                    concat (map (\<lambda>key. fst (removeResponse used key CacheGetterSetter)) (readCacheKeys parse_json string_body))))"

section \<open>Registration\<close>

record registry =
  uuid_map :: "(string \<times> string) list"
  handlers :: "(string \<times> string) list"

text \<open>
  The end of the constructor of a configuration: no handler without a prefix or without caches. The result is
  the path of the handler, empty if there is none.
\<close>

definition register :: "string \<Rightarrow> string \<Rightarrow> bool \<Rightarrow> string \<Rightarrow> registry \<Rightarrow> string \<times> registry" where
  "register base apis_prefix has_caches uuid r =
     (if apis_prefix = '''' \<or> \<not> has_caches then ('''', r)
      else
        let final_apis_prefix = base @ apis_prefix
        in (final_apis_prefix,
            r\<lparr>uuid_map := AList.update final_apis_prefix uuid (uuid_map r),
              handlers := AList.update final_apis_prefix uuid (AList.delete final_apis_prefix (handlers r))\<rparr>))"

text \<open>The destructor removes the handler unless a newer configuration has replaced it.\<close>

definition unregister :: "string \<Rightarrow> string \<Rightarrow> registry \<Rightarrow> registry" where
  "unregister final_apis_prefix uuid r =
     (if final_apis_prefix = '''' then r
      else if map_of (uuid_map r) final_apis_prefix = Some uuid
      then r\<lparr>handlers := AList.delete final_apis_prefix (handlers r),
             uuid_map := AList.delete final_apis_prefix (uuid_map r)\<rparr>
      else r)"

section \<open>Properties\<close>

lemma json_strings_map [simp]: "json_strings (map JString ks) = Some ks"
  by (induction ks) auto

lemma readCacheKeys_set:
  "parse_json b = Some (JObject ms) \<Longrightarrow> map_of ms ''cache_keys'' = Some (JArray (map JString ks)) \<Longrightarrow>
   set (readCacheKeys parse_json b) = lower ` {k \<in> set ks. md5StringOrNot k}"
  by (simp add: readCacheKeys_def getStringArray_def)

text \<open>On each cache, the handler removes the keys one by one.\<close>

lemma ops_for_removal:
  "i < length used \<Longrightarrow> ops_for i (fst (removeResponse used key CacheGetterSetter)) = [Remove key]"
  by (simp add: removeResponse_def removeCache_def setCacheKey_def CacheGetterSetter_def ops_for_def
      filter_map comp_def filter_upt_eq)

lemma ops_for_removals:
  "i < length used \<Longrightarrow>
   ops_for i (concat (map (\<lambda>key. fst (removeResponse used key CacheGetterSetter)) keys)) = map Remove keys"
  unfolding ops_for_concat by (induction keys) (simp_all add: ops_for_removal)

lemma run_removals:
  "lc_inv E c \<Longrightarrow> \<exists>c'. run_steps (lc_step E) (map Remove keys) c = Some c' \<and> lc_inv E c' \<and>
     (\<forall>k. lc_view c' k = (if k \<in> set keys then None else lc_view c k))"
proof (induction keys arbitrary: c)
  case (Cons key keys)
  from Cons.IH [OF lc.remove_invar [OF Cons.prems, of key]] show ?case
    by (auto simp: lc_step_def lc.remove_view [OF Cons.prems])
qed simp

text \<open>
  The administration interface removes what it is asked to. A request with the action \<^verbatim>\<open>remove\<close> and a JSON
  body with a list of strings under \<^verbatim>\<open>cache_keys\<close> is answered with 200; afterwards no local cache of the filter
  returns an entry for a key of the list that is an MD5 string, in any case of its letters, and every other entry is
  still stored.
\<close>

theorem admin_removal:
  assumes "parse_json b = Some (JObject ms)" and "map_of ms ''cache_keys'' = Some (JArray (map JString ks))"
    and "b \<noteq> ''''" and "map_of (parse_query path) ''action'' = Some ''remove''"
    and "i < length used" and "lc_inv E c"
    and run: "admin_handler parse_json parse_query used path (Some b) = (code, message, calls)"
  shows "code = OK \<and>
    (\<exists>c'. run_steps (lc_step E) (ops_for i calls) c = Some c' \<and>
       (\<forall>k \<in> set ks. md5StringOrNot k \<longrightarrow> fst (lc_lookup E t (lower k) c') = None) \<and>
       (\<forall>k. k \<notin> lower ` {k \<in> set ks. md5StringOrNot k} \<longrightarrow> lc_view c' k = lc_view c k))"
proof -
  let ?keys = "readCacheKeys parse_json b"
  from run assms(3,4) have code: "code = OK"
    and calls: "calls = concat (map (\<lambda>key. fst (removeResponse used key CacheGetterSetter)) ?keys)"
    by (auto simp: admin_handler_def Let_def)
  from run_removals [OF assms(6), of ?keys] obtain c' where
    c': "run_steps (lc_step E) (map Remove ?keys) c = Some c'" "lc_inv E c'"
      "\<And>k. lc_view c' k = (if k \<in> set ?keys then None else lc_view c k)" by blast
  have "fst (lc_lookup E t k c') = None" if "k \<in> set ?keys" for k
    using lc.lookup_result [OF c'(2), of t k] that by (simp add: c'(3))
  with code c' show ?thesis
    unfolding calls ops_for_removals [OF assms(5)] readCacheKeys_set [of parse_json, OF assms(1,2)]
    by (intro conjI exI [of _ c']) auto
qed

text \<open>A reader of one fixed document, and a key in both cases.\<close>

definition example_key :: string where
  "example_key = ''0123456789abcdef0123456789abcdef''"

theorem admin_removal_witness:
  "\<exists>c'. run_steps (lc_step pair_ops)
      (ops_for 0 (snd (snd (admin_handler
         (\<lambda>b. Some (JObject [(''cache_keys'', JArray (map JString [''0123456789ABCDEF0123456789ABCDEF'', ''x'']))]))
         (\<lambda>p. [(''action'', ''remove'')]) [LocalCacheName] ''/a'' (Some ''{}'')))))
      (LocalCache (Some 160)) = Some c' \<and>
    fst (lc_lookup pair_ops 7 example_key c') = None"
proof -
  let ?ks = "[''0123456789ABCDEF0123456789ABCDEF'', ''x'']"
  let ?h = "admin_handler (\<lambda>b. Some (JObject [(''cache_keys'', JArray (map JString ?ks))]))
         (\<lambda>p. [(''action'', ''remove'')]) [LocalCacheName] ''/a'' (Some ''{}'')"
  obtain code msg and calls :: "(nat \<times> (u64 \<times> u64) cache_op) list" where run: "?h = (code, msg, calls)"
    by (metis surj_pair)
  have "md5StringOrNot (hd ?ks)" "lower (hd ?ks) = example_key"
    by (simp_all add: md5StringOrNot_def example_key_def lower_def tolower_def char_of_eq_iff)
  with admin_removal [where ks = ?ks and i = 0, OF refl _ _ _ _ LocalCache_inv [of pair_ops "Some 160"] run, where t = 7]
  show ?thesis unfolding run by auto
qed

end
