(* ===== verification/Dynamic_Downgrade.thy ===== *)
theory Dynamic_Downgrade
  imports Service_Downgrade Cache_Admin
begin

text \<open>
  The dynamic downgrade filter, \<^verbatim>\<open>source/filters/http/dynamic_downgrade/dynamic_downgrade_filter.{h,cc}\<close>. A response
  that matches is replaced by the answer of another service, as in the service downgrade, or by an earlier
  response from the caches; responses that match \<^verbatim>\<open>cache_rpx_rpx\<close> are stored for that purpose.

  \<^item> \<open>dd_env\<close> holds what the filter is given: Envoy's header maps, matchers and asynchronous client, the functions
    for keys, the regular expressions and the names of the caches of the filter. The constructor of the sender for
    caches dereferences the pointer to the caches, so the model is of a filter that has some.
  \<^item> Calls on the caches are outputs with the index of the cache; the answers of the caches reach the filter through
    \<open>sender_reply\<close> of the sender and then \<open>dd_onSuccess\<close> or \<open>dd_onFailure\<close>.
\<close>

section \<open>Configuration\<close>

datatype downgrade_source = CACHE | HTTPX

record ('hm) dd_route_proto =
  ddp_downgrade_rqx :: "'hm list"
  ddp_downgrade_rpx :: "'hm list"
  ddp_downgrade_src :: downgrade_source
  ddp_cache_rpx_rpx :: "'hm list"
  ddp_cache_ttls :: "(string \<times> proto_ttl) list"
  ddp_key_maker :: key_maker
  ddp_downgrade_uri :: string
  ddp_override_remote :: "(string \<times> u32 option) option"

record ('hm, 'r) dd_route_config =
  dd_downgrade_rqx :: "'hm list"
  dd_downgrade_rpx :: "'hm list"
  dd_cache_rpx_rpx :: "'hm list"
  dd_has_no_downgrade_rpx :: bool
  downgradeWithCache :: bool
  dd_cache_config :: "'r specific_cache_config option"
  dd_downgrade_uri :: "HttpUri option"
  dd_override_remote :: "httpx_config option"

definition DynamicDowngradeRouteConfig ::
    "(string \<Rightarrow> 'r throws) \<Rightarrow> 'hm dd_route_proto \<Rightarrow> ('hm, 'r) dd_route_config throws" where
  "DynamicDowngradeRouteConfig regex p =
     (let c = \<lparr>dd_downgrade_rqx = ddp_downgrade_rqx p, dd_downgrade_rpx = ddp_downgrade_rpx p, dd_cache_rpx_rpx = [],
               dd_has_no_downgrade_rpx = False, downgradeWithCache = False, dd_cache_config = None,
               dd_downgrade_uri = None, dd_override_remote = None\<rparr>
      in if length (ddp_downgrade_rpx p) = 0 then Inr (c\<lparr>dd_has_no_downgrade_rpx := True\<rparr>)
         else if ddp_downgrade_src p = HTTPX
         then Inr (c\<lparr>dd_downgrade_uri := makeHttpUri (ddp_downgrade_uri p),
                     dd_override_remote := map_option remote_config (ddp_override_remote p)\<rparr>)
         else case SpecificCacheConfig regex (ddp_key_maker p) (ddp_cache_ttls p) ''downgrade'' of
                Inl err \<Rightarrow> Inl err
              | Inr cc \<Rightarrow> Inr (c\<lparr>downgradeWithCache := True, dd_cache_rpx_rpx := ddp_cache_rpx_rpx p, dd_cache_config := Some cc\<rparr>))"

definition dd_shouldDowngrade ::
    "('h \<Rightarrow> 'hm list \<Rightarrow> bool) \<Rightarrow> ('hm, 'r) dd_route_config \<Rightarrow> 'h \<Rightarrow> direction \<Rightarrow> bool" where
  "dd_shouldDowngrade match_headers c headers direc =
     (if dd_has_no_downgrade_rpx c then False
      else if direc = DECODE then match_headers headers (dd_downgrade_rqx c)
      else match_headers headers (dd_downgrade_rpx c))"

definition checkEnableCache :: "('h \<Rightarrow> 'hm list \<Rightarrow> bool) \<Rightarrow> ('hm, 'r) dd_route_config \<Rightarrow> 'h \<Rightarrow> bool" where
  "checkEnableCache match_headers c response_headers =
     (if length (dd_cache_rpx_rpx c) = 0 \<or> \<not> downgradeWithCache c then False
      else match_headers response_headers (dd_cache_rpx_rpx c))"

text \<open>
  The common configuration: the caches, the remote service and the path of the administration handler, if any.
\<close>

record dd_common_config =
  used_caches :: "string list option"
  used_remote :: "httpx_config option"
  final_apis_prefix :: string

definition DynamicDowngradeCommonConfig ::
    "proto_cache list \<Rightarrow> (string \<times> u32 option) option \<Rightarrow> string \<Rightarrow> string \<Rightarrow> registry \<Rightarrow>
     (dd_common_config \<times> registry) throws" where
  "DynamicDowngradeCommonConfig caches remote apis_prefix uuid r =
     (case (if caches = [] then Inr None
            else case CacheGetterSetterConfig caches of
                   Inl err \<Rightarrow> Inl err
                 | Inr cs \<Rightarrow> Inr (Some (map fst (cs :: (string \<times> unit created_cache) list)))) of
        Inl err \<Rightarrow> Inl err
      | Inr used \<Rightarrow>
          (let (path, r') = register ''/httpfilter/dynamic_downgrade/'' apis_prefix (used \<noteq> None) uuid r
           in Inr (\<lparr>used_caches = used, used_remote = map_option remote_config remote, final_apis_prefix = path\<rparr>, r')))"

definition dd_readCacheKeys :: "(string \<Rightarrow> json option) \<Rightarrow> string \<Rightarrow> cache_key list" where
  "dd_readCacheKeys = readCacheKeys"

definition dd_admin_handler ::
    "(string \<Rightarrow> json option) \<Rightarrow> (string \<Rightarrow> (string \<times> string) list) \<Rightarrow> string list \<Rightarrow> string \<Rightarrow> string option \<Rightarrow>
     http_code \<times> string \<times> (nat \<times> 'e cache_op) list" where
  "dd_admin_handler = admin_handler"

definition dd_destroy_common :: "dd_common_config \<Rightarrow> string \<Rightarrow> registry \<Rightarrow> registry" where
  "dd_destroy_common cfg uuid r = unregister (final_apis_prefix cfg) uuid r"

section \<open>The filter\<close>

record ('h, 'hm, 'r) dd_env =
  dd_H :: "'h header_map_ops"
  dd_E :: "'h http_entry cache_entry_ops"
  dd_A :: "'h async_env"
  dd_match :: "'h \<Rightarrow> 'hm list \<Rightarrow> bool"
  dd_keys :: key_env
  dd_regex :: "'r \<Rightarrow> string \<Rightarrow> bool"
  dd_used :: "string list"
  dd_remote :: "httpx_config option"

datatype dd_sender = CacheSender request_sender | HttpxSender httpx_sender

record ('h, 'hm, 'r) dd_filter = remote_state +
  dd_cache_key :: cache_key
  response_to_cache :: "'h http_message option"
  should_cache_rpx :: bool
  dd_request_sender :: "dd_sender option"
  dd_router_config :: "('hm, 'r) dd_route_config option"

definition HttpDynamicDowngradeFilter :: "('h, 'hm, 'r) dd_filter" where
  "HttpDynamicDowngradeFilter =
     remote_state.extend remote_init
       \<lparr>dd_cache_key = '''', response_to_cache = None, should_cache_rpx = False, dd_request_sender = None,
        dd_router_config = None\<rparr>"

definition dd_decodeHeaders ::
    "('h, 'hm, 'r) dd_env \<Rightarrow> ('hm, 'r) dd_route_config option \<Rightarrow> 'h \<Rightarrow> ('h, 'hm, 'r) dd_filter \<Rightarrow>
     headers_status \<times> ('h, 'hm, 'r) dd_filter" where
  "dd_decodeHeaders D route headers f =
     (case route of
        None \<Rightarrow> (Continue, f\<lparr>dd_router_config := None\<rparr>)
      | Some c \<Rightarrow>
          (Continue, f\<lparr>dd_router_config := Some c, should_downgrade := dd_shouldDowngrade (dd_match D) c headers DECODE\<rparr>))"

definition dd_decodeData :: "string \<Rightarrow> ('h, 'hm, 'r) dd_filter \<Rightarrow> data_status \<times> ('h, 'hm, 'r) dd_filter" where
  "dd_decodeData data f =
     (DataContinue,
      if should_downgrade f \<and> \<not> (case dd_router_config f of None \<Rightarrow> False | Some c \<Rightarrow> downgradeWithCache c)
      then f\<lparr>buffered_rqx_body := buffered_rqx_body f @ data\<rparr> else f)"

definition dd_onSuccess ::
    "'h header_map_ops \<Rightarrow> 'h http_message \<Rightarrow> 'h \<Rightarrow> ('h, 'hm, 'r) dd_filter \<Rightarrow> callback list \<times> 'h \<times> ('h, 'hm, 'r) dd_filter" where
  "dd_onSuccess H = remote_onSuccess H ''DYNAMIC''"

definition dd_onFailure :: "('h, 'hm, 'r) dd_filter \<Rightarrow> callback list \<times> ('h, 'hm, 'r) dd_filter" where
  "dd_onFailure = remote_onFailure"

text \<open>What a sender sends: a lookup in the cache with that index, or a message to a cluster.\<close>

datatype 'h dd_sent = AskedCache nat cache_key | SentHttp string "'h http_message" u32

fun asked :: "'m sender_output list \<Rightarrow> 'h dd_sent list" where
  "asked [] = []"
| "asked (AskCache i k # os) = AskedCache i k # asked os"
| "asked (_ # os) = asked os"

fun origin_callbacks :: "'h http_message sender_output list \<Rightarrow> 'h async_callback list" where
  "origin_callbacks [] = []"
| "origin_callbacks (OriginSuccess m # os) = OnSuccess m # origin_callbacks os"
| "origin_callbacks (OriginFailure # os) = OnFailure # origin_callbacks os"
| "origin_callbacks (AskCache i k # os) = origin_callbacks os"

definition dd_key :: "('h, 'hm, 'r) dd_env \<Rightarrow> 'r specific_cache_config \<Rightarrow> 'h \<Rightarrow> cache_key" where
  "dd_key D cc rqx = cacheKey (dd_keys D) (dd_H D) (key_maker_config cc) rqx (cache_key_prefix cc)"

text \<open>
  The virtual \<^verbatim>\<open>sendRequest\<close>. For the caches the message is only the headers, of which the sender makes the key.
\<close>

definition dd_send ::
    "('h, 'hm, 'r) dd_env \<Rightarrow> 'r specific_cache_config option \<Rightarrow> 'h http_message \<Rightarrow> dd_sender \<Rightarrow>
     send_status \<times> 'h dd_sent list \<times> 'h async_callback list \<times> dd_sender" where
  "dd_send D cc message sender =
     (case sender of
        CacheSender s \<Rightarrow>
          (let (status, outs, s') =
                 sendRequest Some (dd_used D) (map_option (\<lambda>c. dd_key D c (msg_headers message)) cc) True (cc \<noteq> None) s
           in (if status = LookupOnCall then ONCALL else FAILED, asked outs, origin_callbacks outs, CacheSender s'))
      | HttpxSender s \<Rightarrow>
          (let (status, sent, cbs, s') = hx_sendRequest (dd_A D) (Some message) True s
           in (status, map (\<lambda>(cl, m, t). SentHttp cl m t) sent, cbs, HttpxSender s')))"

text \<open>\<^verbatim>\<open>insertResponse\<close> of the sender, with the lifetimes of the route configuration.\<close>

definition dd_insert ::
    "('h, 'hm, 'r) dd_env \<Rightarrow> u64 \<Rightarrow> 'r specific_cache_config \<Rightarrow> cache_key \<Rightarrow> 'h http_message \<Rightarrow> request_sender \<Rightarrow>
     (nat \<times> 'h http_entry cache_op) list" where
  "dd_insert D now cc key m s =
     fst (insertResponse (dd_H D) (dd_E D) (cacheTTL (dd_regex D) cc) (dd_used D) now key m (getter_setter.truncate s))"

definition new_sender :: "('h, 'hm, 'r) dd_env \<Rightarrow> ('hm, 'r) dd_route_config \<Rightarrow> dd_sender" where
  "new_sender D c =
     (if downgradeWithCache c then CacheSender CacheRequestSender
      else HttpxSender (HttpxRequestSender (case dd_override_remote c of Some r \<Rightarrow> Some r | None \<Rightarrow> dd_remote D)))"

definition downgrade_request ::
    "('h, 'hm, 'r) dd_env \<Rightarrow> ('hm, 'r) dd_route_config \<Rightarrow> 'h \<Rightarrow> string \<Rightarrow> 'h http_message" where
  "downgrade_request D c rqx body =
     (if downgradeWithCache c then \<lparr>msg_headers = rqx, msg_body = ''''\<rparr>
      else \<lparr>msg_headers = redirect_headers (dd_H D) (dd_downgrade_uri c) (hm_copy (dd_H D) rqx), msg_body = body\<rparr>)"

text \<open>
  The result: the status, the calls on the encoder, what is sent, the calls that store in the caches, the headers of
  the response, the filter. When \<open>should_downgrade\<close> holds, \<^verbatim>\<open>decodeHeaders\<close> has set the route configuration, and
  \<^verbatim>\<open>checkEnableCache\<close> only holds for a configuration with caches.
\<close>

definition dd_encodeHeaders ::
    "('h, 'hm, 'r) dd_env \<Rightarrow> u64 \<Rightarrow> 'h \<Rightarrow> 'h \<Rightarrow> bool \<Rightarrow> ('h, 'hm, 'r) dd_filter \<Rightarrow>
     headers_status \<times> callback list \<times> 'h dd_sent list \<times> (nat \<times> 'h http_entry cache_op) list \<times> 'h \<times> ('h, 'hm, 'r) dd_filter" where
  "dd_encodeHeaders D now rqx rpx end_stream f =
     (case (should_downgrade f, dd_router_config f) of
        (True, Some c) \<Rightarrow>
          (let f1 = f\<lparr>should_downgrade := dd_shouldDowngrade (dd_match D) c rpx ENCODE\<rparr>;
               f2 = (if \<not> should_downgrade f1 then f1\<lparr>should_cache_rpx := checkEnableCache (dd_match D) c rpx\<rparr> else f1)
           in if \<not> should_downgrade f2 \<and> \<not> should_cache_rpx f2 then (Continue, [], [], [], rpx, f2)
              else
                let f3 = f2\<lparr>headers_only_resp := end_stream, dd_request_sender := Some (new_sender D c)\<rparr>
                in if \<not> should_downgrade f3 \<and> should_cache_rpx f3
                   then
                     (let m = \<lparr>msg_headers = hm_copy (dd_H D) rpx, msg_body = ''''\<rparr>;
                          f4 = f3\<lparr>response_to_cache := Some m,
                                  dd_cache_key := (case dd_cache_config c of None \<Rightarrow> '''' | Some cc \<Rightarrow> dd_key D cc rqx)\<rparr>
                      in case (headers_only_resp f4, dd_request_sender f4, dd_cache_config c) of
                           (True, Some (CacheSender s), Some cc) \<Rightarrow>
                             (Continue, [], [], dd_insert D now cc (dd_cache_key f4) m s, rpx, f4\<lparr>response_to_cache := None\<rparr>)
                         | _ \<Rightarrow> (Continue, [], [], [], rpx, f4))
                   else
                     (let message = downgrade_request D c rqx (buffered_rqx_body f3);
                          (status, sent, cbs, sender) = dd_send D (dd_cache_config c) message (new_sender D c);
                          f4 = f3\<lparr>buffered_rqx_body := (if downgradeWithCache c then buffered_rqx_body f3 else ''''),
                                  dd_request_sender := Some sender\<rparr>;
                          (calls, rpx', f5) = remote_callbacks (dd_H D) ''DYNAMIC'' cbs rpx f4;
                          (headers_status, f6) = after_send status f5
                      in (headers_status, calls, sent, [], rpx', f6)))
      | _ \<Rightarrow> (Continue, [], [], [], rpx, f))"

text \<open>\<^verbatim>\<open>encodeData\<close>; the second result is the calls that store in the caches.\<close>

definition dd_encodeData ::
    "('h, 'hm, 'r) dd_env \<Rightarrow> u64 \<Rightarrow> string \<Rightarrow> bool \<Rightarrow> ('h, 'hm, 'r) dd_filter \<Rightarrow>
     (data_status \<times> callback list \<times> string \<times> ('h, 'hm, 'r) dd_filter) \<times> (nat \<times> 'h http_entry cache_op) list" where
  "dd_encodeData D now data end_stream f =
     (if downgrade_complete f \<or> downgrade_suspend f \<or> (\<not> should_downgrade f \<and> \<not> should_cache_rpx f)
      then ((DataContinue, [], data, f), [])
      else if \<not> should_downgrade f \<and> should_cache_rpx f
      then
        (let f1 = f\<lparr>buffered_rpx_body := buffered_rpx_body f @ data\<rparr>
         in case (end_stream, dd_request_sender f1, response_to_cache f1, dd_router_config f1) of
              (True, Some (CacheSender s), Some m, Some c) \<Rightarrow>
                (case dd_cache_config c of
                   Some cc \<Rightarrow>
                     ((DataContinue, [], data, f1\<lparr>buffered_rpx_body := '''', response_to_cache := None\<rparr>),
                      dd_insert D now cc (dd_cache_key f1) (m\<lparr>msg_body := msg_body m @ buffered_rpx_body f1\<rparr>) s)
                 | None \<Rightarrow> ((DataContinue, [], data, f1), []))
            | _ \<Rightarrow> ((DataContinue, [], data, f1), []))
      else if end_stream
      then ((DataContinue, [AddEncodedData (buffered_rpx_body f)], '''',
             f\<lparr>buffered_rpx_body := '''', downgrade_complete := True\<rparr>), [])
      else ((StopIterationNoBuffer, [], '''', f), []))"

text \<open>The sender that is cancelled when the stream ends, if a request is under way.\<close>

definition dd_onDestroy :: "('h, 'hm, 'r) dd_filter \<Rightarrow> ('h, 'hm, 'r) dd_filter" where
  "dd_onDestroy f =
     (case dd_request_sender f of
        Some sender \<Rightarrow>
          (if is_sending_request f
           then f\<lparr>dd_request_sender := Some
                    (case sender of
                       CacheSender s \<Rightarrow> CacheSender (snd (on_base (\<lambda>g. ((), cancelLookup g)) s))
                     | HttpxSender s \<Rightarrow> HttpxSender (snd (hx_cancel s)))\<rparr>
           else f)
      | None \<Rightarrow> f)"

section \<open>Replacing and storing\<close>

interpretation dd: body_replacement "\<lambda>d fin f. fst (dd_encodeData D now d fin f)" remote_passing remote_replacing
  for D :: "('h, 'hm, 'r) dd_env" and now
proof (unfold_locales, goal_cases)
  case (1 f d fin)
  then show ?case
    by (auto simp: dd_encodeData_def remote_passing_def Let_def
        split: option.splits dd_sender.splits bool.splits)
qed (auto simp: dd_encodeData_def remote_passing_def remote_replacing_def)

text \<open>A filter that stores the response \<open>m\<close>, to whose body it has added \<open>b\<close>.\<close>

definition dd_storing :: "'r specific_cache_config \<Rightarrow> cache_key \<Rightarrow> 'h http_message \<Rightarrow> string \<Rightarrow> ('h, 'hm, 'r) dd_filter \<Rightarrow> bool" where
  "dd_storing cc key m b f \<longleftrightarrow>
     \<not> downgrade_complete f \<and> \<not> downgrade_suspend f \<and> \<not> should_downgrade f \<and> should_cache_rpx f \<and>
     dd_request_sender f = Some (CacheSender CacheRequestSender) \<and> response_to_cache f = Some m \<and>
     dd_cache_key f = key \<and> buffered_rpx_body f = b \<and> map_option dd_cache_config (dd_router_config f) = Some (Some cc)"

interpretation dd_store: body_storing "dd_encodeData D now" "dd_storing cc key m"
    "\<lambda>b. dd_insert D now cc key (m\<lparr>msg_body := msg_body m @ b\<rparr>) CacheRequestSender"
  for D :: "('h, 'hm, 'r) dd_env" and now cc key m
  by unfold_locales (auto simp: dd_storing_def dd_encodeData_def Let_def)

section \<open>Runs\<close>

text \<open>The filter after the headers and the body of a request.\<close>

definition dd_request ::
    "('h, 'hm, 'r) dd_env \<Rightarrow> ('hm, 'r) dd_route_config \<Rightarrow> 'h \<Rightarrow> string list \<Rightarrow> ('h, 'hm, 'r) dd_filter" where
  "dd_request D c rqx body =
     fold (\<lambda>d f. snd (dd_decodeData d f)) body (snd (dd_decodeHeaders D (Some c) rqx HttpDynamicDowngradeFilter))"

lemma dd_fold_decodeData:
  "dd_router_config f = Some c \<Longrightarrow> fold (\<lambda>d f. snd (dd_decodeData d f)) ds f =
     (if should_downgrade f \<and> \<not> downgradeWithCache c
      then f\<lparr>buffered_rqx_body := buffered_rqx_body f @ concat ds\<rparr> else f)"
  by (induction ds arbitrary: f) (simp_all add: dd_decodeData_def)

lemma dd_request_simps:
  "should_downgrade (dd_request D c rqx body) = dd_shouldDowngrade (dd_match D) c rqx DECODE"
  "dd_router_config (dd_request D c rqx body) = Some c"
  "buffered_rpx_body (dd_request D c rqx body) = ''''"
  "\<not> should_cache_rpx (dd_request D c rqx body)"
  "\<not> downgrade_complete (dd_request D c rqx body)" "\<not> downgrade_suspend (dd_request D c rqx body)"
  "\<not> is_sending_request (dd_request D c rqx body)" "\<not> local_request_over (dd_request D c rqx body)"
  by (simp_all add: dd_request_def dd_decodeHeaders_def dd_fold_decodeData HttpDynamicDowngradeFilter_def
      remote_init_def remote_state.defs)

lemma config_with_cache:
  "DynamicDowngradeRouteConfig regex p = Inr c \<Longrightarrow> downgradeWithCache c \<Longrightarrow> \<exists>cc. dd_cache_config c = Some cc"
  by (auto simp: DynamicDowngradeRouteConfig_def Let_def split: if_splits sum.splits)

text \<open>A response that is to be stored, and nothing else.\<close>

lemma dd_encodeHeaders_store:
  assumes "dd_shouldDowngrade (dd_match D) c rqx DECODE" and "\<not> dd_shouldDowngrade (dd_match D) c rpx ENCODE"
    and "checkEnableCache (dd_match D) c rpx" and "dd_cache_config c = Some cc"
    and "dd_encodeHeaders D now rqx rpx end_stream (dd_request D c rqx body) = (status, calls, sent, ops, rpx', f)"
  shows "status = Continue \<and> calls = [] \<and> sent = [] \<and> rpx' = rpx \<and> remote_passing f \<and>
    ops = (if end_stream
           then dd_insert D now cc (dd_key D cc rqx) \<lparr>msg_headers = hm_copy (dd_H D) rpx, msg_body = ''''\<rparr> CacheRequestSender
           else []) \<and>
    (\<not> end_stream \<longrightarrow> dd_storing cc (dd_key D cc rqx) \<lparr>msg_headers = hm_copy (dd_H D) rpx, msg_body = ''''\<rparr> '''' f)"
proof -
  have "downgradeWithCache c" using assms(3) by (auto simp: checkEnableCache_def split: if_splits)
  with assms show ?thesis
    by (cases end_stream)
       (auto simp: dd_encodeHeaders_def dd_request_simps Let_def new_sender_def dd_storing_def remote_passing_def)
qed

text \<open>A response that is to be replaced from the caches waits for the first cache.\<close>

lemma dd_encodeHeaders_lookup:
  assumes "dd_shouldDowngrade (dd_match D) c rqx DECODE" and "dd_shouldDowngrade (dd_match D) c rpx ENCODE"
    and "downgradeWithCache c" and "dd_cache_config c = Some cc" and "dd_used D \<noteq> []"
    and run: "dd_encodeHeaders D now rqx rpx end_stream (dd_request D c rqx body) = (status, calls, sent, ops, rpx', f)"
  shows "status = (if end_stream then StopIteration else StopAllIterationAndBuffer) \<and> calls = [] \<and>
    sent = [AskedCache 0 (dd_key D cc rqx)] \<and> ops = [] \<and> rpx' = rpx \<and>
    remote_waiting f \<and> headers_only_resp f = end_stream \<and>
    dd_request_sender f = Some (CacheSender (waiting_sender (dd_key D cc rqx)))"
  using assms
  by (auto simp: dd_encodeHeaders_def dd_request_simps Let_def new_sender_def dd_send_def downgrade_request_def
      sendRequest_new after_send_def remote_defs)

end
