(* ===== verification/Super_Cache.thy ===== *)
theory Super_Cache
  imports Response_Stream Cache_Admin
begin

text \<open>
  The super cache filter, \<^verbatim>\<open>source/filters/http/super_cache/cache_filter.{h,cc}\<close>: a request is looked up in the
  caches of the filter before it goes upstream; the response to a miss is stored on its way back.

  \<^item> \<open>sc_env\<close> holds what the filter is given: header maps, matchers, the token search of Envoy, the functions for
    keys, the regular expressions and the names of the caches. As in the dynamic downgrade the sender dereferences
    the pointer to the caches, so the model is of a filter that has some.
  \<^item> A hit is answered by calls on the decoder callbacks, which start the encoding of a response; that encoding
    runs through \<open>sc_encodeHeaders\<close> and \<open>sc_encodeData\<close> of the same filter.
\<close>

section \<open>Configuration\<close>

record ('h, 'hm, 'r) sc_env =
  sc_H :: "'h header_map_ops"
  sc_E :: "'h http_entry cache_entry_ops"
  sc_match :: "'h \<Rightarrow> 'hm list \<Rightarrow> bool"
  caseFindToken :: "string \<Rightarrow> string \<Rightarrow> string \<Rightarrow> bool"
  sc_keys :: key_env
  sc_regex :: "'r \<Rightarrow> string \<Rightarrow> bool"
  sc_used :: "string list"

record 'hm sc_route_proto =
  scp_enable_rqx :: "'hm list"
  scp_enable_rpx :: "'hm list"
  scp_low_level_fill :: bool
  scp_cache_ttls :: "(string \<times> proto_ttl) list"
  scp_key_maker :: key_maker

record ('hm, 'r) sc_route_config =
  enable_rqx :: "'hm list"
  enable_rpx :: "'hm list"
  sc_cache_config :: "'r specific_cache_config"
  low_level_fill :: bool

definition RouteCacheConfig :: "(string \<Rightarrow> 'r throws) \<Rightarrow> 'hm sc_route_proto \<Rightarrow> ('hm, 'r) sc_route_config throws" where
  "RouteCacheConfig regex p =
     (case SpecificCacheConfig regex (scp_key_maker p) (scp_cache_ttls p) default_prefix of
        Inl err \<Rightarrow> Inl err
      | Inr cc \<Rightarrow> Inr \<lparr>enable_rqx = scp_enable_rqx p, enable_rpx = scp_enable_rpx p, sc_cache_config = cc,
                       low_level_fill = scp_low_level_fill p\<rparr>)"

datatype check_type = RQ | RP

definition checkEnable :: "('h \<Rightarrow> 'hm list \<Rightarrow> bool) \<Rightarrow> ('hm, 'r) sc_route_config \<Rightarrow> 'h \<Rightarrow> check_type \<Rightarrow> bool" where
  "checkEnable match_headers c headers type =
     (let enable = (if type = RQ then enable_rqx c else enable_rpx c)
      in if length enable = 0 then True else match_headers headers enable)"

text \<open>The common configuration: the names of the caches, if any, and the path of the administration handler.\<close>

definition CommonCacheConfig ::
    "proto_cache list \<Rightarrow> string \<Rightarrow> string \<Rightarrow> registry \<Rightarrow> (string list option \<times> string \<times> registry) throws" where
  "CommonCacheConfig caches apis_prefix uuid r =
     (case (if caches = [] then Inr None
            else case CacheGetterSetterConfig caches of
                   Inl err \<Rightarrow> Inl err
                 | Inr cs \<Rightarrow> Inr (Some (map fst (cs :: (string \<times> unit created_cache) list)))) of
        Inl err \<Rightarrow> Inl err
      | Inr used \<Rightarrow> Inr (used, register ''/httpfilter/super_cache/'' apis_prefix (used \<noteq> None) uuid r))"

definition destroy_CommonCacheConfig :: "string \<Rightarrow> string \<Rightarrow> registry \<Rightarrow> registry" where
  "destroy_CommonCacheConfig final_apis_prefix uuid r = unregister final_apis_prefix uuid r"

section \<open>The filter\<close>

definition isCacheableRequest :: "'h header_map_ops \<Rightarrow> 'h \<Rightarrow> bool" where
  "isCacheableRequest H headers \<longleftrightarrow>
     (case hm_get H '':method'' headers of
        [] \<Rightarrow> False
      | m # ms \<Rightarrow> hm_get H '':path'' headers \<noteq> [] \<and> hm_get H '':authority'' headers \<noteq> [] \<and>
          (snd m = ''GET'' \<or> snd m = ''HEAD''))"

definition isCacheableResponse :: "('h, 'hm, 'r) sc_env \<Rightarrow> 'h \<Rightarrow> bool" where
  "isCacheableResponse S headers =
     (case hm_get (sc_H S) ''cache-control'' headers of
        [] \<Rightarrow> True
      | e # es \<Rightarrow> \<not> caseFindToken S (snd e) '','' ''private'')"

record ('h, 'hm, 'r) sc_filter =
  sc_response_to_cache :: "'h http_message option"
  cache_suspend :: bool
  enable_caches :: bool
  hit_in_caches :: bool
  sc_route_config_ptr :: "('hm, 'r) sc_route_config option"
  sc_request_sender :: "request_sender option"
  stats_hit :: nat
  stats_miss :: nat

definition HttpCacheFilter :: "('h, 'hm, 'r) sc_filter" where
  "HttpCacheFilter =
     \<lparr>sc_response_to_cache = None, cache_suspend = False, enable_caches = False, hit_in_caches = False,
      sc_route_config_ptr = None, sc_request_sender = None, stats_hit = 0, stats_miss = 0\<rparr>"

text \<open>The calls on the decoder callbacks.\<close>

datatype 'h sc_output = EncodeHeaders 'h bool | EncodeData string bool | ScContinueDecoding

definition sc_onSuccess ::
    "('h, 'hm, 'r) sc_env \<Rightarrow> 'h http_message \<Rightarrow> ('h, 'hm, 'r) sc_filter \<Rightarrow> 'h sc_output list \<times> ('h, 'hm, 'r) sc_filter" where
  "sc_onSuccess S response f =
     (let H = sc_H S;
          hit_name = (case sc_request_sender f of None \<Rightarrow> '''' | Some s \<Rightarrow> requestHitInCache (sc_used S) (getter_setter.truncate s));
          h = hm_addCopy H ''x-cache-hit'' hit_name
                (hm_addCopy H ''x-cache-status'' ''HIT'' (hm_copy H (msg_headers response)));
          end_stream = (length (msg_body response) = 0)
      in (EncodeHeaders h end_stream # (if end_stream then [] else [EncodeData (msg_body response) True]),
          f\<lparr>hit_in_caches := True, stats_hit := stats_hit f + 1\<rparr>))"

definition sc_onFailure :: "('h, 'hm, 'r) sc_filter \<Rightarrow> 'h sc_output list \<times> ('h, 'hm, 'r) sc_filter" where
  "sc_onFailure f = ([ScContinueDecoding], f)"

text \<open>The callbacks that the sender calls, in order, and the lookups it makes.\<close>

fun sc_callbacks ::
    "('h, 'hm, 'r) sc_env \<Rightarrow> 'h http_message sender_output list \<Rightarrow> ('h, 'hm, 'r) sc_filter \<Rightarrow>
     (nat \<times> cache_key) list \<times> 'h sc_output list \<times> ('h, 'hm, 'r) sc_filter" where
  "sc_callbacks S [] f = ([], [], f)"
| "sc_callbacks S (AskCache i k # os) f = (let (as, outs, f') = sc_callbacks S os f in ((i, k) # as, outs, f'))"
| "sc_callbacks S (OriginSuccess m # os) f =
     (let (o1, f1) = sc_onSuccess S m f; (as, outs, f') = sc_callbacks S os f1 in (as, o1 @ outs, f'))"
| "sc_callbacks S (OriginFailure # os) f =
     (let (o1, f1) = sc_onFailure f; (as, outs, f') = sc_callbacks S os f1 in (as, o1 @ outs, f'))"

text \<open>\<open>route\<close> is the route, if there is one, with the most specific configuration on it, if any.\<close>

definition sc_decodeHeaders ::
    "('h, 'hm, 'r) sc_env \<Rightarrow> ('hm, 'r) sc_route_config option option \<Rightarrow> 'h \<Rightarrow> bool \<Rightarrow> ('h, 'hm, 'r) sc_filter \<Rightarrow>
     headers_status \<times> (nat \<times> cache_key) list \<times> 'h sc_output list \<times> ('h, 'hm, 'r) sc_filter" where
  "sc_decodeHeaders S route headers end_stream f =
     (if \<not> isCacheableRequest (sc_H S) headers then (Continue, [], [], f)
      else case route of
             None \<Rightarrow> (Continue, [], [], f)
           | Some None \<Rightarrow> (Continue, [], [], f\<lparr>sc_route_config_ptr := None\<rparr>)
           | Some (Some c) \<Rightarrow>
               (let f0 = f\<lparr>sc_route_config_ptr := Some c\<rparr>
                in if \<not> checkEnable (sc_match S) c headers RQ then (Continue, [], [], f0)
                   else
                     let cc = sc_cache_config c;
                         key = cacheKey (sc_keys S) (sc_H S) (key_maker_config cc) headers (cache_key_prefix cc);
                         (status, outs, s) = sendRequest Some (sc_used S) (Some key) True True CacheRequestSender;
                         (as, calls, f1) =
                           sc_callbacks S outs (f0\<lparr>enable_caches := True, sc_request_sender := Some s\<rparr>)
                     in if status = LookupOnCall
                        then (if end_stream then StopIteration else StopAllIterationAndWatermark, as, calls, f1)
                        else (Continue, as, calls, f1\<lparr>cache_suspend := True\<rparr>)))"

text \<open>The answer of a cache: the sender handles it and calls the filter back.\<close>

definition sc_reply ::
    "('h, 'hm, 'r) sc_env \<Rightarrow> 'h http_entry option \<Rightarrow> ('h, 'hm, 'r) sc_filter \<Rightarrow>
     (nat \<times> cache_key) list \<times> 'h sc_output list \<times> ('h, 'hm, 'r) sc_filter" where
  "sc_reply S entry f =
     (case sc_request_sender f of
        None \<Rightarrow> ([], [], f)
      | Some s \<Rightarrow>
          (let (outs, s') = sender_reply Some (sc_used S) entry s
           in sc_callbacks S outs (f\<lparr>sc_request_sender := Some s'\<rparr>)))"

text \<open>\<^verbatim>\<open>insertResponse\<close> with the empty key: the sender keeps the key of the request.\<close>

definition sc_insert ::
    "('h, 'hm, 'r) sc_env \<Rightarrow> u64 \<Rightarrow> 'h http_message \<Rightarrow> ('h, 'hm, 'r) sc_filter \<Rightarrow> (nat \<times> 'h http_entry cache_op) list" where
  "sc_insert S now m f =
     (case (sc_request_sender f, sc_route_config_ptr f) of
        (Some s, Some c) \<Rightarrow>
          fst (insertResponse (sc_H S) (sc_E S) (cacheTTL (sc_regex S) (sc_cache_config c)) (sc_used S) now '''' m
                 (getter_setter.truncate s))
      | _ \<Rightarrow> [])"

definition sc_encodeHeaders ::
    "('h, 'hm, 'r) sc_env \<Rightarrow> u64 \<Rightarrow> 'h \<Rightarrow> bool \<Rightarrow> ('h, 'hm, 'r) sc_filter \<Rightarrow>
     headers_status \<times> (nat \<times> 'h http_entry cache_op) list \<times> 'h \<times> ('h, 'hm, 'r) sc_filter" where
  "sc_encodeHeaders S now headers end_stream f =
     (case (enable_caches f, sc_route_config_ptr f, sc_request_sender f) of
        (True, Some c, Some s) \<Rightarrow>
          (if \<not> isCacheableResponse S headers \<or> \<not> checkEnable (sc_match S) c headers RP
           then (Continue, [], headers, f\<lparr>enable_caches := False\<rparr>)
           else
             let H = sc_H S;
                 fill = (low_level_fill c \<or> \<not> hit_in_caches f);
                 m = \<lparr>msg_headers = hm_remove H ''x-envoy-upstream-service-time'' (hm_copy H headers), msg_body = ''''\<rparr>;
                 ops = (if fill \<and> end_stream then sc_insert S now m f else []);
                 f1 = (if fill then f\<lparr>sc_response_to_cache := (if end_stream then None else Some m)\<rparr> else f);
                 h1 = hm_addCopy H ''x-cache-key'' (gs_cache_key s) headers
             in if \<not> hit_in_caches f1
                then (Continue, ops, hm_addCopy H ''x-cache-status'' ''MISS'' h1, f1\<lparr>stats_miss := stats_miss f1 + 1\<rparr>)
                else (Continue, ops, h1, f1))
      | _ \<Rightarrow> (Continue, [], headers, f\<lparr>enable_caches := False\<rparr>))"

text \<open>\<^verbatim>\<open>encodeData\<close> with the calls on the caches; the data always passes.\<close>

definition sc_encodeData ::
    "('h, 'hm, 'r) sc_env \<Rightarrow> u64 \<Rightarrow> string \<Rightarrow> bool \<Rightarrow> ('h, 'hm, 'r) sc_filter \<Rightarrow>
     (data_status \<times> callback list \<times> string \<times> ('h, 'hm, 'r) sc_filter) \<times> (nat \<times> 'h http_entry cache_op) list" where
  "sc_encodeData S now data end_stream f =
     (case (enable_caches f, sc_response_to_cache f) of
        (True, Some m) \<Rightarrow>
          (let m1 = m\<lparr>msg_body := msg_body m @ data\<rparr>
           in if end_stream
              then ((DataContinue, [], data, f\<lparr>sc_response_to_cache := None\<rparr>), sc_insert S now m1 f)
              else ((DataContinue, [], data, f\<lparr>sc_response_to_cache := Some m1\<rparr>), []))
      | _ \<Rightarrow> ((DataContinue, [], data, f), []))"

definition sc_onDestroy :: "('h, 'hm, 'r) sc_filter \<Rightarrow> ('h, 'hm, 'r) sc_filter" where
  "sc_onDestroy f =
     (case sc_request_sender f of
        None \<Rightarrow> f
      | Some s \<Rightarrow> f\<lparr>sc_request_sender := Some (snd (on_base (\<lambda>g. ((), cancelLookup g)) s))\<rparr>)"

section \<open>Passing and storing\<close>

interpretation sc: body_replacement "\<lambda>d fin f. fst (sc_encodeData S now d fin f)" "\<lambda>f. True" "\<lambda>b f. False"
  for S :: "('h, 'hm, 'r) sc_env" and now
  by unfold_locales (auto simp: sc_encodeData_def Let_def split: bool.splits option.splits)

text \<open>A filter that stores the response \<open>m\<close>, to whose body it has added \<open>b\<close>.\<close>

definition sc_storing ::
    "('hm, 'r) sc_route_config \<Rightarrow> request_sender \<Rightarrow> 'h http_message \<Rightarrow> string \<Rightarrow> ('h, 'hm, 'r) sc_filter \<Rightarrow> bool" where
  "sc_storing c s m b f \<longleftrightarrow>
     enable_caches f \<and> sc_route_config_ptr f = Some c \<and> sc_request_sender f = Some s \<and>
     sc_response_to_cache f = Some (m\<lparr>msg_body := msg_body m @ b\<rparr>)"

definition sc_stored ::
    "('h, 'hm, 'r) sc_env \<Rightarrow> u64 \<Rightarrow> ('hm, 'r) sc_route_config \<Rightarrow> request_sender \<Rightarrow> 'h http_message \<Rightarrow>
     (nat \<times> 'h http_entry cache_op) list" where
  "sc_stored S now c s m =
     fst (insertResponse (sc_H S) (sc_E S) (cacheTTL (sc_regex S) (sc_cache_config c)) (sc_used S) now '''' m
            (getter_setter.truncate s))"

interpretation sc_store: body_storing "sc_encodeData S now" "sc_storing c s m"
    "\<lambda>b. sc_stored S now c s (m\<lparr>msg_body := msg_body m @ b\<rparr>)"
  for S :: "('h, 'hm, 'r) sc_env" and now c s m
  by unfold_locales (auto simp: sc_storing_def sc_encodeData_def sc_insert_def sc_stored_def Let_def)

section \<open>Misses and hits\<close>

text \<open>\<open>n\<close> caches answer one after the other that they do not have the entry.\<close>

fun sc_misses ::
    "('h, 'hm, 'r) sc_env \<Rightarrow> nat \<Rightarrow> ('h, 'hm, 'r) sc_filter \<Rightarrow>
     (nat \<times> cache_key) list \<times> 'h sc_output list \<times> ('h, 'hm, 'r) sc_filter" where
  "sc_misses S 0 f = ([], [], f)"
| "sc_misses S (Suc n) f =
     (let (as, outs, f1) = sc_reply S None f; (as', outs', f2) = sc_misses S n f1 in (as @ as', outs @ outs', f2))"

text \<open>A sender that waits for the cache with index \<open>j\<close>.\<close>

definition sender_at :: "cache_key \<Rightarrow> nat \<Rightarrow> request_sender" where
  "sender_at key j = (waiting_sender key)\<lparr>current_cache := of_nat j\<rparr>"

lemma sender_at_0: "waiting_sender key = sender_at key 0"
  by (simp add: sender_at_def waiting_sender_def CacheRequestSender_def CacheGetterSetter_def getter_setter.defs)

lemma sender_reply_miss:
  assumes "Suc j < 2 ^ 32"
  shows "sender_reply Some used None (sender_at key j) =
    (if Suc j < length used then ([AskCache (Suc j) key], sender_at key (Suc j))
     else ([OriginFailure], (sender_at key (Suc j))\<lparr>lookup_cache_stop := True, gs_callback := False, origin_callback := False\<rparr>))"
proof -
  have "unat (of_nat (Suc j) :: u32) = Suc j"
    using assms by (simp only: unat_of_nat) simp
  then have "unat (1 + of_nat j :: u32) = Suc j" by simp
  then show ?thesis
    by (simp add: sender_reply_def on_base_def cache_lookup_callback_def lookupCacheOnce_def sender_at_def waiting_sender_def
        CacheRequestSender_def CacheGetterSetter_def getter_setter.defs Let_def add.commute)
qed

text \<open>A filter whose request missed in every cache.\<close>

definition sc_missed :: "('hm, 'r) sc_route_config \<Rightarrow> cache_key \<Rightarrow> ('h, 'hm, 'r) sc_filter \<Rightarrow> bool" where
  "sc_missed c key f \<longleftrightarrow>
     enable_caches f \<and> \<not> hit_in_caches f \<and> sc_route_config_ptr f = Some c \<and>
     (\<exists>s. sc_request_sender f = Some s \<and> has_cache_key s \<and> gs_cache_key s = key \<and> hit_in_cache s = -1)"

lemma sc_misses_all:
  assumes "n + j = length (sc_used S)" and "0 < n" and "length (sc_used S) < 2 ^ 32"
    and "enable_caches f" and "\<not> hit_in_caches f" and "sc_route_config_ptr f = Some c"
    and "sc_request_sender f = Some (sender_at key j)"
  shows "\<exists>as f'. sc_misses S n f = (as, [ScContinueDecoding], f') \<and> sc_missed c key f'"
  using assms
proof (induction n arbitrary: j f)
  case (Suc n)
  show ?case
  proof (cases "n = 0")
    case True
    have "has_cache_key (sender_at key (Suc j))" "gs_cache_key (sender_at key (Suc j)) = key"
      "hit_in_cache (sender_at key (Suc j)) = -1"
      by (simp_all add: sender_at_def waiting_sender_def CacheRequestSender_def CacheGetterSetter_def getter_setter.defs)
    with True Suc.prems show ?thesis by (simp add: sc_reply_def sender_reply_miss sc_onFailure_def sc_missed_def)
  next
    case False
    with Suc.prems have
      "sc_reply S None f = ([(Suc j, key)], [], f\<lparr>sc_request_sender := Some (sender_at key (Suc j))\<rparr>)"
      by (simp add: sc_reply_def sender_reply_miss)
    with False Suc.prems Suc.IH [of "Suc j" "f\<lparr>sc_request_sender := Some (sender_at key (Suc j))\<rparr>"]
    show ?thesis by auto
  qed
qed simp

definition sc_key :: "('h, 'hm, 'r) sc_env \<Rightarrow> ('hm, 'r) sc_route_config \<Rightarrow> 'h \<Rightarrow> cache_key" where
  "sc_key S c headers =
     cacheKey (sc_keys S) (sc_H S) (key_maker_config (sc_cache_config c)) headers (cache_key_prefix (sc_cache_config c))"

lemma sc_decodeHeaders_asks:
  assumes "isCacheableRequest (sc_H S) headers" and "checkEnable (sc_match S) c headers RQ" and "sc_used S \<noteq> []"
    and "sc_decodeHeaders S (Some (Some c)) headers end_stream HttpCacheFilter = (status, as, outs, f)"
  shows "status = (if end_stream then StopIteration else StopAllIterationAndWatermark) \<and>
    as = [(0, sc_key S c headers)] \<and> outs = [] \<and>
    f = HttpCacheFilter\<lparr>sc_route_config_ptr := Some c, enable_caches := True,
          sc_request_sender := Some (waiting_sender (sc_key S c headers))\<rparr>"
  using assms by (simp add: sc_decodeHeaders_def sc_key_def [symmetric] sendRequest_new Let_def split: if_splits)

text \<open>The response to a request that missed is stored without the time Envoy measured.\<close>

definition sc_message :: "('h, 'hm, 'r) sc_env \<Rightarrow> 'h \<Rightarrow> string \<Rightarrow> 'h http_message" where
  "sc_message S headers body =
     \<lparr>msg_headers = hm_remove (sc_H S) ''x-envoy-upstream-service-time'' (hm_copy (sc_H S) headers), msg_body = body\<rparr>"

lemma sc_encodeHeaders_missed:
  assumes "sc_missed c key f" and "isCacheableResponse S headers" and "checkEnable (sc_match S) c headers RP"
    and "sc_encodeHeaders S now headers False f = (status, ops, h, f')"
  shows "status = Continue \<and> ops = [] \<and>
    h = hm_addCopy (sc_H S) ''x-cache-status'' ''MISS'' (hm_addCopy (sc_H S) ''x-cache-key'' key headers) \<and>
    (\<exists>s. sc_storing c s (sc_message S headers '''') '''' f' \<and>
       has_cache_key s \<and> gs_cache_key s = key \<and> hit_in_cache s = -1)"
  using assms by (auto simp: sc_missed_def sc_encodeHeaders_def sc_storing_def sc_message_def Let_def)

text \<open>A hit in the first cache.\<close>

definition hit_sender :: "cache_key \<Rightarrow> request_sender" where
  "hit_sender key = (waiting_sender key)\<lparr>lookup_cache_over := True, hit_in_cache := 0, gs_callback := False\<rparr>"

lemma sc_reply_hit:
  assumes "sc_request_sender f = Some (waiting_sender key)" and "cache_message r = Some m"
    and "sc_used S = name # names"
  shows "sc_reply S (Some r) f =
    (let h = hm_addCopy (sc_H S) ''x-cache-hit'' name
               (hm_addCopy (sc_H S) ''x-cache-status'' ''HIT'' (hm_copy (sc_H S) (msg_headers m)))
     in ([], EncodeHeaders h (msg_body m = '''') # (if msg_body m = '''' then [] else [EncodeData (msg_body m) True]),
         f\<lparr>sc_request_sender := Some (hit_sender key), hit_in_caches := True, stats_hit := stats_hit f + 1\<rparr>))"
  using assms
  by (simp add: sc_reply_def sender_reply_def on_base_def cache_lookup_callback_def waiting_sender_def CacheRequestSender_def
      CacheGetterSetter_def getter_setter.defs sc_onSuccess_def requestHitInCache_def hit_sender_def Let_def)

text \<open>A response from the first cache is not stored again.\<close>

lemma insertResponse_first_hit: "hit_in_cache g = 0 \<Longrightarrow> fst (insertResponse H E ttl used now key m g) = []"
  by (simp add: insertResponse_def insertCache_def setCacheKey_def Let_def)

lemma sc_insert_first_hit:
  "(\<And>s. sc_request_sender f = Some s \<Longrightarrow> hit_in_cache s = 0) \<Longrightarrow> sc_insert S now m f = []"
  by (auto simp: sc_insert_def getter_setter.defs insertResponse_first_hit split: option.splits)

lemma sc_encodeData_first_hit:
  assumes "\<And>s. sc_request_sender f = Some s \<Longrightarrow> hit_in_cache s = 0"
  shows "\<exists>f'. sc_encodeData S now d fin f = ((DataContinue, [], d, f'), []) \<and> sc_request_sender f' = sc_request_sender f"
  using sc_insert_first_hit [OF assms]
  by (auto simp: sc_encodeData_def Let_def split: option.splits bool.splits)

lemma not_stored_again:
  assumes "\<And>s. sc_request_sender f = Some s \<Longrightarrow> hit_in_cache s = 0"
    and "sc_encodeHeaders S now h fin f = (status, ops, h', f')"
  shows "ops = [] \<and> encode_ops (sc_encodeData S now) trailers chunks f' = []"
proof -
  have "encode_ops (sc_encodeData S now) trailers chunks f = []"
    if "\<And>s. sc_request_sender f = Some s \<Longrightarrow> hit_in_cache s = 0" for f
    using that
  proof (induction chunks arbitrary: f)
    case (Cons d ds)
    obtain f' where "sc_encodeData S now d (ds = [] \<and> \<not> trailers) f = ((DataContinue, [], d, f'), [])"
      "sc_request_sender f' = sc_request_sender f" using sc_encodeData_first_hit [OF Cons.prems] by blast
    with Cons.IH [of f'] Cons.prems show ?case by simp
  qed simp
  moreover have "sc_request_sender f' = sc_request_sender f" and "ops = []"
    using assms(2) sc_insert_first_hit [of f S now, OF assms(1)]
    by (auto simp: sc_encodeHeaders_def Let_def split: bool.splits option.splits if_splits)
  ultimately show ?thesis using assms(1) by metis
qed

end
