(* ===== verification/Header_Rewrite.thy ===== *)
theory Header_Rewrite
  imports Proxy_Matcher Http_Base
begin

text \<open>
  The header rewrite filter, \<^verbatim>\<open>source/filters/http/header_rewrite/header_rewrite.{h,cc}\<close>: extractors read values of a
  request or response into a context, rewriters change headers, path and query parameters with templates over that
  context.

  \<^item> RE2, the template engine inja, the environment and Envoy's functions on paths are the parameter \<open>rewrite_env\<close>.
    Compiling a regular expression, parsing a template and rendering one may fail; the text of the failure is the
    message of the exception.
  \<^item> An exception that is raised while a rewriter runs is caught, so \<open>run_rewriter\<close> returns the state at that moment
    together with the exception.
  \<^item> \<open>rw_decodeHeaders\<close> gives \<open>None\<close> where the code dereferences the null pointer of a missing \<^verbatim>\<open>:path\<close>.
\<close>

section \<open>Configuration\<close>

datatype extractor_source = HeaderSource string | ParameterSource string | PathSource | EnvironmentSource string | SOURCE_NOT_SET

record extractor_proto =
  ex_source :: extractor_source
  ex_regex :: string
  ex_group :: u32

datatype rewriter_target = HeaderTarget string | PathTarget | ParameterTarget string | TARGET_NOT_SET

datatype rewriter_operation = UpdateOp string | AppendOp string | RemoveOp | OPERATION_NOT_SET

record ('hm, 'qm, 'sm) rewriter_proto =
  rwp_target :: rewriter_target
  rwp_operation :: rewriter_operation
  rwp_matcher :: "('hm, 'qm, 'sm) common_matcher_proto option"

record ('hm, 'qm, 'sm) extractor_rewriter_proto =
  erp_extractors :: "(string \<times> extractor_proto) list"
  erp_rewriters :: "('hm, 'qm, 'sm) rewriter_proto list"

record ('hm, 'qm, 'sm) header_rewrite_proto =
  decoder_rewriters :: "('hm, 'qm, 'sm) extractor_rewriter_proto"
  encoder_rewriters :: "('hm, 'qm, 'sm) extractor_rewriter_proto"
  hrw_clear_route_cache :: bool

type_synonym context_dict = "(string \<times> string) list"
type_synonym query_params = "(string \<times> string) list"

record ('h, 'hm, 'qm, 'sm, 're, 't) rewrite_env =
  rw_H :: "'h header_map_ops"
  rw_matchers :: "('h, 'hm, 'qm, 'sm) matcher_env"
  re2_compile :: "string \<Rightarrow> 're throws"
  NumberOfCapturingGroups :: "'re \<Rightarrow> nat"
  FullMatchN :: "'re \<Rightarrow> string \<Rightarrow> nat \<Rightarrow> string option"
  template_parse :: "string \<Rightarrow> 't throws"
  template_render :: "'t \<Rightarrow> context_dict \<Rightarrow> string throws"
  environment :: "string \<Rightarrow> string option"
  rw_removeQueryAndFragment :: "string \<Rightarrow> string"
  rw_parseQueryString :: "string \<Rightarrow> query_params"
  queryParamsToString :: "query_params \<Rightarrow> string"

text \<open>An extractor: the function as its source, with the value that the environment had, and the group to match.\<close>

datatype extractor_func = ExHeader string | ExParameter string | ExPath | ExValue string

record 're extractor =
  extractor_func :: extractor_func
  group_of :: nat
  regex_of :: "'re option"

definition compile_group ::
    "('h, 'hm, 'qm, 'sm, 're, 't) rewrite_env \<Rightarrow> string \<Rightarrow> u32 \<Rightarrow> (nat \<times> 're option) throws" where
  "compile_group R regex grp =
     (if regex \<noteq> '''' \<and> grp \<noteq> 0 then
        (case re2_compile R regex of
           Inl err \<Rightarrow> Inl err
         | Inr re \<Rightarrow>
             (if NumberOfCapturingGroups R re < unat grp
              then Inl (''Group is '' @ decimal_nat (unat grp) @ '' but pattern only has '' @
                        decimal_nat (NumberOfCapturingGroups R re))
              else Inr (unat grp, Some re)))
      else Inr (0, None))"

definition Extractor ::
    "('h, 'hm, 'qm, 'sm, 're, 't) rewrite_env \<Rightarrow> extractor_proto \<Rightarrow> 're extractor throws" where
  "Extractor R p =
     (case compile_group R (ex_regex p) (ex_group p) of
        Inl err \<Rightarrow> Inl err
      | Inr (grp, regex) \<Rightarrow>
          (let mk = (\<lambda>f. Inr \<lparr>extractor_func = f, group_of = grp, regex_of = regex\<rparr>)
           in case ex_source p of
                HeaderSource name \<Rightarrow> mk (ExHeader (lower name))
              | ParameterSource name \<Rightarrow> mk (ExParameter name)
              | PathSource \<Rightarrow> mk ExPath
              | EnvironmentSource name \<Rightarrow> mk (ExValue (case environment R name of None \<Rightarrow> '''' | Some v \<Rightarrow> v))
              | SOURCE_NOT_SET \<Rightarrow> Inl ''Unknown source type for header rewrite extractor''))"

definition extract_value ::
    "('h, 'hm, 'qm, 'sm, 're, 't) rewrite_env \<Rightarrow> 're extractor \<Rightarrow> 'h \<Rightarrow> string \<Rightarrow> query_params \<Rightarrow> string" where
  "extract_value R e headers path params =
     (let value =
            (case extractor_func e of
               ExHeader name \<Rightarrow> (case hm_get (rw_H R) name headers of [] \<Rightarrow> '''' | v # vs \<Rightarrow> snd v)
             | ExParameter name \<Rightarrow> (case map_of params name of None \<Rightarrow> '''' | Some v \<Rightarrow> v)
             | ExPath \<Rightarrow> path
             | ExValue v \<Rightarrow> v)
      in case regex_of e of
           None \<Rightarrow> value
         | Some re \<Rightarrow>
             (if value = '''' \<or> group_of e = 0 then value
              else case FullMatchN R re value (group_of e) of None \<Rightarrow> '''' | Some v \<Rightarrow> v))"

section \<open>Rewriters\<close>

text \<open>The function of a rewriter; removing the path is no function at all.\<close>

datatype rewriter_func =
    RemoveHeader string | RemoveParameter string | NoFunction
  | AppendHeader string | AppendPath | AppendParameter string
  | UpdateHeader string | UpdatePath | UpdateParameter string

record ('hm, 'qm, 'sm, 't) rewriter =
  rewriter_func :: rewriter_func
  rw_template :: 't
  rw_matcher :: "('hm, 'qm, 'sm) matcher list option"

fun target_case :: "rewriter_target \<Rightarrow> nat" where
  "target_case (HeaderTarget n) = 1"
| "target_case PathTarget = 2"
| "target_case (ParameterTarget n) = 3"
| "target_case TARGET_NOT_SET = 0"

fun operation_case :: "rewriter_operation \<Rightarrow> nat" where
  "operation_case (UpdateOp s) = 4"
| "operation_case (AppendOp s) = 5"
| "operation_case RemoveOp = 6"
| "operation_case OPERATION_NOT_SET = 0"

fun rewriter_func_of :: "rewriter_operation \<Rightarrow> rewriter_target \<Rightarrow> rewriter_func throws" where
  "rewriter_func_of RemoveOp (HeaderTarget n) = Inr (RemoveHeader (lower n))"
| "rewriter_func_of RemoveOp PathTarget = Inr NoFunction"
| "rewriter_func_of RemoveOp (ParameterTarget n) = Inr (RemoveParameter n)"
| "rewriter_func_of (AppendOp s) (HeaderTarget n) = Inr (AppendHeader (lower n))"
| "rewriter_func_of (AppendOp s) PathTarget = Inr AppendPath"
| "rewriter_func_of (AppendOp s) (ParameterTarget n) = Inr (AppendParameter n)"
| "rewriter_func_of (UpdateOp s) (HeaderTarget n) = Inr (UpdateHeader (lower n))"
| "rewriter_func_of (UpdateOp s) PathTarget = Inr UpdatePath"
| "rewriter_func_of (UpdateOp s) (ParameterTarget n) = Inr (UpdateParameter n)"
| "rewriter_func_of op target =
     Inl (''Un-supported target: '' @ decimal_nat (target_case target) @ '' or operation: '' @
          decimal_nat (operation_case op) @ '' for header rewrite'')"

fun operation_template :: "rewriter_operation \<Rightarrow> string" where
  "operation_template (UpdateOp s) = s"
| "operation_template (AppendOp s) = s"
| "operation_template _ = ''''"

definition Rewriter ::
    "('h, 'hm, 'qm, 'sm, 're, 't) rewrite_env \<Rightarrow> ('hm, 'qm, 'sm) rewriter_proto \<Rightarrow> ('hm, 'qm, 'sm, 't) rewriter throws" where
  "Rewriter R p =
     (case (case rwp_matcher p of None \<Rightarrow> Inr None | Some m \<Rightarrow> map_sum id Some (CommonMatcher (rw_matchers R) m)) of
        Inl err \<Rightarrow> Inl err
      | Inr matcher \<Rightarrow>
          (case template_parse R (operation_template (rwp_operation p)) of
             Inl err \<Rightarrow> Inl err
           | Inr t \<Rightarrow>
               (case rewriter_func_of (rwp_operation p) (rwp_target p) of
                  Inl err \<Rightarrow> Inl err
                | Inr f \<Rightarrow> Inr \<lparr>rewriter_func = f, rw_template = t, rw_matcher = matcher\<rparr>)))"

definition enableRewrite ::
    "('h, 'hm, 'qm, 'sm, 're, 't) rewrite_env \<Rightarrow> ('hm, 'qm, 'sm, 't) rewriter \<Rightarrow> 'h \<Rightarrow> bool \<Rightarrow> bool" where
  "enableRewrite R w headers typed =
     (case rw_matcher w of
        None \<Rightarrow> True
      | Some ms \<Rightarrow> fst (CommonMatcher_match (rw_matchers R) ms (HttpCommonMatcherContext headers typed)))"

text \<open>The state a rewriter changes: headers, path and query parameters.\<close>

type_synonym 'h rw_state = "'h \<times> string \<times> query_params"

definition run_rewriter ::
    "('h, 'hm, 'qm, 'sm, 're, 't) rewrite_env \<Rightarrow> ('hm, 'qm, 'sm, 't) rewriter \<Rightarrow> context_dict \<Rightarrow> 'h rw_state \<Rightarrow>
     string option \<times> 'h rw_state" where
  "run_rewriter R w c s =
     (case s of (h, p, q) \<Rightarrow>
        (let H = rw_H R;
             rendered = (\<lambda>s0 k. case template_render R (rw_template w) c of Inl err \<Rightarrow> (Some err, s0) | Inr v \<Rightarrow> (None, k v))
         in case rewriter_func w of
              RemoveHeader n \<Rightarrow> (None, (hm_remove H n h, p, q))
            | RemoveParameter n \<Rightarrow> (None, (h, p, AList.delete n q))
            | NoFunction \<Rightarrow> (None, s)
            | AppendHeader n \<Rightarrow> rendered s (\<lambda>v. (hm_addCopy H n v h, p, q))
            | AppendPath \<Rightarrow> rendered s (\<lambda>v. (h, p @ v, q))
            | AppendParameter n \<Rightarrow>
                rendered s (\<lambda>v. (h, p, AList.update n ((case map_of q n of None \<Rightarrow> '''' | Some u \<Rightarrow> u) @ v) q))
            | UpdateHeader n \<Rightarrow>
                (let h1 = hm_remove H n h in rendered (h1, p, q) (\<lambda>v. (hm_addCopy H n v h1, p, q)))
            | UpdatePath \<Rightarrow> rendered s (\<lambda>v. (h, if v = '''' then p else v, q))
            | UpdateParameter n \<Rightarrow> rendered s (\<lambda>v. (h, p, AList.update n v q))))"

text \<open>The exception is logged and dropped.\<close>

definition rewrite ::
    "('h, 'hm, 'qm, 'sm, 're, 't) rewrite_env \<Rightarrow> bool \<Rightarrow> context_dict \<Rightarrow> ('hm, 'qm, 'sm, 't) rewriter \<Rightarrow> 'h rw_state \<Rightarrow>
     'h rw_state" where
  "rewrite R typed c w s =
     (if enableRewrite R w (fst s) typed \<and> rewriter_func w \<noteq> NoFunction then snd (run_rewriter R w c s) else s)"

section \<open>Lists of extractors and rewriters\<close>

record ('hm, 'qm, 'sm, 're, 't) extractor_rewriter =
  extractors :: "(string \<times> 're extractor) list"
  rewriters :: "('hm, 'qm, 'sm, 't) rewriter list"
  would_update_path :: bool

definition targets_path :: "('hm, 'qm, 'sm) rewriter_proto \<Rightarrow> bool" where
  "targets_path p \<longleftrightarrow> (case rwp_target p of ParameterTarget n \<Rightarrow> True | PathTarget \<Rightarrow> True | _ \<Rightarrow> False)"

definition ExtractorRewriterConfig ::
    "('h, 'hm, 'qm, 'sm, 're, 't) rewrite_env \<Rightarrow> ('hm, 'qm, 'sm) extractor_rewriter_proto \<Rightarrow>
     ('hm, 'qm, 'sm, 're, 't) extractor_rewriter throws" where
  "ExtractorRewriterConfig R p =
     (case construct_all (\<lambda>(n, e). case Extractor R e of Inl err \<Rightarrow> Inl err | Inr x \<Rightarrow> Inr (n, x)) (erp_extractors p) of
        Inl err \<Rightarrow> Inl err
      | Inr es \<Rightarrow>
          (case construct_all (Rewriter R) (erp_rewriters p) of
             Inl err \<Rightarrow> Inl err
           | Inr ws \<Rightarrow>
               Inr \<lparr>extractors = es, rewriters = ws, would_update_path = (\<exists>w\<in>set (erp_rewriters p). targets_path w)\<rparr>))"

definition extractContext ::
    "('h, 'hm, 'qm, 'sm, 're, 't) rewrite_env \<Rightarrow> ('hm, 'qm, 'sm, 're, 't) extractor_rewriter \<Rightarrow> 'h rw_state \<Rightarrow>
     context_dict \<Rightarrow> context_dict" where
  "extractContext R cfg s c =
     (case s of (h, p, q) \<Rightarrow> fold (\<lambda>(n, e) c. AList.update n (extract_value R e h p q) c) (extractors cfg) c)"

definition rewriteHeaders ::
    "('h, 'hm, 'qm, 'sm, 're, 't) rewrite_env \<Rightarrow> bool \<Rightarrow> ('hm, 'qm, 'sm, 're, 't) extractor_rewriter \<Rightarrow> context_dict \<Rightarrow>
     'h rw_state \<Rightarrow> 'h rw_state" where
  "rewriteHeaders R typed cfg c s = fold (rewrite R typed c) (rewriters cfg) s"

record ('hm, 'qm, 'sm, 're, 't) header_rewrite_config =
  decoder_config :: "('hm, 'qm, 'sm, 're, 't) extractor_rewriter"
  encoder_config :: "('hm, 'qm, 'sm, 're, 't) extractor_rewriter"
  clear_route_cache :: bool

definition HeaderRewriteConfig ::
    "('h, 'hm, 'qm, 'sm, 're, 't) rewrite_env \<Rightarrow> ('hm, 'qm, 'sm) header_rewrite_proto \<Rightarrow>
     ('hm, 'qm, 'sm, 're, 't) header_rewrite_config throws" where
  "HeaderRewriteConfig R p =
     (case ExtractorRewriterConfig R (decoder_rewriters p) of
        Inl err \<Rightarrow> Inl err
      | Inr d \<Rightarrow>
          (case ExtractorRewriterConfig R (encoder_rewriters p) of
             Inl err \<Rightarrow> Inl err
           | Inr e \<Rightarrow>
               (if would_update_path e
                then Inl ''Illegal target: only header target can be set for encode rewrite''
                else Inr \<lparr>decoder_config = d, encoder_config = e, clear_route_cache = hrw_clear_route_cache p\<rparr>)))"

section \<open>The filter\<close>

text \<open>The most specific configuration of the route: its rewrites, and whether it disables the filter.\<close>

type_synonym ('hm, 'qm, 'sm, 're, 't) rw_route_config = "('hm, 'qm, 'sm, 're, 't) header_rewrite_config \<times> bool"

record ('hm, 'qm, 'sm, 're, 't) rw_filter =
  render_context :: context_dict
  rw_path :: string
  rw_parameter :: query_params
  rw_route_config :: "('hm, 'qm, 'sm, 're, 't) rw_route_config option"

definition rw_Filter :: "('hm, 'qm, 'sm, 're, 't) rw_filter" where
  "rw_Filter = \<lparr>render_context = [], rw_path = '''', rw_parameter = [], rw_route_config = None\<rparr>"

text \<open>One list of extractors and rewriters on the filter and the headers.\<close>

definition apply_config ::
    "('h, 'hm, 'qm, 'sm, 're, 't) rewrite_env \<Rightarrow> bool \<Rightarrow> ('hm, 'qm, 'sm, 're, 't) extractor_rewriter \<Rightarrow>
     'h \<times> ('hm, 'qm, 'sm, 're, 't) rw_filter \<Rightarrow> 'h \<times> ('hm, 'qm, 'sm, 're, 't) rw_filter" where
  "apply_config R typed cfg hf =
     (case hf of (h, f) \<Rightarrow>
        (let c = extractContext R cfg (h, rw_path f, rw_parameter f) (render_context f);
             (h', p', q') = rewriteHeaders R typed cfg c (h, rw_path f, rw_parameter f)
         in (h', f\<lparr>render_context := c, rw_path := p', rw_parameter := q'\<rparr>)))"

definition rw_decodeHeaders ::
    "('h, 'hm, 'qm, 'sm, 're, 't) rewrite_env \<Rightarrow> ('hm, 'qm, 'sm, 're, 't) header_rewrite_config \<Rightarrow>
     ('hm, 'qm, 'sm, 're, 't) rw_route_config option \<Rightarrow> 'h \<Rightarrow> ('hm, 'qm, 'sm, 're, 't) rw_filter \<Rightarrow>
     (headers_status \<times> callback list \<times> 'h \<times> ('hm, 'qm, 'sm, 're, 't) rw_filter) option" where
  "rw_decodeHeaders R common route headers f =
     (let H = rw_H R;
          path_with_query = (case hm_get H '':path'' headers of [] \<Rightarrow> '''' | v # vs \<Rightarrow> snd v);
          f0 = f\<lparr>rw_route_config := route, rw_path := rw_removeQueryAndFragment R path_with_query,
                 rw_parameter := rw_parseQueryString R path_with_query\<rparr>
      in if (case route of Some (cfg, disabled) \<Rightarrow> disabled | None \<Rightarrow> False) then Some (Continue, [], headers, f0)
         else
           let (h1, f1) = apply_config R True (decoder_config common) (headers, f0);
               (h2, f2) = (case route of None \<Rightarrow> (h1, f1) | Some (cfg, d) \<Rightarrow> apply_config R True (decoder_config cfg) (h1, f1));
               update = (would_update_path (decoder_config common) \<or>
                         (case route of None \<Rightarrow> False | Some (cfg, d) \<Rightarrow> would_update_path (decoder_config cfg)));
               clear = (clear_route_cache common \<or> (case route of None \<Rightarrow> False | Some (cfg, d) \<Rightarrow> clear_route_cache cfg));
               calls = (if clear then [ClearRouteCache] else [])
           in if update
              then (case hm_get H '':path'' h2 of
                      [] \<Rightarrow> None
                    | v # vs \<Rightarrow>
                        Some (Continue, calls,
                              hm_setCopy H '':path'' (rw_path f2 @ queryParamsToString R (rw_parameter f2)) h2, f2))
              else Some (Continue, calls, h2, f2))"

text \<open>The headers of a response are not request headers, so matchers on the path or the parameters see none.\<close>

definition rw_encodeHeaders ::
    "('h, 'hm, 'qm, 'sm, 're, 't) rewrite_env \<Rightarrow> ('hm, 'qm, 'sm, 're, 't) header_rewrite_config \<Rightarrow> 'h \<Rightarrow>
     ('hm, 'qm, 'sm, 're, 't) rw_filter \<Rightarrow> headers_status \<times> 'h \<times> ('hm, 'qm, 'sm, 're, 't) rw_filter" where
  "rw_encodeHeaders R common headers f =
     (if (case rw_route_config f of Some (cfg, disabled) \<Rightarrow> disabled | None \<Rightarrow> False) then (Continue, headers, f)
      else
        let (h1, f1) = apply_config R False (encoder_config common) (headers, f);
            (h2, f2) = (case rw_route_config f of
                          None \<Rightarrow> (h1, f1)
                        | Some (cfg, d) \<Rightarrow> apply_config R False (encoder_config cfg) (h1, f1))
        in (Continue, h2, f2))"

section \<open>Properties\<close>

text \<open>What a single extractor and a single rewriter have to be.\<close>

definition extractor_valid :: "('h, 'hm, 'qm, 'sm, 're, 't) rewrite_env \<Rightarrow> extractor_proto \<Rightarrow> bool" where
  "extractor_valid R p \<longleftrightarrow> ex_source p \<noteq> SOURCE_NOT_SET \<and>
     (ex_regex p \<noteq> '''' \<and> ex_group p \<noteq> 0 \<longrightarrow>
        (\<exists>re. re2_compile R (ex_regex p) = Inr re \<and> unat (ex_group p) \<le> NumberOfCapturingGroups R re))"

definition rewriter_valid ::
    "('h, 'hm, 'qm, 'sm, 're, 't) rewrite_env \<Rightarrow> ('hm, 'qm, 'sm) rewriter_proto \<Rightarrow> bool" where
  "rewriter_valid R p \<longleftrightarrow> rwp_target p \<noteq> TARGET_NOT_SET \<and> rwp_operation p \<noteq> OPERATION_NOT_SET \<and>
     (\<exists>t. template_parse R (operation_template (rwp_operation p)) = Inr t) \<and>
     (\<forall>m. rwp_matcher p = Some m \<longrightarrow> matcher_valid (rw_matchers R) m)"

lemma Extractor_ok: "(\<exists>e. Extractor R p = Inr e) \<longleftrightarrow> extractor_valid R p"
  by (auto simp: Extractor_def compile_group_def extractor_valid_def Let_def not_less
      split: sum.splits extractor_source.splits if_splits)

lemma rewriter_func_of_ok:
  "(\<exists>f. rewriter_func_of op target = Inr f) \<longleftrightarrow> target \<noteq> TARGET_NOT_SET \<and> op \<noteq> OPERATION_NOT_SET"
  by (cases op; cases target) auto

lemma Rewriter_Inr:
  "Rewriter R p = Inr w \<longleftrightarrow>
     (\<forall>m. rwp_matcher p = Some m \<longrightarrow> matcher_valid (rw_matchers R) m) \<and>
     template_parse R (operation_template (rwp_operation p)) = Inr (rw_template w) \<and>
     rewriter_func_of (rwp_operation p) (rwp_target p) = Inr (rewriter_func w) \<and>
     w = \<lparr>rewriter_func = rewriter_func w, rw_template = rw_template w, rw_matcher = map_option matchers_of (rwp_matcher p)\<rparr>"
proof -
  let ?made = "case rwp_matcher p of None \<Rightarrow> Inr None | Some m \<Rightarrow> map_sum id Some (CommonMatcher (rw_matchers R) m)"
  have made: "?made = Inr x \<longleftrightarrow>
      (\<forall>m. rwp_matcher p = Some m \<longrightarrow> matcher_valid (rw_matchers R) m) \<and> x = map_option matchers_of (rwp_matcher p)" for x
    by (cases "rwp_matcher p") (auto simp: map_sum_Inr CommonMatcher_Inr)
  show ?thesis
  proof (cases ?made)
    case (Inl err)
    then show ?thesis using made by (auto simp: Rewriter_def)
  next
    case (Inr x)
    then show ?thesis using made [of x] by (cases w) (auto simp: Rewriter_def split: sum.splits)
  qed
qed

lemma Rewriter_ok: "(\<exists>w. Rewriter R p = Inr w) \<longleftrightarrow> rewriter_valid R p"
proof
  assume "\<exists>w. Rewriter R p = Inr w"
  then show "rewriter_valid R p"
    using rewriter_func_of_ok [of "rwp_operation p" "rwp_target p"] by (auto simp: Rewriter_Inr rewriter_valid_def)
next
  assume "rewriter_valid R p"
  then obtain t f where "template_parse R (operation_template (rwp_operation p)) = Inr t"
    "rewriter_func_of (rwp_operation p) (rwp_target p) = Inr f"
    "\<forall>m. rwp_matcher p = Some m \<longrightarrow> matcher_valid (rw_matchers R) m"
    using rewriter_func_of_ok [of "rwp_operation p" "rwp_target p"] by (auto simp: rewriter_valid_def)
  then have "Rewriter R p =
      Inr \<lparr>rewriter_func = f, rw_template = t, rw_matcher = map_option matchers_of (rwp_matcher p)\<rparr>"
    by (simp add: Rewriter_Inr)
  then show "\<exists>w. Rewriter R p = Inr w" by blast
qed

lemma ExtractorRewriterConfig_ok:
  "(\<exists>c. ExtractorRewriterConfig R p = Inr c) \<longleftrightarrow>
     (\<forall>(n, e)\<in>set (erp_extractors p). extractor_valid R e) \<and> (\<forall>w\<in>set (erp_rewriters p). rewriter_valid R w)"
proof -
  let ?f = "\<lambda>(n, e). case Extractor R e of Inl err \<Rightarrow> Inl err | Inr x \<Rightarrow> Inr (n :: string, x)"
  have "(\<exists>y. ?f x = Inr y) \<longleftrightarrow> extractor_valid R (snd x)" for x
    using Extractor_ok [of R "snd x"] by (cases x) (auto split: sum.splits)
  then have "(\<exists>ys. construct_all ?f (erp_extractors p) = Inr ys) \<longleftrightarrow>
      (\<forall>(n, e)\<in>set (erp_extractors p). extractor_valid R e)"
    by (auto simp: construct_all_ok)
  moreover have "(\<exists>ws. construct_all (Rewriter R) (erp_rewriters p) = Inr ws) \<longleftrightarrow>
      (\<forall>w\<in>set (erp_rewriters p). rewriter_valid R w)"
    by (simp add: construct_all_ok Rewriter_ok)
  ultimately show ?thesis
    unfolding ExtractorRewriterConfig_def by (auto split: sum.splits)
qed

lemma would_update_path_config:
  "ExtractorRewriterConfig R p = Inr c \<Longrightarrow> would_update_path c \<longleftrightarrow> (\<exists>w\<in>set (erp_rewriters p). targets_path w)"
  by (auto simp: ExtractorRewriterConfig_def split: sum.splits)

text \<open>
  C37: Exactly which configurations are accepted. A configuration is rejected with an exception unless every extractor
  has a source and a regular expression, if it has one and a group, that compiles and has that many groups; every
  rewriter has a target, an operation, a template that parses and, if it has a matcher, one all of whose string, header
  and query matchers Envoy can make (it throws for an invalid regular expression); and no rewriter for responses aims at
  the path or at a parameter.
\<close>

theorem header_rewrite_config_accepted:
  "(\<exists>c. HeaderRewriteConfig R p = Inr c) \<longleftrightarrow>
     (\<forall>(n, e)\<in>set (erp_extractors (decoder_rewriters p) @ erp_extractors (encoder_rewriters p)). extractor_valid R e) \<and>
     (\<forall>w\<in>set (erp_rewriters (decoder_rewriters p) @ erp_rewriters (encoder_rewriters p)). rewriter_valid R w) \<and>
     (\<forall>w\<in>set (erp_rewriters (encoder_rewriters p)). \<not> targets_path w)"
proof (cases "ExtractorRewriterConfig R (decoder_rewriters p)")
  case (Inl err)
  with ExtractorRewriterConfig_ok [of R "decoder_rewriters p"] show ?thesis
    by (auto simp: HeaderRewriteConfig_def)
next
  case d: (Inr d)
  show ?thesis
  proof (cases "ExtractorRewriterConfig R (encoder_rewriters p)")
    case (Inl err)
    with d ExtractorRewriterConfig_ok [of R "encoder_rewriters p"] show ?thesis
      by (auto simp: HeaderRewriteConfig_def)
  next
    case (Inr e)
    with d ExtractorRewriterConfig_ok [of R "decoder_rewriters p"] ExtractorRewriterConfig_ok [of R "encoder_rewriters p"]
      would_update_path_config [OF Inr]
    show ?thesis by (auto simp: HeaderRewriteConfig_def)
  qed
qed

text \<open>
  A template that does not render: the exception is dropped and the request is left as it was, with one exception:
  the rewriter that updates a header has removed it by then, so the header is gone. With a template that renders the
  rewriter has its effect.
\<close>

lemma rewriter_render_error:
  assumes "template_render R (rw_template w) c = Inl err"
    and "rewriter_func w \<notin> {NoFunction} \<union> range RemoveHeader \<union> range RemoveParameter"
  shows "rewrite R typed c w (h, p, q) =
    (case rewriter_func w of
       UpdateHeader n \<Rightarrow> (if enableRewrite R w h typed then hm_remove (rw_H R) n h else h, p, q)
     | _ \<Rightarrow> (h, p, q))"
  using assms by (auto simp: rewrite_def run_rewriter_def Let_def split: rewriter_func.splits)

section \<open>What a configuration cannot change\<close>

definition names_header :: "rewriter_func \<Rightarrow> string \<Rightarrow> bool" where
  "names_header f n \<longleftrightarrow> f = RemoveHeader n \<or> f = AppendHeader n \<or> f = UpdateHeader n"

lemma rewrite_frame:
  assumes "header_map_laws (rw_H R) inl valid" and "\<not> names_header (rewriter_func w) n"
  shows "hm_get (rw_H R) n (fst (rewrite R typed c w s)) = hm_get (rw_H R) n (fst s)"
  using assms(2)
  by (cases s) (auto simp: rewrite_def run_rewriter_def names_header_def Let_def
      header_map_lawsD(8,10) [OF assms(1)] split: rewriter_func.splits sum.splits)

lemma rewriteHeaders_frame:
  assumes "header_map_laws (rw_H R) inl valid" and "\<And>w. w \<in> set (rewriters cfg) \<Longrightarrow> \<not> names_header (rewriter_func w) n"
  shows "hm_get (rw_H R) n (fst (rewriteHeaders R typed cfg c s)) = hm_get (rw_H R) n (fst s)"
proof -
  have "hm_get (rw_H R) n (fst (fold (rewrite R typed c) ws s)) = hm_get (rw_H R) n (fst s)"
    if "\<And>w. w \<in> set ws \<Longrightarrow> \<not> names_header (rewriter_func w) n" for ws
    using that by (induction ws arbitrary: s) (simp_all add: rewrite_frame [OF assms(1)])
  with assms(2) show ?thesis by (simp add: rewriteHeaders_def)
qed

lemma apply_config_frame:
  assumes "header_map_laws (rw_H R) inl valid" and "\<And>w. w \<in> set (rewriters cfg) \<Longrightarrow> \<not> names_header (rewriter_func w) n"
  shows "hm_get (rw_H R) n (fst (apply_config R typed cfg hf)) = hm_get (rw_H R) n (fst hf)"
  using rewriteHeaders_frame [OF assms] by (simp add: apply_config_def split_beta Let_def)

text \<open>The rewriters of a configuration name the headers that its protos name.\<close>

definition proto_names :: "('hm, 'qm, 'sm) extractor_rewriter_proto \<Rightarrow> string set" where
  "proto_names p = {lower m | m w. w \<in> set (erp_rewriters p) \<and> rwp_target w = HeaderTarget m}"

lemma Rewriter_names:
  "Rewriter R p = Inr w \<Longrightarrow> names_header (rewriter_func w) n \<Longrightarrow> \<exists>m. rwp_target p = HeaderTarget m \<and> n = lower m"
  by (cases "rwp_operation p"; cases "rwp_target p") (auto simp: Rewriter_Inr names_header_def)

lemma config_names:
  assumes "ExtractorRewriterConfig R p = Inr cfg" and "w \<in> set (rewriters cfg)" and "names_header (rewriter_func w) n"
  shows "n \<in> proto_names p"
proof -
  from assms(1,2) have "\<exists>q\<in>set (erp_rewriters p). Rewriter R q = Inr w"
    by (auto simp: ExtractorRewriterConfig_def split: sum.splits dest: construct_all_InrD)
  with Rewriter_names assms(3) show ?thesis unfolding proto_names_def by blast
qed

lemma HeaderRewriteConfigD:
  "HeaderRewriteConfig R p = Inr c \<Longrightarrow>
   ExtractorRewriterConfig R (decoder_rewriters p) = Inr (decoder_config c) \<and>
   ExtractorRewriterConfig R (encoder_rewriters p) = Inr (encoder_config c)"
  by (auto simp: HeaderRewriteConfig_def split: sum.splits if_splits)

text \<open>The headers that leave the filter, in terms of the lists that were applied.\<close>

lemma rw_decodeHeaders_shape:
  assumes "rw_decodeHeaders R common route h f = Some (status, calls, h', f')"
  shows "h' = h \<or>
    (\<exists>f0 hf1 hf2. hf1 = apply_config R True (decoder_config common) (h, f0) \<and>
       hf2 = (case route of None \<Rightarrow> hf1 | Some (c, d) \<Rightarrow> apply_config R True (decoder_config c) hf1) \<and>
       (h' = fst hf2 \<or>
        ((would_update_path (decoder_config common) \<or> (\<exists>c d. route = Some (c, d) \<and> would_update_path (decoder_config c))) \<and>
         (\<exists>v. h' = hm_setCopy (rw_H R) '':path'' v (fst hf2)))))"
proof (cases "case route of Some (cfg, disabled) \<Rightarrow> disabled | None \<Rightarrow> False")
  case True
  with assms show ?thesis by (simp add: rw_decodeHeaders_def Let_def)
next
  case False
  let ?path = "case hm_get (rw_H R) '':path'' h of [] \<Rightarrow> '''' | v # vs \<Rightarrow> snd v"
  define f0 where "f0 = f\<lparr>rw_route_config := route, rw_path := rw_removeQueryAndFragment R ?path,
      rw_parameter := rw_parseQueryString R ?path\<rparr>"
  define hf1 where "hf1 = apply_config R True (decoder_config common) (h, f0)"
  define hf2 where "hf2 = (case route of None \<Rightarrow> hf1 | Some (c, d) \<Rightarrow> apply_config R True (decoder_config c) hf1)"
  have "h' = fst hf2 \<or>
      ((would_update_path (decoder_config common) \<or> (\<exists>c d. route = Some (c, d) \<and> would_update_path (decoder_config c))) \<and>
       (\<exists>v. h' = hm_setCopy (rw_H R) '':path'' v (fst hf2)))"
    using assms False unfolding rw_decodeHeaders_def Let_def f0_def [symmetric] hf1_def [symmetric]
    by (cases hf1) (auto simp: hf2_def split: if_splits list.splits option.splits prod.splits)
  with hf1_def hf2_def show ?thesis by blast
qed

text \<open>
  A request keeps every header that the configuration does not name. Whatever the templates give, and whether
  or not they render, a header that is the target of no rewriter of the filter or of the route has the values it had;
  this includes the path with its query, if no rewriter aims at the path or at a parameter.
\<close>

theorem header_rewrite_frame:
  assumes H: "header_map_laws (rw_H R) inl valid"
    and cfg: "HeaderRewriteConfig R p = Inr common" "\<And>c d. route = Some (c, d) \<Longrightarrow> HeaderRewriteConfig R rp = Inr c"
    and run: "rw_decodeHeaders R common route h f = Some (status, calls, h', f')"
    and names: "n \<notin> proto_names (decoder_rewriters p)" "n \<notin> proto_names (decoder_rewriters rp)"
    and path: "n \<noteq> '':path'' \<or> (\<forall>w\<in>set (erp_rewriters (decoder_rewriters p) @ erp_rewriters (decoder_rewriters rp)). \<not> targets_path w)"
  shows "hm_get (rw_H R) n h' = hm_get (rw_H R) n h"
proof -
  have one: "hm_get (rw_H R) n (fst (apply_config R True (decoder_config c) hf)) = hm_get (rw_H R) n (fst hf)"
    if "HeaderRewriteConfig R q = Inr c" "n \<notin> proto_names (decoder_rewriters q)" for c q and hf :: "'a \<times> ('b, 'c, 'd, 'e, 'f) rw_filter"
    using apply_config_frame [OF H] config_names HeaderRewriteConfigD [OF that(1)] that(2) by blast
  have no_update: "\<not> would_update_path (decoder_config c)"
    if "HeaderRewriteConfig R q = Inr c" "q = p \<or> q = rp" "n = '':path''" for c q
    using would_update_path_config [OF conjunct1 [OF HeaderRewriteConfigD [OF that(1)]]] path that(2,3) by auto
  have update: "n \<noteq> '':path''"
    if "would_update_path (decoder_config common) \<or> (\<exists>c d. route = Some (c, d) \<and> would_update_path (decoder_config c))"
    using no_update [OF cfg(1)] no_update [OF cfg(2)] that by blast
  from rw_decodeHeaders_shape [OF run] show ?thesis
  proof (elim disjE exE conjE, goal_cases)
    case 1
    then show ?case by simp
  next
    case (2 f0 hf1 hf2)
    then show ?case
      using one [OF cfg(1) names(1)] one [OF cfg(2) names(2)] by (auto split: option.splits)
  next
    case (3 f0 hf1 hf2)
    then show ?case
      using one [OF cfg(1) names(1)] one [OF cfg(2) names(2)] update header_map_lawsD(7) [OF H]
      by (auto split: option.splits)
  next
    case (4 f0 hf1 hf2)
    then show ?case
      using one [OF cfg(1) names(1)] one [OF cfg(2) names(2)] update header_map_lawsD(7) [OF H]
      by (auto split: option.splits)
  qed
qed

text \<open>Templates that are their own text, and a configuration with one rewriter.\<close>

definition example_rewrite_env ::
    "((string \<times> string) list, unit, unit, unit, string, string) rewrite_env" where
  "example_rewrite_env =
     \<lparr>rw_H = list_headers,
      rw_matchers = \<lparr>getPathValue = \<lambda>h. '''', remove_query = \<lambda>s. s, parse_query = \<lambda>s. [], parseCookies = \<lambda>h. [],
        string_match = \<lambda>m s. True, matchHeaders = \<lambda>h ms. True, matchQueryParams = \<lambda>q ms. True,
        string_error = \<lambda>m. Some ''invalid regex'', header_error = \<lambda>m. None, query_error = \<lambda>m. None\<rparr>,
      re2_compile = \<lambda>s. Inr s, NumberOfCapturingGroups = \<lambda>r. 0, FullMatchN = \<lambda>r s n. None,
      template_parse = \<lambda>s. Inr s, template_render = \<lambda>t c. Inr t, environment = \<lambda>n. None,
      rw_removeQueryAndFragment = takeWhile (\<lambda>ch. ch \<noteq> CHR ''?''), rw_parseQueryString = \<lambda>s. [],
      queryParamsToString = \<lambda>q. ''''\<rparr>"

definition example_rewrite_proto :: "(unit, unit, unit) header_rewrite_proto" where
  "example_rewrite_proto =
     \<lparr>decoder_rewriters = \<lparr>erp_extractors = [],
        erp_rewriters = [\<lparr>rwp_target = HeaderTarget ''X-A'', rwp_operation = UpdateOp ''new'', rwp_matcher = None\<rparr>]\<rparr>,
      encoder_rewriters = \<lparr>erp_extractors = [], erp_rewriters = []\<rparr>, hrw_clear_route_cache = True\<rparr>"

theorem header_rewrite_frame_witness:
  "\<exists>common status calls h' f'.
     HeaderRewriteConfig example_rewrite_env example_rewrite_proto = Inr common \<and>
     rw_decodeHeaders example_rewrite_env common None [('':path'', ''/p?q''), (''x-a'', ''1''), (''x-b'', ''2'')] rw_Filter =
       Some (status, calls, h', f') \<and>
     hm_get list_headers ''x-b'' h' = [(''x-b'', ''2'')]"
proof -
  let ?R = "example_rewrite_env" and ?h = "[('':path'', ''/p?q''), (''x-a'', ''1''), (''x-b'', ''2'')]"
  have H: "header_map_laws (rw_H ?R) (\<lambda>k. False) (\<lambda>h. \<forall>e\<in>set h. name_ok (fst e) \<and> text_ok (snd e))"
    using list_headers_laws by (simp add: example_rewrite_env_def)
  have "\<exists>c. HeaderRewriteConfig ?R example_rewrite_proto = Inr c \<and> \<not> would_update_path (decoder_config c)"
    by (simp add: HeaderRewriteConfig_def ExtractorRewriterConfig_def example_rewrite_env_def example_rewrite_proto_def
        Rewriter_def targets_path_def)
  then obtain common where c: "HeaderRewriteConfig ?R example_rewrite_proto = Inr common"
    "\<not> would_update_path (decoder_config common)" by blast
  have "\<exists>s cs h' f'. rw_decodeHeaders ?R common None ?h rw_Filter = Some (s, cs, h', f')"
    using c(2) by (simp add: rw_decodeHeaders_def Let_def split_beta)
  then obtain status calls h' f' where run: "rw_decodeHeaders ?R common None ?h rw_Filter = Some (status, calls, h', f')"
    by blast
  have "tolower (CHR ''A'') = CHR ''a''" by (simp add: tolower_def char_of_eq_iff)
  then have "''x-b'' \<notin> proto_names (decoder_rewriters example_rewrite_proto)"
    by (auto simp: proto_names_def example_rewrite_proto_def lower_def)
  from header_rewrite_frame [OF H c(1) _ run this this] have "hm_get (rw_H ?R) ''x-b'' h' = hm_get (rw_H ?R) ''x-b'' ?h" by simp
  then have "hm_get list_headers ''x-b'' h' = [(''x-b'', ''2'')]"
    by (simp add: example_rewrite_env_def) (simp add: list_headers_def)
  with c run show ?thesis by blast
qed

theorem header_rewrite_config_accepted_witness:
  "(\<exists>c. HeaderRewriteConfig example_rewrite_env example_rewrite_proto = Inr c) \<and>
   \<not> (\<exists>c. HeaderRewriteConfig example_rewrite_env
            (example_rewrite_proto\<lparr>encoder_rewriters := \<lparr>erp_extractors = [],
               erp_rewriters = [\<lparr>rwp_target = PathTarget, rwp_operation = UpdateOp ''/'', rwp_matcher = None\<rparr>]\<rparr>\<rparr>) = Inr c) \<and>
   \<not> (\<exists>c. HeaderRewriteConfig example_rewrite_env
            (example_rewrite_proto\<lparr>decoder_rewriters := \<lparr>erp_extractors = [],
               erp_rewriters = [\<lparr>rwp_target = HeaderTarget ''a'', rwp_operation = RemoveOp,
                 rwp_matcher = Some \<lparr>cm_path = Some (), cm_headers = [], cm_parameters = [], cm_cookies = []\<rparr>\<rparr>]\<rparr>\<rparr>) = Inr c)"
  unfolding header_rewrite_config_accepted
  by (simp add: example_rewrite_env_def example_rewrite_proto_def rewriter_valid_def targets_path_def matcher_valid_def)

end
