(* ===== verification/Local_Limit.thy ===== *)
theory Local_Limit
  imports Rolling_Number
begin

text \<open>
  The local rate limit filter, \<^verbatim>\<open>source/filters/http/local_limit/local_limit_filter.{h,cc}\<close>, with the token buckets of
  \<^verbatim>\<open>source/common/common/token_bucket.{h,cc}\<close>, one behind a lock or one for each worker thread.

  Envoy's \<^verbatim>\<open>TokenBucketImpl\<close> is the parameter \<open>bucket_ops\<close>; \<open>bucket_law\<close> states what it promises: of a bucket with \<open>max\<close>
  tokens that is filled with \<open>fill\<close> tokens per second, no more than \<open>max\<close>, one, and what is filled meanwhile can be taken
  one at a time. The one is for a bucket that does not look at the clock while it is full.
  The clock and the thread that runs a filter are arguments.
\<close>

section \<open>Token buckets\<close>

record 'b bucket_ops =
  tb_new :: "u64 \<Rightarrow> real \<Rightarrow> 'b"
  tb_consume :: "time \<Rightarrow> u64 \<Rightarrow> bool \<Rightarrow> 'b \<Rightarrow> u64 \<times> 'b"
  tb_maybeReset :: "time \<Rightarrow> u64 \<Rightarrow> 'b \<Rightarrow> 'b"
  tb_consumeNext :: "time \<Rightarrow> u64 \<Rightarrow> bool \<Rightarrow> 'b \<Rightarrow> (u64 \<times> int) \<times> 'b"
  tb_nextTokenAvailable :: "time \<Rightarrow> 'b \<Rightarrow> int"

datatype 'b token_bucket = AccurateTokenBucket 'b | TheadLocalTokenBucket "nat \<Rightarrow> 'b"

definition new_bucket :: "'b bucket_ops \<Rightarrow> bool \<Rightarrow> u64 \<Rightarrow> real \<Rightarrow> 'b token_bucket" where
  "new_bucket B thread_local max_tokens fill_rate =
     (if thread_local then TheadLocalTokenBucket (\<lambda>thread. tb_new B max_tokens fill_rate)
      else AccurateTokenBucket (tb_new B max_tokens fill_rate))"

definition consume :: "'b bucket_ops \<Rightarrow> time \<Rightarrow> nat \<Rightarrow> u64 \<Rightarrow> bool \<Rightarrow> 'b token_bucket \<Rightarrow> u64 \<times> 'b token_bucket" where
  "consume B now thread tokens allow_partial tb =
     (case tb of
        AccurateTokenBucket b \<Rightarrow> (let (n, b') = tb_consume B now tokens allow_partial b in (n, AccurateTokenBucket b'))
      | TheadLocalTokenBucket bs \<Rightarrow>
          (let (n, b') = tb_consume B now tokens allow_partial (bs thread) in (n, TheadLocalTokenBucket (bs(thread := b')))))"

text \<open>The variant that reports when the next token comes, in milliseconds, and the question for that time.\<close>

definition consume_next ::
    "'b bucket_ops \<Rightarrow> time \<Rightarrow> nat \<Rightarrow> u64 \<Rightarrow> bool \<Rightarrow> 'b token_bucket \<Rightarrow> (u64 \<times> int) \<times> 'b token_bucket" where
  "consume_next B now thread tokens allow_partial tb =
     (case tb of
        AccurateTokenBucket b \<Rightarrow> (let (n, b') = tb_consumeNext B now tokens allow_partial b in (n, AccurateTokenBucket b'))
      | TheadLocalTokenBucket bs \<Rightarrow>
          (let (n, b') = tb_consumeNext B now tokens allow_partial (bs thread) in (n, TheadLocalTokenBucket (bs(thread := b')))))"

definition nextTokenAvailable :: "'b bucket_ops \<Rightarrow> time \<Rightarrow> nat \<Rightarrow> 'b token_bucket \<Rightarrow> int" where
  "nextTokenAvailable B now thread tb =
     (case tb of
        AccurateTokenBucket b \<Rightarrow> tb_nextTokenAvailable B now b
      | TheadLocalTokenBucket bs \<Rightarrow> tb_nextTokenAvailable B now (bs thread))"

text \<open>Only the main thread resets thread local buckets, and it resets them on all threads.\<close>

definition maybeReset :: "'b bucket_ops \<Rightarrow> time \<Rightarrow> bool \<Rightarrow> u64 \<Rightarrow> 'b token_bucket \<Rightarrow> 'b token_bucket" where
  "maybeReset B now main_thread num_tokens tb =
     (case tb of
        AccurateTokenBucket b \<Rightarrow> AccurateTokenBucket (tb_maybeReset B now num_tokens b)
      | TheadLocalTokenBucket bs \<Rightarrow>
          (if main_thread then TheadLocalTokenBucket (\<lambda>thread. tb_maybeReset B now num_tokens (bs thread)) else tb))"

section \<open>The filter\<close>

datatype unit_type = SS | MM | HH | DD

fun CYCLE :: "unit_type \<Rightarrow> real" where
  "CYCLE SS = 1"
| "CYCLE MM = 60"
| "CYCLE HH = 3600"
| "CYCLE DD = 86400"

record 'hm rate_limit_proto =
  rl_matcher :: "'hm list"
  rl_unit :: unit_type
  rl_rate :: u64

record ('hm, 'b) rate_limit_entry =
  rl_enable_rqx :: "'hm list"
  token_bucket :: "'b token_bucket"

definition fill_rate :: "(real \<Rightarrow> real) \<Rightarrow> 'hm rate_limit_proto \<Rightarrow> real" where
  "fill_rate rnd p = rnd (rnd (of_nat (unat (rl_rate p))) / CYCLE (rl_unit p))"

definition RateLimitEntry ::
    "(real \<Rightarrow> real) \<Rightarrow> 'b bucket_ops \<Rightarrow> bool \<Rightarrow> 'hm rate_limit_proto \<Rightarrow> ('hm, 'b) rate_limit_entry" where
  "RateLimitEntry rnd B thread_local p =
     \<lparr>rl_enable_rqx = rl_matcher p, token_bucket = new_bucket B thread_local (rl_rate p) (fill_rate rnd p)\<rparr>"

definition LocalLimitRouteConfig ::
    "(real \<Rightarrow> real) \<Rightarrow> 'b bucket_ops \<Rightarrow> bool \<Rightarrow> 'hm rate_limit_proto list \<Rightarrow> ('hm, 'b) rate_limit_entry list" where
  "LocalLimitRouteConfig rnd B thread_local ps = map (RateLimitEntry rnd B thread_local) ps"

definition entry_limit ::
    "'b bucket_ops \<Rightarrow> ('h \<Rightarrow> 'hm list \<Rightarrow> bool) \<Rightarrow> time \<Rightarrow> nat \<Rightarrow> 'h \<Rightarrow> ('hm, 'b) rate_limit_entry \<Rightarrow>
     bool \<times> ('hm, 'b) rate_limit_entry" where
  "entry_limit B match_headers now thread headers e =
     (if \<not> match_headers headers (rl_enable_rqx e) then (False, e)
      else let (token, tb) = consume B now thread 1 False (token_bucket e) in (token < 1, e\<lparr>token_bucket := tb\<rparr>))"

text \<open>Every entry is asked, also when one has limited the request already.\<close>

fun route_limit ::
    "'b bucket_ops \<Rightarrow> ('h \<Rightarrow> 'hm list \<Rightarrow> bool) \<Rightarrow> time \<Rightarrow> nat \<Rightarrow> 'h \<Rightarrow> ('hm, 'b) rate_limit_entry list \<Rightarrow>
     bool \<times> ('hm, 'b) rate_limit_entry list" where
  "route_limit B match_headers now thread headers [] = (False, [])"
| "route_limit B match_headers now thread headers (e # es) =
     (let (l, e') = entry_limit B match_headers now thread headers e;
          (l', es') = route_limit B match_headers now thread headers es
      in (l \<or> l', e' # es'))"

definition ll_decodeHeaders ::
    "'b bucket_ops \<Rightarrow> ('h \<Rightarrow> 'hm list \<Rightarrow> bool) \<Rightarrow> time \<Rightarrow> nat \<Rightarrow> ('hm, 'b) rate_limit_entry list route \<Rightarrow> 'h \<Rightarrow>
     headers_status \<times> callback list \<times> ('hm, 'b) rate_limit_entry list route" where
  "ll_decodeHeaders B match_headers now thread rt headers =
     (case rt of
        RouteEntry (Some es) \<Rightarrow>
          (let (limited, es') = route_limit B match_headers now thread headers es
           in if \<not> limited then (Continue, [], RouteEntry (Some es'))
              else (StopIteration, [SendLocalReply 429 '''' [] ''local_rate_limit''], RouteEntry (Some es')))
      | _ \<Rightarrow> (Continue, [], rt))"

section \<open>Runs of requests\<close>

text \<open>A request: its time, the thread that handles it, its headers.\<close>

type_synonym 'h request = "time \<times> nat \<times> 'h"

text \<open>The requests of a run that the filter lets pass.\<close>

fun passed ::
    "'b bucket_ops \<Rightarrow> ('h \<Rightarrow> 'hm list \<Rightarrow> bool) \<Rightarrow> ('hm, 'b) rate_limit_entry list route \<Rightarrow> 'h request list \<Rightarrow> 'h request list" where
  "passed B m rt [] = []"
| "passed B m rt ((t, th, h) # rs) =
     (let (status, calls, rt') = ll_decodeHeaders B m t th rt h
      in (if status = Continue then [(t, th, h)] else []) @ passed B m rt' rs)"

text \<open>The tokens that requests for one token at the given times draw from a bucket.\<close>

fun drawn :: "'b bucket_ops \<Rightarrow> time list \<Rightarrow> 'b \<Rightarrow> nat" where
  "drawn B [] b = 0"
| "drawn B (t # ts) b = (let (n, b') = tb_consume B t 1 False b in unat n + drawn B ts b')"

definition bucket_law :: "'b bucket_ops \<Rightarrow> bool" where
  "bucket_law B \<longleftrightarrow> (\<forall>max fill ts. sorted ts \<and> ts \<noteq> [] \<and> 0 \<le> fill \<longrightarrow>
     real (drawn B ts (tb_new B max fill)) \<le> real (unat max) + 1 + fill * (of_int (last ts - hd ts) / 10 ^ 9))"

text \<open>The bucket of an entry that serves thread \<open>k\<close>, and the threads it serves.\<close>

fun bucket_for :: "nat \<Rightarrow> 'b token_bucket \<Rightarrow> 'b" where
  "bucket_for k (AccurateTokenBucket b) = b"
| "bucket_for k (TheadLocalTokenBucket bs) = bs k"

fun served :: "nat \<Rightarrow> 'b token_bucket \<Rightarrow> nat \<Rightarrow> bool" where
  "served k (AccurateTokenBucket b) th \<longleftrightarrow> True"
| "served k (TheadLocalTokenBucket bs) th \<longleftrightarrow> th = k"

lemma route_limit_eq:
  "route_limit B m now th h es =
     ((\<exists>e\<in>set es. fst (entry_limit B m now th h e)), map (\<lambda>e. snd (entry_limit B m now th h e)) es)"
  by (induction es) (auto simp: split_beta Let_def)

lemma passed_limited:
  "passed B m (RouteEntry (Some es)) ((t, th, h) # rs) =
     (if \<exists>e\<in>set es. fst (entry_limit B m t th h e) then [] else [(t, th, h)]) @
     passed B m (RouteEntry (Some (map (\<lambda>e. snd (entry_limit B m t th h e)) es))) rs"
  by (simp add: ll_decodeHeaders_def route_limit_eq Let_def)

lemma entry_limit_simps:
  "rl_enable_rqx (snd (entry_limit B m t th h e)) = rl_enable_rqx e"
  "served k (token_bucket (snd (entry_limit B m t th h e))) = served k (token_bucket e)"
  by (cases "token_bucket e"; auto simp: entry_limit_def consume_def split_beta Let_def)+

text \<open>One request and the bucket for thread \<open>k\<close>.\<close>

lemma entry_limit_step:
  "if m h (rl_enable_rqx e) \<and> served k (token_bucket e) th
   then tb_consume B t 1 False (bucket_for k (token_bucket e)) =
      (if fst (entry_limit B m t th h e) then 0 else fst (tb_consume B t 1 False (bucket_for k (token_bucket e))),
       bucket_for k (token_bucket (snd (entry_limit B m t th h e)))) \<and>
     (\<not> fst (entry_limit B m t th h e) \<longrightarrow> 1 \<le> unat (fst (tb_consume B t 1 False (bucket_for k (token_bucket e)))))
   else bucket_for k (token_bucket (snd (entry_limit B m t th h e))) = bucket_for k (token_bucket e)"
  by (cases "token_bucket e")
     (auto simp: entry_limit_def consume_def split_beta Let_def word_less_1 prod_eq_iff Suc_le_eq unat_gt_0)

lemma passed_le_drawn:
  assumes "i < length es"
  shows "length (filter (\<lambda>(t, th, h). m h (rl_enable_rqx (es ! i)) \<and> served k (token_bucket (es ! i)) th)
      (passed B m (RouteEntry (Some es)) rs)) \<le>
    drawn B (map fst (filter (\<lambda>(t, th, h). m h (rl_enable_rqx (es ! i)) \<and> served k (token_bucket (es ! i)) th) rs))
      (bucket_for k (token_bucket (es ! i)))"
  using assms
proof (induction rs arbitrary: es)
  case (Cons r rs)
  obtain t th h where r: "r = (t, th, h)" by (cases r)
  let ?e = "es ! i" and ?es = "map (\<lambda>e. snd (entry_limit B m t th h e)) es"
  have e': "?es ! i = snd (entry_limit B m t th h ?e)" using Cons.prems by simp
  have mem: "?e \<in> set es" using Cons.prems by simp
  note IH = Cons.IH [of ?es, unfolded e' entry_limit_simps]
  note step = entry_limit_step [where m = m and h = h and e = ?e and k = k and th = th and B = B and t = t]
  show ?case
  proof (cases "m h (rl_enable_rqx ?e) \<and> served k (token_bucket ?e) th")
    case True
    obtain n b' where n: "tb_consume B t 1 False (bucket_for k (token_bucket ?e)) = (n, b')" by (rule prod.exhaust)
    with step True have b': "b' = bucket_for k (token_bucket (snd (entry_limit B m t th h ?e)))"
      and le: "\<not> fst (entry_limit B m t th h ?e) \<Longrightarrow> 1 \<le> unat n" by (simp_all split: if_splits)
    have "(if \<exists>e\<in>set es. fst (entry_limit B m t th h e) then 0 else 1) \<le> unat n"
      using le mem by auto
    with IH Cons.prems True n b' show ?thesis
      unfolding r passed_limited by (auto simp: e')
  next
    case False
    with step have "bucket_for k (token_bucket (snd (entry_limit B m t th h ?e))) = bucket_for k (token_bucket ?e)" by auto
    with IH Cons.prems False show ?thesis unfolding r passed_limited by (auto simp: e')
  qed
qed simp

section \<open>Properties\<close>

lemma fill_rate_nonneg: "ieee_rounding rnd \<Longrightarrow> 0 \<le> fill_rate rnd p"
proof -
  assume rnd: "ieee_rounding rnd"
  have "rnd 0 = 0" using ieee_exact [OF rnd, of 0] by simp
  then have pos: "0 \<le> rnd x" if "0 \<le> x" for x using ieee_mono [OF rnd that] by simp
  have "0 < CYCLE (rl_unit p)" by (cases "rl_unit p") auto
  then show ?thesis unfolding fill_rate_def by (intro pos divide_nonneg_pos of_nat_0_le_iff)
qed

lemma sorted_window:
  assumes "sorted ts" and "ts = map f (filter P rs)" and "ts \<noteq> []" and "sorted (map f rs)"
  shows "last ts - hd ts \<le> (f (last rs) - f (hd rs) :: int)"
proof -
  have "rs \<noteq> []" using assms(2,3) by auto
  have "f x \<le> f (last rs) \<and> f (hd rs) \<le> f x" if "x \<in> set rs" for x
    using that assms(4)
  proof (induction rs)
    case (Cons a rs)
    then show ?case by (cases "rs = []") force+
  qed simp
  moreover have "\<exists>x\<in>set rs. f x = last ts" "\<exists>x\<in>set rs. f x = hd ts"
    using last_in_set [OF assms(3)] hd_in_set [OF assms(3)] assms(2) by auto
  ultimately have "last ts \<le> f (last rs)" "f (hd rs) \<le> hd ts" by metis+
  then show ?thesis by simp
qed

text \<open>
  C34: The filter keeps the configured rates. Over any run of requests with increasing times, and for every rate limit
  of the route, the requests that match it and pass are at most its rate, one, and what its bucket is filled with during
  the run, whatever the other rate limits do; with thread local buckets this holds for every worker thread.
\<close>

theorem local_limit_rate:
  assumes B: "bucket_law B" and rnd: "ieee_rounding rnd"
    and i: "i < length ps" and rs: "rs \<noteq> []" "sorted (map fst rs)"
  shows "real (length (filter (\<lambda>(t, th, h). m h (rl_matcher (ps ! i)) \<and> (thread_local \<longrightarrow> th = k))
      (passed B m (RouteEntry (Some (LocalLimitRouteConfig rnd B thread_local ps))) rs))) \<le>
    real (unat (rl_rate (ps ! i))) + 1 + fill_rate rnd (ps ! i) * (of_int (fst (last rs) - fst (hd rs)) / 10 ^ 9)"
proof -
  let ?es = "LocalLimitRouteConfig rnd B thread_local ps" and ?p = "ps ! i"
  let ?P = "\<lambda>(t :: time, th, h). m h (rl_matcher ?p) \<and> (thread_local \<longrightarrow> th = k)"
  let ?ts = "map fst (filter ?P rs)" and ?b = "tb_new B (rl_rate ?p) (fill_rate rnd ?p)"
  have e: "?es ! i = RateLimitEntry rnd B thread_local ?p" using i by (simp add: LocalLimitRouteConfig_def)
  have le: "length (filter ?P (passed B m (RouteEntry (Some ?es)) rs)) \<le> drawn B ?ts ?b"
    using passed_le_drawn [of i ?es m k B rs] i unfolding e
    by (cases thread_local) (simp_all add: RateLimitEntry_def new_bucket_def LocalLimitRouteConfig_def)
  note nonneg = fill_rate_nonneg [OF rnd, of ?p]
  show ?thesis
  proof (cases "?ts = []")
    case True
    have "fst (hd rs) \<le> fst (last rs)"
      using rs by (cases rs) (auto simp: last_conv_nth sorted_iff_nth_mono)
    then have "0 \<le> fill_rate rnd ?p * (of_int (fst (last rs) - fst (hd rs)) / 10 ^ 9)"
      using nonneg by (intro mult_nonneg_nonneg divide_nonneg_nonneg) simp_all
    moreover have "filter ?P (passed B m (RouteEntry (Some ?es)) rs) = []" using le unfolding True by simp
    ultimately show ?thesis by (simp only: list.size of_nat_0)
  next
    case False
    have sorted: "sorted ?ts" using rs(2) by (rule sorted_filter)
    have "real (drawn B ?ts ?b) \<le> real (unat (rl_rate ?p)) + 1 + fill_rate rnd ?p * (of_int (last ?ts - hd ?ts) / 10 ^ 9)"
      using B False sorted nonneg unfolding bucket_law_def by blast
    moreover have "fill_rate rnd ?p * (of_int (last ?ts - hd ?ts) / 10 ^ 9) \<le>
        fill_rate rnd ?p * (of_int (fst (last rs) - fst (hd rs)) / 10 ^ 9)"
      using sorted_window [OF sorted refl False rs(2)] nonneg
      by (intro mult_left_mono divide_right_mono) (simp_all only: of_int_le_iff zero_le_power zero_le_numeral)
    ultimately show ?thesis using le by linarith
  qed
qed

text \<open>
  A bucket that is filled with the time, and that does not note the time while it is full, keeps the law. The time that
  passed while it was full is counted at the first filling after a token was taken, which the one token more allows for.
\<close>

record timed_bucket =
  bk_max :: real
  bk_fill :: real
  bk_tokens :: real
  bk_last :: time

definition refill :: "time \<Rightarrow> timed_bucket \<Rightarrow> timed_bucket" where
  "refill now b =
     (if bk_tokens b < bk_max b
      then b\<lparr>bk_tokens := min (bk_max b) (bk_tokens b + bk_fill b * (of_int (now - bk_last b) / 10 ^ 9)), bk_last := now\<rparr>
      else b)"

definition take_tokens :: "u64 \<Rightarrow> bool \<Rightarrow> timed_bucket \<Rightarrow> u64 \<times> timed_bucket" where
  "take_tokens tokens allow_partial b =
     (let n = (if allow_partial \<and> bk_tokens b < real (unat tokens) then of_int \<lfloor>bk_tokens b\<rfloor> else tokens)
      in if bk_tokens b < real (unat n) then (0, b) else (n, b\<lparr>bk_tokens := bk_tokens b - real (unat n)\<rparr>))"

definition wait_ms :: "timed_bucket \<Rightarrow> int" where
  "wait_ms b = (if 1 \<le> bk_tokens b \<or> bk_fill b = 0 then 0 else \<lceil>(1 - bk_tokens b) / bk_fill b * 1000\<rceil>)"

definition timed_buckets :: "timed_bucket bucket_ops" where
  "timed_buckets =
     \<lparr>tb_new = \<lambda>max fill. \<lparr>bk_max = real (unat max), bk_fill = fill, bk_tokens = real (unat max), bk_last = 0\<rparr>,
      tb_consume = \<lambda>now tokens allow_partial b. take_tokens tokens allow_partial (refill now b),
      tb_maybeReset = \<lambda>now n b. b\<lparr>bk_tokens := min (real (unat n)) (bk_max b), bk_last := now\<rparr>,
      tb_consumeNext = \<lambda>now tokens allow_partial b.
        (let (n, b') = take_tokens tokens allow_partial (refill now b) in ((n, wait_ms b'), b')),
      tb_nextTokenAvailable = \<lambda>now b. wait_ms (refill now b)\<rparr>"

lemma drawn_timed:
  "drawn timed_buckets (t # ts) b =
     (let b' = refill t b
      in if bk_tokens b' < 1 then drawn timed_buckets ts b'
         else Suc (drawn timed_buckets ts (b'\<lparr>bk_tokens := bk_tokens b' - 1\<rparr>)))"
  by (simp add: timed_buckets_def take_tokens_def Let_def)

lemma refill_fields [simp]: "bk_fill (refill t b) = bk_fill b" "bk_max (refill t b) = bk_max b"
  by (simp_all add: refill_def)

lemma refill_idem: "refill t (refill t b) = refill t b"
  by (simp add: refill_def)

lemma refill_gain:
  assumes "0 \<le> bk_fill b" "bk_last b \<le> t" "t \<le> T"
  shows "max 0 (bk_tokens (refill t b)) + bk_fill b * (of_int (T - bk_last (refill t b)) / 10 ^ 9) \<le>
    max 0 (bk_tokens b) + bk_fill b * (of_int (T - bk_last b) / 10 ^ 9)"
proof (cases "bk_tokens b < bk_max b")
  case True
  define x where "x = bk_fill b * (of_int (t - bk_last b) / 10 ^ 9)"
  have "0 \<le> x" using assms by (simp add: x_def)
  moreover have "bk_fill b * (of_int (T - bk_last b) / 10 ^ 9) = x + bk_fill b * (of_int (T - t) / 10 ^ 9)"
    by (simp add: x_def field_simps)
  moreover have "bk_tokens (refill t b) = min (bk_max b) (bk_tokens b + x)" "bk_last (refill t b) = t"
    using True by (simp_all add: refill_def x_def)
  ultimately show ?thesis by (simp only: max_def min_def) (auto split: if_splits)
qed (simp add: refill_def)

lemma refill_last: "bk_last b \<le> t \<Longrightarrow> bk_last (refill t b) \<le> t"
  by (simp add: refill_def)

lemma drawn_timed_le:
  "sorted ts \<Longrightarrow> 0 \<le> bk_fill b \<Longrightarrow> (\<And>t. t \<in> set ts \<Longrightarrow> bk_last b \<le> t \<and> t \<le> T) \<Longrightarrow> bk_last b \<le> T \<Longrightarrow>
   real (drawn timed_buckets ts b) \<le> max 0 (bk_tokens b) + bk_fill b * (of_int (T - bk_last b) / 10 ^ 9)"
proof (induction ts arbitrary: b)
  case Nil
  then show ?case by simp
next
  case (Cons t ts)
  let ?b = "refill t b"
  have t: "bk_last b \<le> t" "t \<le> T" using Cons.prems(3) by auto
  have later: "bk_last ?b \<le> x \<and> x \<le> T" if "x \<in> set ts" for x
    using that Cons.prems(1,3) refill_last [OF t(1)] by (fastforce intro: order_trans)
  have IH: "real (drawn timed_buckets ts b') \<le> max 0 (bk_tokens b') + bk_fill b * (of_int (T - bk_last ?b) / 10 ^ 9)"
    if "bk_fill b' = bk_fill b" "bk_last b' = bk_last ?b" for b'
    using Cons.IH [of b'] that later Cons.prems(1,2) refill_last [OF t(1)] t(2) by auto
  show ?case
    using IH [of ?b] IH [of "?b\<lparr>bk_tokens := bk_tokens ?b - 1\<rparr>"] refill_gain [OF Cons.prems(2) t]
    unfolding drawn_timed by (auto simp: Let_def)
qed

lemma drawn_full_le:
  "sorted ts \<Longrightarrow> 0 \<le> bk_fill b \<Longrightarrow> bk_tokens b = bk_max b \<Longrightarrow> 0 \<le> bk_max b \<Longrightarrow> (\<And>t. t \<in> set ts \<Longrightarrow> s \<le> t \<and> t \<le> T) \<Longrightarrow> s \<le> T \<Longrightarrow>
   real (drawn timed_buckets ts b) \<le> bk_max b + 1 + bk_fill b * (of_int (T - s) / 10 ^ 9)"
proof (induction ts)
  case Nil
  then show ?case by simp
next
  case (Cons t ts)
  have full: "refill t b = b" using Cons.prems(3) by (simp add: refill_def)
  have nonneg: "0 \<le> bk_fill b * (of_int (T - s) / 10 ^ 9)" using Cons.prems(2,6) by simp
  show ?case
  proof (cases "bk_tokens b < 1")
    case True
    then show ?thesis using Cons full unfolding drawn_timed by simp
  next
    case one: False
    let ?b = "b\<lparr>bk_tokens := bk_tokens b - 1\<rparr>"
    have "real (drawn timed_buckets ts ?b) \<le> bk_max b + bk_fill b * (of_int (T - s) / 10 ^ 9)"
    proof (cases ts)
      case Nil
      then show ?thesis using nonneg Cons.prems(4) by simp
    next
      case (Cons u us)
      let ?c = "refill u ?b"
      have c: "bk_last ?c = u" "bk_tokens ?c \<le> bk_max b" "bk_fill ?c = bk_fill b"
        using Cons.prems(3) by (simp_all add: refill_def)
      have range: "s \<le> u" "u \<le> T" using Cons.prems(5) Cons by auto
      have "drawn timed_buckets ts ?b = drawn timed_buckets ts ?c" unfolding Cons drawn_timed by (simp add: refill_idem)
      also have "real \<dots> \<le> max 0 (bk_tokens ?c) + bk_fill ?c * (of_int (T - bk_last ?c) / 10 ^ 9)"
        using Cons.prems Cons c range by (intro drawn_timed_le) auto
      also have "\<dots> \<le> bk_max b + bk_fill b * (of_int (T - s) / 10 ^ 9)"
        unfolding c using c(2) Cons.prems(2,4) range
        by (intro add_mono mult_left_mono divide_right_mono) (simp_all only: of_int_le_iff, simp_all)
      finally show ?thesis .
    qed
    then show ?thesis using one full unfolding drawn_timed by simp
  qed
qed

lemma timed_buckets_law: "bucket_law timed_buckets"
  unfolding bucket_law_def
proof (intro allI impI, elim conjE)
  fix mx :: u64 and fill :: real and ts :: "time list"
  assume ts: "sorted ts" "ts \<noteq> []" and fill: "0 \<le> fill"
  have range: "hd ts \<le> t \<and> t \<le> last ts" if "t \<in> set ts" for t
    using that ts by (metis in_set_conv_nth hd_conv_nth last_conv_nth length_greater_0_conv less_imp_diff_less
      sorted_iff_nth_mono diff_less zero_less_one le0 Suc_leI Suc_pred' less_Suc_eq_le)
  then have "hd ts \<le> last ts" using ts(2) by simp
  let ?b = "tb_new timed_buckets mx fill"
  have new: "bk_max ?b = real (unat mx)" "bk_tokens ?b = real (unat mx)" "bk_fill ?b = fill"
    by (simp_all add: timed_buckets_def)
  have "real (drawn timed_buckets ts ?b) \<le> bk_max ?b + 1 + bk_fill ?b * (of_int (last ts - hd ts) / 10 ^ 9)"
  proof (rule drawn_full_le)
    show "0 \<le> bk_max ?b" unfolding new by (rule of_nat_0_le_iff)
  qed (use ts(1) fill range \<open>hd ts \<le> last ts\<close> new in auto)
  then show "real (drawn timed_buckets ts ?b) \<le> real (unat mx) + 1 + fill * (of_int (last ts - hd ts) / 10 ^ 9)"
    unfolding new .
qed

theorem local_limit_rate_witness:
  "real (length (filter (\<lambda>(t, th, h). True)
      (passed timed_buckets (\<lambda>h ms. ms = [])
        (RouteEntry (Some (LocalLimitRouteConfig (\<lambda>x. x) timed_buckets False
          [\<lparr>rl_matcher = ([] :: unit list), rl_unit = SS, rl_rate = 2\<rparr>])))
        [(0, 0, ()), (1, 1, ()), (2, 0, ())]))) \<le> 2 + 1 + 2 * (2 / 10 ^ 9)"
proof -
  let ?ps = "[\<lparr>rl_matcher = ([] :: unit list), rl_unit = SS, rl_rate = 2\<rparr>]"
  have "fill_rate (\<lambda>x. x) (?ps ! 0) = 2" by (simp add: fill_rate_def)
  with local_limit_rate [OF timed_buckets_law ieee_rounding_id, of 0 ?ps "[(0, 0, ()), (1, 1, ()), (2, 0, ())]"
      "\<lambda>h ms. ms = []" False 0]
  show ?thesis by (simp del: passed.simps)
qed

end
