(* ===== verification/Metadata_Values.thy ===== *)
theory Metadata_Values
  imports Prelude
begin

text \<open>
  Metadata of routes, clusters and streams: structs of protobuf values by name space, and
  \<^verbatim>\<open>source/common/metadata/typed_metadata.{h,cc}\<close>, which turns the simple values of a struct into strings.
\<close>

section \<open>Metadata\<close>

datatype pb_value =
    NullValue
  | NumberValue real
  | StringValue string
  | BoolValue bool
  | StructValue "(string \<times> pb_value) list"
  | ListValue "pb_value list"
  | KindNotSet

type_synonym pb_struct = "(string \<times> pb_value) list"
type_synonym metadata = "(string \<times> pb_struct) list"

text \<open>\<^verbatim>\<open>(*m.mutable_filter_metadata())[ns]\<close> makes an empty struct for a name space that has none.\<close>

definition mutable_struct :: "string \<Rightarrow> metadata \<Rightarrow> metadata" where
  "mutable_struct ns m = (case map_of m ns of None \<Rightarrow> AList.update ns [] m | Some _ \<Rightarrow> m)"

definition set_field :: "string \<Rightarrow> string \<Rightarrow> pb_value \<Rightarrow> metadata \<Rightarrow> metadata" where
  "set_field ns k v m =
     AList.update ns (AList.update k v (case map_of m ns of None \<Rightarrow> [] | Some s \<Rightarrow> s)) m"

definition field :: "string \<Rightarrow> string \<Rightarrow> metadata \<Rightarrow> pb_value option" where
  "field ns k m = (case map_of m ns of None \<Rightarrow> None | Some s \<Rightarrow> map_of s k)"

lemma field_set_field: "field ns k (set_field ns' k' v m) = (if ns = ns' \<and> k = k' then Some v else field ns k m)"
  by (auto simp: field_def set_field_def split: option.splits)

lemma field_mutable_struct [simp]: "field ns k (mutable_struct ns' m) = field ns k m"
  by (auto simp: field_def mutable_struct_def split: option.splits)

text \<open>\<^verbatim>\<open>insert\<close> of \<^verbatim>\<open>std::map\<close> keeps an entry that is there.\<close>

definition map_insert :: "'k \<times> 'v \<Rightarrow> ('k \<times> 'v) list \<Rightarrow> ('k \<times> 'v) list" where
  "map_insert e m = (case map_of m (fst e) of None \<Rightarrow> m @ [e] | Some _ \<Rightarrow> m)"

section \<open>Simple values as strings\<close>

text \<open>\<^verbatim>\<open>std::to_string\<close> of a 64 bit integer.\<close>

definition decimal_int :: "int \<Rightarrow> string" where
  "decimal_int i = (if i < 0 then CHR ''-'' # decimal_nat (nat (- i)) else decimal_nat (nat i))"

text \<open>
  \<^verbatim>\<open>std::to_string\<close> of a \<^verbatim>\<open>double\<close> is the format \<^verbatim>\<open>%f\<close>: six digits after the point, rounded to nearest with ties to
  even. A finite \<^verbatim>\<open>double\<close> is a real number here.
\<close>

definition round_half_even :: "real \<Rightarrow> int" where
  "round_half_even x =
     (let n = \<lfloor>x\<rfloor>; d = x - of_int n
      in if d < 1 / 2 then n else if 1 / 2 < d then n + 1 else if even n then n else n + 1)"

definition fixed6 :: "real \<Rightarrow> string" where
  "fixed6 x =
     (let n = nat (round_half_even (\<bar>x\<bar> * 10 ^ 6))
      in (if x < 0 then ''-'' else '''') @ decimal_nat (n div 10 ^ 6) @ ''.'' @ digits 6 (n mod 10 ^ 6))"

text \<open>
  \<^verbatim>\<open>int64_t(number)\<close> truncates. C++ leaves the conversion of a number that does not fit undefined, so what it gives
  is the argument \<open>overflow\<close>.
\<close>

definition int64_of_double :: "(real \<Rightarrow> int) \<Rightarrow> real \<Rightarrow> int" where
  "int64_of_double overflow x =
     (let t = (if 0 \<le> x then \<lfloor>x\<rfloor> else \<lceil>x\<rceil>)
      in if - (2 ^ 63) \<le> t \<and> t < 2 ^ 63 then t else overflow x)"

definition doubleToString :: "(real \<Rightarrow> int) \<Rightarrow> real \<Rightarrow> string" where
  "doubleToString overflow number =
     (if real_of_int (int64_of_double overflow number) = number
      then decimal_int (int64_of_double overflow number) else fixed6 number)"

definition value_string :: "(real \<Rightarrow> int) \<Rightarrow> pb_value \<Rightarrow> string" where
  "value_string overflow v =
     (case v of BoolValue b \<Rightarrow> (if b then ''true'' else ''false'')
      | StringValue s \<Rightarrow> s
      | NumberValue d \<Rightarrow> doubleToString overflow d
      | _ \<Rightarrow> '''')"

definition MetadataToSimpleMap :: "(real \<Rightarrow> int) \<Rightarrow> pb_struct \<Rightarrow> (string \<times> string) list" where
  "MetadataToSimpleMap overflow data =
     fold (\<lambda>(k, v) m. AList.update k (value_string overflow v) m) data []"

lemma map_of_fold_update:
  "distinct (map fst es) \<Longrightarrow>
   map_of (fold (\<lambda>(k, v) m. AList.update k (f v) m) es m) k =
     (case map_of es k of None \<Rightarrow> map_of m k | Some v \<Rightarrow> Some (f v))"
proof (induction es arbitrary: m)
  case (Cons e es)
  obtain n v where e: "e = (n, v)" by (cases e)
  from Cons.prems have "map_of es n = None" by (auto simp: e map_of_eq_None_iff)
  with Cons show ?case by (auto simp: e split: option.split)
qed simp

text \<open>Every field of the struct is in the map, the fields that are not simple with the empty string.\<close>

lemma MetadataToSimpleMap_lookup:
  "distinct (map fst data) \<Longrightarrow>
   map_of (MetadataToSimpleMap overflow data) k = map_option (value_string overflow) (map_of data k)"
  by (simp add: MetadataToSimpleMap_def map_of_fold_update split: option.split)

lemma distinct_MetadataToSimpleMap [simp]: "distinct (map fst (MetadataToSimpleMap overflow data))"
proof -
  have "distinct (map fst m) \<Longrightarrow> distinct (map fst (fold (\<lambda>(k, v) m. AList.update k (f v) m) data m))"
    for m :: "(string \<times> string) list" and f :: "pb_value \<Rightarrow> string"
    by (induction data arbitrary: m) (auto simp: distinct_update)
  then show ?thesis by (simp add: MetadataToSimpleMap_def)
qed

text \<open>A whole number that fits is written without a fraction, and a number that is not whole with one.\<close>

lemma doubleToString_int: "- (2 ^ 63) \<le> i \<Longrightarrow> i < 2 ^ 63 \<Longrightarrow> doubleToString overflow (of_int i) = decimal_int i"
  by (simp add: doubleToString_def int64_of_double_def)

lemma doubleToString_fraction:
  assumes "x \<notin> \<int>" shows "doubleToString overflow x = fixed6 x"
proof -
  have "real_of_int (int64_of_double overflow x) \<noteq> x" using assms Ints_of_int by metis
  then show ?thesis by (simp add: doubleToString_def)
qed

end
