(* ===== verification/Traffic_Mark.thy ===== *)
theory Traffic_Mark
  imports Header_Map Metadata_Values "HOL-Library.Sublist"
begin

text \<open>
  The traffic mark filter, \<^verbatim>\<open>source/filters/http/traffic_mark/traffic_mark_filter.{h,cc}\<close>: it writes the colour of a
  request into the metadata by which the load balancer chooses a host.

  \<^item> Looking a value of the metadata up along a path and writing one value are helpers
    of Envoy (\<^verbatim>\<open>Config::Metadata\<close>), so they are fields of the parameter \<open>mark_env\<close>, with the token splitter and the
    table of clusters; \<open>metadata_writer\<close> is what \<^verbatim>\<open>mutableMetadataValue\<close> promises.
  \<^item> Colours are paths separated by dots. \<open>fallback_of\<close> is the specification of the choice: the requested colour, or
    its longest ancestor that the cluster has.
\<close>

section \<open>Configuration\<close>

record metadata_path =
  mp_namespace :: string
  mp_path :: "string list"

record mark_proto =
  mark_header_key :: string
  mark_match_key :: string
  mark_all_colors_key :: string
  mark_metadata_as_mark :: "(string \<times> metadata_path) list"

record mark_config =
  header_key :: string
  match_key :: string
  all_colors_key :: string
  metadata_as_mark :: "(string \<times> metadata_path) list"

definition MarkConfigImpl :: "mark_proto \<Rightarrow> mark_config" where
  "MarkConfigImpl p =
     \<lparr>header_key = mark_header_key p, match_key = mark_match_key p, all_colors_key = mark_all_colors_key p,
      metadata_as_mark = fold map_insert (mark_metadata_as_mark p) []\<rparr>"

section \<open>The choice of a colour\<close>

text \<open>The first test excludes a colour as long as the request's, so the character after the prefix exists.\<close>

fun find_color_loop :: "string list \<Rightarrow> string \<Rightarrow> string \<Rightarrow> string" where
  "find_color_loop [] to_find fallback = fallback"
| "find_color_loop (each # colors) to_find fallback =
     (if each = to_find then to_find
      else find_color_loop colors to_find
             (if prefix each to_find \<and> to_find ! length each = CHR ''.'' \<and> length each > length fallback
              then each else fallback))"

definition tryFindColor :: "string list \<Rightarrow> string \<Rightarrow> string" where
  "tryFindColor colors to_find = find_color_loop colors to_find ''''"

section \<open>The filter\<close>

record 'h mark_env =
  mk_headers :: "'h header_map_ops"
  mk_metadataValue :: "metadata \<Rightarrow> string \<Rightarrow> string list \<Rightarrow> pb_value"
  mk_mutableMetadataValue :: "string \<Rightarrow> string \<Rightarrow> pb_value \<Rightarrow> metadata \<Rightarrow> metadata"
  mk_splitToken :: "string \<Rightarrow> string \<Rightarrow> string list"
  mk_cluster_metadata :: "string \<Rightarrow> metadata option"

text \<open>
  A route with its metadata; \<open>None\<close> for the name of the cluster is a route without an entry, for example a
  redirect. \<open>mk_cluster_metadata\<close> is \<open>None\<close> for a cluster that is unknown or has no information.
\<close>

record mark_route =
  rt_metadata :: metadata
  rt_cluster :: "string option"

definition ENVOY_LB :: string where
  "ENVOY_LB = ''envoy.lb''"

definition cluster_metadata_group_key :: string where
  "cluster_metadata_group_key = ''qingzhou''"

fun simple_kind :: "pb_value \<Rightarrow> bool" where
  "simple_kind (StringValue _) = True"
| "simple_kind (NumberValue _) = True"
| "simple_kind (BoolValue _) = True"
| "simple_kind _ = False"

definition mark_from_route :: "'h mark_env \<Rightarrow> metadata \<Rightarrow> string \<times> metadata_path \<Rightarrow> metadata \<Rightarrow> metadata" where
  "mark_from_route E rm e m =
     (let v = mk_metadataValue E rm (mp_namespace (snd e)) (mp_path (snd e))
      in if simple_kind v then set_field ENVOY_LB (fst e) v m else m)"

definition tm_decodeHeaders ::
    "'h mark_env \<Rightarrow> mark_config \<Rightarrow> mark_route option \<Rightarrow> 'h \<Rightarrow> metadata \<Rightarrow> headers_status \<times> metadata" where
  "tm_decodeHeaders E cfg route headers m =
     (case route of
        None \<Rightarrow> (Continue, m)
      | Some r \<Rightarrow>
        (case rt_cluster r of
           None \<Rightarrow> (Continue, m)
         | Some cluster_name \<Rightarrow>
           (let m1 = fold (mark_from_route E (rt_metadata r)) (metadata_as_mark cfg) (mutable_struct ENVOY_LB m);
                request_color = (case hm_get (mk_headers E) (lower (header_key cfg)) headers of
                                   [] \<Rightarrow> '''' | e # _ \<Rightarrow> snd e)
            in case mk_cluster_metadata E cluster_name of
                 None \<Rightarrow> (Continue, m1)
               | Some cm \<Rightarrow>
                 (case mk_metadataValue E cm cluster_metadata_group_key [all_colors_key cfg] of
                    StringValue s \<Rightarrow>
                      (let all_colors = mk_splitToken E s '',''
                       in if all_colors = [] then (Continue, m1)
                          else (Continue,
                                mk_mutableMetadataValue E ENVOY_LB (match_key cfg)
                                  (StringValue (tryFindColor all_colors request_color)) m1))
                  | _ \<Rightarrow> (Continue, m1)))))"

section \<open>The colour that is chosen\<close>

text \<open>The colours of the cluster that are ancestors of the requested one.\<close>

definition ancestors :: "string list \<Rightarrow> string \<Rightarrow> string set" where
  "ancestors colors c = {x \<in> set colors. \<exists>rest. c = x @ CHR ''.'' # rest}"

definition fallback_of :: "string list \<Rightarrow> string \<Rightarrow> string \<Rightarrow> bool" where
  "fallback_of colors c r \<longleftrightarrow>
     (if c \<in> set colors then r = c
      else if ancestors colors c = {} then r = ''''
      else r \<in> ancestors colors c \<and> (\<forall>x \<in> ancestors colors c. length x \<le> length r))"

lemma dot_prefix_iff:
  assumes "each \<noteq> c"
  shows "prefix each c \<and> c ! length each = CHR ''.'' \<longleftrightarrow> (\<exists>rest. c = each @ CHR ''.'' # rest)"
proof
  assume dot: "prefix each c \<and> c ! length each = CHR ''.''"
  then obtain zs where "c = each @ zs" by (auto simp: prefix_def)
  with dot assms show "\<exists>rest. c = each @ CHR ''.'' # rest" by (cases zs) (auto simp: nth_append)
qed auto

text \<open>The index the code reads is inside the requested colour.\<close>

lemma dot_index_in_bounds: "each \<noteq> c \<Longrightarrow> prefix each c \<Longrightarrow> length each < length c"
  by (auto simp: prefix_def)

lemma fallback_unique: "fallback_of colors c r \<Longrightarrow> fallback_of colors c r' \<Longrightarrow> r = r'"
  by (auto simp: fallback_of_def ancestors_def split: if_splits) (metis append_eq_append_conv order_antisym)

lemma ancestors_Cons:
  "ancestors (x # xs) c = (if \<exists>rest. c = x @ CHR ''.'' # rest then insert x (ancestors xs c) else ancestors xs c)"
  by (auto simp: ancestors_def)

text \<open>The loop keeps the longest ancestor among the colours it has passed.\<close>

lemma find_color_loop_spec:
  "if c \<in> set colors then find_color_loop colors c f = c
   else find_color_loop colors c f \<in> insert f (ancestors colors c) \<and>
        (\<forall>x \<in> insert f (ancestors colors c). length x \<le> length (find_color_loop colors c f))"
proof (induction colors arbitrary: f)
  case (Cons x xs)
  show ?case
  proof (cases "x = c")
    case False
    let ?f = "if (\<exists>rest. c = x @ CHR ''.'' # rest) \<and> length x > length f then x else f"
    have "find_color_loop (x # xs) c f = find_color_loop xs c ?f"
      using False dot_prefix_iff [OF False] by auto
    then show ?thesis using Cons.IH [of ?f] False
      by (auto simp: ancestors_Cons split: if_splits)
  qed simp
qed (simp add: ancestors_def)

lemma tryFindColor_fallback: "fallback_of colors c (tryFindColor colors c)"
  using find_color_loop_spec [of c colors "''''"]
  by (auto simp: fallback_of_def tryFindColor_def split: if_splits)

section \<open>What the filter writes\<close>

text \<open>\<^verbatim>\<open>mutableMetadataValue\<close> gives access to one value, which it makes if it is not there.\<close>

definition metadata_writer :: "'h mark_env \<Rightarrow> bool" where
  "metadata_writer E \<longleftrightarrow>
     (\<forall>ns k v m ns' k'. field ns' k' (mk_mutableMetadataValue E ns k v m)
                         = (if ns' = ns \<and> k' = k then Some v else field ns' k' m))"

text \<open>The colours a cluster has, if it is known and its metadata lists them in a string.\<close>

definition cluster_colors :: "'h mark_env \<Rightarrow> mark_config \<Rightarrow> string \<Rightarrow> string list" where
  "cluster_colors E cfg cluster_name =
     (case mk_cluster_metadata E cluster_name of
        None \<Rightarrow> []
      | Some cm \<Rightarrow>
        (case mk_metadataValue E cm cluster_metadata_group_key [all_colors_key cfg] of
           StringValue s \<Rightarrow> mk_splitToken E s '','' | _ \<Rightarrow> []))"

text \<open>The first value of the header that carries the colour of the request.\<close>

definition requested_color :: "'h mark_env \<Rightarrow> mark_config \<Rightarrow> 'h \<Rightarrow> string" where
  "requested_color E cfg h =
     (case hm_get (mk_headers E) (lower (header_key cfg)) h of [] \<Rightarrow> '''' | e # _ \<Rightarrow> snd e)"

text \<open>The value of the metadata of the route that a mark copies, if it is a string, a number or a bool.\<close>

definition route_mark :: "'h mark_env \<Rightarrow> mark_config \<Rightarrow> metadata \<Rightarrow> string \<Rightarrow> pb_value option" where
  "route_mark E cfg rm k =
     (case map_of (metadata_as_mark cfg) k of
        None \<Rightarrow> None
      | Some p \<Rightarrow> (let v = mk_metadataValue E rm (mp_namespace p) (mp_path p) in if simple_kind v then Some v else None))"

lemma distinct_map_insert: "distinct (map fst m) \<Longrightarrow> distinct (map fst (map_insert e m))"
  by (auto simp: map_insert_def map_of_eq_None_iff split: option.splits)

lemma distinct_fold_map_insert: "distinct (map fst m) \<Longrightarrow> distinct (map fst (fold map_insert es m))"
  by (induction es arbitrary: m) (simp_all add: distinct_map_insert)

lemma distinct_marks: "distinct (map fst (metadata_as_mark (MarkConfigImpl p)))"
  by (simp add: MarkConfigImpl_def distinct_fold_map_insert)

lemma field_mark_from_route:
  "field ns k (mark_from_route E rm e m) =
     (if ns = ENVOY_LB \<and> k = fst e \<and> simple_kind (mk_metadataValue E rm (mp_namespace (snd e)) (mp_path (snd e)))
      then Some (mk_metadataValue E rm (mp_namespace (snd e)) (mp_path (snd e))) else field ns k m)"
  by (auto simp: mark_from_route_def Let_def field_set_field)

lemma field_marks_from_route:
  assumes "distinct (map fst marks)"
  shows "field ns k (fold (mark_from_route E rm) marks m) =
     (if ns = ENVOY_LB
      then (case map_of marks k of
              None \<Rightarrow> field ns k m
            | Some p \<Rightarrow> (let v = mk_metadataValue E rm (mp_namespace p) (mp_path p)
                         in if simple_kind v then Some v else field ns k m))
      else field ns k m)"
  using assms
proof (induction marks arbitrary: m)
  case (Cons e marks)
  have "map_of marks (fst e) = None" using Cons.prems by (simp add: map_of_eq_None_iff)
  with Cons show ?case by (auto simp: field_mark_from_route Let_def split: option.splits)
qed simp

lemma tm_decodeHeaders_eq:
  "tm_decodeHeaders E cfg (Some r) h m =
     (case rt_cluster r of
        None \<Rightarrow> (Continue, m)
      | Some cl \<Rightarrow>
          (let m1 = fold (mark_from_route E (rt_metadata r)) (metadata_as_mark cfg) (mutable_struct ENVOY_LB m)
           in if cluster_colors E cfg cl = [] then (Continue, m1)
              else (Continue, mk_mutableMetadataValue E ENVOY_LB (match_key cfg)
                      (StringValue (tryFindColor (cluster_colors E cfg cl) (requested_color E cfg h))) m1)))"
  by (auto simp: tm_decodeHeaders_def cluster_colors_def requested_color_def Let_def
           split: option.split pb_value.split)

text \<open>
  Traffic marks. On a route with an entry the filter sets the field of the load balancer's metadata under the
  match key to the requested colour, if the cluster has it, and otherwise to the longest ancestor of the requested
  colour that the cluster has (the empty string without one); when the cluster lists no colours, this field, like
  every other one under \<^verbatim>\<open>envoy.lb\<close>, becomes the value of the route's metadata that a mark names, or stays. No other
  name space changes.
\<close>

theorem traffic_mark_written:
  assumes "metadata_writer E" and cfg: "cfg = MarkConfigImpl p" and cl: "rt_cluster r = Some cl"
  shows "\<exists>m' c. tm_decodeHeaders E cfg (Some r) h m = (Continue, m') \<and>
           fallback_of (cluster_colors E cfg cl) (requested_color E cfg h) c \<and>
           (\<forall>ns k. field ns k m' =
              (if ns \<noteq> ENVOY_LB then field ns k m
               else if k = match_key cfg \<and> cluster_colors E cfg cl \<noteq> [] then Some (StringValue c)
               else case route_mark E cfg (rt_metadata r) k of None \<Rightarrow> field ns k m | Some v \<Rightarrow> Some v))"
proof -
  have marks: "field ns k (fold (mark_from_route E (rt_metadata r)) (metadata_as_mark cfg) (mutable_struct ENVOY_LB m))
      = (if ns \<noteq> ENVOY_LB then field ns k m
         else case route_mark E cfg (rt_metadata r) k of None \<Rightarrow> field ns k m | Some v \<Rightarrow> Some v)" for ns k
    using distinct_marks [of p]
    by (auto simp: field_marks_from_route route_mark_def cfg Let_def split: option.split)
  show ?thesis
    using \<open>metadata_writer E\<close> tryFindColor_fallback [of "cluster_colors E cfg cl" "requested_color E cfg h"]
    by (intro exI [of _ "snd (tm_decodeHeaders E cfg (Some r) h m)"]
          exI [of _ "tryFindColor (cluster_colors E cfg cl) (requested_color E cfg h)"])
       (simp add: tm_decodeHeaders_eq cl Let_def metadata_writer_def marks)
qed

text \<open>
  A cluster with the colours \<^verbatim>\<open>a\<close>, \<^verbatim>\<open>a.b\<close> and \<^verbatim>\<open>a.bc\<close>, a request of colour \<^verbatim>\<open>a.b.c\<close> and a route whose metadata gives the
  mark \<^verbatim>\<open>zone\<close>; the load balancer's metadata has a field that stays.
\<close>

definition example_mark_env :: "(string \<times> string) list mark_env" where
  "example_mark_env =
     \<lparr>mk_headers = list_headers,
      mk_metadataValue = (\<lambda>m ns path. case field ns (hd path) m of None \<Rightarrow> KindNotSet | Some v \<Rightarrow> v),
      mk_mutableMetadataValue = set_field,
      mk_splitToken = (\<lambda>s sep. if s = ''a,a.b,a.bc'' then [''a'', ''a.b'', ''a.bc''] else [s]),
      mk_cluster_metadata = [''c'' \<mapsto> [(''qingzhou'', [(''colors'', StringValue ''a,a.b,a.bc'')])]]\<rparr>"

definition example_mark_proto :: mark_proto where
  "example_mark_proto =
     \<lparr>mark_header_key = ''X-Color'', mark_match_key = ''color'', mark_all_colors_key = ''colors'',
      mark_metadata_as_mark = [(''zone'', \<lparr>mp_namespace = ''route'', mp_path = [''zone'']\<rparr>)]\<rparr>"

theorem traffic_mark_written_witness:
  "\<exists>m'. tm_decodeHeaders example_mark_env (MarkConfigImpl example_mark_proto)
           (Some \<lparr>rt_metadata = [(''route'', [(''zone'', StringValue ''z1'')])], rt_cluster = Some ''c''\<rparr>)
           [(''x-color'', ''a.b.c'')] [(''envoy.lb'', [(''old'', BoolValue True)])] = (Continue, m') \<and>
         field ''envoy.lb'' ''color'' m' = Some (StringValue ''a.b'') \<and>
         field ''envoy.lb'' ''zone'' m' = Some (StringValue ''z1'') \<and>
         field ''envoy.lb'' ''old'' m' = Some (BoolValue True)"
proof -
  let ?cfg = "MarkConfigImpl example_mark_proto"
  let ?r = "\<lparr>rt_metadata = [(''route'', [(''zone'', StringValue ''z1'')])], rt_cluster = Some ''c''\<rparr>"
  let ?h = "[(''x-color'', ''a.b.c'')]" and ?m = "[(''envoy.lb'', [(''old'', BoolValue True)])]"
  have w: "metadata_writer example_mark_env"
    by (simp add: metadata_writer_def example_mark_env_def field_set_field)
  have keys: "match_key ?cfg = ''color''" "all_colors_key ?cfg = ''colors''" "lower (header_key ?cfg) = ''x-color''"
    "metadata_as_mark ?cfg = [(''zone'', \<lparr>mp_namespace = ''route'', mp_path = [''zone'']\<rparr>)]"
    by (simp_all add: MarkConfigImpl_def example_mark_proto_def map_insert_def) code_simp
  have colors: "cluster_colors example_mark_env ?cfg ''c'' = [''a'', ''a.b'', ''a.bc'']"
    by (simp add: cluster_colors_def example_mark_env_def keys field_def cluster_metadata_group_key_def)
  have req: "requested_color example_mark_env ?cfg ?h = ''a.b.c''"
    by (simp add: requested_color_def keys example_mark_env_def list_headers_def)
  have fb: "fallback_of [''a'', ''a.b'', ''a.bc''] ''a.b.c'' c \<Longrightarrow> c = ''a.b''" for c
    by (drule fallback_unique [OF _ tryFindColor_fallback]) (simp add: tryFindColor_def)
  have z: "route_mark example_mark_env ?cfg (rt_metadata ?r) ''zone'' = Some (StringValue ''z1'')"
    "route_mark example_mark_env ?cfg (rt_metadata ?r) ''old'' = None"
    by (simp_all add: route_mark_def keys example_mark_env_def field_def)
  obtain m' c where m': "tm_decodeHeaders example_mark_env ?cfg (Some ?r) ?h ?m = (Continue, m')"
    and c: "fallback_of [''a'', ''a.b'', ''a.bc''] ''a.b.c'' c"
    and f: "\<And>ns k. field ns k m' =
       (if ns \<noteq> ENVOY_LB then field ns k ?m
        else if k = ''color'' then Some (StringValue c)
        else case route_mark example_mark_env ?cfg (rt_metadata ?r) k of None \<Rightarrow> field ns k ?m | Some v \<Rightarrow> Some v)"
    using traffic_mark_written [OF w refl, where p = example_mark_proto and r = ?r and cl = "''c''" and h = ?h and m = ?m]
    unfolding colors req keys by auto
  from fb [OF c] m' z show ?thesis by (simp add: f ENVOY_LB_def) (simp add: field_def)
qed

end
