(* ===== verification/Metadata_Hub.thy ===== *)
theory Metadata_Hub
  imports Header_Map Metadata_Values
begin

text \<open>
  The metadata hub filter, \<^verbatim>\<open>source/filters/http/metadata_hub/metadata_hub.{h,cc}\<close> with the plain state objects of
  \<^verbatim>\<open>source/common/filter_state/plain_state.{h,cc}\<close>: values of headers and of the route's metadata become filter state,
  which access logs read.

  \<^item> The filter state is Envoy's: \<open>hub_setData\<close> and \<open>hub_read\<close> are parameters, and \<open>filter_state_laws\<close> is the comment of
    \<^verbatim>\<open>StreamInfo::FilterState::setData\<close>: it is an error to set a name twice when the existing object is read only or
    the state types differ. Every call of the filter uses the default life span; the state is the one of that life span,
    so a name that another filter has set with a longer one, which is an error as well, is not among what \<open>hub_read\<close> gives.
  \<^item> \<open>decode_publishable\<close> is the condition under which the filter does not run into that error, \<open>published\<close> and
    \<open>route_published\<close> what it writes.
\<close>

section \<open>State objects\<close>

record plain_state =
  ps_value :: string

definition PlainStateImpl :: "string \<Rightarrow> plain_state" where
  "PlainStateImpl v = \<lparr>ps_value = v\<rparr>"

definition serializeAsString :: "plain_state \<Rightarrow> string option" where
  "serializeAsString s = Some (ps_value s)"

datatype state_type = ReadOnly | Mutable

section \<open>Configuration\<close>

record header_record =
  hr_name :: string
  hr_rename :: string

record hub_proto =
  hp_set_to_metadata :: "header_record list"
  hp_decode_headers_to_state :: "header_record list"
  hp_encode_headers_to_state :: "header_record list"
  hp_route_metadata_to_state :: "string list"

text \<open>A record is the name in the state with the name of the header, which the code keeps in a closure.\<close>

record hub_config =
  decode_headers_to_state :: "(string \<times> string) list"
  encode_headers_to_state :: "(string \<times> string) list"
  route_metadata_to_state :: "string list"

definition handle_record :: "header_record \<Rightarrow> (string \<times> string) list \<Rightarrow> (string \<times> string) list" where
  "handle_record r acc =
     (if hr_name r = '''' then acc
      else let rename = (if hr_rename r = '''' then hr_name r else hr_rename r)
           in acc @ [(lower rename, lower (hr_name r))])"

definition MetadataHubCommonConfig :: "hub_proto \<Rightarrow> hub_config" where
  "MetadataHubCommonConfig p =
     \<lparr>decode_headers_to_state = fold handle_record (hp_decode_headers_to_state p @ hp_set_to_metadata p) [],
      encode_headers_to_state = fold handle_record (hp_encode_headers_to_state p) [],
      route_metadata_to_state = hp_route_metadata_to_state p\<rparr>"

section \<open>The filter\<close>

record ('h, 's) hub_env =
  hub_headers :: "'h header_map_ops"
  hub_removeQueryAndFragment :: "string \<Rightarrow> string"
  hub_setData :: "string \<Rightarrow> plain_state \<Rightarrow> state_type \<Rightarrow> 's \<Rightarrow> 's throws"
  hub_read :: "'s \<Rightarrow> string \<Rightarrow> (plain_state \<times> state_type) option"

text \<open>
  A callback ends with a status, with the exception of \<^verbatim>\<open>setData\<close>, or with a null pointer that is dereferenced: the
  assertion on the path is not part of a release build.
\<close>

datatype hub_outcome = Status headers_status | Thrown string | NullDereference

datatype span_event = SetOperation string | SetTag string string

text \<open>The handler of a record: the first value of the header, or the empty string.\<close>

definition record_value :: "'h header_map_ops \<Rightarrow> 'h \<Rightarrow> string \<times> string \<Rightarrow> string" where
  "record_value H h r = (case hm_get H (snd r) h of [] \<Rightarrow> '''' | e # _ \<Rightarrow> snd e)"

fun headersToState ::
    "('h, 's) hub_env \<Rightarrow> 'h \<Rightarrow> (string \<times> string) list \<Rightarrow> 's \<Rightarrow> string option \<times> 's" where
  "headersToState E h [] s = (None, s)"
| "headersToState E h (r # rs) s =
     (let v = record_value (hub_headers E) h r
      in if v = '''' then headersToState E h rs s
         else case hub_setData E (fst r) (PlainStateImpl v) ReadOnly s of
                Inl msg \<Rightarrow> (Some msg, s)
              | Inr s' \<Rightarrow> headersToState E h rs s')"

fun set_pairs ::
    "('h, 's) hub_env \<Rightarrow> (string \<times> string) list \<Rightarrow> 's \<Rightarrow> string option \<times> 's \<times> span_event list" where
  "set_pairs E [] s = (None, s, [])"
| "set_pairs E (e # es) s =
     (case hub_setData E (fst e) (PlainStateImpl (snd e)) Mutable s of
        Inl msg \<Rightarrow> (Some msg, s, [])
      | Inr s' \<Rightarrow> (let (x, s'', tags) = set_pairs E es s' in (x, s'', SetTag (fst e) (snd e) # tags)))"

definition metadataToState ::
    "('h, 's) hub_env \<Rightarrow> (string \<Rightarrow> (string \<times> string) list option) \<Rightarrow> 's \<Rightarrow> string
     \<Rightarrow> string option \<times> 's \<times> span_event list" where
  "metadataToState E typed s ns = (case typed ns of None \<Rightarrow> (None, s, []) | Some vs \<Rightarrow> set_pairs E vs s)"

fun namespacesToState ::
    "('h, 's) hub_env \<Rightarrow> (string \<Rightarrow> (string \<times> string) list option) \<Rightarrow> string list \<Rightarrow> 's
     \<Rightarrow> string option \<times> 's \<times> span_event list" where
  "namespacesToState E typed [] s = (None, s, [])"
| "namespacesToState E typed (ns # nss) s =
     (case metadataToState E typed s ns of
        (Some msg, s', tags) \<Rightarrow> (Some msg, s', tags)
      | (None, s', tags) \<Rightarrow>
          (let (x, s'', tags') = namespacesToState E typed nss s' in (x, s'', tags @ tags')))"

text \<open>
  A route with its typed metadata, the simple maps the factory \<^verbatim>\<open>TypedMetadataFactory\<close> makes of the structs, and
  whether it has an entry.
\<close>

record hub_route =
  hr_typedMetadata :: "string \<Rightarrow> (string \<times> string) list option"
  hr_has_entry :: bool

definition outcome_of :: "string option \<Rightarrow> hub_outcome" where
  "outcome_of x = (case x of None \<Rightarrow> Status Continue | Some msg \<Rightarrow> Thrown msg)"

definition hub_decodeHeaders ::
    "('h, 's) hub_env \<Rightarrow> hub_config \<Rightarrow> hub_route option \<Rightarrow> string option \<Rightarrow> 'h \<Rightarrow> 's
     \<Rightarrow> hub_outcome \<times> 's \<times> span_event list" where
  "hub_decodeHeaders E cfg route path h s =
     (case path of
        None \<Rightarrow> (NullDereference, s, [])
      | Some p \<Rightarrow>
        (let op = SetOperation (hub_removeQueryAndFragment E p)
         in case headersToState E h (decode_headers_to_state cfg) s of
              (Some msg, s1) \<Rightarrow> (Thrown msg, s1, [op])
            | (None, s1) \<Rightarrow>
              (if route_metadata_to_state cfg = [] then (Status Continue, s1, [op])
               else case route of
                 None \<Rightarrow> (Status Continue, s1, [op])
               | Some r \<Rightarrow>
                 (if \<not> hr_has_entry r then (Status Continue, s1, [op])
                  else let (x, s2, tags) = namespacesToState E (hr_typedMetadata r) (route_metadata_to_state cfg) s1
                       in (outcome_of x, s2, op # tags)))))"

definition hub_encodeHeaders :: "('h, 's) hub_env \<Rightarrow> hub_config \<Rightarrow> 'h \<Rightarrow> 's \<Rightarrow> hub_outcome \<times> 's" where
  "hub_encodeHeaders E cfg h s =
     (let (x, s') = headersToState E h (encode_headers_to_state cfg) s in (outcome_of x, s'))"

section \<open>What the filter writes\<close>

definition filter_state_laws :: "('h, 's) hub_env \<Rightarrow> bool" where
  "filter_state_laws E \<longleftrightarrow>
     (\<forall>n v t s. (case hub_read E s n of None \<Rightarrow> True | Some (_, t') \<Rightarrow> t = Mutable \<and> t' = Mutable)
        \<longrightarrow> (\<exists>s'. hub_setData E n v t s = Inr s' \<and> hub_read E s' = (hub_read E s)(n \<mapsto> (v, t)))) \<and>
     (\<forall>n v t s. \<not> (case hub_read E s n of None \<Rightarrow> True | Some (_, t') \<Rightarrow> t = Mutable \<and> t' = Mutable)
        \<longrightarrow> (\<exists>msg. hub_setData E n v t s = Inl msg))"

definition settable :: "('h, 's) hub_env \<Rightarrow> state_type \<Rightarrow> 's \<Rightarrow> string \<Rightarrow> bool" where
  "settable E t s n \<longleftrightarrow> (case hub_read E s n of None \<Rightarrow> True | Some (_, t') \<Rightarrow> t = Mutable \<and> t' = Mutable)"

lemma setData_ok:
  "filter_state_laws E \<Longrightarrow> settable E t s n \<Longrightarrow>
   \<exists>s'. hub_setData E n v t s = Inr s' \<and> hub_read E s' = (hub_read E s)(n \<mapsto> (v, t))"
  unfolding filter_state_laws_def settable_def by blast

lemma setData_error: "filter_state_laws E \<Longrightarrow> \<not> settable E t s n \<Longrightarrow> \<exists>msg. hub_setData E n v t s = Inl msg"
  unfolding filter_state_laws_def settable_def by blast

text \<open>The names and values of the records whose header has a value that is not empty.\<close>

definition published :: "'h header_map_ops \<Rightarrow> 'h \<Rightarrow> (string \<times> string) list \<Rightarrow> (string \<times> string) list" where
  "published H h rs = filter (\<lambda>e. snd e \<noteq> '''') (map (\<lambda>r. (fst r, record_value H h r)) rs)"

definition route_published :: "hub_config \<Rightarrow> hub_route option \<Rightarrow> (string \<times> string) list" where
  "route_published cfg route =
     (case route of
        None \<Rightarrow> []
      | Some r \<Rightarrow> (if hr_has_entry r
                  then concat (map (\<lambda>ns. case hr_typedMetadata r ns of None \<Rightarrow> [] | Some vs \<Rightarrow> vs)
                                 (route_metadata_to_state cfg)) else []))"

definition with_state :: "state_type \<Rightarrow> (string \<times> string) list \<Rightarrow> (string \<Rightarrow> (plain_state \<times> state_type) option)
    \<Rightarrow> string \<Rightarrow> (plain_state \<times> state_type) option" where
  "with_state t es f = fold (\<lambda>(n, v) f. f(n \<mapsto> (PlainStateImpl v, t))) es f"

lemma with_state_Nil [simp]: "with_state t [] f = f"
  and with_state_Cons [simp]: "with_state t ((n, v) # es) f = with_state t es (f(n \<mapsto> (PlainStateImpl v, t)))"
  by (simp_all add: with_state_def)

lemma with_state_append: "with_state t (es @ es') f = with_state t es' (with_state t es f)"
  by (simp add: with_state_def)

lemma with_state_lookup:
  "with_state t es f n = (case map_of (rev es) n of None \<Rightarrow> f n | Some v \<Rightarrow> Some (PlainStateImpl v, t))"
proof (induction es arbitrary: f)
  case (Cons e es)
  then show ?case by (cases e) (auto simp: map_add_def split: option.splits)
qed simp


lemma map_of_rev_distinct: "distinct (map fst es) \<Longrightarrow> map_of (rev es) k = map_of es k"
proof (induction es)
  case (Cons e es)
  then have "fst e = k \<Longrightarrow> map_of es k = None" by (auto simp: map_of_eq_None_iff)
  with Cons show ?case by (cases e) (auto simp: map_add_def split: option.split)
qed simp

lemma settable_ReadOnly [simp]: "settable E ReadOnly s n \<longleftrightarrow> hub_read E s n = None"
  by (auto simp: settable_def split: option.split)

lemma headersToState_spec:
  fixes E :: "('h, 's) hub_env" and h :: 'h
  assumes laws: "filter_state_laws E"
  defines "es rs \<equiv> published (hub_headers E) h rs"
  shows "(\<exists>msg s'. headersToState E h rs s = (Some msg, s') \<and>
            \<not> (distinct (map fst (es rs)) \<and> (\<forall>n \<in> fst ` set (es rs). hub_read E s n = None))) \<or>
         (\<exists>s'. headersToState E h rs s = (None, s') \<and> hub_read E s' = with_state ReadOnly (es rs) (hub_read E s) \<and>
            distinct (map fst (es rs)) \<and> (\<forall>n \<in> fst ` set (es rs). hub_read E s n = None))"
proof (induction rs arbitrary: s)
  case Nil
  then show ?case by (simp add: es_def published_def)
next
  case (Cons r rs)
  let ?v = "record_value (hub_headers E) h r"
  consider "?v = ''''" | "?v \<noteq> ''''" "hub_read E s (fst r) \<noteq> None" | "?v \<noteq> ''''" "hub_read E s (fst r) = None" by blast
  then show ?case
  proof cases
    case 1
    with Cons.IH [of s] show ?thesis by (simp add: es_def published_def)
  next
    case 2
    with setData_error [OF laws, of ReadOnly s "fst r" "PlainStateImpl ?v"] show ?thesis
      by (auto simp: es_def published_def Let_def)
  next
    case 3
    with setData_ok [OF laws, of ReadOnly s "fst r" "PlainStateImpl ?v"] obtain s1
      where s1: "hub_setData E (fst r) (PlainStateImpl ?v) ReadOnly s = Inr s1"
        "hub_read E s1 = (hub_read E s)(fst r \<mapsto> (PlainStateImpl ?v, ReadOnly))" by auto
    have run: "headersToState E h (r # rs) s = headersToState E h rs s1" and es: "es (r # rs) = (fst r, ?v) # es rs"
      using 3 s1 by (simp_all add: es_def published_def)
    have ok: "distinct (map fst (es (r # rs))) \<and> (\<forall>n \<in> fst ` set (es (r # rs)). hub_read E s n = None) \<longleftrightarrow>
        distinct (map fst (es rs)) \<and> (\<forall>n \<in> fst ` set (es rs). hub_read E s1 n = None)"
      using 3 by (auto simp: es s1(2) simp del: not_None_eq intro: rev_image_eqI)
    have ws: "with_state ReadOnly (es (r # rs)) (hub_read E s) = with_state ReadOnly (es rs) (hub_read E s1)"
      by (simp add: es s1(2) del: fun_upd_apply)
    show ?thesis using Cons.IH [of s1] unfolding run ws ok .
  qed
qed

lemma settable_after_Mutable:
  "hub_read E s' = (hub_read E s)(n \<mapsto> (v, Mutable)) \<Longrightarrow>
   settable E Mutable s' k \<longleftrightarrow> k = n \<or> settable E Mutable s k"
  by (auto simp: settable_def)

lemma set_pairs_spec:
  assumes laws: "filter_state_laws E"
  shows "(\<exists>msg s' tags. set_pairs E es s = (Some msg, s', tags) \<and> (\<exists>n \<in> fst ` set es. \<not> settable E Mutable s n)) \<or>
         (\<exists>s'. set_pairs E es s = (None, s', map (\<lambda>e. SetTag (fst e) (snd e)) es) \<and>
            hub_read E s' = with_state Mutable es (hub_read E s) \<and> (\<forall>n \<in> fst ` set es. settable E Mutable s n))"
proof (induction es arbitrary: s)
  case (Cons e es)
  show ?case
  proof (cases "settable E Mutable s (fst e)")
    case False
    with setData_error [OF laws, of Mutable s "fst e" "PlainStateImpl (snd e)"] show ?thesis by auto
  next
    case True
    with setData_ok [OF laws, of Mutable s "fst e" "PlainStateImpl (snd e)"] obtain s1
      where s1: "hub_setData E (fst e) (PlainStateImpl (snd e)) Mutable s = Inr s1"
        "hub_read E s1 = (hub_read E s)(fst e \<mapsto> (PlainStateImpl (snd e), Mutable))" by auto
    have st: "settable E Mutable s1 k \<longleftrightarrow> settable E Mutable s k" for k
      using settable_after_Mutable [OF s1(2), of k] True by auto
    have ws: "with_state Mutable es (hub_read E s1) = with_state Mutable (e # es) (hub_read E s)"
      by (cases e) (simp add: s1(2) del: fun_upd_apply)
    show ?thesis using Cons.IH [of s1] True unfolding st ws by (auto simp: s1(1))
  qed
qed simp

text \<open>The metadata of several name spaces, as one list of pairs.\<close>

definition typed_pairs :: "(string \<Rightarrow> (string \<times> string) list option) \<Rightarrow> string list \<Rightarrow> (string \<times> string) list" where
  "typed_pairs typed nss = concat (map (\<lambda>ns. case typed ns of None \<Rightarrow> [] | Some vs \<Rightarrow> vs) nss)"

lemma set_pairs_append:
  "set_pairs E (es @ es') s =
     (case set_pairs E es s of
        (Some msg, s', tags) \<Rightarrow> (Some msg, s', tags)
      | (None, s', tags) \<Rightarrow> (let (x, s'', tags') = set_pairs E es' s' in (x, s'', tags @ tags')))"
  by (induction es arbitrary: s) (auto split: sum.split prod.split option.split)

lemma namespacesToState_eq: "namespacesToState E typed nss s = set_pairs E (typed_pairs typed nss) s"
proof (induction nss arbitrary: s)
  case (Cons ns nss)
  have "typed_pairs typed (ns # nss) = (case typed ns of None \<Rightarrow> [] | Some vs \<Rightarrow> vs) @ typed_pairs typed nss"
    by (simp add: typed_pairs_def)
  with Cons show ?case
    by (auto simp: metadataToState_def set_pairs_append split: option.split prod.split)
qed (simp add: typed_pairs_def)

text \<open>When publishing does not set a name twice.\<close>

definition decode_publishable ::
    "('h, 's) hub_env \<Rightarrow> hub_config \<Rightarrow> hub_route option \<Rightarrow> 'h \<Rightarrow> 's \<Rightarrow> bool" where
  "decode_publishable E cfg route h s \<longleftrightarrow>
     (let es = published (hub_headers E) h (decode_headers_to_state cfg)
      in distinct (map fst es) \<and> (\<forall>n \<in> fst ` set es. hub_read E s n = None) \<and>
         (\<forall>n \<in> fst ` set (route_published cfg route). n \<notin> fst ` set es \<and> settable E Mutable s n))"

lemma settable_with_ReadOnly:
  assumes "hub_read E s' = with_state ReadOnly es (hub_read E s)"
  shows "settable E Mutable s' n \<longleftrightarrow> n \<notin> fst ` set es \<and> settable E Mutable s n"
proof (cases "map_of (rev es) n")
  case None
  then have "n \<notin> fst ` set es" by (auto simp: map_of_eq_None_iff)
  with None show ?thesis by (simp add: settable_def assms with_state_lookup)
next
  case (Some v)
  then have "n \<in> fst ` set es" by (auto dest!: map_of_SomeD intro: rev_image_eqI)
  with Some show ?thesis by (simp add: settable_def assms with_state_lookup)
qed

lemma hub_decodeHeaders_eq:
  "hub_decodeHeaders E cfg route (Some p) h s =
     (let op = SetOperation (hub_removeQueryAndFragment E p)
      in case headersToState E h (decode_headers_to_state cfg) s of
           (Some msg, s1) \<Rightarrow> (Thrown msg, s1, [op])
         | (None, s1) \<Rightarrow> (let (x, s2, tags) = set_pairs E (route_published cfg route) s1 in (outcome_of x, s2, op # tags)))"
  by (auto simp: hub_decodeHeaders_def route_published_def namespacesToState_eq outcome_of_def Let_def typed_pairs_def
           split: option.split prod.split)

text \<open>
  C39: The metadata hub. When every name is set once (the configured names of the headers with a value are distinct,
  new in the filter state and no key of the route's metadata), the callback continues the request, the filter state
  has for every such name the value of its header, read only, for every key of the route's metadata the last value
  with that key, mutable, and is unchanged elsewhere, and every pair of the metadata is a tag of the span.
  In every other case the callback ends with the exception of the filter state.
\<close>

theorem metadata_hub_publishes:
  assumes "filter_state_laws E"
  shows "if decode_publishable E cfg route h s
     then \<exists>s'. hub_decodeHeaders E cfg route (Some p) h s =
         (Status Continue, s', SetOperation (hub_removeQueryAndFragment E p)
            # map (\<lambda>e. SetTag (fst e) (snd e)) (route_published cfg route)) \<and>
       (\<forall>n. hub_read E s' n =
          (case map_of (published (hub_headers E) h (decode_headers_to_state cfg)) n of
             Some v \<Rightarrow> Some (PlainStateImpl v, ReadOnly)
           | None \<Rightarrow>
             (case map_of (rev (route_published cfg route)) n of
                Some v \<Rightarrow> Some (PlainStateImpl v, Mutable) | None \<Rightarrow> hub_read E s n)))
     else \<exists>msg s' spans. hub_decodeHeaders E cfg route (Some p) h s = (Thrown msg, s', spans)"
proof -
  let ?es = "published (hub_headers E) h (decode_headers_to_state cfg)" and ?rs = "route_published cfg route"
  have np: "\<not> decode_publishable E cfg route h s"
    if "\<not> (distinct (map fst ?es) \<and> (\<forall>n \<in> fst ` set ?es. hub_read E s n = None))"
    using that by (simp add: decode_publishable_def Let_def)
  from headersToState_spec [OF assms, of h "decode_headers_to_state cfg" s]
  consider (err) msg s1 where "headersToState E h (decode_headers_to_state cfg) s = (Some msg, s1)"
      "\<not> decode_publishable E cfg route h s"
    | (ok) s1 where "headersToState E h (decode_headers_to_state cfg) s = (None, s1)"
      "hub_read E s1 = with_state ReadOnly ?es (hub_read E s)" "distinct (map fst ?es)"
      "\<forall>n \<in> fst ` set ?es. hub_read E s n = None"
    by (elim disjE exE conjE) (rule that(1), assumption, rule np, assumption, rule that(2))
  then show ?thesis
  proof cases
    case err
    then show ?thesis by (simp add: hub_decodeHeaders_eq Let_def)
  next
    case ok
    have pub: "decode_publishable E cfg route h s \<longleftrightarrow> (\<forall>n \<in> fst ` set ?rs. settable E Mutable s1 n)"
      using ok(3,4) unfolding decode_publishable_def Let_def settable_with_ReadOnly [OF ok(2)] by blast
    have run: "hub_decodeHeaders E cfg route (Some p) h s =
        (let (x, s2, tags) = set_pairs E ?rs s1
         in (outcome_of x, s2, SetOperation (hub_removeQueryAndFragment E p) # tags))"
      by (simp add: hub_decodeHeaders_eq ok(1) Let_def)
    from set_pairs_spec [OF assms, of ?rs s1] show ?thesis
    proof (elim disjE exE conjE)
      fix msg s' tags
      assume "set_pairs E ?rs s1 = (Some msg, s', tags)" "\<exists>n \<in> fst ` set ?rs. \<not> settable E Mutable s1 n"
      then show ?thesis unfolding pub run by (auto simp: outcome_of_def)
    next
      fix s'
      assume s': "set_pairs E ?rs s1 = (None, s', map (\<lambda>e. SetTag (fst e) (snd e)) ?rs)"
        "hub_read E s' = with_state Mutable ?rs (hub_read E s1)" "\<forall>n \<in> fst ` set ?rs. settable E Mutable s1 n"
      have "hub_read E s' n = (case map_of ?es n of Some v \<Rightarrow> Some (PlainStateImpl v, ReadOnly)
          | None \<Rightarrow> (case map_of (rev ?rs) n of Some v \<Rightarrow> Some (PlainStateImpl v, Mutable) | None \<Rightarrow> hub_read E s n))" for n
      proof -
        have "map_of (rev ?rs) n = None \<or> map_of ?es n = None"
          using s'(3) by (auto simp: settable_with_ReadOnly [OF ok(2)] map_of_eq_None_iff)
        then show ?thesis
          by (auto simp: s'(2) ok(2) with_state_lookup map_of_rev_distinct [OF ok(3)] split: option.splits)
      qed
      with s' show ?thesis unfolding pub run by (auto simp: outcome_of_def)
    qed
  qed
qed

subsection \<open>A concrete filter state\<close>

definition list_state_env :: "((string \<times> string) list, (string \<times> plain_state \<times> state_type) list) hub_env" where
  "list_state_env =
     \<lparr>hub_headers = list_headers,
      hub_removeQueryAndFragment = takeWhile (\<lambda>c. c \<noteq> CHR ''?'' \<and> c \<noteq> CHR ''#''),
      hub_setData = (\<lambda>n v t s. case map_of s n of
         None \<Rightarrow> Inr (AList.update n (v, t) s)
       | Some (_, t') \<Rightarrow> if t = Mutable \<and> t' = Mutable then Inr (AList.update n (v, t) s)
                         else Inl ''FilterState::setData called twice''),
      hub_read = map_of\<rparr>"

lemma list_state_laws: "filter_state_laws list_state_env"
  by (auto simp: filter_state_laws_def list_state_env_def split: option.splits)

definition example_hub_proto :: hub_proto where
  "example_hub_proto =
     \<lparr>hp_set_to_metadata = [], hp_decode_headers_to_state = [\<lparr>hr_name = ''X-User'', hr_rename = ''user''\<rparr>],
      hp_encode_headers_to_state = [], hp_route_metadata_to_state = [''hub'']\<rparr>"

definition example_hub_route :: hub_route where
  "example_hub_route =
     \<lparr>hr_typedMetadata = [''hub'' \<mapsto> MetadataToSimpleMap (\<lambda>x. 0) [(''zone'', StringValue ''z1''), (''n'', BoolValue True)]],
      hr_has_entry = True\<rparr>"

text \<open>
  The second half is the configuration of an upgrade: the same header in the old field \<^verbatim>\<open>set_to_metadata\<close> and in
  \<^verbatim>\<open>decode_headers_to_state\<close>. A request with that header ends in the exception.
\<close>

theorem metadata_hub_publishes_witness:
  "(\<exists>s'. hub_decodeHeaders list_state_env (MetadataHubCommonConfig example_hub_proto) (Some example_hub_route)
           (Some ''/p?q'') [(''x-user'', ''bob'')] [] =
         (Status Continue, s', [SetOperation ''/p'', SetTag ''zone'' ''z1'', SetTag ''n'' ''true'']) \<and>
         map_of s' ''user'' = Some (PlainStateImpl ''bob'', ReadOnly) \<and>
         map_of s' ''n'' = Some (PlainStateImpl ''true'', Mutable)) \<and>
   (\<exists>msg s' spans. hub_decodeHeaders list_state_env
           (MetadataHubCommonConfig (example_hub_proto\<lparr>hp_set_to_metadata := hp_decode_headers_to_state example_hub_proto\<rparr>))
           (Some example_hub_route) (Some ''/p?q'') [(''x-user'', ''bob'')] [] = (Thrown msg, s', spans))"
proof -
  let ?c = "MetadataHubCommonConfig example_hub_proto"
  let ?c2 = "MetadataHubCommonConfig (example_hub_proto\<lparr>hp_set_to_metadata := hp_decode_headers_to_state example_hub_proto\<rparr>)"
  let ?h = "[(''x-user'', ''bob'')]"
  have low: "lower ''user'' = ''user''" "lower ''X-User'' = ''x-user''" by code_simp+
  have cfg: "decode_headers_to_state ?c = [(''user'', ''x-user'')]" "route_metadata_to_state ?c = [''hub'']"
    "decode_headers_to_state ?c2 = [(''user'', ''x-user''), (''user'', ''x-user'')]"
    by (simp_all add: MetadataHubCommonConfig_def example_hub_proto_def handle_record_def low)
  have pub: "published (hub_headers list_state_env) ?h (decode_headers_to_state ?c) = [(''user'', ''bob'')]"
    "map fst (published (hub_headers list_state_env) ?h (decode_headers_to_state ?c2)) = [''user'', ''user'']"
    by (simp_all add: cfg published_def record_value_def list_state_env_def list_headers_def)
  have route: "route_published ?c (Some example_hub_route) = [(''zone'', ''z1''), (''n'', ''true'')]"
    by (simp add: route_published_def example_hub_route_def cfg MetadataToSimpleMap_def value_string_def)
  have ok: "decode_publishable list_state_env ?c (Some example_hub_route) ?h []"
    by (simp add: decode_publishable_def pub route settable_def) (simp add: list_state_env_def)
  have bad: "\<not> decode_publishable list_state_env ?c2 (Some example_hub_route) ?h []"
    using pub(2) by (simp add: decode_publishable_def Let_def)
  have read: "hub_read list_state_env = map_of" and path: "hub_removeQueryAndFragment list_state_env ''/p?q'' = ''/p''"
    by (simp_all add: list_state_env_def)
  from metadata_hub_publishes [OF list_state_laws, of ?c "Some example_hub_route" ?h "[]" "''/p?q''"] ok
  have one: "\<exists>s'. hub_decodeHeaders list_state_env ?c (Some example_hub_route) (Some ''/p?q'') ?h [] =
         (Status Continue, s', [SetOperation ''/p'', SetTag ''zone'' ''z1'', SetTag ''n'' ''true'']) \<and>
         map_of s' ''user'' = Some (PlainStateImpl ''bob'', ReadOnly) \<and>
         map_of s' ''n'' = Some (PlainStateImpl ''true'', Mutable)"
    by (auto simp: pub(1) route read path)
  from metadata_hub_publishes [OF list_state_laws, of ?c2 "Some example_hub_route" ?h "[]" "''/p?q''"] bad
  have "\<exists>msg s' spans. hub_decodeHeaders list_state_env ?c2 (Some example_hub_route) (Some ''/p?q'') ?h [] =
         (Thrown msg, s', spans)" by simp
  with one show ?thesis by blast
qed

text \<open>The response side: the same for the headers of the response, without metadata.\<close>

lemma hub_encodeHeaders_publishes:
  fixes E :: "('h, 's) hub_env" and h :: 'h and cfg :: hub_config
  assumes "filter_state_laws E"
  defines "es \<equiv> published (hub_headers E) h (encode_headers_to_state cfg)"
  shows "if distinct (map fst es) \<and> (\<forall>n \<in> fst ` set es. hub_read E s n = None)
     then \<exists>s'. hub_encodeHeaders E cfg h s = (Status Continue, s') \<and>
            hub_read E s' = with_state ReadOnly es (hub_read E s)
     else \<exists>msg s'. hub_encodeHeaders E cfg h s = (Thrown msg, s')"
  using headersToState_spec [OF assms(1), of h "encode_headers_to_state cfg" s]
  by (elim disjE exE conjE) (auto simp: hub_encodeHeaders_def outcome_of_def es_def simp del: not_None_eq)

end
