(* ===== verification/Stats_Scopes.thy ===== *)
theory Stats_Scopes
  imports Prelude
begin

text \<open>
  The shared scopes of the detailed statistics, \<^verbatim>\<open>TagsMetadataStats::StatsScopes\<close> of
  \<^verbatim>\<open>source/filters/http/detailed_stats/detailed_stats.{h,cc}\<close>. Route and host metadata with the same configuration share
  one object with four scopes; a global table keeps a weak pointer to it under the printed configuration.

  \<^item> A \<open>shared_ptr\<close> is an identity with the use count of its control block; a weak pointer is an identity, expired when
    that count is 0. The mutex of the table makes \<open>getStatsScopesFromProto\<close> and \<open>eraseStatsScopes\<close> single steps.
  \<^item> \<open>sr_live\<close> are the metadata objects that exist, with the scopes each one holds; objects are made by the factories
    and destroyed in any order, on any thread.
  \<^item> Printing the configuration is protobuf's text format, the parameter \<open>print\<close>.
\<close>

section \<open>Scopes\<close>

record stat_tags_proto =
  st_prefix :: string
  st_tags :: "(string \<times> string) list"

record stats_scopes =
  string_config :: string
  request_total_scope :: string
  request_bytes_scope :: string
  response_bytes_scope :: string
  request_time_scope :: string
  scope_tags :: "(string \<times> string) list"

definition StatsScopes :: "stat_tags_proto \<Rightarrow> string \<Rightarrow> stats_scopes" where
  "StatsScopes p config =
     \<lparr>string_config = config,
      request_total_scope = st_prefix p @ ''.requests_total'',
      request_bytes_scope = st_prefix p @ ''.request_bytes'',
      response_bytes_scope = st_prefix p @ ''.response_bytes'',
      request_time_scope = st_prefix p @ ''.request_duration_milliseconds'',
      scope_tags = st_tags p\<rparr>"

section \<open>The table\<close>

record scopes_table =
  cached_stats_scopes :: "(string \<times> nat) list"
  sr_object :: "nat \<Rightarrow> stats_scopes option"
  sr_use_count :: "nat \<Rightarrow> nat"
  sr_next :: nat
  sr_live :: "(nat \<times> nat) list"

definition empty_table :: scopes_table where
  "empty_table = \<lparr>cached_stats_scopes = [], sr_object = (\<lambda>_. None), sr_use_count = (\<lambda>_. 0), sr_next = 0, sr_live = []\<rparr>"

definition expired :: "scopes_table \<Rightarrow> nat \<Rightarrow> bool" where
  "expired t a \<longleftrightarrow> sr_use_count t a = 0"

definition getStatsScopesFromProto ::
    "(stat_tags_proto \<Rightarrow> string) \<Rightarrow> stat_tags_proto \<Rightarrow> scopes_table \<Rightarrow> nat \<times> scopes_table" where
  "getStatsScopesFromProto print p t =
     (let config = print p;
          fresh = (let a = sr_next t
                   in (a, t\<lparr>cached_stats_scopes := AList.update config a (cached_stats_scopes t),
                            sr_object := (sr_object t)(a \<mapsto> StatsScopes p config),
                            sr_use_count := (sr_use_count t)(a := 1), sr_next := Suc a\<rparr>))
      in case map_of (cached_stats_scopes t) config of
           None \<Rightarrow> fresh
         | Some a \<Rightarrow> (if expired t a then fresh
                      else (a, t\<lparr>sr_use_count := (sr_use_count t)(a := Suc (sr_use_count t a))\<rparr>)))"

text \<open>The pointer is moved into the argument, so the count includes it until the reset.\<close>

definition eraseStatsScopes :: "nat \<Rightarrow> scopes_table \<Rightarrow> scopes_table" where
  "eraseStatsScopes a t =
     (let t1 = (if sr_use_count t a = 1
                then (case sr_object t a of
                        Some s \<Rightarrow> t\<lparr>cached_stats_scopes := AList.delete (string_config s) (cached_stats_scopes t)\<rparr>
                      | None \<Rightarrow> t)
                else t);
          n = sr_use_count t1 a - 1
      in t1\<lparr>sr_use_count := (sr_use_count t1)(a := n),
            sr_object := (if n = 0 then (sr_object t1)(a := None) else sr_object t1)\<rparr>)"

text \<open>The constructor and the destructor of \<^verbatim>\<open>TagsMetadataStats\<close>; \<open>i\<close> is the identity of the metadata object.\<close>

definition TagsMetadataStats :: "(stat_tags_proto \<Rightarrow> string) \<Rightarrow> nat \<Rightarrow> stat_tags_proto \<Rightarrow> scopes_table \<Rightarrow> scopes_table" where
  "TagsMetadataStats print i p t =
     (let (a, t') = getStatsScopesFromProto print p t in t'\<lparr>sr_live := (i, a) # sr_live t'\<rparr>)"

definition destroy_TagsMetadataStats :: "nat \<Rightarrow> scopes_table \<Rightarrow> scopes_table" where
  "destroy_TagsMetadataStats i t =
     (case map_of (sr_live t) i of
        None \<Rightarrow> t
      | Some a \<Rightarrow> (eraseStatsScopes a t)\<lparr>sr_live := AList.delete i (sr_live t)\<rparr>)"

section \<open>Reachable tables\<close>

text \<open>The metadata objects that exist, with the configuration each one was made with, and the table.\<close>

inductive scopes_reach :: "(stat_tags_proto \<Rightarrow> string) \<Rightarrow> (nat \<rightharpoonup> stat_tags_proto) \<Rightarrow> scopes_table \<Rightarrow> bool" for print where
  start: "scopes_reach print Map.empty empty_table"
| make: "scopes_reach print made t \<Longrightarrow> made i = None
    \<Longrightarrow> scopes_reach print (made(i \<mapsto> p)) (TagsMetadataStats print i p t)"
| destroy: "scopes_reach print made t \<Longrightarrow> made i = Some p
    \<Longrightarrow> scopes_reach print (made(i := None)) (destroy_TagsMetadataStats i t)"

text \<open>
  The counts are the numbers of metadata objects, an object exists while its count is not 0, and the table maps
  exactly the configurations of the existing objects to them.
\<close>

definition holders :: "scopes_table \<Rightarrow> nat \<Rightarrow> nat" where
  "holders t a = length (filter (\<lambda>e. snd e = a) (sr_live t))"

definition table_inv :: "scopes_table \<Rightarrow> bool" where
  "table_inv t \<longleftrightarrow>
     distinct (map fst (sr_live t)) \<and>
     (\<forall>a. sr_use_count t a = holders t a) \<and>
     (\<forall>a. sr_object t a \<noteq> None \<longleftrightarrow> 0 < sr_use_count t a) \<and>
     (\<forall>a. sr_next t \<le> a \<longrightarrow> sr_use_count t a = 0) \<and>
     (\<forall>c a. map_of (cached_stats_scopes t) c = Some a \<longleftrightarrow> (\<exists>s. sr_object t a = Some s \<and> string_config s = c))"

lemma table_invD:
  assumes "table_inv t"
  shows "distinct (map fst (sr_live t))" and "sr_use_count t a = holders t a"
    and "sr_object t a \<noteq> None \<longleftrightarrow> 0 < sr_use_count t a" and "sr_next t \<le> a \<Longrightarrow> sr_use_count t a = 0"
    and "map_of (cached_stats_scopes t) c = Some a \<longleftrightarrow> (\<exists>s. sr_object t a = Some s \<and> string_config s = c)"
  using assms unfolding table_inv_def by blast+

lemma table_inv_empty: "table_inv empty_table"
  by (simp add: table_inv_def empty_table_def holders_def)

text \<open>A cached pointer is never expired, so the second half of the code's test never decides.\<close>

lemma cached_not_expired: "table_inv t \<Longrightarrow> map_of (cached_stats_scopes t) c = Some a \<Longrightarrow> \<not> expired t a"
  using table_invD(3) [of t a] table_invD(5) [of t c a] by (auto simp: expired_def)

lemma getStatsScopesFromProto_eq:
  assumes "table_inv t"
  shows "getStatsScopesFromProto print p t =
     (case map_of (cached_stats_scopes t) (print p) of
        None \<Rightarrow> (sr_next t, t\<lparr>cached_stats_scopes := AList.update (print p) (sr_next t) (cached_stats_scopes t),
                  sr_object := (sr_object t)(sr_next t \<mapsto> StatsScopes p (print p)),
                  sr_use_count := (sr_use_count t)(sr_next t := 1), sr_next := Suc (sr_next t)\<rparr>)
      | Some a \<Rightarrow> (a, t\<lparr>sr_use_count := (sr_use_count t)(a := Suc (sr_use_count t a))\<rparr>))"
  using cached_not_expired [OF assms] by (simp add: getStatsScopesFromProto_def Let_def split: option.split)

lemma table_inv_make:
  assumes inv: "table_inv t" and new: "map_of (sr_live t) i = None"
  shows "table_inv (TagsMetadataStats print i p t)"
proof (cases "map_of (cached_stats_scopes t) (print p)")
  case None
  let ?a = "sr_next t"
  have 0: "sr_use_count t ?a = 0" "holders t ?a = 0" "sr_object t ?a = None"
    using table_invD(2-4) [OF inv, of ?a] by simp_all
  have no: "sr_object t b = Some s \<Longrightarrow> string_config s \<noteq> print p" for b s
    using table_invD(5) [OF inv, of "print p" b] None by auto
  show ?thesis
    unfolding table_inv_def TagsMetadataStats_def getStatsScopesFromProto_eq [OF inv] None
    using table_invD [OF inv] 0 no new
    by (auto simp: holders_def map_of_eq_None_iff StatsScopes_def)
next
  case (Some a)
  show ?thesis
    unfolding table_inv_def TagsMetadataStats_def getStatsScopesFromProto_eq [OF inv] Some
    using table_invD [OF inv] Some new
    by (auto simp: holders_def map_of_eq_None_iff)
qed

lemma length_filter_delete:
  assumes "distinct (map fst al)" and "map_of al i = Some a"
  shows "length (filter (\<lambda>e. snd e = b) al) = length (filter (\<lambda>e. snd e = b) (AList.delete i al)) + (if b = a then 1 else 0)"
  using assms
proof (induction al)
  case (Cons e al)
  show ?case
  proof (cases "fst e = i")
    case True
    with Cons.prems have "i \<notin> fst ` set al" "snd e = a" by (cases e; simp)+
    with True show ?thesis by (cases e) (simp add: delete_id)
  next
    case False
    with Cons show ?thesis by (cases e) auto
  qed
qed simp

lemma table_inv_destroy:
  assumes inv: "table_inv t"
  shows "table_inv (destroy_TagsMetadataStats i t)"
proof (cases "map_of (sr_live t) i")
  case None
  with inv show ?thesis by (simp add: destroy_TagsMetadataStats_def)
next
  case (Some a)
  let ?t = "destroy_TagsMetadataStats i t"
  have h: "holders t b = holders ?t b + (if b = a then 1 else 0)" for b
    using length_filter_delete [OF table_invD(1) [OF inv] Some, of b]
    by (simp add: holders_def destroy_TagsMetadataStats_def Some)
  have d: "distinct (map fst (AList.delete i (sr_live t)))"
    using table_invD(1) [OF inv] by (rule distinct_delete)
  have pos: "0 < sr_use_count t a" using h [of a] table_invD(2) [OF inv, of a] by simp
  then obtain s where s: "sr_object t a = Some s" using table_invD(3) [OF inv, of a] by auto
  have cache: "map_of (cached_stats_scopes t) (string_config s) = Some a"
    using table_invD(5) [OF inv] s by blast
  have t: "sr_live ?t = AList.delete i (sr_live t)" "sr_next ?t = sr_next t"
    "sr_use_count ?t = (sr_use_count t)(a := sr_use_count t a - 1)"
    "sr_object ?t = (if sr_use_count t a = 1 then (sr_object t)(a := None) else sr_object t)"
    "cached_stats_scopes ?t = (if sr_use_count t a = 1 then AList.delete (string_config s) (cached_stats_scopes t)
                               else cached_stats_scopes t)"
    using pos by (auto simp: destroy_TagsMetadataStats_def eraseStatsScopes_def Some Let_def s)
  have count: "sr_use_count ?t b = holders ?t b" for b
    using h [of b] table_invD(2) [OF inv, of b] by (auto simp: t(3))
  have object: "sr_object ?t b \<noteq> None \<longleftrightarrow> 0 < sr_use_count ?t b" for b
    using table_invD(3) [OF inv, of b] pos by (auto simp: t(3,4))
  have "map_of (cached_stats_scopes ?t) c = Some b \<longleftrightarrow> (\<exists>s. sr_object ?t b = Some s \<and> string_config s = c)" for c b
    using table_invD(5) [OF inv, of c b] cache s by (auto simp: t(4,5) delete_conv')
  moreover have "sr_next ?t \<le> b \<Longrightarrow> sr_use_count ?t b = 0" for b
    using table_invD(4) [OF inv, of b] by (auto simp: t(2,3))
  moreover have "distinct (map fst (sr_live ?t))" by (simp add: t(1) d)
  ultimately show ?thesis using count object unfolding table_inv_def by blast
qed

text \<open>Every metadata object holds the scopes of its own configuration.\<close>

definition scopes_of :: "(stat_tags_proto \<Rightarrow> string) \<Rightarrow> (nat \<rightharpoonup> stat_tags_proto) \<Rightarrow> scopes_table \<Rightarrow> bool" where
  "scopes_of print made t \<longleftrightarrow>
     dom made = dom (map_of (sr_live t)) \<and>
     (\<forall>i p. made i = Some p \<longrightarrow>
        (\<exists>a. map_of (sr_live t) i = Some a \<and> sr_object t a = Some (StatsScopes p (print p))))"

lemma live_holder: "map_of (sr_live t) j = Some a \<Longrightarrow> 0 < holders t a"
  by (force simp: holders_def filter_empty_conv dest!: map_of_SomeD)

lemma holders_card:
  assumes "distinct (map fst (sr_live t))"
  shows "holders t a = card {j. map_of (sr_live t) j = Some a}"
proof -
  let ?xs = "filter (\<lambda>e. snd e = a) (sr_live t)"
  have "{j. map_of (sr_live t) j = Some a} = fst ` set ?xs" using assms by force
  moreover have "distinct (map fst ?xs)" using assms by (rule distinct_map_filter)
  ultimately show ?thesis using distinct_card [of "map fst ?xs"] by (simp add: holders_def)
qed

lemma holder_live:
  assumes "table_inv t" and "sr_object t a = Some s"
  shows "\<exists>j. map_of (sr_live t) j = Some a"
proof -
  have "0 < holders t a" using table_invD(2,3) [OF assms(1), of a] assms(2) by simp
  then obtain j where "(j, a) \<in> set (sr_live t)" by (auto simp: holders_def filter_empty_conv)
  with table_invD(1) [OF assms(1)] show ?thesis by auto
qed

lemma scopes_of_entry:
  "scopes_of print made t \<Longrightarrow> made i = Some p \<Longrightarrow>
   \<exists>a. map_of (sr_live t) i = Some a \<and> sr_object t a = Some (StatsScopes p (print p))"
  by (simp add: scopes_of_def)

lemma scopes_ofD:
  assumes "scopes_of print made t"
  shows "made i = None \<longleftrightarrow> map_of (sr_live t) i = None"
    and "made i = Some p \<Longrightarrow> map_of (sr_live t) i = Some a \<Longrightarrow> sr_object t a = Some (StatsScopes p (print p))"
proof -
  have d: "dom made = dom (map_of (sr_live t))" using assms by (simp add: scopes_of_def)
  show "made i = None \<longleftrightarrow> map_of (sr_live t) i = None" using d by (metis domIff)
  show "made i = Some p \<Longrightarrow> map_of (sr_live t) i = Some a \<Longrightarrow> sr_object t a = Some (StatsScopes p (print p))"
    using scopes_of_entry [OF assms] by fastforce
qed

text \<open>Scopes that are found under a printed configuration were made from that configuration.\<close>

lemma cached_scopes:
  assumes inv: "table_inv t" "scopes_of print made t" "inj print"
    and a: "map_of (cached_stats_scopes t) (print p) = Some a"
  shows "sr_object t a = Some (StatsScopes p (print p))"
proof -
  obtain s where s: "sr_object t a = Some s" "string_config s = print p"
    using a table_invD(5) [OF inv(1)] by blast
  obtain j where j: "map_of (sr_live t) j = Some a" using holder_live [OF inv(1) s(1)] by blast
  then obtain q where q: "made j = Some q" using scopes_ofD(1) [OF inv(2), of j] by (cases "made j") auto
  have "s = StatsScopes q (print q)" using scopes_ofD(2) [OF inv(2) q j] s(1) by simp
  with s(2) \<open>inj print\<close> have "q = p" by (simp add: StatsScopes_def inj_eq)
  with \<open>s = _\<close> s(1) show ?thesis by simp
qed

lemma scopes_of_make:
  assumes inv: "table_inv t" "scopes_of print made t" "inj print"
  shows "scopes_of print (made(i \<mapsto> p)) (TagsMetadataStats print i p t)"
proof -
  have dom: "dom made = dom (map_of (sr_live t))" using inv(2) by (simp add: scopes_of_def)
  note old = scopes_of_entry [OF inv(2)]
  show ?thesis
  proof (cases "map_of (cached_stats_scopes t) (print p)")
    case None
    have "sr_object t (sr_next t) = None" using table_invD(3,4) [OF inv(1), of "sr_next t"] by simp
    with None dom old show ?thesis
      by (fastforce simp: scopes_of_def TagsMetadataStats_def getStatsScopesFromProto_eq [OF inv(1)])
  next
    case (Some a)
    with dom old cached_scopes [OF inv Some] show ?thesis
      by (auto simp: scopes_of_def TagsMetadataStats_def getStatsScopesFromProto_eq [OF inv(1)])
  qed
qed

lemma scopes_of_destroy:
  assumes inv: "table_inv t" "scopes_of print made t"
  shows "scopes_of print (made(i := None)) (destroy_TagsMetadataStats i t)"
proof (cases "map_of (sr_live t) i")
  case None
  with scopes_ofD(1) [OF inv(2), of i] inv(2) show ?thesis
    by (auto simp: destroy_TagsMetadataStats_def scopes_of_def fun_upd_idem)
next
  case (Some b)
  let ?t = "destroy_TagsMetadataStats i t"
  have live: "sr_live ?t = AList.delete i (sr_live t)" by (simp add: destroy_TagsMetadataStats_def Some)
  have obj: "sr_object ?t a = None \<or> sr_object ?t a = sr_object t a" for a
    by (auto simp: destroy_TagsMetadataStats_def Some eraseStatsScopes_def Let_def split: option.split)
  have "\<exists>a. map_of (sr_live ?t) j = Some a \<and> sr_object ?t a = Some (StatsScopes q (print q))"
    if j: "made j = Some q" and ne: "j \<noteq> i" for j q
  proof -
    obtain a where a: "map_of (sr_live t) j = Some a" "sr_object t a = Some (StatsScopes q (print q))"
      using scopes_of_entry [OF inv(2) j] by blast
    then have l: "map_of (sr_live ?t) j = Some a" using ne by (simp add: live delete_conv')
    have "sr_object ?t a \<noteq> None"
      using table_invD(2,3) [OF table_inv_destroy [OF inv(1), of i], of a] live_holder [OF l] by simp
    with obj [of a] a l show ?thesis by simp
  qed
  moreover have "dom (made(i := None)) = dom (map_of (sr_live ?t))"
    using inv(2) by (auto simp: scopes_of_def live delete_conv' split: if_splits)
  ultimately show ?thesis by (simp add: scopes_of_def)
qed

lemma scopes_reach_inv:
  assumes "scopes_reach print made t" and "inj print"
  shows "table_inv t \<and> scopes_of print made t"
  using assms(1)
proof (induction rule: scopes_reach.induct)
  case start
  show ?case by (simp add: table_inv_empty scopes_of_def) (simp add: empty_table_def)
next
  case (make made t i p)
  with scopes_ofD(1) [of print made t i] assms(2) show ?case
    by (simp add: table_inv_make scopes_of_make del: fun_upd_apply)
next
  case (destroy made t i p)
  then show ?case by (simp add: table_inv_destroy scopes_of_destroy del: fun_upd_apply)
qed

text \<open>The holders of scopes are the objects with the configuration of the scopes.\<close>

lemma holders_made:
  assumes inv: "table_inv t" and sc: "scopes_of print made t" and "inj print"
    and a: "sr_object t a = Some (StatsScopes p (print p))"
  shows "map_of (sr_live t) j = Some a \<longleftrightarrow> made j = Some p"
proof
  assume j: "map_of (sr_live t) j = Some a"
  then obtain q where q: "made j = Some q" using scopes_ofD(1) [OF sc, of j] by (cases "made j") auto
  with scopes_ofD(2) [OF sc q j] a \<open>inj print\<close> show "made j = Some p"
    by (simp add: StatsScopes_def inj_eq)
next
  assume j: "made j = Some p"
  from scopes_of_entry [OF sc j] obtain b
    where b: "map_of (sr_live t) j = Some b" "sr_object t b = Some (StatsScopes p (print p))" by blast
  have "string_config (StatsScopes p (print p)) = print p" by (simp add: StatsScopes_def)
  then have "map_of (cached_stats_scopes t) (print p) = Some b" "map_of (cached_stats_scopes t) (print p) = Some a"
    using table_invD(5) [OF inv] a b(2) by blast+
  with b(1) show "map_of (sr_live t) j = Some a" by simp
qed

text \<open>
  C38: Shared scopes. After any sequence of metadata objects being made and destroyed, in any order, every existing
  object holds scopes with the prefix and the tags of its own configuration, the table leads from the printed
  configuration to exactly these scopes (so two objects share their scopes if and only if they have the same
  configuration), the use count of the scopes is the number of objects that hold them, no cached pointer is expired,
  and a configuration without an object is not in the table.
\<close>

theorem stats_scopes_shared:
  assumes "scopes_reach print made t" and "inj print"
  shows "(\<forall>i p. made i = Some p \<longrightarrow>
            (\<exists>a. map_of (sr_live t) i = Some a \<and> map_of (cached_stats_scopes t) (print p) = Some a \<and>
                 sr_object t a = Some (StatsScopes p (print p)) \<and>
                 sr_use_count t a = card {j. made j = Some p})) \<and>
         (\<forall>c a. map_of (cached_stats_scopes t) c = Some a \<longrightarrow>
            \<not> expired t a \<and> (\<exists>i p. made i = Some p \<and> print p = c))"
proof -
  from scopes_reach_inv [OF assms] have inv: "table_inv t" and sc: "scopes_of print made t" by blast+
  show ?thesis
  proof (intro conjI allI impI)
    fix i p assume i: "made i = Some p"
    from scopes_of_entry [OF sc i] obtain a
      where a: "map_of (sr_live t) i = Some a" "sr_object t a = Some (StatsScopes p (print p))" by blast
    note holds = holders_made [OF inv sc \<open>inj print\<close> a(2)]
    have "sr_use_count t a = card {j. made j = Some p}"
      using table_invD(2) [OF inv, of a] holders_card [OF table_invD(1) [OF inv], of a] by (simp add: holds)
    moreover have "map_of (cached_stats_scopes t) (print p) = Some a"
      using table_invD(5) [OF inv] a(2) by (auto simp: StatsScopes_def)
    ultimately show "\<exists>a. map_of (sr_live t) i = Some a \<and> map_of (cached_stats_scopes t) (print p) = Some a \<and>
        sr_object t a = Some (StatsScopes p (print p)) \<and> sr_use_count t a = card {j. made j = Some p}"
      using a by blast
  next
    fix c a assume c: "map_of (cached_stats_scopes t) c = Some a"
    then show "\<not> expired t a" by (rule cached_not_expired [OF inv])
    obtain s where s: "sr_object t a = Some s" "string_config s = c" using c table_invD(5) [OF inv] by blast
    obtain j where j: "map_of (sr_live t) j = Some a" using holder_live [OF inv s(1)] by blast
    then obtain q where q: "made j = Some q" using scopes_ofD(1) [OF sc, of j] by (cases "made j") auto
    with scopes_ofD(2) [OF sc q j] s show "\<exists>i p. made i = Some p \<and> print p = c" by (auto simp: StatsScopes_def)
  qed
qed

subsection \<open>A concrete printer\<close>

text \<open>Every character is preceded by a mark, and a string and a list end with another one.\<close>

fun mark_string :: "string \<Rightarrow> string" where
  "mark_string [] = ''.''"
| "mark_string (c # s) = CHR ''-'' # c # mark_string s"

fun mark_tags :: "(string \<times> string) list \<Rightarrow> string" where
  "mark_tags [] = ''.''"
| "mark_tags (e # es) = CHR ''-'' # mark_string (fst e) @ mark_string (snd e) @ mark_tags es"

definition mark_print :: "stat_tags_proto \<Rightarrow> string" where
  "mark_print p = mark_string (st_prefix p) @ mark_tags (st_tags p)"

lemma mark_string_inj: "mark_string s @ r = mark_string s' @ r' \<longleftrightarrow> s = s' \<and> r = r'"
proof (induction s arbitrary: s')
  case Nil
  then show ?case by (cases s') auto
next
  case (Cons c s)
  then show ?case by (cases s') auto
qed

lemma mark_tags_inj: "mark_tags es = mark_tags es' \<longleftrightarrow> es = es'"
proof (induction es arbitrary: es')
  case Nil
  then show ?case by (cases es') auto
next
  case (Cons e es)
  then show ?case by (cases es') (auto simp: mark_string_inj prod_eq_iff)
qed

lemma inj_mark_print: "inj mark_print"
  by (rule injI) (auto simp: mark_print_def mark_string_inj mark_tags_inj)

text \<open>Two routes with the same configuration; when the first is gone, the second still has the scopes.\<close>

theorem stats_scopes_shared_witness:
  "let p = \<lparr>st_prefix = ''s'', st_tags = [(''k'', ''v'')]\<rparr>;
       t = destroy_TagsMetadataStats 0 (TagsMetadataStats mark_print 1 p (TagsMetadataStats mark_print 0 p empty_table))
   in \<exists>a. map_of (sr_live t) 1 = Some a \<and> sr_object t a = Some (StatsScopes p (mark_print p)) \<and> sr_use_count t a = 1"
proof -
  define p :: stat_tags_proto where "p = \<lparr>st_prefix = ''s'', st_tags = [(''k'', ''v'')]\<rparr>"
  let ?t1 = "TagsMetadataStats mark_print 1 p (TagsMetadataStats mark_print 0 p empty_table)"
  let ?t = "destroy_TagsMetadataStats 0 ?t1"
  have "scopes_reach mark_print [0 \<mapsto> p] (TagsMetadataStats mark_print 0 p empty_table)"
    by (rule scopes_reach.make [OF scopes_reach.start]) simp
  then have "scopes_reach mark_print [0 \<mapsto> p, 1 \<mapsto> p] ?t1"
    by (rule scopes_reach.make) simp
  then have r: "scopes_reach mark_print ([0 \<mapsto> p, 1 \<mapsto> p](0 := None)) ?t"
    by (rule scopes_reach.destroy) simp
  have one: "([0 \<mapsto> p, 1 \<mapsto> p](0 := None)) (1::nat) = Some p" by simp
  have "{j. ([0 \<mapsto> p, 1 \<mapsto> p](0 := None)) j = Some p} = {1::nat}" by auto
  with stats_scopes_shared [OF r inj_mark_print, THEN conjunct1, rule_format, OF one]
  have "\<exists>a. map_of (sr_live ?t) 1 = Some a \<and> sr_object ?t a = Some (StatsScopes p (mark_print p)) \<and> sr_use_count ?t a = 1"
    by auto
  then show ?thesis by (simp only: p_def Let_def)
qed

end
