(* ===== verification/Detailed_Stats.thy ===== *)
theory Detailed_Stats
  imports Stats_Scopes Proxy_Matcher
begin

text \<open>
  The detailed statistics filter, \<^verbatim>\<open>source/filters/http/detailed_stats/detailed_stats.{h,cc}\<close>: when a stream with a
  response ends, a counter and three histograms are written for the route and for the host, with the tags of their
  configuration, of the response and of the matching entries of the filter's configuration.

  \<^item> A \<^verbatim>\<open>StatName\<close> is the string it stands for. The names of response codes and flags are made once and kept in arrays of
    atomic pointers, \<open>code_stat_names\<close> and \<open>flag_stat_names\<close>; reading a slot that is empty fills it.
  \<^item> The filter keeps a pointer to the response headers, so what it reads at the end are the headers as later filters
    left them; the argument of \<open>ds_onDestroy\<close> is what the pointer leads to then.
  \<^item> The table of response flags is Envoy's and a parameter; the matchers are those of \<open>Proxy_Matcher\<close>.
\<close>

section \<open>Configuration\<close>

type_synonym stat_tag_list = "(string \<times> string) list"

type_synonym ('hm, 'qm, 'sm) matched_stat_tags = "('hm, 'qm, 'sm) matcher list \<times> stat_tag_list"

record ('hm, 'qm, 'sm) matched_stats_proto =
  ms_matcher :: "('hm, 'qm, 'sm) common_matcher_proto"
  ms_stat_tags :: stat_tag_list

definition matched_stats_of ::
    "('h, 'hm, 'qm, 'sm) matcher_env \<Rightarrow> ('hm, 'qm, 'sm) matched_stats_proto list \<Rightarrow> ('hm, 'qm, 'sm) matched_stat_tags list throws" where
  "matched_stats_of M ps =
     construct_all (\<lambda>p. case CommonMatcher M (ms_matcher p) of Inl err \<Rightarrow> Inl err | Inr ms \<Rightarrow> Inr (ms, ms_stat_tags p)) ps"

record ('hm, 'qm, 'sm) ds_config =
  response_code_name :: string
  response_flags_name :: string
  none_flags_or_code :: string
  request_protocol_name :: string
  request_protocol :: string
  matched_stats :: "('hm, 'qm, 'sm) matched_stat_tags list"
  code_stat_names :: "(u32 \<times> string) list"
  flag_stat_names :: "(nat \<times> string) list"

definition ds_CommonConfig ::
    "('h, 'hm, 'qm, 'sm) matcher_env \<Rightarrow> ('hm, 'qm, 'sm) matched_stats_proto list \<Rightarrow> ('hm, 'qm, 'sm) ds_config throws" where
  "ds_CommonConfig M ps =
     (case matched_stats_of M ps of
        Inl err \<Rightarrow> Inl err
      | Inr matched \<Rightarrow>
          Inr \<lparr>response_code_name = ''response_code'', response_flags_name = ''response_flags'', none_flags_or_code = ''-'',
               request_protocol_name = ''request_protocol'', request_protocol = ''http'',
               matched_stats = matched, code_stat_names = [], flag_stat_names = []\<rparr>)"

definition RouterConfig ::
    "('h, 'hm, 'qm, 'sm) matcher_env \<Rightarrow> ('hm, 'qm, 'sm) matched_stats_proto list \<Rightarrow> ('hm, 'qm, 'sm) matched_stat_tags list throws" where
  "RouterConfig M ps = matched_stats_of M ps"

section \<open>Names of codes and flags\<close>

definition NumHttpCodes :: u32 where
  "NumHttpCodes = 500"

definition HttpCodeOffset :: u32 where
  "HttpCodeOffset = 100"

text \<open>\<^verbatim>\<open>AtomicPtrArray::get\<close>: what the slot holds, or what the argument makes, which is then in the slot.\<close>

definition slot_get :: "'i \<Rightarrow> string \<Rightarrow> ('i \<times> string) list \<Rightarrow> string \<times> ('i \<times> string) list" where
  "slot_get i made names = (case map_of names i of Some s \<Rightarrow> (s, names) | None \<Rightarrow> (made, AList.update i made names))"

text \<open>The subtraction wraps, so a code below the offset is out of range as well.\<close>

definition responseCodeToStatName ::
    "u64 \<Rightarrow> ('hm, 'qm, 'sm) ds_config \<Rightarrow> string \<times> ('hm, 'qm, 'sm) ds_config" where
  "responseCodeToStatName code cfg =
     (let rc_index = (ucast code :: u32) - HttpCodeOffset
      in if rc_index \<ge> NumHttpCodes then (none_flags_or_code cfg, cfg)
         else let (name, names) = slot_get rc_index (decimal_nat (unat code)) (code_stat_names cfg)
              in (name, cfg\<lparr>code_stat_names := names\<rparr>))"

fun first_flag :: "u64 \<Rightarrow> nat \<Rightarrow> (string \<times> u64) list \<Rightarrow> (nat \<times> string) option" where
  "first_flag flags i [] = None"
| "first_flag flags i ((s, b) # fs) = (if and flags b \<noteq> 0 then Some (i, s) else first_flag flags (Suc i) fs)"

definition responseFlagToStatName ::
    "(string \<times> u64) list \<Rightarrow> u64 \<Rightarrow> ('hm, 'qm, 'sm) ds_config \<Rightarrow> string \<times> ('hm, 'qm, 'sm) ds_config" where
  "responseFlagToStatName all_flags flags cfg =
     (if flags = 0 then (none_flags_or_code cfg, cfg)
      else case first_flag flags 0 all_flags of
             None \<Rightarrow> (none_flags_or_code cfg, cfg)
           | Some (i, s) \<Rightarrow>
               (let (name, names) = slot_get i s (flag_stat_names cfg) in (name, cfg\<lparr>flag_stat_names := names\<rparr>)))"

section \<open>The end of a stream\<close>

text \<open>\<open>si_requestComplete\<close> is the duration in nanoseconds, \<open>si_status\<close> the status of the response headers, if it is a number.\<close>

record 'h stream_info =
  si_responseFlags :: u64
  si_bytesReceived :: u64
  si_bytesSent :: u64
  si_requestComplete :: "int option"
  si_request_headers :: 'h
  si_host_metadata :: "stats_scopes option"

record stream_stats_context =
  request_tags :: stat_tag_list
  request_bytes :: u64
  response_bytes :: u64
  request_time :: u64

definition streamStatsContext ::
    "(string \<times> u64) list \<Rightarrow> u64 option \<Rightarrow> 'h stream_info \<Rightarrow> ('hm, 'qm, 'sm) ds_config
     \<Rightarrow> stream_stats_context \<times> ('hm, 'qm, 'sm) ds_config" where
  "streamStatsContext all_flags status info cfg =
     (let (code_name, cfg1) = responseCodeToStatName (case status of None \<Rightarrow> 0 | Some c \<Rightarrow> c) cfg;
          (flag_name, cfg2) = responseFlagToStatName all_flags (si_responseFlags info) cfg1
      in (\<lparr>request_tags = [(request_protocol_name cfg, request_protocol cfg), (response_code_name cfg, code_name),
                          (response_flags_name cfg, flag_name)],
           request_bytes = si_bytesReceived info, response_bytes = si_bytesSent info,
           request_time = (case si_requestComplete info of None \<Rightarrow> 0 | Some ns \<Rightarrow> of_int (cpp_div ns 1000000))\<rparr>,
          cfg2))"

fun completeStreamStatsContextImpl ::
    "('h, 'hm, 'qm, 'sm) matcher_env \<Rightarrow> ('hm, 'qm, 'sm) matched_stat_tags list
     \<Rightarrow> 'h matcher_context \<times> stream_stats_context \<Rightarrow> 'h matcher_context \<times> stream_stats_context" where
  "completeStreamStatsContextImpl M [] (mc, ctx) = (mc, ctx)"
| "completeStreamStatsContextImpl M ((m, tags) # ms) (mc, ctx) =
     (let (hit, mc') = CommonMatcher_match M m mc
      in completeStreamStatsContextImpl M ms
           (mc', if hit then ctx\<lparr>request_tags := request_tags ctx @ tags\<rparr> else ctx))"

datatype stat_unit = Bytes | Milliseconds

datatype stat_event =
    CounterInc string stat_tag_list
  | HistogramRecord string stat_tag_list stat_unit u64

definition onStreamComplete :: "stats_scopes \<Rightarrow> stream_stats_context \<Rightarrow> stat_event list" where
  "onStreamComplete s ctx =
     (let final_tags = scope_tags s @ request_tags ctx
      in [CounterInc (request_total_scope s) final_tags,
          HistogramRecord (request_bytes_scope s) final_tags Bytes (request_bytes ctx),
          HistogramRecord (response_bytes_scope s) final_tags Bytes (response_bytes ctx),
          HistogramRecord (request_time_scope s) final_tags Milliseconds (request_time ctx)])"

section \<open>The filter\<close>

record ds_filter =
  response_headers_seen :: bool

text \<open>
  A route has typed metadata or none, and the configurations of this filter along the route, in the order in which
  \<^verbatim>\<open>traversePerFilterConfig\<close> visits them; \<open>None\<close> is one of another type.
\<close>

record ('hm, 'qm, 'sm) ds_route =
  dr_metadata :: "stats_scopes option"
  dr_configs :: "('hm, 'qm, 'sm) matched_stat_tags list option list"

definition ds_encodeHeaders :: "ds_filter \<Rightarrow> headers_status \<times> ds_filter" where
  "ds_encodeHeaders f = (Continue, f\<lparr>response_headers_seen := True\<rparr>)"

definition ds_onDestroy ::
    "('h, 'hm, 'qm, 'sm) matcher_env \<Rightarrow> (string \<times> u64) list \<Rightarrow> ds_filter \<Rightarrow> ('hm, 'qm, 'sm) ds_route option \<Rightarrow> u64 option
     \<Rightarrow> 'h stream_info \<Rightarrow> ('hm, 'qm, 'sm) ds_config \<Rightarrow> stat_event list \<times> ('hm, 'qm, 'sm) ds_config" where
  "ds_onDestroy M all_flags f route status info cfg =
     (if \<not> response_headers_seen f then ([], cfg)
      else case route of
        None \<Rightarrow> ([], cfg)
      | Some r \<Rightarrow>
        (if dr_metadata r = None \<and> si_host_metadata info = None then ([], cfg)
         else let (ctx, cfg1) = streamStatsContext all_flags status info cfg;
                  mc = HttpCommonMatcherContext (si_request_headers info) True;
                  (mc1, ctx1) = fold (\<lambda>c x. case c of Some ms \<Rightarrow> completeStreamStatsContextImpl M ms x | None \<Rightarrow> x)
                                  (dr_configs r) (mc, ctx);
                  (mc2, ctx2) = completeStreamStatsContextImpl M (matched_stats cfg1) (mc1, ctx1)
              in ((case dr_metadata r of Some s \<Rightarrow> onStreamComplete s ctx2 | None \<Rightarrow> [])
                  @ (case si_host_metadata info of Some s \<Rightarrow> onStreamComplete s ctx2 | None \<Rightarrow> []), cfg1)))"

section \<open>Kept names\<close>

text \<open>A slot holds the name that would be made for it now.\<close>

definition names_ok :: "(string \<times> u64) list \<Rightarrow> ('hm, 'qm, 'sm) ds_config \<Rightarrow> bool" where
  "names_ok all_flags cfg \<longleftrightarrow>
     (\<forall>i s. map_of (code_stat_names cfg) i = Some s \<longrightarrow> s = decimal_nat (unat (i + HttpCodeOffset))) \<and>
     (\<forall>i s. map_of (flag_stat_names cfg) i = Some s \<longrightarrow> i < length all_flags \<and> s = fst (all_flags ! i))"

definition code_name :: "u64 \<Rightarrow> string" where
  "code_name code = (if 100 \<le> code \<and> code < 600 then decimal_nat (unat code) else ''-'')"

definition flag_name :: "(string \<times> u64) list \<Rightarrow> u64 \<Rightarrow> string" where
  "flag_name all_flags flags =
     (case filter (\<lambda>e. and flags (snd e) \<noteq> 0) all_flags of [] \<Rightarrow> ''-'' | e # _ \<Rightarrow> fst e)"

lemma names_ok_CommonConfig: "ds_CommonConfig M ps = Inr cfg \<Longrightarrow> names_ok all_flags cfg"
  by (auto simp: names_ok_def ds_CommonConfig_def split: sum.splits)

lemma code_index:
  assumes "(code :: u64) < 2 ^ 32"
  shows "(ucast code :: u32) - HttpCodeOffset < NumHttpCodes \<longleftrightarrow> 100 \<le> code \<and> code < 600"
    and "unat ((ucast code :: u32) - HttpCodeOffset + HttpCodeOffset) = unat code"
proof -
  have u: "unat code < 2 ^ 32" using assms by (simp add: word_less_nat_alt)
  then have c: "unat (ucast code :: u32) = unat code" by (simp add: unsigned_ucast_eq take_bit_nat_eq_self)
  then show "unat ((ucast code :: u32) - HttpCodeOffset + HttpCodeOffset) = unat code" by simp
  show "(ucast code :: u32) - HttpCodeOffset < NumHttpCodes \<longleftrightarrow> 100 \<le> code \<and> code < 600"
    using c u unfolding HttpCodeOffset_def NumHttpCodes_def
    by (auto simp: word_less_nat_alt word_le_nat_alt unat_sub_if')
qed

lemma first_flag_Some:
  "first_flag flags i fs = Some (j, s) \<Longrightarrow>
   i \<le> j \<and> j - i < length fs \<and> s = fst (fs ! (j - i)) \<and> (\<exists>es. filter (\<lambda>e. and flags (snd e) \<noteq> 0) fs = fs ! (j - i) # es)"
proof (induction flags i fs rule: first_flag.induct)
  case (2 flags i s' b fs)
  show ?case
  proof (cases "and flags b = 0")
    case True
    with "2.prems" have "first_flag flags (Suc i) fs = Some (j, s)" by simp
    from "2.IH" [OF _ this] True obtain es where "Suc i \<le> j" "j - Suc i < length fs" "s = fst (fs ! (j - Suc i))"
      "filter (\<lambda>e. and flags (snd e) \<noteq> 0) fs = fs ! (j - Suc i) # es" by auto
    moreover from \<open>Suc i \<le> j\<close> have "j - i = Suc (j - Suc i)" by simp
    ultimately show ?thesis using True by simp
  next
    case False
    with "2.prems" show ?thesis by simp
  qed
qed simp

lemma first_flag_None: "first_flag flags i fs = None \<Longrightarrow> filter (\<lambda>e. and flags (snd e) \<noteq> 0) fs = []"
  by (induction flags i fs rule: first_flag.induct) (auto split: if_splits)

text \<open>The parts of a configuration that never change.\<close>

definition fixed_names ::
    "('h, 'hm, 'qm, 'sm) matcher_env \<Rightarrow> ('hm, 'qm, 'sm) matched_stats_proto list \<Rightarrow> ('hm, 'qm, 'sm) ds_config \<Rightarrow> bool" where
  "fixed_names M ps cfg \<longleftrightarrow> ds_CommonConfig M ps = Inr (cfg\<lparr>code_stat_names := [], flag_stat_names := []\<rparr>)"

definition ds_config_ok ::
    "('h, 'hm, 'qm, 'sm) matcher_env \<Rightarrow> (string \<times> u64) list \<Rightarrow> ('hm, 'qm, 'sm) matched_stats_proto list \<Rightarrow>
     ('hm, 'qm, 'sm) ds_config \<Rightarrow> bool" where
  "ds_config_ok M all_flags ps cfg \<longleftrightarrow> names_ok all_flags cfg \<and> fixed_names M ps cfg"

lemma fixed_namesD:
  assumes "fixed_names M ps cfg"
  shows "response_code_name cfg = ''response_code''" "response_flags_name cfg = ''response_flags''"
    "none_flags_or_code cfg = ''-''" "request_protocol_name cfg = ''request_protocol''" "request_protocol cfg = ''http''"
    "matched_stats_of M ps = Inr (matched_stats cfg)"
  using assms by (cases cfg; auto simp: fixed_names_def ds_CommonConfig_def split: sum.splits)+

lemma ds_config_okD:
  assumes "ds_config_ok M all_flags ps cfg"
  shows "none_flags_or_code cfg = ''-''"
    and "map_of (code_stat_names cfg) c = Some s \<Longrightarrow> s = decimal_nat (unat (c + HttpCodeOffset))"
    and "map_of (flag_stat_names cfg) i = Some s \<Longrightarrow> s = fst (all_flags ! i)"
  using assms fixed_namesD(3) [of M ps cfg] by (simp_all add: ds_config_ok_def names_ok_def)

lemma responseCodeToStatName_ok:
  assumes ok: "ds_config_ok M all_flags ps cfg" and code: "code < 2 ^ 32"
  shows "\<exists>cfg'. responseCodeToStatName code cfg = (code_name code, cfg') \<and> ds_config_ok M all_flags ps cfg'"
proof (cases "100 \<le> code \<and> code < 600")
  case False
  with code_index(1) [OF code] ok ds_config_okD(1) [OF ok] show ?thesis
    by (auto simp: responseCodeToStatName_def code_name_def not_less [symmetric])
next
  case True
  let ?i = "(ucast code :: u32) - HttpCodeOffset"
  have i: "\<not> NumHttpCodes \<le> ?i" using code_index(1) [OF code] True by (simp add: not_le)
  show ?thesis
  proof (cases "map_of (code_stat_names cfg) ?i")
    case None
    then show ?thesis using True i ok code_index(2) [OF code]
      by (auto simp: responseCodeToStatName_def code_name_def slot_get_def ds_config_ok_def fixed_names_def names_ok_def Let_def)
  next
    case (Some s)
    then have "s = decimal_nat (unat code)"
      using ds_config_okD(2) [OF ok Some] code_index(2) [OF code] by simp
    with Some True i ok show ?thesis
      by (auto simp: responseCodeToStatName_def code_name_def slot_get_def Let_def)
  qed
qed

lemma responseFlagToStatName_ok:
  assumes ok: "ds_config_ok M all_flags ps cfg"
  shows "\<exists>cfg'. responseFlagToStatName all_flags flags cfg = (flag_name all_flags flags, cfg') \<and> ds_config_ok M all_flags ps cfg'"
proof (cases "flags = 0")
  case True
  with ok ds_config_okD(1) [OF ok] show ?thesis by (simp add: responseFlagToStatName_def flag_name_def)
next
  case False
  show ?thesis
  proof (cases "first_flag flags 0 all_flags")
    case None
    with False ok first_flag_None [OF None] ds_config_okD(1) [OF ok] show ?thesis
      by (auto simp: responseFlagToStatName_def flag_name_def)
  next
    case (Some e)
    obtain i s where e: "e = (i, s)" by (cases e)
    from first_flag_Some [OF Some [unfolded e]] obtain es where
      fs: "i < length all_flags" "s = fst (all_flags ! i)"
        "filter (\<lambda>e. and flags (snd e) \<noteq> 0) all_flags = all_flags ! i # es" by auto
    show ?thesis
    proof (cases "map_of (flag_stat_names cfg) i")
      case None
      with Some e fs False ok show ?thesis
        by (auto simp: responseFlagToStatName_def flag_name_def slot_get_def ds_config_ok_def fixed_names_def names_ok_def)
    next
      case (Some s')
      from ds_config_okD(3) [OF ok Some] have "s' = s" by (simp add: fs(2))
      with Some \<open>first_flag flags 0 all_flags = Some e\<close> e fs False ok show ?thesis
        by (auto simp: responseFlagToStatName_def flag_name_def slot_get_def)
    qed
  qed
qed

section \<open>What is recorded\<close>

text \<open>The tags of the entries that match the request.\<close>

definition matching_tags ::
    "('h, 'hm, 'qm, 'sm) matcher_env \<Rightarrow> 'h \<Rightarrow> ('hm, 'qm, 'sm) matched_stats_proto list \<Rightarrow> stat_tag_list" where
  "matching_tags M h ps = concat (map ms_stat_tags (filter (\<lambda>p. common_matches M (ms_matcher p) h True) ps))"

lemma completeStreamStatsContext_ok:
  assumes "ctx_ok M h True mc" and "matched_stats_of M ps = Inr ms"
  shows "\<exists>mc'. completeStreamStatsContextImpl M ms (mc, ctx) =
           (mc', ctx\<lparr>request_tags := request_tags ctx @ matching_tags M h ps\<rparr>) \<and> ctx_ok M h True mc'"
  using assms
proof (induction ps arbitrary: mc ctx ms)
  case Nil
  then show ?case by (simp add: matched_stats_of_def matching_tags_def)
next
  case (Cons p ps)
  from Cons.prems(2) obtain cm ms' where ms: "CommonMatcher M (ms_matcher p) = Inr cm" "matched_stats_of M ps = Inr ms'"
      "ms = (cm, ms_stat_tags p) # ms'"
    by (auto simp: matched_stats_of_def split: sum.splits)
  from CommonMatcher_match_ok [OF Cons.prems(1) ms(1)] obtain mc1
    where m: "CommonMatcher_match M cm mc = (common_matches M (ms_matcher p) h True, mc1)" "ctx_ok M h True mc1" by blast
  let ?ctx = "if common_matches M (ms_matcher p) h True then ctx\<lparr>request_tags := request_tags ctx @ ms_stat_tags p\<rparr> else ctx"
  from Cons.IH [OF m(2) ms(2), of ?ctx] m(1) ms(3) show ?case by (auto simp: matching_tags_def split: if_splits)
qed

text \<open>The same for the configurations along a route, the ones of another type left out.\<close>

definition route_tags ::
    "('h, 'hm, 'qm, 'sm) matcher_env \<Rightarrow> 'h \<Rightarrow> ('hm, 'qm, 'sm) matched_stats_proto list option list \<Rightarrow> stat_tag_list" where
  "route_tags M h cs = concat (map (\<lambda>c. case c of None \<Rightarrow> [] | Some ps \<Rightarrow> matching_tags M h ps) cs)"

lemma completeRouteConfigs_ok:
  assumes "ctx_ok M h True mc" and "list_all2 (rel_option (\<lambda>ps ms. RouterConfig M ps = Inr ms)) cs configs"
  shows "\<exists>mc'. fold (\<lambda>c x. case c of Some ms \<Rightarrow> completeStreamStatsContextImpl M ms x | None \<Rightarrow> x) configs (mc, ctx) =
           (mc', ctx\<lparr>request_tags := request_tags ctx @ route_tags M h cs\<rparr>) \<and> ctx_ok M h True mc'"
  using assms(2,1)
proof (induction arbitrary: mc ctx rule: list_all2_induct)
  case Nil
  then show ?case by (simp add: route_tags_def)
next
  case (Cons c cs x configs)
  show ?case
  proof (cases c)
    case None
    with Cons.IH [OF Cons.prems, of ctx] Cons.hyps(1) show ?thesis by (cases x) (auto simp: route_tags_def)
  next
    case (Some ps)
    with Cons.hyps(1) obtain ms where x: "x = Some ms" "matched_stats_of M ps = Inr ms"
      by (cases x) (auto simp: RouterConfig_def)
    from completeStreamStatsContext_ok [OF Cons.prems x(2), of ctx] obtain mc1
      where c: "completeStreamStatsContextImpl M ms (mc, ctx) =
          (mc1, ctx\<lparr>request_tags := request_tags ctx @ matching_tags M h ps\<rparr>)" "ctx_ok M h True mc1" by blast
    from Cons.IH [OF c(2), of "ctx\<lparr>request_tags := request_tags ctx @ matching_tags M h ps\<rparr>"] c(1) Some x(1) show ?thesis
      by (simp add: route_tags_def)
  qed
qed

text \<open>The tags and values that every metadata object gets.\<close>

definition response_context :: "(string \<times> u64) list \<Rightarrow> u64 option \<Rightarrow> 'h stream_info \<Rightarrow> stream_stats_context" where
  "response_context all_flags status info =
     \<lparr>request_tags = [(''request_protocol'', ''http''),
         (''response_code'', code_name (case status of None \<Rightarrow> 0 | Some c \<Rightarrow> c)),
         (''response_flags'', flag_name all_flags (si_responseFlags info))],
       request_bytes = si_bytesReceived info, response_bytes = si_bytesSent info,
       request_time = (case si_requestComplete info of None \<Rightarrow> 0 | Some ns \<Rightarrow> of_int (cpp_div ns 1000000))\<rparr>"

lemma streamStatsContext_ok:
  assumes "ds_config_ok M all_flags ps cfg" and "(case status of None \<Rightarrow> 0 | Some c \<Rightarrow> c) < 2 ^ 32"
  shows "\<exists>cfg'. streamStatsContext all_flags status info cfg =
     (response_context all_flags status info, cfg') \<and>
     ds_config_ok M all_flags ps cfg'"
proof -
  have f: "fixed_names M ps cfg" using assms(1) by (simp add: ds_config_ok_def)
  from responseCodeToStatName_ok [OF assms] obtain cfg1 where
    c1: "responseCodeToStatName (case status of None \<Rightarrow> 0 | Some c \<Rightarrow> c) cfg =
      (code_name (case status of None \<Rightarrow> 0 | Some c \<Rightarrow> c), cfg1)" and ok1: "ds_config_ok M all_flags ps cfg1" by blast
  from responseFlagToStatName_ok [OF ok1, of "si_responseFlags info"] c1 show ?thesis
    by (auto simp: streamStatsContext_def response_context_def fixed_namesD [OF f])
qed

text \<open>The metadata of the route and of the host that are there.\<close>

definition stat_targets :: "('hm, 'qm, 'sm) ds_route \<Rightarrow> 'h stream_info \<Rightarrow> stats_scopes list" where
  "stat_targets r info =
     (case dr_metadata r of None \<Rightarrow> [] | Some s \<Rightarrow> [s]) @ (case si_host_metadata info of None \<Rightarrow> [] | Some s \<Rightarrow> [s])"

text \<open>
  Recorded statistics. When a stream whose response headers the filter has seen ends, every metadata object of the
  route and of the host gets one counter and three histogram entries, with the tags of its own configuration, then the
  protocol, the response code (a dash for a code outside 100 to 599), the first response flag (a dash without one),
  the tags of the entries of the route's configurations that match the request, in the order of the route, and those of
  the filter's configuration. This holds for every stream, whatever names earlier streams have left in the arrays.
\<close>

theorem detailed_stats_recorded:
  assumes ok: "ds_config_ok M all_flags ps cfg" and status: "(case status of None \<Rightarrow> 0 | Some c \<Rightarrow> c) < 2 ^ 32"
    and seen: "response_headers_seen f" and r: "list_all2 (rel_option (\<lambda>ps ms. RouterConfig M ps = Inr ms)) cs (dr_configs r)"
  shows "\<exists>cfg'. ds_config_ok M all_flags ps cfg' \<and>
     ds_onDestroy M all_flags f (Some r) status info cfg =
       (let base = response_context all_flags status info;
            tags = request_tags base @ route_tags M (si_request_headers info) cs
                   @ matching_tags M (si_request_headers info) ps
        in (concat (map (\<lambda>s. onStreamComplete s (base\<lparr>request_tags := tags\<rparr>)) (stat_targets r info)), cfg'))"
proof (cases "dr_metadata r = None \<and> si_host_metadata info = None")
  case True
  with ok seen show ?thesis by (auto simp: ds_onDestroy_def stat_targets_def)
next
  case False
  let ?h = "si_request_headers info"
  let ?ctx = "response_context all_flags status info"
  from streamStatsContext_ok [OF ok status, of info] obtain cfg1 where
    ctx: "streamStatsContext all_flags status info cfg = (?ctx, cfg1)" "ds_config_ok M all_flags ps cfg1" by blast
  from completeRouteConfigs_ok [OF ctx_ok_new r, of ?h ?ctx] obtain mc1 where
    m1: "fold (\<lambda>c x. case c of Some ms \<Rightarrow> completeStreamStatsContextImpl M ms x | None \<Rightarrow> x) (dr_configs r)
           (HttpCommonMatcherContext ?h True, ?ctx) =
         (mc1, ?ctx\<lparr>request_tags := request_tags ?ctx @ route_tags M ?h cs\<rparr>)" "ctx_ok M ?h True mc1"
    by blast
  have "matched_stats_of M ps = Inr (matched_stats cfg1)"
    using fixed_namesD(6) [of M ps cfg1] ctx(2) by (simp add: ds_config_ok_def)
  from completeStreamStatsContext_ok [OF m1(2) this, of "?ctx\<lparr>request_tags := request_tags ?ctx @ route_tags M ?h cs\<rparr>"]
  obtain mc2 where m2: "completeStreamStatsContextImpl M (matched_stats cfg1)
      (mc1, ?ctx\<lparr>request_tags := request_tags ?ctx @ route_tags M ?h cs\<rparr>) =
      (mc2, ?ctx\<lparr>request_tags := request_tags ?ctx @ route_tags M ?h cs @ matching_tags M ?h ps\<rparr>)" by auto
  show ?thesis
    using False seen ctx(2)
    by (auto simp: ds_onDestroy_def ctx(1) m1(1) m2 Let_def stat_targets_def split: option.split)
qed

text \<open>A host with metadata, a request that matches one entry, a response with code 404 and the flag \<^verbatim>\<open>UF\<close>.\<close>

definition path_matchers :: "(string, unit, unit, string) matcher_env" where
  "path_matchers =
     \<lparr>getPathValue = (\<lambda>h. h), remove_query = (\<lambda>p. p), parse_query = (\<lambda>_. []), parseCookies = (\<lambda>_. []),
      string_match = (=), matchHeaders = (\<lambda>_ _. False), matchQueryParams = (\<lambda>_ _. False),
      string_error = (\<lambda>_. None), header_error = (\<lambda>_. None), query_error = (\<lambda>_. None)\<rparr>"

definition example_matched :: "(unit, unit, string) matched_stats_proto list" where
  "example_matched =
     [\<lparr>ms_matcher = \<lparr>cm_path = Some ''/a'', cm_headers = [], cm_parameters = [], cm_cookies = []\<rparr>,
       ms_stat_tags = [(''api'', ''a'')]\<rparr>]"

definition example_info :: "string stream_info" where
  "example_info =
     \<lparr>si_responseFlags = 0x20, si_bytesReceived = 7, si_bytesSent = 9, si_requestComplete = Some 2500000,
      si_request_headers = ''/a'', si_host_metadata = Some (StatsScopes \<lparr>st_prefix = ''up'', st_tags = []\<rparr> '''')\<rparr>"

theorem detailed_stats_recorded_witness:
  "\<exists>cfg es. ds_CommonConfig path_matchers example_matched = Inr cfg \<and>
     fst (ds_onDestroy path_matchers [(''UH'', 2), (''UF'', 0x20)] \<lparr>response_headers_seen = True\<rparr>
             (Some \<lparr>dr_metadata = None, dr_configs = []\<rparr>) (Some 404) example_info cfg) =
     CounterInc ''up.requests_total''
       [(''request_protocol'', ''http''), (''response_code'', ''404''), (''response_flags'', ''UF''), (''api'', ''a'')] # es"
proof -
  let ?F = "[(''UH'', 2), (''UF'', 0x20)] :: (string \<times> u64) list"
  have "CommonMatcher path_matchers p = Inr (matchers_of p)" for p
    by (simp add: CommonMatcher_Inr matcher_valid_def path_matchers_def)
  then have "\<exists>ms. matched_stats_of path_matchers example_matched = Inr ms"
    by (simp add: matched_stats_of_def example_matched_def)
  then obtain cfg where cfg: "ds_CommonConfig path_matchers example_matched = Inr cfg"
    by (auto simp: ds_CommonConfig_def)
  then have ok: "ds_config_ok path_matchers ?F example_matched cfg"
    using names_ok_CommonConfig [OF cfg]
    by (auto simp: ds_config_ok_def fixed_names_def ds_CommonConfig_def split: sum.splits)
  have code: "code_name 404 = ''404''" by code_simp
  have base: "response_context ?F (Some 404) example_info =
      \<lparr>request_tags = [(''request_protocol'', ''http''), (''response_code'', ''404''), (''response_flags'', ''UF'')],
       request_bytes = 7, response_bytes = 9, request_time = of_int (cpp_div 2500000 1000000)\<rparr>"
    by (simp add: response_context_def code flag_name_def example_info_def)
  have tags: "matching_tags path_matchers (si_request_headers example_info) example_matched = [(''api'', ''a'')]"
    by (simp add: matching_tags_def example_matched_def common_matches_def example_info_def path_matchers_def request_path_def)
  from detailed_stats_recorded [OF ok, where status = "Some 404" and f = "\<lparr>response_headers_seen = True\<rparr>"
      and r = "\<lparr>dr_metadata = None, dr_configs = []\<rparr>" and cs = "[]" and info = example_info]
  show ?thesis
    using cfg
    by (auto simp: base tags route_tags_def Let_def stat_targets_def)
       (auto simp: example_info_def onStreamComplete_def StatsScopes_def Let_def)
qed

end
