(* ===== verification/Waf.thy ===== *)
theory Waf
  imports Header_Map Metadata_Values
begin

text \<open>
  The web application firewall, \<^verbatim>\<open>source/filters/http/waf/waf.{h,cc}\<close>: two ModSecurity transactions, one for the rules of
  the filter and one for the rules of the route, see the request and the response phase by phase; when one of them
  intervenes, the client gets an error instead.

  \<^item> ModSecurity is not part of the repository: a transaction is of a type \<open>'t\<close>, and its methods are the fields of
    \<open>modsec_ops\<close>. \<open>ms_intervention\<close> asks it for an intervention, which it then forgets.
  \<^item> The calls that a callback makes on its environment are a list of \<open>waf_call\<close>s, which begins at its first call.
  \<^item> Sending a local reply runs the encoding callbacks of this filter for the reply; what they do then is
    \<open>reply_passes_encoder\<close>.
\<close>

section \<open>Configuration\<close>

text \<open>A rule: the path of its file and the variables it sets.\<close>

record waf_rule =
  waf_rule_path :: string
  waf_rule_config :: pb_struct

record rule_set_config =
  rule_str :: string
  rule_files :: "string list"

definition waf_dir :: string where
  "waf_dir = ''/etc/envoy/waf/common/''"

definition rule_str_prefix :: string where
  "rule_str_prefix = ''SecAction '' @ [CHR 0x22] @ ''id:900700,phase:1,nolog,pass,t:none''"

definition quote_char :: char where
  "quote_char = CHR 0x27"

definition var_value :: "pb_value \<Rightarrow> string throws" where
  "var_value v =
     (case v of
        NumberValue d \<Rightarrow> Inr (fixed6 d)
      | StringValue s \<Rightarrow> Inr s
      | BoolValue b \<Rightarrow> Inr (if b then ''true'' else ''false'')
      | _ \<Rightarrow> Inl ''Unsupport waf var type'')"

fun rule_vars :: "pb_struct \<Rightarrow> string throws" where
  "rule_vars [] = Inr ''''"
| "rule_vars ((k, v) # fs) =
     (case var_value v of
        Inl e \<Rightarrow> Inl e
      | Inr s \<Rightarrow>
        (case rule_vars fs of
           Inl e \<Rightarrow> Inl e
         | Inr r \<Rightarrow> Inr ('','' @ ''setvar:'' @ [quote_char] @ k @ ''='' @ s @ [quote_char] @ r)))"

fun rules_vars :: "waf_rule list \<Rightarrow> string throws" where
  "rules_vars [] = Inr ''''"
| "rules_vars (r # rs) =
     (case rule_vars (waf_rule_config r) of
        Inl e \<Rightarrow> Inl e
      | Inr s \<Rightarrow> (case rules_vars rs of Inl e \<Rightarrow> Inl e | Inr s' \<Rightarrow> Inr (s @ s')))"

text \<open>\<open>None\<close> is a configuration without rules, for which no rule set is made.\<close>

definition RuleSetConfig :: "waf_rule list \<Rightarrow> rule_set_config option throws" where
  "RuleSetConfig rules =
     (if rules = [] then Inr None
      else case rules_vars rules of
             Inl e \<Rightarrow> Inl e
           | Inr vars \<Rightarrow>
               Inr (Some \<lparr>rule_str = (if vars = '''' then '''' else rule_str_prefix @ vars @ [CHR 0x22]),
                          rule_files =
                            [waf_dir @ ''modsecurity.conf'', waf_dir @ ''crs-setup.conf'', waf_dir @ ''before.conf'']
                            @ map waf_rule_path rules
                            @ [waf_dir @ ''evaluation.conf'', waf_dir @ ''after.conf'']\<rparr>))"

text \<open>What is handed to the parser of ModSecurity, in order; an error there is logged and ignored.\<close>

datatype rule_source = RuleString string | RuleFile string

definition rule_sources :: "rule_set_config \<Rightarrow> rule_source list" where
  "rule_sources c =
     (if rule_str c = '''' then [] else [RuleString (rule_str c)])
     @ map RuleFile (filter (\<lambda>f. f \<noteq> '''') (rule_files c))"

section \<open>Transactions and the state of the filter\<close>

record 't modsec_ops =
  ms_new :: "rule_source list \<Rightarrow> 't"
  ms_processConnection :: "string \<Rightarrow> u32 \<Rightarrow> string \<Rightarrow> u32 \<Rightarrow> 't \<Rightarrow> 't"
  ms_processURI :: "string \<Rightarrow> string \<Rightarrow> string \<Rightarrow> 't \<Rightarrow> 't"
  ms_addRequestHeader :: "string \<Rightarrow> string \<Rightarrow> 't \<Rightarrow> 't"
  ms_processRequestHeaders :: "'t \<Rightarrow> 't"
  ms_appendRequestBody :: "string \<Rightarrow> 't \<Rightarrow> bool \<times> 't"
  ms_getRequestBodyLength :: "'t \<Rightarrow> u64"
  ms_processRequestBody :: "'t \<Rightarrow> 't"
  ms_addResponseHeader :: "string \<Rightarrow> string \<Rightarrow> 't \<Rightarrow> 't"
  ms_processResponseHeaders :: "u64 \<Rightarrow> string \<Rightarrow> 't \<Rightarrow> 't"
  ms_appendResponseBody :: "string \<Rightarrow> 't \<Rightarrow> bool \<times> 't"
  ms_getResponseBodyLength :: "'t \<Rightarrow> u64"
  ms_processResponseBody :: "'t \<Rightarrow> 't"
  ms_intervention :: "'t \<Rightarrow> u64 option \<times> 't"
  ms_enabledRuleEngine :: "'t \<Rightarrow> bool"
  ms_processLogging :: "'t \<Rightarrow> 't"

text \<open>\<open>waf_status\<close> is not initialised by the constructor, so it is \<open>None\<close> until an intervention sets it.\<close>

record 't waf_filter =
  modsec_transaction :: "'t option"
  modsec_transaction_route :: "'t option"
  intervined :: bool
  request_processed :: bool
  response_processed :: bool
  waf_end_stream :: bool
  is_send_local_reply :: bool
  waf_status :: "u64 option"

definition WafFilter :: "'t modsec_ops \<Rightarrow> rule_set_config option \<Rightarrow> 't waf_filter" where
  "WafFilter M cfg =
     \<lparr>modsec_transaction = map_option (\<lambda>c. ms_new M (rule_sources c)) cfg, modsec_transaction_route = None,
      intervined = False, request_processed = False, response_processed = False, waf_end_stream = False,
      is_send_local_reply = False, waf_status = None\<rparr>"

datatype waf_call =
    WafLocalReply "u64 option" string
  | WafSetStatus "u64 option"
  | WafRemoveContentLength
  | WafSetContentLength nat
  | WafAddEncodedData string
  | WafReplaceEncodingBuffer string
  | WafDrainData

datatype protocol = Http10 | Http11 | Http2 | Http3

fun getProtocolString :: "protocol \<Rightarrow> string" where
  "getProtocolString Http10 = ''1.0''"
| "getProtocolString Http11 = ''1.1''"
| "getProtocolString Http2 = ''2.0''"
| "getProtocolString Http3 = ''3.0''"

definition protocol_text :: "protocol option \<Rightarrow> string" where
  "protocol_text p = getProtocolString (case p of None \<Rightarrow> Http11 | Some q \<Rightarrow> q)"

section \<open>Interventions\<close>

definition intervention :: "'t modsec_ops \<Rightarrow> 't waf_filter \<Rightarrow> bool \<times> 't waf_filter" where
  "intervention M f =
     (case modsec_transaction f of
        None \<Rightarrow> (intervined f, f)
      | Some t \<Rightarrow>
        (if intervined f then (True, f)
         else case ms_intervention M t of
                (None, t') \<Rightarrow> (False, f\<lparr>modsec_transaction := Some t'\<rparr>)
              | (Some s, t') \<Rightarrow> (True, f\<lparr>modsec_transaction := Some t', intervined := True, waf_status := Some s\<rparr>)))"

definition interventionRoute :: "'t modsec_ops \<Rightarrow> 't waf_filter \<Rightarrow> bool \<times> 't waf_filter" where
  "interventionRoute M f =
     (case modsec_transaction_route f of
        None \<Rightarrow> (intervined f, f)
      | Some t \<Rightarrow>
        (if intervined f then (True, f)
         else case ms_intervention M t of
                (None, t') \<Rightarrow> (False, f\<lparr>modsec_transaction_route := Some t'\<rparr>)
              | (Some s, t') \<Rightarrow> (True, f\<lparr>modsec_transaction_route := Some t', intervined := True, waf_status := Some s\<rparr>)))"

text \<open>One phase: the first transaction that is there and then the second, each followed by the test for an intervention.\<close>

definition phase :: "'t modsec_ops \<Rightarrow> ('t \<Rightarrow> 't) \<Rightarrow> 't waf_filter \<Rightarrow> bool \<times> 't waf_filter" where
  "phase M process f =
     (let (stop, f1) = (case modsec_transaction f of
                          None \<Rightarrow> (False, f)
                        | Some t \<Rightarrow> intervention M (f\<lparr>modsec_transaction := Some (process t)\<rparr>))
      in if stop then (True, f1)
         else case modsec_transaction_route f1 of
                None \<Rightarrow> (False, f1)
              | Some t \<Rightarrow> interventionRoute M (f1\<lparr>modsec_transaction_route := Some (process t)\<rparr>))"

text \<open>The same on the request side, where an intervention sends a local reply.\<close>

definition sendReply :: "'t waf_filter \<Rightarrow> 't waf_filter \<times> waf_call list" where
  "sendReply f = (f\<lparr>is_send_local_reply := True\<rparr>, [WafLocalReply (waf_status f) ''ModSecurity Action.''])"

text \<open>The state of the second transaction overrides that of the first.\<close>

definition enabledRuleEngine :: "'t modsec_ops \<Rightarrow> 't waf_filter \<Rightarrow> bool" where
  "enabledRuleEngine M f =
     (case modsec_transaction_route f of
        Some t \<Rightarrow> ms_enabledRuleEngine M t
      | None \<Rightarrow> (case modsec_transaction f of Some t \<Rightarrow> ms_enabledRuleEngine M t | None \<Rightarrow> False))"

definition getRequestHeadersStatus :: "'t modsec_ops \<Rightarrow> 't waf_filter \<Rightarrow> headers_status" where
  "getRequestHeadersStatus M f =
     (if intervined f then StopIteration else if request_processed f then Continue
      else if enabledRuleEngine M f then StopIteration else Continue)"

definition getRequestStatus :: "'t modsec_ops \<Rightarrow> 't waf_filter \<Rightarrow> data_status" where
  "getRequestStatus M f =
     (if intervined f then StopIterationNoBuffer else if request_processed f then DataContinue
      else if enabledRuleEngine M f then StopIterationAndBuffer else DataContinue)"

definition getResponseHeadersStatus :: "'t modsec_ops \<Rightarrow> 't waf_filter \<Rightarrow> headers_status" where
  "getResponseHeadersStatus M f =
     (if intervined f \<or> response_processed f then Continue
      else if enabledRuleEngine M f then StopIteration else Continue)"

definition getResponseStatus :: "'t modsec_ops \<Rightarrow> 't waf_filter \<Rightarrow> data_status" where
  "getResponseStatus M f =
     (if intervined f \<or> response_processed f then DataContinue
      else if enabledRuleEngine M f then StopIterationAndBuffer else DataContinue)"

section \<open>Requests\<close>

text \<open>
  What the filter reads of a request besides its headers. The code dereferences the path and the method without a
  test; \<open>None\<close> for one of them is undefined behaviour and the callback gives no result.
\<close>

record waf_request =
  wr_route_rules :: "rule_set_config option"
  wr_downstream :: "string \<times> u32"
  wr_local :: "string \<times> u32"
  wr_path :: "string option"
  wr_method :: "string option"
  wr_protocol :: "protocol option"

definition add_request_header :: "'t modsec_ops \<Rightarrow> string \<times> string \<Rightarrow> 't \<Rightarrow> 't" where
  "add_request_header M e t =
     (let t1 = ms_addRequestHeader M (fst e) (snd e) t
      in if fst e = '':authority'' then ms_addRequestHeader M ''host'' (snd e) t1 else t1)"

definition map_transactions :: "('t \<Rightarrow> 't) \<Rightarrow> 't waf_filter \<Rightarrow> 't waf_filter" where
  "map_transactions g f =
     f\<lparr>modsec_transaction := map_option g (modsec_transaction f),
       modsec_transaction_route := map_option g (modsec_transaction_route f)\<rparr>"

definition with_route_rules :: "'t modsec_ops \<Rightarrow> rule_set_config option \<Rightarrow> 't waf_filter \<Rightarrow> 't waf_filter" where
  "with_route_rules M rules f =
     (case rules of None \<Rightarrow> f | Some c \<Rightarrow> f\<lparr>modsec_transaction_route := Some (ms_new M (rule_sources c))\<rparr>)"

text \<open>The last part of the callback: the transactions get the headers, and the phase of the request headers runs.\<close>

definition inspect_request_headers ::
    "'t modsec_ops \<Rightarrow> (string \<times> string) list \<Rightarrow> bool \<Rightarrow> 't waf_filter \<Rightarrow> headers_status \<times> waf_call list \<times> 't waf_filter" where
  "inspect_request_headers M es end_stream f =
     (let f1 = map_transactions (fold (add_request_header M) es) f;
          f2 = (if end_stream then f1\<lparr>request_processed := True\<rparr> else f1);
          (stop, f3) = phase M (ms_processRequestHeaders M) f2
      in if stop then (let (f', cs) = sendReply f3 in (StopIteration, cs, f'))
         else (getRequestHeadersStatus M f3, [], f3))"

definition waf_decodeHeaders ::
    "'t modsec_ops \<Rightarrow> 'h header_map_ops \<Rightarrow> waf_request \<Rightarrow> 'h \<Rightarrow> bool \<Rightarrow> 't waf_filter
     \<Rightarrow> (headers_status \<times> waf_call list \<times> 't waf_filter) option" where
  "waf_decodeHeaders M H rq headers end_stream f =
     (if intervined f \<or> request_processed f then Some (getRequestHeadersStatus M f, [], f)
      else let f0 = with_route_rules M (wr_route_rules rq) f
      in if modsec_transaction f0 = None \<and> modsec_transaction_route f0 = None then Some (Continue, [], f0)
      else let (stop, f1) = phase M (ms_processConnection M (fst (wr_downstream rq)) (snd (wr_downstream rq))
                                       (fst (wr_local rq)) (snd (wr_local rq))) f0
      in if stop then (let (f', cs) = sendReply f1 in Some (StopIteration, cs, f'))
      else case (wr_path rq, wr_method rq) of
        (Some uri, Some verb) \<Rightarrow>
          (let (stop, f2) = phase M (ms_processURI M uri verb (protocol_text (wr_protocol rq))) f1
           in if stop then (let (f', cs) = sendReply f2 in Some (StopIteration, cs, f'))
           else Some (inspect_request_headers M (hm_iterate H headers) end_stream f2))
      | _ \<Rightarrow> None)"

text \<open>
  Appending a slice to one transaction: whether the limit has been reached, which is when the call fails or a slice
  that is not empty does not make the body longer.
\<close>

definition append_limit ::
    "(string \<Rightarrow> 't \<Rightarrow> bool \<times> 't) \<Rightarrow> ('t \<Rightarrow> u64) \<Rightarrow> string \<Rightarrow> 't option \<Rightarrow> bool \<times> 't option" where
  "append_limit app len sl t =
     (case t of
        None \<Rightarrow> (False, None)
      | Some t \<Rightarrow> (let (ok, t') = app sl t in (\<not> ok \<or> (0 < length sl \<and> len t = len t'), Some t')))"

fun append_slices ::
    "(string \<Rightarrow> 't \<Rightarrow> bool \<times> 't) \<Rightarrow> ('t \<Rightarrow> u64) \<Rightarrow> string list \<Rightarrow> 't waf_filter \<Rightarrow> bool \<times> 't waf_filter" where
  "append_slices app len [] f = (False, f)"
| "append_slices app len (s # ss) f =
     (let (full, t) = append_limit app len s (modsec_transaction f); f1 = f\<lparr>modsec_transaction := t\<rparr>
      in if full then (True, f1)
         else let (full, t) = append_limit app len s (modsec_transaction_route f1);
                  f2 = f1\<lparr>modsec_transaction_route := t\<rparr>
              in if full then (True, f2) else append_slices app len ss f2)"

definition waf_decodeData ::
    "'t modsec_ops \<Rightarrow> string list \<Rightarrow> bool \<Rightarrow> 't waf_filter \<Rightarrow> data_status \<times> waf_call list \<times> 't waf_filter" where
  "waf_decodeData M slices end_stream f =
     (if modsec_transaction f = None \<and> modsec_transaction_route f = None then (DataContinue, [], f)
      else if intervined f \<or> request_processed f then (getRequestStatus M f, [], f)
      else let (full, f1) = append_slices (ms_appendRequestBody M) (ms_getRequestBodyLength M) slices f
      in if end_stream \<or> full
         then (let (stop, f2) = phase M (ms_processRequestBody M) (f1\<lparr>request_processed := True\<rparr>)
               in if stop then (let (f', cs) = sendReply f2 in (StopIterationNoBuffer, cs, f'))
                  else (getRequestStatus M f2, [], f2))
         else (getRequestStatus M f1, [], f1))"

text \<open>\<^verbatim>\<open>decodeTrailers\<close> is inherited from the filter that passes everything.\<close>

datatype trailers_status = TrailersContinue | TrailersStopIteration

definition waf_decodeTrailers :: "'t waf_filter \<Rightarrow> trailers_status \<times> 't waf_filter" where
  "waf_decodeTrailers f = (TrailersContinue, f)"

section \<open>Responses\<close>

text \<open>\<open>buffered\<close>: whether the filter manager has buffered a part of the response.\<close>

definition sendEncodeReply :: "bool \<Rightarrow> 't waf_filter \<Rightarrow> waf_call list" where
  "sendEncodeReply buffered f =
     (if waf_end_stream f
      then [WafSetStatus (waf_status f), WafRemoveContentLength, WafSetContentLength (length ''ModSecurity Action.''),
            if \<not> buffered then WafAddEncodedData ''ModSecurity Action.''
            else WafReplaceEncodingBuffer ''ModSecurity Action.'']
      else [])"

definition waf_encodeHeaders ::
    "'t modsec_ops \<Rightarrow> 'h header_map_ops \<Rightarrow> u64 \<Rightarrow> protocol option \<Rightarrow> bool \<Rightarrow> 'h \<Rightarrow> bool \<Rightarrow> 't waf_filter
     \<Rightarrow> headers_status \<times> waf_call list \<times> 't waf_filter" where
  "waf_encodeHeaders M H code proto buffered headers end_stream f =
     (if modsec_transaction f = None \<and> modsec_transaction_route f = None then (Continue, [], f)
      else if intervined f \<or> response_processed f then (getResponseHeadersStatus M f, [], f)
      else let f1 = f\<lparr>waf_end_stream := end_stream\<rparr>;
               f2 = map_transactions (fold (\<lambda>e. ms_addResponseHeader M (fst e) (snd e)) (hm_iterate H headers)) f1;
               (stop, f3) = phase M (ms_processResponseHeaders M code (protocol_text proto)) f2
      in if stop then (StopIteration, sendEncodeReply buffered f3, f3) else (getResponseHeadersStatus M f3, [], f3))"

definition waf_encodeData ::
    "'t modsec_ops \<Rightarrow> bool \<Rightarrow> string list \<Rightarrow> bool \<Rightarrow> 't waf_filter \<Rightarrow> data_status \<times> waf_call list \<times> 't waf_filter" where
  "waf_encodeData M buffered slices end_stream f =
     (if modsec_transaction f = None \<and> modsec_transaction_route f = None then (DataContinue, [], f)
      else if response_processed f \<or> is_send_local_reply f then (getResponseStatus M f, [], f)
      else let f1 = f\<lparr>waf_end_stream := end_stream\<rparr>
      in if intervined f1
         then (if end_stream then (getResponseStatus M f1, WafDrainData # sendEncodeReply buffered f1, f1)
               else (StopIterationNoBuffer, [WafDrainData], f1))
      else let (full, f2) = append_slices (ms_appendResponseBody M) (ms_getResponseBodyLength M) slices f1
      in if end_stream \<or> full
         then (let (stop, f3) = phase M (ms_processResponseBody M) (f2\<lparr>response_processed := True\<rparr>)
               in if stop then (DataContinue, sendEncodeReply buffered f3, f3) else (getResponseStatus M f3, [], f3))
         else (getResponseStatus M f2, [], f2))"

definition waf_onDestroy :: "'t modsec_ops \<Rightarrow> 't waf_filter \<Rightarrow> 't waf_filter" where
  "waf_onDestroy M f = map_transactions (ms_processLogging M) f"

section \<open>What a request meets\<close>

text \<open>The parts of the state that a phase keeps.\<close>

definition same_flags :: "'t waf_filter \<Rightarrow> 't waf_filter \<Rightarrow> bool" where
  "same_flags f f' \<longleftrightarrow>
     request_processed f' = request_processed f \<and> response_processed f' = response_processed f \<and>
     waf_end_stream f' = waf_end_stream f \<and> is_send_local_reply f' = is_send_local_reply f \<and>
     (modsec_transaction f' = None \<longleftrightarrow> modsec_transaction f = None) \<and>
     (modsec_transaction_route f' = None \<longleftrightarrow> modsec_transaction_route f = None)"

lemma phase_flags:
  assumes "phase M p f = (stop, f')" and "\<not> intervined f"
  shows "intervined f' = stop" and "stop \<Longrightarrow> waf_status f' \<noteq> None" and "same_flags f f'"
  using assms
  by (auto simp: phase_def intervention_def interventionRoute_def same_flags_def
           split: option.splits prod.splits if_splits)

lemma same_flags_trans: "same_flags f f' \<Longrightarrow> same_flags f' f'' \<Longrightarrow> same_flags f f''"
  by (simp add: same_flags_def)

lemma append_limit_None: "append_limit app len sl t = (full, t') \<Longrightarrow> t' = None \<longleftrightarrow> t = None"
  by (auto simp: append_limit_def split: option.splits prod.splits)

lemma append_slices_flags:
  "append_slices app len ss f = (full, f') \<Longrightarrow>
   intervined f' = intervined f \<and> waf_status f' = waf_status f \<and> same_flags f f'"
proof (induction ss arbitrary: f)
  case Nil
  then show ?case by (simp add: same_flags_def)
next
  case (Cons s ss)
  obtain full1 t1 where 1: "append_limit app len s (modsec_transaction f) = (full1, t1)" by force
  let ?f1 = "f\<lparr>modsec_transaction := t1\<rparr>"
  obtain full2 t2 where 2: "append_limit app len s (modsec_transaction_route ?f1) = (full2, t2)" by force
  let ?f2 = "?f1\<lparr>modsec_transaction_route := t2\<rparr>"
  have s: "same_flags f ?f1" "same_flags f ?f2"
    using append_limit_None [OF 1] append_limit_None [OF 2] by (simp_all add: same_flags_def)
  show ?case
  proof (cases "full1 \<or> full2")
    case True
    with Cons.prems 1 2 s show ?thesis by (auto simp: Let_def split: if_splits)
  next
    case False
    with Cons.prems 1 2 have "append_slices app len ss ?f2 = (full, f')" by (simp add: Let_def)
    from Cons.IH [OF this] same_flags_trans [OF s(2)] show ?thesis by simp
  qed
qed

text \<open>The callbacks of one request: the headers, then the chunks of the body, of which the last one ends the stream.\<close>

fun waf_body ::
    "'t modsec_ops \<Rightarrow> string list list \<Rightarrow> 't waf_filter \<Rightarrow> data_status list \<times> waf_call list \<times> 't waf_filter" where
  "waf_body M [] f = ([], [], f)"
| "waf_body M (c # cs) f =
     (let (d, calls, f1) = waf_decodeData M c (cs = []) f; (ds, calls', f2) = waf_body M cs f1
      in (d # ds, calls @ calls', f2))"

definition waf_request_run ::
    "'t modsec_ops \<Rightarrow> 'h header_map_ops \<Rightarrow> waf_request \<Rightarrow> 'h \<Rightarrow> string list list \<Rightarrow> 't waf_filter
     \<Rightarrow> (headers_status \<times> data_status list \<times> waf_call list \<times> 't waf_filter) option" where
  "waf_request_run M H rq headers chunks f =
     (case waf_decodeHeaders M H rq headers (chunks = []) f of
        None \<Rightarrow> None
      | Some (st, calls, f1) \<Rightarrow>
          (let (ds, calls', f2) = waf_body M chunks f1 in Some (st, ds, calls @ calls', f2)))"

definition has_rules :: "'t waf_filter \<Rightarrow> bool" where
  "has_rules f \<longleftrightarrow> modsec_transaction f \<noteq> None \<or> modsec_transaction_route f \<noteq> None"

lemma same_flags_has_rules: "same_flags f f' \<Longrightarrow> has_rules f' = has_rules f"
  by (auto simp: same_flags_def has_rules_def)

text \<open>After an intervention nothing more happens, and after the inspection of the body everything passes.\<close>

lemma waf_body_intervined:
  "has_rules f \<Longrightarrow> intervined f \<Longrightarrow> waf_body M cs f = (replicate (length cs) StopIterationNoBuffer, [], f)"
  by (induction cs) (auto simp: waf_decodeData_def has_rules_def getRequestStatus_def)

lemma waf_body_processed:
  "has_rules f \<Longrightarrow> \<not> intervined f \<Longrightarrow> request_processed f \<Longrightarrow>
   waf_body M cs f = (replicate (length cs) DataContinue, [], f)"
  by (induction cs) (auto simp: waf_decodeData_def has_rules_def getRequestStatus_def)

text \<open>One chunk of a request that has not been decided: the filter waits, refuses or lets it pass.\<close>

lemma waf_decodeData_cases:
  assumes on: "\<And>t. ms_enabledRuleEngine M t" and f: "has_rules f" "\<not> intervined f" "\<not> request_processed f"
  shows "(\<exists>f'. waf_decodeData M c fin f = (StopIterationAndBuffer, [], f') \<and> \<not> fin \<and>
              has_rules f' \<and> \<not> intervined f' \<and> \<not> request_processed f') \<or>
         (\<exists>f' s. waf_decodeData M c fin f =
              (StopIterationNoBuffer, [WafLocalReply (Some s) ''ModSecurity Action.''], f') \<and>
              has_rules f' \<and> intervined f' \<and> waf_status f' = Some s) \<or>
         (\<exists>f'. waf_decodeData M c fin f = (DataContinue, [], f') \<and> has_rules f' \<and> \<not> intervined f' \<and> request_processed f')"
proof -
  obtain full f1 where a: "append_slices (ms_appendRequestBody M) (ms_getRequestBodyLength M) c f = (full, f1)" by force
  have f1: "\<not> intervined f1" "same_flags f f1" using append_slices_flags [OF a] f by auto
  show ?thesis
  proof (cases "fin \<or> full")
    case False
    then have "waf_decodeData M c fin f = (getRequestStatus M f1, [], f1)"
      using f a by (auto simp: waf_decodeData_def has_rules_def)
    moreover have "getRequestStatus M f1 = StopIterationAndBuffer"
      using f1 f on by (auto simp: getRequestStatus_def enabledRuleEngine_def same_flags_def has_rules_def split: option.split)
    ultimately show ?thesis using False f1 f same_flags_has_rules [OF f1(2)] by (auto simp: same_flags_def)
  next
    case True
    obtain stop f2 where p: "phase M (ms_processRequestBody M) (f1\<lparr>request_processed := True\<rparr>) = (stop, f2)" by force
    have f2: "intervined f2 = stop" "stop \<Longrightarrow> waf_status f2 \<noteq> None" "request_processed f2" "has_rules f2"
      using phase_flags [OF p] f1 f by (auto simp: same_flags_def has_rules_def)
    have d: "waf_decodeData M c fin f =
        (if stop then (let (f', cs) = sendReply f2 in (StopIterationNoBuffer, cs, f')) else (getRequestStatus M f2, [], f2))"
      using f a p True by (auto simp: waf_decodeData_def has_rules_def)
    show ?thesis using f2 unfolding d by (cases stop) (auto simp: sendReply_def getRequestStatus_def has_rules_def)
  qed
qed

lemma waf_body_outcome:
  assumes on: "\<And>t. ms_enabledRuleEngine M t"
  shows "has_rules f \<Longrightarrow> \<not> intervined f \<Longrightarrow> \<not> request_processed f \<Longrightarrow> cs \<noteq> [] \<Longrightarrow>
    waf_body M cs f = (ds, calls, f') \<Longrightarrow>
    (if intervined f'
     then set ds \<subseteq> {StopIterationNoBuffer, StopIterationAndBuffer} \<and>
          (\<exists>s. waf_status f' = Some s \<and> calls = [WafLocalReply (Some s) ''ModSecurity Action.''])
     else calls = [] \<and> request_processed f' \<and>
          (\<exists>k < length cs. ds = replicate k StopIterationAndBuffer @ replicate (length cs - k) DataContinue))"
proof (induction cs arbitrary: f ds calls f')
  case (Cons c cs)
  note f = Cons.prems(1-3)
  from waf_decodeData_cases [OF on f, where c = c and fin = "cs = []"] show ?case
  proof (elim disjE exE conjE)
    fix f1 assume d: "waf_decodeData M c (cs = []) f = (StopIterationAndBuffer, [], f1)" "cs \<noteq> []"
      "has_rules f1" "\<not> intervined f1" "\<not> request_processed f1"
    obtain ds' calls' f2 where b: "waf_body M cs f1 = (ds', calls', f2)" by (rule prod_cases3)
    with d(1) Cons.prems(5) have eq: "ds = StopIterationAndBuffer # ds'" "calls = calls'" "f' = f2" by auto
    from Cons.IH [OF d(3-5,2) b] show ?thesis
    proof (cases "intervined f2")
      case False
      with Cons.IH [OF d(3-5,2) b] obtain k where k: "k < length cs"
        "ds' = replicate k StopIterationAndBuffer @ replicate (length cs - k) DataContinue" "calls' = []" "request_processed f2"
        by auto
      then show ?thesis using False eq by (auto intro!: exI [of _ "Suc k"])
    qed (auto simp: eq)
  next
    fix f1 s assume d: "waf_decodeData M c (cs = []) f =
        (StopIterationNoBuffer, [WafLocalReply (Some s) ''ModSecurity Action.''], f1)"
      "has_rules f1" "intervined f1" "waf_status f1 = Some s"
    with Cons.prems(5) show ?thesis by (auto simp: waf_body_intervined)
  next
    fix f1 assume d: "waf_decodeData M c (cs = []) f = (DataContinue, [], f1)"
      "has_rules f1" "\<not> intervined f1" "request_processed f1"
    with Cons.prems(5) show ?thesis by (auto simp: waf_body_processed intro!: exI [of _ 0])
  qed
qed simp

lemma with_route_rules_flags [simp]:
  "intervined (with_route_rules M rules f) = intervined f"
  "request_processed (with_route_rules M rules f) = request_processed f"
  by (simp_all add: with_route_rules_def split: option.split)

lemma map_transactions_flags [simp]:
  "intervined (map_transactions g f) = intervined f" "waf_status (map_transactions g f) = waf_status f"
  "same_flags f (map_transactions g f)"
  by (simp_all add: map_transactions_def same_flags_def)

text \<open>What the callback for the headers leaves: a decision against the request, or the state in which the body is awaited.\<close>

definition headers_outcome :: "bool \<Rightarrow> headers_status \<times> waf_call list \<times> 't waf_filter \<Rightarrow> bool" where
  "headers_outcome fin r \<longleftrightarrow>
     (case r of (st, calls, f') \<Rightarrow>
        has_rules f' \<and>
        (if intervined f'
         then st = StopIteration \<and>
              (\<exists>s. waf_status f' = Some s \<and> calls = [WafLocalReply (Some s) ''ModSecurity Action.''])
         else calls = [] \<and> request_processed f' = fin \<and> st = (if fin then Continue else StopIteration)))"

lemma headers_outcome_reply:
  "has_rules f \<Longrightarrow> intervined f \<Longrightarrow> waf_status f \<noteq> None \<Longrightarrow>
   headers_outcome fin (let (f', cs) = sendReply f in (StopIteration, cs, f'))"
  by (auto simp: headers_outcome_def sendReply_def has_rules_def)

lemma inspect_request_headers_outcome:
  assumes on: "\<And>t. ms_enabledRuleEngine M t" and f: "has_rules f" "\<not> intervined f" "\<not> request_processed f"
  shows "headers_outcome fin (inspect_request_headers M es fin f)"
proof -
  let ?f1 = "map_transactions (fold (add_request_header M) es) f"
  let ?f2 = "if fin then ?f1\<lparr>request_processed := True\<rparr> else ?f1"
  obtain stop f3 where p: "phase M (ms_processRequestHeaders M) ?f2 = (stop, f3)" by force
  have n: "\<not> intervined ?f2" using f(2) by simp
  note 3 = phase_flags [OF p n]
  have "has_rules ?f2" using f(1) by (auto simp: has_rules_def map_transactions_def)
  then have h: "has_rules f3" using same_flags_has_rules [OF 3(3)] by simp
  have rp: "request_processed f3 = fin" using 3(3) f(3) by (auto simp: same_flags_def map_transactions_def)
  have r: "inspect_request_headers M es fin f =
      (if stop then (let (f', cs) = sendReply f3 in (StopIteration, cs, f')) else (getRequestHeadersStatus M f3, [], f3))"
    by (simp add: inspect_request_headers_def Let_def p)
  have "enabledRuleEngine M f3" using h on by (auto simp: enabledRuleEngine_def has_rules_def split: option.split)
  with r 3(1,2) h rp headers_outcome_reply [of f3] show ?thesis
    by (cases stop) (auto simp: headers_outcome_def getRequestHeadersStatus_def)
qed

lemma waf_decodeHeaders_outcome:
  assumes on: "\<And>t. ms_enabledRuleEngine M t" and f: "\<not> intervined f" "\<not> request_processed f"
    and rules: "has_rules (with_route_rules M (wr_route_rules rq) f)"
    and run: "waf_decodeHeaders M H rq h fin f = Some r"
  shows "headers_outcome fin r"
proof -
  let ?f0 = "with_route_rules M (wr_route_rules rq) f"
  let ?conn = "ms_processConnection M (fst (wr_downstream rq)) (snd (wr_downstream rq)) (fst (wr_local rq)) (snd (wr_local rq))"
  obtain stop1 f1 where p1: "phase M ?conn ?f0 = (stop1, f1)" by force
  note 1 = phase_flags [OF p1, simplified, OF f(1)]
  have h1: "has_rules f1" "request_processed f1 = request_processed f"
    using same_flags_has_rules [OF 1(3)] rules 1(3) by (simp_all add: same_flags_def)
  have run': "(if stop1 then (let (f', cs) = sendReply f1 in Some (StopIteration, cs, f'))
      else case (wr_path rq, wr_method rq) of
        (Some uri, Some verb) \<Rightarrow>
          (let (stop, f2) = phase M (ms_processURI M uri verb (protocol_text (wr_protocol rq))) f1
           in if stop then (let (f', cs) = sendReply f2 in Some (StopIteration, cs, f'))
           else Some (inspect_request_headers M (hm_iterate H h) fin f2))
      | _ \<Rightarrow> None) = Some r"
    using run f rules p1 by (auto simp: waf_decodeHeaders_def has_rules_def Let_def)
  show ?thesis
  proof (cases stop1)
    case True
    with run' 1 h1 headers_outcome_reply [of f1 fin] show ?thesis by (auto split: prod.splits)
  next
    case False
    with run' obtain uri verb where pm: "wr_path rq = Some uri" "wr_method rq = Some verb"
      by (auto split: option.splits)
    obtain stop2 f2 where p2: "phase M (ms_processURI M uri verb (protocol_text (wr_protocol rq))) f1 = (stop2, f2)" by force
    note 2 = phase_flags [OF p2, unfolded 1(1), OF False]
    have h2: "has_rules f2" "request_processed f2 = request_processed f"
      using same_flags_has_rules [OF 2(3)] h1 2(3) by (simp_all add: same_flags_def)
    show ?thesis
    proof (cases stop2)
      case True
      with run' False pm p2 2 h2 headers_outcome_reply [of f2 fin] show ?thesis by (auto split: prod.splits)
    next
      case go: False
      with run' False pm p2 have "r = inspect_request_headers M (hm_iterate H h) fin f2" by simp
      with inspect_request_headers_outcome [OF on, of f2 fin "hm_iterate H h"] h2 2(1) go f(2) show ?thesis by simp
    qed
  qed
qed

lemma waf_decodeHeaders_returns:
  assumes "wr_path rq = Some uri" and "wr_method rq = Some verb"
  shows "waf_decodeHeaders M H rq h fin f \<noteq> None"
  using assms by (auto simp: waf_decodeHeaders_def Let_def simp del: not_None_eq split: prod.split)


text \<open>
  A response that is refused too early. When a chunk that does not end the response reaches the limit of the body and
  a transaction then refuses the response, the filter replaces nothing: the chunk and every later one pass unchanged,
  and no call is made.
\<close>

theorem waf_response_limit_passes:
  assumes "has_rules f" and "\<not> intervined f" and "\<not> response_processed f" and "\<not> is_send_local_reply f"
    and "append_slices (ms_appendResponseBody M) (ms_getResponseBodyLength M) slices (f\<lparr>waf_end_stream := False\<rparr>) = (True, f1)"
    and "phase M (ms_processResponseBody M) (f1\<lparr>response_processed := True\<rparr>) = (True, f2)"
  shows "waf_encodeData M buffered slices False f = (DataContinue, [], f2) \<and>
         waf_encodeData M buffered' slices' fin' f2 = (DataContinue, [], f2)"
proof -
  note a = append_slices_flags [OF assms(5)]
  have "\<not> intervined (f1\<lparr>response_processed := True\<rparr>)" using a assms(2) by simp
  note p = phase_flags [OF assms(6) this]
  have "\<not> waf_end_stream f2" "response_processed f2" using p(3) a by (auto simp: same_flags_def)
  then show ?thesis
    using assms by (auto simp: waf_encodeData_def has_rules_def sendEncodeReply_def getResponseStatus_def)
qed

text \<open>
  A request with trailers: no chunk of its body ends the stream, so the phase of the request body does not run, and the
  trailers release what has been held back.
\<close>

lemma waf_trailers_bypass:
  assumes "has_rules f" and "\<not> intervined f" and "\<not> request_processed f"
    and "append_slices (ms_appendRequestBody M) (ms_getRequestBodyLength M) slices f = (False, f1)"
  shows "\<exists>st. waf_decodeData M slices False f = (st, [], f1) \<and> \<not> request_processed f1 \<and>
           waf_decodeTrailers f1 = (TrailersContinue, f1)"
  using assms append_slices_flags [OF assms(4)]
  by (auto simp: waf_decodeData_def waf_decodeTrailers_def has_rules_def same_flags_def)

text \<open>The local reply that the filter has sent itself is not inspected.\<close>

lemma reply_passes_encoder:
  assumes "has_rules f" and "intervined f" and "is_send_local_reply f"
  shows "waf_encodeHeaders M H code proto buffered h fin f = (Continue, [], f)"
    and "waf_encodeData M buffered slices fin f = (DataContinue, [], f)"
  using assms by (auto simp: waf_encodeHeaders_def waf_encodeData_def has_rules_def getResponseHeadersStatus_def
      getResponseStatus_def)

text \<open>An intervention on the response headers replaces the body, chunk by chunk, up to its end.\<close>

lemma refused_response_replaced:
  assumes "has_rules f" and "intervined f" and "\<not> is_send_local_reply f" and "\<not> response_processed f"
  shows "waf_encodeData M buffered slices False f = (StopIterationNoBuffer, [WafDrainData], f\<lparr>waf_end_stream := False\<rparr>)"
    and "waf_encodeData M False slices True f =
      (DataContinue, [WafDrainData, WafSetStatus (waf_status f), WafRemoveContentLength, WafSetContentLength 19,
         WafAddEncodedData ''ModSecurity Action.''], f\<lparr>waf_end_stream := True\<rparr>)"
  using assms by (auto simp: waf_encodeData_def has_rules_def getResponseStatus_def sendEncodeReply_def)

subsection \<open>A concrete rule engine\<close>

text \<open>A transaction is the body so far, its limit of ten bytes and a verdict; the word \<^verbatim>\<open>attack\<close> is refused.\<close>

definition word_rules :: "(string \<times> bool) modsec_ops" where
  "word_rules =
     \<lparr>ms_new = (\<lambda>_. ('''', False)),
      ms_processConnection = (\<lambda>_ _ _ _ t. t), ms_processURI = (\<lambda>_ _ _ t. t),
      ms_addRequestHeader = (\<lambda>_ _ t. t), ms_processRequestHeaders = (\<lambda>t. t),
      ms_appendRequestBody = (\<lambda>s t. (True, (take 10 (fst t @ s), snd t))),
      ms_getRequestBodyLength = (\<lambda>t. of_nat (length (fst t))),
      ms_processRequestBody = (\<lambda>t. (fst t, fst t = ''attack'')),
      ms_addResponseHeader = (\<lambda>_ _ t. t), ms_processResponseHeaders = (\<lambda>_ _ t. t),
      ms_appendResponseBody = (\<lambda>s t. (True, (take 10 (fst t @ s), snd t))),
      ms_getResponseBodyLength = (\<lambda>t. of_nat (length (fst t))),
      ms_processResponseBody = (\<lambda>t. (fst t, True)),
      ms_intervention = (\<lambda>t. (if snd t then Some 403 else None, (fst t, False))),
      ms_enabledRuleEngine = (\<lambda>_. True), ms_processLogging = (\<lambda>t. t)\<rparr>"

definition example_waf_request :: waf_request where
  "example_waf_request =
     \<lparr>wr_route_rules = None, wr_downstream = (''10.0.0.1'', 80), wr_local = (''10.0.0.2'', 80),
      wr_path = Some ''/'', wr_method = Some ''POST'', wr_protocol = None\<rparr>"


theorem waf_response_limit_passes_witness:
  "\<exists>f2. waf_encodeData word_rules False [''0123456789'', ''x''] False
            (WafFilter word_rules (Some \<lparr>rule_str = '''', rule_files = []\<rparr>)) = (DataContinue, [], f2) \<and>
        waf_status f2 = Some 403"
proof -
  let ?f = "WafFilter word_rules (Some \<lparr>rule_str = '''', rule_files = []\<rparr>)"
  let ?f1 = "?f\<lparr>modsec_transaction := Some (''0123456789'', False)\<rparr>"
  let ?f2 = "?f1\<lparr>response_processed := True, intervined := True, waf_status := Some 403\<rparr>"
  have f: "has_rules ?f" "\<not> intervined ?f" "\<not> response_processed ?f" "\<not> is_send_local_reply ?f"
    by (simp_all add: WafFilter_def has_rules_def)
  have a: "append_slices (ms_appendResponseBody word_rules) (ms_getResponseBodyLength word_rules)
      [''0123456789'', ''x''] (?f\<lparr>waf_end_stream := False\<rparr>) = (True, ?f1)"
    by (simp add: append_limit_def word_rules_def WafFilter_def Let_def)
  have p: "phase word_rules (ms_processResponseBody word_rules) (?f1\<lparr>response_processed := True\<rparr>) = (True, ?f2)"
    by (simp add: phase_def intervention_def word_rules_def WafFilter_def Let_def)
  from waf_response_limit_passes [OF f a p, of False False "[]" False] show ?thesis by auto
qed

end
