(* ===== verification/Rider_Plugin.thy ===== *)
theory Rider_Plugin
  imports Metadata_Values
begin

text \<open>
  Loading of Lua plugins, \<^verbatim>\<open>source/filters/http/rider/vm.{h,cc}\<close>, \<^verbatim>\<open>context.{h,cc}\<close> and the configuration classes of
  \<^verbatim>\<open>filter.{h,cc}\<close>.

  \<^item> LuaJIT is not part of the repository. A plugin's code is run by the field \<open>lua_dostring\<close> of the parameter \<open>lua_env\<close>,
    which gives the table of values it returns; calling a function in protected mode is \<open>lua_pcall\<close>.
  \<^item> The registry of a Lua state maps references to functions; \<open>None\<close> stands for \<^verbatim>\<open>LUA_NOREF\<close>.
  \<^item> An exception is the left part of a sum. A Lua error outside of a protected call ends the process; that is the
    message \<open>lua_panic\<close> here.
\<close>

section \<open>Lua values and the registry\<close>

datatype 'f lua_value = LuaNil | LuaFunction 'f | LuaString string | LuaNumber string | LuaOther

datatype 'f load_result = LoadError int | NotATable | Exports "string \<Rightarrow> 'f lua_value"

record 'f lua_env =
  lua_dostring :: "string \<Rightarrow> 'f load_result"
  lua_pcall :: "'f \<Rightarrow> int"
  lua_add_package_path :: "string \<Rightarrow> bool"

record 'f lua_registry =
  reg_next :: nat
  reg_entries :: "(nat \<times> 'f) list"

definition luaL_ref :: "'f \<Rightarrow> 'f lua_registry \<Rightarrow> nat \<times> 'f lua_registry" where
  "luaL_ref f r = (reg_next r, r\<lparr>reg_next := Suc (reg_next r), reg_entries := (reg_next r, f) # reg_entries r\<rparr>)"

definition luaL_unref :: "nat \<Rightarrow> 'f lua_registry \<Rightarrow> 'f lua_registry" where
  "luaL_unref n r = r\<lparr>reg_entries := AList.delete n (reg_entries r)\<rparr>"

section \<open>Plugins and their handles\<close>

record plugin =
  pl_name :: string
  pl_code :: string
  pl_configuration :: string

definition pl_key :: "plugin \<Rightarrow> string" where
  "pl_key p = pl_name p @ ''||'' @ pl_configuration p"

datatype version = V1 | V2

record plugin_handle =
  on_configure_ref :: "nat option"
  on_request_ref :: "nat option"
  on_response_ref :: "nat option"
  on_request_header_ref :: "nat option"
  on_request_body_ref :: "nat option"
  on_response_header_ref :: "nat option"
  on_response_body_ref :: "nat option"
  ph_version :: version

definition PluginHandle :: plugin_handle where
  "PluginHandle =
     \<lparr>on_configure_ref = None, on_request_ref = None, on_response_ref = None, on_request_header_ref = None,
      on_request_body_ref = None, on_response_header_ref = None, on_response_body_ref = None, ph_version = V1\<rparr>"

definition unref_opt :: "nat option \<Rightarrow> 'f lua_registry \<Rightarrow> 'f lua_registry" where
  "unref_opt n r = (case n of None \<Rightarrow> r | Some n \<Rightarrow> luaL_unref n r)"

definition destroy_PluginHandle :: "plugin_handle \<Rightarrow> 'f lua_registry \<Rightarrow> 'f lua_registry" where
  "destroy_PluginHandle h r = unref_opt (on_response_ref h) (unref_opt (on_request_ref h) (unref_opt (on_configure_ref h) r))"

text \<open>\<^verbatim>\<open>luaL_optlstring\<close>: numbers count as strings, nil gives the null pointer, and any other value is a Lua error.\<close>

definition lua_panic :: string where
  "lua_panic = ''unprotected error in call to Lua API''"

definition opt_string :: "'f lua_value \<Rightarrow> string option throws" where
  "opt_string v =
     (case v of LuaNil \<Rightarrow> Inr None | LuaString s \<Rightarrow> Inr (Some s) | LuaNumber s \<Rightarrow> Inr (Some s) | _ \<Rightarrow> Inl lua_panic)"

text \<open>A field that is not a function leaves the reference as it was, which is \<^verbatim>\<open>LUA_NOREF\<close>.\<close>

definition load_hook :: "(string \<Rightarrow> 'f lua_value) \<Rightarrow> string \<Rightarrow> 'f lua_registry \<Rightarrow> nat option \<times> 'f lua_registry" where
  "load_hook ex name r = (case ex name of LuaFunction f \<Rightarrow> (let (n, r') = luaL_ref f r in (Some n, r')) | _ \<Rightarrow> (None, r))"

definition version_of :: "string option \<Rightarrow> version" where
  "version_of v = (case v of Some s \<Rightarrow> (if s = ''v1'' then V1 else if s = ''v2'' then V2 else V1) | None \<Rightarrow> V1)"

definition load_hooks ::
    "(string \<Rightarrow> 'f lua_value) \<Rightarrow> string option \<Rightarrow> 'f lua_registry \<Rightarrow> plugin_handle \<times> 'f lua_registry" where
  "load_hooks ex raw_version r =
     (let h = PluginHandle\<lparr>ph_version := version_of raw_version\<rparr>;
          (c, r1) = load_hook ex ''on_configure'' r; h1 = h\<lparr>on_configure_ref := c\<rparr>
      in if raw_version \<noteq> None
         then (let (a, r2) = load_hook ex ''on_request_header'' r1;
                   (b, r3) = load_hook ex ''on_request_body'' r2;
                   (c, r4) = load_hook ex ''on_response_header'' r3;
                   (d, r5) = load_hook ex ''on_response_body'' r4
               in (h1\<lparr>on_request_header_ref := a, on_request_body_ref := b, on_response_header_ref := c,
                      on_response_body_ref := d\<rparr>, r5))
         else (let (a, r2) = load_hook ex ''on_request'' r1; (b, r3) = load_hook ex ''on_response'' r2
               in (h1\<lparr>on_request_ref := a, on_response_ref := b\<rparr>, r3)))"

definition startPluginHandle ::
    "'f lua_env \<Rightarrow> plugin \<Rightarrow> 'f lua_registry \<Rightarrow> (plugin_handle \<times> 'f lua_registry) throws" where
  "startPluginHandle L p r =
     (case lua_dostring L (pl_code p) of
        LoadError rc \<Rightarrow> Inl (''load lua script error: '' @ decimal_int rc)
      | NotATable \<Rightarrow> Inl ''expect lua script to return a table''
      | Exports ex \<Rightarrow>
          (case opt_string (ex ''version'') of Inl e \<Rightarrow> Inl e | Inr v \<Rightarrow> Inr (load_hooks ex v r)))"

definition onConfigure :: "'f lua_env \<Rightarrow> plugin_handle \<Rightarrow> 'f lua_registry \<Rightarrow> unit throws" where
  "onConfigure L h r =
     (case on_configure_ref h of
        None \<Rightarrow> Inr ()
      | Some n \<Rightarrow>
          (case map_of (reg_entries r) n of
             None \<Rightarrow> Inl ''lua pcall error: 2''
           | Some f \<Rightarrow>
               (if lua_pcall L f \<noteq> 0 then Inl (''lua pcall error: '' @ decimal_int (lua_pcall L f)) else Inr ())))"

definition startPlugin ::
    "'f lua_env \<Rightarrow> plugin \<Rightarrow> 'f lua_registry \<Rightarrow> (plugin_handle \<times> 'f lua_registry) throws" where
  "startPlugin L p r =
     (case startPluginHandle L p r of
        Inl e \<Rightarrow> Inl e
      | Inr (h, r') \<Rightarrow> (case onConfigure L h r' of Inl e \<Rightarrow> Inl e | Inr _ \<Rightarrow> Inr (h, r')))"

section \<open>Virtual machines\<close>

text \<open>A thread's table of weak pointers to its virtual machines; \<open>vt_alive\<close> are the machines that still exist.\<close>

record vm_table =
  local_lua_virtual_machines :: "(string \<times> nat) list"
  vt_alive :: "nat list"
  vt_path :: "(nat \<times> string) list"
  vt_next :: nat

definition LuaVirtualMachine :: "'f lua_env \<Rightarrow> string \<Rightarrow> vm_table \<Rightarrow> (nat \<times> vm_table) throws" where
  "LuaVirtualMachine L package_path t =
     (if package_path \<noteq> '''' \<and> \<not> lua_add_package_path L package_path
      then Inl (''failed to add package path '' @ package_path)
      else let a = vt_next t
           in Inr (a, t\<lparr>vt_alive := a # vt_alive t, vt_path := (a, package_path) # vt_path t, vt_next := Suc a\<rparr>))"

definition getOrCreateThreadLocalLuaVM ::
    "'f lua_env \<Rightarrow> string \<Rightarrow> string \<Rightarrow> vm_table \<Rightarrow> (nat \<times> vm_table) throws" where
  "getOrCreateThreadLocalLuaVM L vm_id package_path t =
     (let make = (\<lambda>t. case LuaVirtualMachine L package_path t of
                        Inl e \<Rightarrow> Inl e
                      | Inr (a, t') \<Rightarrow>
                          Inr (a, t'\<lparr>local_lua_virtual_machines := AList.update vm_id a (local_lua_virtual_machines t')\<rparr>))
      in case map_of (local_lua_virtual_machines t) vm_id of
           None \<Rightarrow> make t
         | Some a \<Rightarrow>
             (if a \<in> set (vt_alive t) then Inr (a, t)
              else make (t\<lparr>local_lua_virtual_machines := AList.delete vm_id (local_lua_virtual_machines t)\<rparr>)))"

section \<open>Configuration of the filter\<close>

record rider_proto =
  rp_name :: string
  rp_remote :: bool
  rp_code :: string
  rp_config_json :: string
  rp_vm_id :: string
  rp_package_path :: string
  rp_allow_no_route :: bool
  rp_log_path :: "string option"

record rider_config =
  rc_plugin :: plugin
  rc_vm_id :: string
  rc_package_path :: string
  rc_allow_no_route :: bool
  rc_log_file :: "string option"

definition rider_package_path :: "string \<Rightarrow> string" where
  "rider_package_path p = (if p \<noteq> '''' \<and> last p \<noteq> CHR '';'' then p @ '';'' else p)"

text \<open>The plugin is started once in a temporary machine, to reject a configuration whose code does not load.\<close>

definition RiderConfigImpl :: "'f lua_env \<Rightarrow> rider_proto \<Rightarrow> rider_config throws" where
  "RiderConfigImpl L p =
     (if rp_remote p then Inl ''remote code not supported''
      else let plugin = \<lparr>pl_name = rp_name p, pl_code = rp_code p, pl_configuration = rp_config_json p\<rparr>;
               path = rider_package_path (rp_package_path p)
      in case LuaVirtualMachine L path \<lparr>local_lua_virtual_machines = [], vt_alive = [], vt_path = [], vt_next = 0\<rparr> of
           Inl e \<Rightarrow> Inl e
         | Inr _ \<Rightarrow>
           (case startPlugin L plugin \<lparr>reg_next = 0, reg_entries = []\<rparr> of
              Inl e \<Rightarrow> Inl e
            | Inr _ \<Rightarrow>
                Inr \<lparr>rc_plugin = plugin, rc_vm_id = rp_vm_id p, rc_package_path = path,
                     rc_allow_no_route = rp_allow_no_route p,
                     rc_log_file = (case rp_log_path p of Some f \<Rightarrow> (if f = '''' then None else Some f) | None \<Rightarrow> None)\<rparr>))"

record route_plugin_config =
  rpc_name :: string
  rpc_configuration :: string
  rpc_hash :: u64

text \<open>
  The configuration of a route: every plugin with its message printed as JSON and the hash of the message. Both are functions
  of Envoy, the parameters \<open>json\<close> and \<open>hash\<close>; \<open>name\<close> reads the field of the message.
\<close>

definition RoutePluginConfig :: "('p \<Rightarrow> string) \<Rightarrow> ('p \<Rightarrow> string) \<Rightarrow> ('p \<Rightarrow> u64) \<Rightarrow> 'p \<Rightarrow> route_plugin_config" where
  "RoutePluginConfig name json hash p = \<lparr>rpc_name = name p, rpc_configuration = json p, rpc_hash = hash p\<rparr>"

definition RiderRouteConfig :: "('p \<Rightarrow> string) \<Rightarrow> ('p \<Rightarrow> string) \<Rightarrow> ('p \<Rightarrow> u64) \<Rightarrow> 'p list \<Rightarrow> route_plugin_config list" where
  "RiderRouteConfig name json hash ps = map (RoutePluginConfig name json hash) ps"

definition lookupPerFilterConfig ::
    "string \<Rightarrow> route_plugin_config option \<Rightarrow> route_plugin_config list option \<Rightarrow> route_plugin_config option" where
  "lookupPerFilterConfig name config route_config =
     (case route_config of
        None \<Rightarrow> config
      | Some ps \<Rightarrow> (case find (\<lambda>p. name = rpc_name p) ps of Some p \<Rightarrow> Some p | None \<Rightarrow> config))"

text \<open>A plugin gets the first message of the route that has its name.\<close>

lemma find_map_option: "find P (map f xs) = map_option f (find (P \<circ> f) xs)"
  by (induction xs) auto

lemma lookup_route_plugin:
  "lookupPerFilterConfig n config (Some (RiderRouteConfig name json hash ps)) =
     (case find (\<lambda>p. n = name p) ps of Some p \<Rightarrow> Some (RoutePluginConfig name json hash p) | None \<Rightarrow> config)"
  by (simp add: lookupPerFilterConfig_def RiderRouteConfig_def find_map_option comp_def RoutePluginConfig_def split: option.splits)

section \<open>The functions a plugin gets called\<close>

datatype hook = RequestHeaders | RequestBody | ResponseHeaders | ResponseBody

text \<open>Which reference the callbacks of the filter start, by the version of the handle.\<close>

definition hook_ref :: "plugin_handle \<Rightarrow> hook \<Rightarrow> nat option" where
  "hook_ref h k =
     (case ph_version h of
        V1 \<Rightarrow> (case k of RequestHeaders \<Rightarrow> on_request_ref h | ResponseHeaders \<Rightarrow> on_response_ref h | _ \<Rightarrow> None)
      | V2 \<Rightarrow> (case k of RequestHeaders \<Rightarrow> on_request_header_ref h | RequestBody \<Rightarrow> on_request_body_ref h
              | ResponseHeaders \<Rightarrow> on_response_header_ref h | ResponseBody \<Rightarrow> on_response_body_ref h))"

definition hook_function :: "plugin_handle \<Rightarrow> 'f lua_registry \<Rightarrow> hook \<Rightarrow> 'f option" where
  "hook_function h r k = (case hook_ref h k of None \<Rightarrow> None | Some n \<Rightarrow> map_of (reg_entries r) n)"

definition registry_ok :: "'f lua_registry \<Rightarrow> bool" where
  "registry_ok r \<longleftrightarrow> (\<forall>n. map_of (reg_entries r) n \<noteq> None \<longrightarrow> n < reg_next r)"

definition exported :: "'f lua_value \<Rightarrow> 'f option" where
  "exported v = (case v of LuaFunction f \<Rightarrow> Some f | _ \<Rightarrow> None)"

text \<open>Loading a hook adds what it exports under a new reference and keeps every older one.\<close>

definition ref_function :: "nat option \<Rightarrow> 'f lua_registry \<Rightarrow> 'f option" where
  "ref_function n r = (case n of None \<Rightarrow> None | Some n \<Rightarrow> map_of (reg_entries r) n)"

lemma hook_function_eq: "hook_function h r k = ref_function (hook_ref h k) r"
  by (simp add: hook_function_def ref_function_def)

definition extends :: "'f lua_registry \<Rightarrow> 'f lua_registry \<Rightarrow> bool" where
  "extends r r' \<longleftrightarrow> registry_ok r' \<and> (\<forall>n f. map_of (reg_entries r) n = Some f \<longrightarrow> map_of (reg_entries r') n = Some f)"

lemma load_hook_spec:
  assumes "registry_ok r" and "load_hook ex name r = (n, r')"
  shows "extends r r'" and "ref_function n r' = exported (ex name)" and "n \<noteq> None \<longleftrightarrow> exported (ex name) \<noteq> None"
  using assms
  by (auto simp: load_hook_def luaL_ref_def extends_def ref_function_def exported_def registry_ok_def less_Suc_eq
           split: lua_value.splits if_splits)

lemma extends_ref: "extends r r' \<Longrightarrow> ref_function n r = Some f \<Longrightarrow> ref_function n r' = Some f"
  by (auto simp: extends_def ref_function_def split: option.splits)

lemma extends_trans: "extends r r' \<Longrightarrow> extends r' r'' \<Longrightarrow> extends r r''"
  by (simp add: extends_def)

lemma extends_ok: "extends r r' \<Longrightarrow> registry_ok r'"
  by (simp add: extends_def)

lemma extends_refl: "registry_ok r \<Longrightarrow> extends r r"
  by (simp add: extends_def)

text \<open>A hook that has been loaded still leads to what was exported when more have been loaded.\<close>

lemma loaded_hook:
  assumes "registry_ok r" and "load_hook ex name r = (n, r')" and "extends r' r''"
  shows "ref_function n r'' = exported (ex name)"
proof (cases n)
  case None
  with load_hook_spec(3) [OF assms(1,2)] show ?thesis by (simp add: ref_function_def)
next
  case (Some m)
  with load_hook_spec(2,3) [OF assms(1,2)] extends_ref [OF assms(3), of n] show ?thesis by auto
qed

text \<open>What the references of a handle lead to, given the exports and the version field of a plugin.\<close>

definition hooks_loaded ::
    "(string \<Rightarrow> 'f lua_value) \<Rightarrow> string option \<Rightarrow> plugin_handle \<Rightarrow> 'f lua_registry \<Rightarrow> bool" where
  "hooks_loaded ex v h r \<longleftrightarrow>
     ph_version h = version_of v \<and> ref_function (on_configure_ref h) r = exported (ex ''on_configure'') \<and>
     ref_function (on_request_ref h) r = (if v = None then exported (ex ''on_request'') else None) \<and>
     ref_function (on_response_ref h) r = (if v = None then exported (ex ''on_response'') else None) \<and>
     ref_function (on_request_header_ref h) r = (if v = None then None else exported (ex ''on_request_header'')) \<and>
     ref_function (on_request_body_ref h) r = (if v = None then None else exported (ex ''on_request_body'')) \<and>
     ref_function (on_response_header_ref h) r = (if v = None then None else exported (ex ''on_response_header'')) \<and>
     ref_function (on_response_body_ref h) r = (if v = None then None else exported (ex ''on_response_body''))"

lemma ref_function_None [simp]: "ref_function None r = None"
  by (simp add: ref_function_def)

lemma load_hooks_None:
  assumes ok: "registry_ok r" and h: "load_hooks ex None r = (h, r')"
  shows "extends r r' \<and> hooks_loaded ex None h r'"
proof -
  obtain c r1 where 0: "load_hook ex ''on_configure'' r = (c, r1)" by force
  note e0 = load_hook_spec(1) [OF ok 0] note ok1 = extends_ok [OF e0]
  obtain a r2 where 1: "load_hook ex ''on_request'' r1 = (a, r2)" by force
  note e1 = load_hook_spec(1) [OF ok1 1] note ok2 = extends_ok [OF e1]
  obtain b r3 where 2: "load_hook ex ''on_response'' r2 = (b, r3)" by force
  note e2 = load_hook_spec(1) [OF ok2 2] note e12 = extends_trans [OF e1 e2]
  have "r' = r3" and "h = PluginHandle\<lparr>ph_version := version_of None, on_configure_ref := c, on_request_ref := a,
      on_response_ref := b\<rparr>" using h 0 1 2 by (auto simp: load_hooks_def)
  then show ?thesis
    using loaded_hook [OF ok 0 e12] loaded_hook [OF ok1 1 e2] loaded_hook [OF ok2 2 extends_refl [OF extends_ok [OF e2]]]
      extends_trans [OF e0 e12] by (simp add: PluginHandle_def hooks_loaded_def)
qed

lemma load_hooks_Some:
  assumes ok: "registry_ok r" and h: "load_hooks ex (Some s) r = (h, r')"
  shows "extends r r' \<and> hooks_loaded ex (Some s) h r'"
proof -
  obtain c r1 where 0: "load_hook ex ''on_configure'' r = (c, r1)" by force
  note e0 = load_hook_spec(1) [OF ok 0] note ok1 = extends_ok [OF e0]
  obtain a r2 where 1: "load_hook ex ''on_request_header'' r1 = (a, r2)" by force
  note e1 = load_hook_spec(1) [OF ok1 1] note ok2 = extends_ok [OF e1]
  obtain b r3 where 2: "load_hook ex ''on_request_body'' r2 = (b, r3)" by force
  note e2 = load_hook_spec(1) [OF ok2 2] note ok3 = extends_ok [OF e2]
  obtain d r4 where 3: "load_hook ex ''on_response_header'' r3 = (d, r4)" by force
  note e3 = load_hook_spec(1) [OF ok3 3] note ok4 = extends_ok [OF e3]
  obtain e r5 where 4: "load_hook ex ''on_response_body'' r4 = (e, r5)" by force
  note e4 = load_hook_spec(1) [OF ok4 4]
  note e34 = extends_trans [OF e3 e4] note e24 = extends_trans [OF e2 e34] note e14 = extends_trans [OF e1 e24]
  have "r' = r5" and "h = PluginHandle\<lparr>ph_version := version_of (Some s), on_configure_ref := c, on_request_header_ref := a,
      on_request_body_ref := b, on_response_header_ref := d, on_response_body_ref := e\<rparr>"
    using h 0 1 2 3 4 by (auto simp: load_hooks_def)
  then show ?thesis
    using loaded_hook [OF ok 0 e14] loaded_hook [OF ok1 1 e24] loaded_hook [OF ok2 2 e34] loaded_hook [OF ok3 3 e4]
      loaded_hook [OF ok4 4 extends_refl [OF extends_ok [OF e4]]] extends_trans [OF e0 e14]
    by (simp add: PluginHandle_def hooks_loaded_def)
qed

lemma load_hooks_spec:
  "registry_ok r \<Longrightarrow> load_hooks ex v r = (h, r') \<Longrightarrow> extends r r' \<and> hooks_loaded ex v h r'"
  using load_hooks_None load_hooks_Some by (cases v) blast+

text \<open>The name under which a plugin of the second version exports a hook.\<close>

fun hook_name :: "hook \<Rightarrow> string" where
  "hook_name RequestHeaders = ''on_request_header''"
| "hook_name RequestBody = ''on_request_body''"
| "hook_name ResponseHeaders = ''on_response_header''"
| "hook_name ResponseBody = ''on_response_body''"

text \<open>
  C35: The functions of a plugin. A plugin that has been started gets exactly these functions called: without a version
  field, \<^verbatim>\<open>on_request\<close> for the request headers and \<^verbatim>\<open>on_response\<close> for the response headers; with the version \<^verbatim>\<open>v2\<close>, the
  four functions for headers and bodies that it exports; and with any other version, \<^verbatim>\<open>v1\<close> included, none at all. The
  plugins loaded before keep their functions.
\<close>

theorem rider_plugin_hooks:
  assumes ok: "registry_ok r" and code: "lua_dostring L (pl_code p) = Exports ex" and start: "startPlugin L p r = Inr (h, r')"
  shows "hook_function h r' k =
      (case opt_string (ex ''version'') of
         Inr None \<Rightarrow> (case k of RequestHeaders \<Rightarrow> exported (ex ''on_request'')
                     | ResponseHeaders \<Rightarrow> exported (ex ''on_response'') | _ \<Rightarrow> None)
       | Inr (Some v) \<Rightarrow> (if v = ''v2'' then exported (ex (hook_name k)) else None)
       | Inl _ \<Rightarrow> None) \<and>
    registry_ok r' \<and> (\<forall>n f. map_of (reg_entries r) n = Some f \<longrightarrow> map_of (reg_entries r') n = Some f)"
proof -
  from start code obtain v where v: "opt_string (ex ''version'') = Inr v" "load_hooks ex v r = (h, r')"
    by (auto simp: startPlugin_def startPluginHandle_def split: sum.splits prod.splits)
  from load_hooks_spec [OF ok v(2)] have e: "extends r r'" and l: "hooks_loaded ex v h r'" by blast+
  have "hook_function h r' k =
      (case v of None \<Rightarrow> (case k of RequestHeaders \<Rightarrow> exported (ex ''on_request'')
                     | ResponseHeaders \<Rightarrow> exported (ex ''on_response'') | _ \<Rightarrow> None)
       | Some v \<Rightarrow> (if v = ''v2'' then exported (ex (hook_name k)) else None))"
    using l by (cases v; cases k) (auto simp: hook_function_eq hook_ref_def hooks_loaded_def version_of_def)
  with e v(1) show ?thesis by (auto simp: extends_def split: option.split)
qed

text \<open>A plugin that names the first version explicitly.\<close>

definition v1_exports :: "string \<Rightarrow> nat lua_value" where
  "v1_exports n = (if n = ''version'' then LuaString ''v1'' else if n = ''on_request'' then LuaFunction 7 else LuaNil)"

theorem rider_plugin_hooks_witness:
  "\<exists>h r'. startPlugin \<lparr>lua_dostring = (\<lambda>_. Exports v1_exports), lua_pcall = (\<lambda>_. 0), lua_add_package_path = (\<lambda>_. True)\<rparr>
             \<lparr>pl_name = ''p'', pl_code = '''', pl_configuration = ''''\<rparr> \<lparr>reg_next = 0, reg_entries = []\<rparr> = Inr (h, r') \<and>
           hook_function h r' RequestHeaders = None"
proof -
  let ?L = "\<lparr>lua_dostring = (\<lambda>_. Exports v1_exports), lua_pcall = (\<lambda>_. 0), lua_add_package_path = (\<lambda>_. True)\<rparr>"
  let ?p = "\<lparr>pl_name = ''p'', pl_code = '''', pl_configuration = ''''\<rparr>"
  let ?r = "\<lparr>reg_next = 0, reg_entries = []\<rparr> :: nat lua_registry"
  have v: "opt_string (v1_exports ''version'') = Inr (Some ''v1'')" by (simp add: opt_string_def v1_exports_def)
  obtain h r' where s: "startPlugin ?L ?p ?r = Inr (h, r')"
    by (auto simp: startPlugin_def startPluginHandle_def opt_string_def load_hooks_def load_hook_def v1_exports_def
        onConfigure_def PluginHandle_def)
  have "registry_ok ?r" by (simp add: registry_ok_def)
  from rider_plugin_hooks [OF this _ s, of v1_exports RequestHeaders] v s show ?thesis by auto
qed

text \<open>Destroying a handle of the second version leaves its functions in the registry.\<close>

lemma destroyed_v2_handle_keeps_hooks:
  assumes "registry_ok r" and "load_hooks ex (Some ''v2'') r = (h, r')" and "exported (ex ''on_configure'') = None"
  shows "ref_function (on_request_header_ref h) (destroy_PluginHandle h r') = exported (ex ''on_request_header'')"
proof -
  have l: "hooks_loaded ex (Some ''v2'') h r'" using load_hooks_Some [OF assms(1,2)] by blast
  have "on_configure_ref h = None \<and> on_request_ref h = None \<and> on_response_ref h = None"
  proof -
    have "load_hook ex ''on_configure'' r = (None, r)"
      using assms(3) by (auto simp: load_hook_def exported_def split: lua_value.splits)
    with assms(2) show ?thesis by (auto simp: load_hooks_def PluginHandle_def split: prod.splits)
  qed
  with l show ?thesis by (simp add: destroy_PluginHandle_def unref_opt_def hooks_loaded_def)
qed

text \<open>A machine that exists is used again under its identifier, with the package path it was made with.\<close>

lemma vm_reused:
  "map_of (local_lua_virtual_machines t) vm_id = Some a \<Longrightarrow> a \<in> set (vt_alive t) \<Longrightarrow>
   getOrCreateThreadLocalLuaVM L vm_id path t = Inr (a, t)"
  by (simp add: getOrCreateThreadLocalLuaVM_def)

lemma vm_made:
  assumes "getOrCreateThreadLocalLuaVM L vm_id path t = Inr (a, t')"
  shows "map_of (local_lua_virtual_machines t') vm_id = Some a \<and> a \<in> set (vt_alive t')"
  using assms
  by (auto simp: getOrCreateThreadLocalLuaVM_def LuaVirtualMachine_def Let_def split: option.splits if_splits)

end
