(* ===== verification/Rider_Api.thy ===== *)
theory Rider_Api
  imports Rider_Plugin Header_Map
begin

text \<open>
  The functions a Lua plugin calls on its request, \<^verbatim>\<open>source/filters/http/rider/ffi.cc\<close> and the interfaces of \<^verbatim>\<open>Filter\<close> in
  \<^verbatim>\<open>filter.{h,cc}\<close>.

  \<^item> Pointers that may be null are options. A function that dereferences a null pointer has no result: its value is
    \<open>None\<close>.
  \<^item> Strings go to Lua as pointers with a length. \<open>View\<close> is a pointer into memory that outlives the call; \<open>Dangling\<close> is
    one into an object that the function destroys when it returns.
  \<^item> Combining the values of a header is a helper of Envoy, the parameter \<open>ra_getAllOfHeaderAsString\<close>: a single value is
    a view of the header itself, several values are joined in a string that belongs to the result.
\<close>

section \<open>Data\<close>

datatype ffi_code = Success | BadContext | NotFound | BadArgument | Unsupported

definition ffi_int :: "ffi_code \<Rightarrow> int" where
  "ffi_int c = (case c of Success \<Rightarrow> 0 | BadContext \<Rightarrow> -1 | NotFound \<Rightarrow> -2 | BadArgument \<Rightarrow> -3 | Unsupported \<Rightarrow> -4)"

datatype stream_direction = DownstreamToUpstream | UpstreamToDownstream

datatype ffi_view = View string | Dangling

datatype all_values = NoValue | InHeader string | InResult string

record 'h rider_api =
  ra_headers :: "'h header_map_ops"
  ra_getAllOfHeaderAsString :: "'h \<Rightarrow> string \<Rightarrow> all_values"
  ra_path :: "'h \<Rightarrow> string option"
  ra_parseQueryString :: "string \<Rightarrow> (string \<times> string) list"
  ra_overflow :: "real \<Rightarrow> int"

text \<open>What the interfaces read and write of the filter and its stream.\<close>

record 'h rider_ctx =
  rx_request_headers :: "'h option"
  rx_response_headers :: "'h option"
  rx_request_buffer :: "string option"
  rx_response_buffer :: "string option"
  rx_route_config :: "route_plugin_config option"
  rx_route_metadata :: "metadata option"
  rx_dynamic_metadata :: metadata
  rx_shared_table :: "nat option"
  rx_next_ref :: nat
  rx_plugin :: "plugin option"
  rx_upstream_host :: "(string \<times> string) option"
  rx_local_address :: "string option"
  rx_remote_address :: "string option"
  rx_log :: "string list option"
  rx_start_time :: int
  rx_now :: u64

section \<open>Headers\<close>

text \<open>A buffer of pairs: \<open>None\<close> is a null pointer to the buffer or its data.\<close>

record pair_buffer =
  pb_capacity :: nat
  pb_pairs :: "(string \<times> string) list"

definition inner_getHeaderMapSize :: "'h rider_api \<Rightarrow> 'h option \<Rightarrow> int" where
  "inner_getHeaderMapSize A h = (case h of None \<Rightarrow> 0 | Some h \<Rightarrow> int (length (hm_iterate (ra_headers A) h)))"

definition inner_getHeaderMap ::
    "'h rider_api \<Rightarrow> 'h option \<Rightarrow> nat option \<Rightarrow> (ffi_code \<times> (string \<times> string) list) option" where
  "inner_getHeaderMap A h buf =
     (case buf of
        None \<Rightarrow> Some (BadArgument, [])
      | Some capacity \<Rightarrow>
        (if capacity = 0 then Some (BadArgument, [])
         else case h of None \<Rightarrow> None | Some h \<Rightarrow> Some (Success, take capacity (hm_iterate (ra_headers A) h))))"

definition inner_getHeaderMapValue :: "'h rider_api \<Rightarrow> 'h option \<Rightarrow> string \<Rightarrow> ffi_code \<times> ffi_view option" where
  "inner_getHeaderMapValue A h key =
     (case h of
        None \<Rightarrow> (BadArgument, None)
      | Some h \<Rightarrow>
        (if key = '''' then (BadArgument, None)
         else case ra_getAllOfHeaderAsString A h (lower key) of
                NoValue \<Rightarrow> (NotFound, None)
              | InHeader v \<Rightarrow> (Success, Some (View v))
              | InResult v \<Rightarrow> (Success, Some Dangling)))"

definition inner_getHeaderMapValueSize :: "'h rider_api \<Rightarrow> 'h option \<Rightarrow> string \<Rightarrow> int option" where
  "inner_getHeaderMapValueSize A h key =
     (if key = '''' then Some (ffi_int BadArgument)
      else case h of None \<Rightarrow> None | Some h \<Rightarrow> Some (int (length (hm_get (ra_headers A) (lower key) h))))"

definition inner_getHeaderMapValueIndex ::
    "'h rider_api \<Rightarrow> 'h option \<Rightarrow> string \<Rightarrow> int \<Rightarrow> ffi_code \<times> ffi_view option" where
  "inner_getHeaderMapValueIndex A h key index =
     (case h of
        None \<Rightarrow> (BadArgument, None)
      | Some h \<Rightarrow>
        (if key = '''' then (BadArgument, None)
         else let vs = hm_get (ra_headers A) (lower key) h
              in if vs = [] \<or> index < 0 \<or> int (length vs) \<le> index then (NotFound, None)
                 else (Success, Some (View (snd (vs ! nat index))))))"

definition inner_setHeaderMap ::
    "'h rider_api \<Rightarrow> 'h option \<Rightarrow> pair_buffer option \<Rightarrow> (ffi_code \<times> 'h option) option" where
  "inner_setHeaderMap A h buf =
     (case buf of
        None \<Rightarrow> Some (BadArgument, h)
      | Some b \<Rightarrow>
        (if pb_capacity b = 0 then Some (BadArgument, h)
         else case h of
                None \<Rightarrow> None
              | Some h \<Rightarrow>
                  (let H = ra_headers A;
                       h1 = fold (\<lambda>e. hm_remove H (lower (fst e))) (hm_iterate H h) h
                   in Some (Success, Some (fold (\<lambda>e. hm_addCopy H (lower (fst e)) (snd e)) (pb_pairs b) h1)))))"

definition inner_setHeaderMapValue :: "'h rider_api \<Rightarrow> 'h option \<Rightarrow> string \<Rightarrow> string \<Rightarrow> ffi_code \<times> 'h option" where
  "inner_setHeaderMapValue A h key v =
     (case h of
        None \<Rightarrow> (BadArgument, h)
      | Some h' \<Rightarrow> (if key = '''' \<or> v = '''' then (BadArgument, h)
                   else (Success, Some (hm_setCopy (ra_headers A) (lower key) v h'))))"

definition inner_removeHeaderMapValue :: "'h rider_api \<Rightarrow> 'h option \<Rightarrow> string \<Rightarrow> ffi_code \<times> 'h option" where
  "inner_removeHeaderMapValue A h key =
     (case h of
        None \<Rightarrow> (BadArgument, h)
      | Some h' \<Rightarrow> (if key = '''' then (BadArgument, h) else (Success, Some (hm_remove (ra_headers A) (lower key) h'))))"

definition getQueryParameters ::
    "'h rider_api \<Rightarrow> nat option \<Rightarrow> 'h rider_ctx \<Rightarrow> ffi_code \<times> (string \<times> string) list" where
  "getQueryParameters A buf c =
     (case (rx_request_headers c, buf) of
        (Some h, Some capacity) \<Rightarrow>
          (Success, case ra_path A h of None \<Rightarrow> [] | Some p \<Rightarrow> take capacity (ra_parseQueryString A p))
      | _ \<Rightarrow> (BadArgument, []))"

section \<open>Metadata, body and the rest\<close>

definition metadata_string :: "'h rider_api \<Rightarrow> string \<Rightarrow> string \<Rightarrow> metadata \<Rightarrow> ffi_code \<times> ffi_view option" where
  "metadata_string A filter_name key m =
     (case map_of m filter_name of
        None \<Rightarrow> (NotFound, None)
      | Some s \<Rightarrow>
        (case map_of s key of
           None \<Rightarrow> (NotFound, None)
         | Some (NumberValue d) \<Rightarrow> (Success, Some (View (decimal_int (int64_of_double (ra_overflow A) d))))
         | Some (StringValue v) \<Rightarrow> (Success, Some (View v))
         | Some _ \<Rightarrow> (Unsupported, None)))"

definition getMetadataValue :: "'h rider_api \<Rightarrow> string \<Rightarrow> string \<Rightarrow> 'h rider_ctx \<Rightarrow> ffi_code \<times> ffi_view option" where
  "getMetadataValue A filter_name key c =
     (case rx_route_metadata c of None \<Rightarrow> (NotFound, None) | Some m \<Rightarrow> metadata_string A filter_name key m)"

definition getDynamicMetadataValue ::
    "'h rider_api \<Rightarrow> string \<Rightarrow> string \<Rightarrow> 'h rider_ctx \<Rightarrow> ffi_code \<times> ffi_view option" where
  "getDynamicMetadataValue A filter_name key c = metadata_string A filter_name key (rx_dynamic_metadata c)"

definition buffered_body_of :: "stream_direction \<Rightarrow> 'h rider_ctx \<Rightarrow> string option" where
  "buffered_body_of d c = (case d of DownstreamToUpstream \<Rightarrow> rx_request_buffer c | UpstreamToDownstream \<Rightarrow> rx_response_buffer c)"

definition rider_getBody :: "stream_direction \<Rightarrow> 'h rider_ctx \<Rightarrow> ffi_code \<times> ffi_view option" where
  "rider_getBody d c =
     (case buffered_body_of d c of None \<Rightarrow> (NotFound, None) | Some b \<Rightarrow> (Success, Some (View b)))"

definition getConfiguration :: "'h rider_ctx \<Rightarrow> ffi_code \<times> ffi_view option" where
  "getConfiguration c =
     (case rx_plugin c of None \<Rightarrow> (NotFound, None) | Some p \<Rightarrow> (Success, Some (View (pl_configuration p))))"

definition getRouteConfigHash :: "'h rider_ctx \<Rightarrow> u64" where
  "getRouteConfigHash c = (case rx_route_config c of None \<Rightarrow> 0 | Some r \<Rightarrow> rpc_hash r)"

definition getRouteConfiguration :: "'h rider_ctx \<Rightarrow> ffi_code \<times> ffi_view option" where
  "getRouteConfiguration c =
     (case rx_route_config c of None \<Rightarrow> (NotFound, None) | Some r \<Rightarrow> (Success, Some (View (rpc_configuration r))))"

definition getOrCreateSharedTable :: "'h rider_ctx \<Rightarrow> nat \<times> 'h rider_ctx" where
  "getOrCreateSharedTable c =
     (case rx_shared_table c of
        Some n \<Rightarrow> (n, c)
      | None \<Rightarrow> (rx_next_ref c, c\<lparr>rx_shared_table := Some (rx_next_ref c), rx_next_ref := Suc (rx_next_ref c)\<rparr>))"

definition fileLog :: "string \<Rightarrow> 'h rider_ctx \<Rightarrow> 'h rider_ctx" where
  "fileLog s c = (case rx_log c of None \<Rightarrow> c | Some l \<Rightarrow> c\<lparr>rx_log := Some (l @ [s])\<rparr>)"

text \<open>
  The log of the process: the levels of spdlog from trace to error are 0 to 4, any other level ends the process. The text
  itself goes to the log of Envoy and is not part of the state.
\<close>

definition rider_log :: "int \<Rightarrow> int option" where
  "rider_log level = (if 0 \<le> level \<and> level \<le> 4 then Some 0 else None)"

section \<open>The calls of a script\<close>

text \<open>The functions that \<^verbatim>\<open>ffi.cc\<close> exports; the first version passes the context, the second uses the thread's current one.\<close>

datatype ffi_call =
    FfiGetHeaderMapSize stream_direction
  | FfiGetHeaderMap stream_direction "nat option"
  | FfiGetHeaderMapValue stream_direction string
  | FfiGetHeaderMapValueSize stream_direction string
  | FfiGetHeaderMapValueIndex stream_direction string int
  | FfiSetHeaderMap stream_direction "pair_buffer option"
  | FfiSetHeaderMapValue stream_direction string string
  | FfiRemoveHeaderMapValue stream_direction string
  | FfiGetQueryParameters "nat option"
  | FfiGetMetadata string string
  | FfiGetDynamicMetadata string string
  | FfiGetBody stream_direction
  | FfiGetConfiguration
  | FfiGetRouteConfiguration
  | FfiGetRouteConfigHash
  | FfiGetSharedTable
  | FfiFileLog string
  | FfiUpstreamHost
  | FfiUpstreamCluster
  | FfiDownstreamLocalAddress
  | FfiDownstreamRemoteAddress
  | FfiStartTime
  | FfiCurrentTimeMilliseconds
  | FfiLog int string

datatype ffi_result =
    RInt int
  | RCode ffi_code
  | RHash u64
  | RString "ffi_code \<times> ffi_view option"
  | RPairs "ffi_code \<times> (string \<times> string) list"
  | RPointer "string option"
  | RVoid

text \<open>
  The addresses of the stream. Envoy keeps these strings with the host and the connection, which outlive the call; the host is
  its address and the name of its cluster, and is missing before one is chosen.
\<close>

definition upstreamHost :: "'h rider_ctx \<Rightarrow> string option" where
  "upstreamHost c = (case rx_upstream_host c of None \<Rightarrow> None | Some (address, cluster) \<Rightarrow> Some address)"

definition upstreamCluster :: "'h rider_ctx \<Rightarrow> string option" where
  "upstreamCluster c = (case rx_upstream_host c of None \<Rightarrow> None | Some (address, cluster) \<Rightarrow> Some cluster)"

definition downstreamLocalAddress :: "'h rider_ctx \<Rightarrow> string option" where
  "downstreamLocalAddress c = rx_local_address c"

definition downstreamRemoteAddress :: "'h rider_ctx \<Rightarrow> string option" where
  "downstreamRemoteAddress c = rx_remote_address c"

definition headers_of :: "stream_direction \<Rightarrow> 'h rider_ctx \<Rightarrow> 'h option" where
  "headers_of d c = (case d of DownstreamToUpstream \<Rightarrow> rx_request_headers c | UpstreamToDownstream \<Rightarrow> rx_response_headers c)"

definition set_headers_of :: "stream_direction \<Rightarrow> 'h option \<Rightarrow> 'h rider_ctx \<Rightarrow> 'h rider_ctx" where
  "set_headers_of d h c =
     (case d of DownstreamToUpstream \<Rightarrow> c\<lparr>rx_request_headers := h\<rparr> | UpstreamToDownstream \<Rightarrow> c\<lparr>rx_response_headers := h\<rparr>)"

definition ffi_step :: "'h rider_api \<Rightarrow> ffi_call \<Rightarrow> 'h rider_ctx \<Rightarrow> (ffi_result \<times> 'h rider_ctx) option" where
  "ffi_step A call c =
     (case call of
        FfiGetHeaderMapSize d \<Rightarrow> Some (RInt (inner_getHeaderMapSize A (headers_of d c)), c)
      | FfiGetHeaderMap d buf \<Rightarrow> map_option (\<lambda>r. (RPairs r, c)) (inner_getHeaderMap A (headers_of d c) buf)
      | FfiGetHeaderMapValue d k \<Rightarrow> Some (RString (inner_getHeaderMapValue A (headers_of d c) k), c)
      | FfiGetHeaderMapValueSize d k \<Rightarrow> map_option (\<lambda>n. (RInt n, c)) (inner_getHeaderMapValueSize A (headers_of d c) k)
      | FfiGetHeaderMapValueIndex d k i \<Rightarrow> Some (RString (inner_getHeaderMapValueIndex A (headers_of d c) k i), c)
      | FfiSetHeaderMap d buf \<Rightarrow>
          map_option (\<lambda>(rc, h). (RCode rc, set_headers_of d h c)) (inner_setHeaderMap A (headers_of d c) buf)
      | FfiSetHeaderMapValue d k v \<Rightarrow>
          (let (rc, h) = inner_setHeaderMapValue A (headers_of d c) k v in Some (RCode rc, set_headers_of d h c))
      | FfiRemoveHeaderMapValue d k \<Rightarrow>
          (let (rc, h) = inner_removeHeaderMapValue A (headers_of d c) k in Some (RCode rc, set_headers_of d h c))
      | FfiGetQueryParameters buf \<Rightarrow> Some (RPairs (getQueryParameters A buf c), c)
      | FfiGetMetadata f k \<Rightarrow> Some (RString (getMetadataValue A f k c), c)
      | FfiGetDynamicMetadata f k \<Rightarrow> Some (RString (getDynamicMetadataValue A f k c), c)
      | FfiGetBody d \<Rightarrow> Some (RString (rider_getBody d c), c)
      | FfiGetConfiguration \<Rightarrow> Some (RString (getConfiguration c), c)
      | FfiGetRouteConfiguration \<Rightarrow> Some (RString (getRouteConfiguration c), c)
      | FfiGetRouteConfigHash \<Rightarrow> Some (RHash (getRouteConfigHash c), c)
      | FfiGetSharedTable \<Rightarrow> (let (n, c') = getOrCreateSharedTable c in Some (RInt (int n), c'))
      | FfiFileLog s \<Rightarrow> Some (RVoid, fileLog s c)
      | FfiUpstreamHost \<Rightarrow> Some (RPointer (upstreamHost c), c)
      | FfiUpstreamCluster \<Rightarrow> Some (RPointer (upstreamCluster c), c)
      | FfiDownstreamLocalAddress \<Rightarrow> Some (RPointer (downstreamLocalAddress c), c)
      | FfiDownstreamRemoteAddress \<Rightarrow> Some (RPointer (downstreamRemoteAddress c), c)
      | FfiStartTime \<Rightarrow> Some (RInt (rx_start_time c), c)
      | FfiCurrentTimeMilliseconds \<Rightarrow> Some (RHash (rx_now c), c)
      | FfiLog level message \<Rightarrow> map_option (\<lambda>n. (RInt n, c)) (rider_log level))"

text \<open>
  The same functions on the base context, which \<^verbatim>\<open>on_configure\<close> has. \<^verbatim>\<open>ContextBase\<close> implements the
  configuration and the log; the other functions are marked as not reached, and a call ends the process.
\<close>

definition base_step :: "ffi_call \<Rightarrow> 'h rider_ctx \<Rightarrow> ffi_result option" where
  "base_step call c =
     (case call of
        FfiGetConfiguration \<Rightarrow> Some (RString (getConfiguration c))
      | FfiLog level message \<Rightarrow> map_option RInt (rider_log level)
      | _ \<Rightarrow> None)"

lemma base_step_agrees:
  "base_step call c = Some r \<Longrightarrow>
   (call = FfiGetConfiguration \<or> (\<exists>level message. call = FfiLog level message)) \<and> ffi_step A call c = Some (r, c)"
  by (auto simp: base_step_def ffi_step_def split: ffi_call.splits)

section \<open>Properties of the header functions\<close>

text \<open>No call of a script changes the buffered bodies.\<close>

lemma set_headers_of_buffers [simp]:
  "rx_request_buffer (set_headers_of d h c) = rx_request_buffer c"
  "rx_response_buffer (set_headers_of d h c) = rx_response_buffer c"
  by (cases d; simp add: set_headers_of_def)+

lemma ffi_step_frame:
  assumes "ffi_step A call c = Some (r, c')"
  shows "rx_request_buffer c' = rx_request_buffer c" and "rx_response_buffer c' = rx_response_buffer c"
  using assms
  by (auto simp: ffi_step_def getOrCreateSharedTable_def fileLog_def Let_def
           split: ffi_call.splits prod.splits option.splits)

lemma get_fold_remove:
  assumes H: "header_map_laws H inl valid"
  shows "hm_get H k (fold (\<lambda>e. hm_remove H (fst e)) es h) = (if k \<in> fst ` set es then [] else hm_get H k h)"
proof (induction es arbitrary: h)
  case (Cons e es)
  then show ?case by (auto simp: header_map_lawsD(8) [OF H])
qed simp

text \<open>Removing every name that a map has leaves no value.\<close>

lemma get_cleared:
  assumes H: "header_map_laws H inl valid" and v: "valid h"
  shows "hm_get H k (fold (\<lambda>e. hm_remove H (lower (fst e))) (hm_iterate H h) h) = []"
proof -
  have "lower (fst e) = fst e" if "e \<in> set (hm_iterate H h)" for e
    using header_map_lawsD(4) [OF H v that] by (simp add: name_ok_def)
  then have "fold (\<lambda>e. hm_remove H (lower (fst e))) (hm_iterate H h) h = fold (\<lambda>e. hm_remove H (fst e)) (hm_iterate H h) h"
    by (intro fold_cong) auto
  then show ?thesis
    using header_map_lawsD(3) [OF H, of k h] by (auto simp: get_fold_remove [OF H] filter_empty_conv)
qed

lemma get_fold_add_lower:
  assumes H: "header_map_laws H inl valid" and empty: "\<And>k. hm_get H k h = []"
    and inl: "\<And>k. inl k \<Longrightarrow> length (filter (\<lambda>e. lower (fst e) = k) es) \<le> 1"
  shows "hm_get H k (fold (\<lambda>e. hm_addCopy H (lower (fst e)) (snd e)) es h) =
    map (\<lambda>e. (k, snd e)) (filter (\<lambda>e. lower (fst e) = k) es)"
  using inl
proof (induction es arbitrary: k rule: rev_induct)
  case (snoc e es)
  have "length (filter (\<lambda>e. lower (fst e) = k) es) \<le> 1" if "inl k" for k
    using snoc.prems [OF that] by (simp split: if_splits)
  note IH = snoc.IH [OF this]
  have "\<not> inl (lower (fst e)) \<or> filter (\<lambda>e'. lower (fst e') = lower (fst e)) es = []"
    using snoc.prems [of "lower (fst e)"] by auto
  then have "\<not> inl (lower (fst e)) \<or>
      hm_get H (lower (fst e)) (fold (\<lambda>e. hm_addCopy H (lower (fst e)) (snd e)) es h) = []"
    by (simp add: IH)
  from header_map_lawsD(6) [OF H this] show ?case by (auto simp: IH)
qed (simp add: empty)

text \<open>
  Replacing all headers. After a script has set the header map of a direction, every name has exactly the values
  that the script gave for it, in order, compared without regard to case, and the old values are gone; the headers of
  the other direction are as before. Names that can have one value only are given once.
\<close>

theorem rider_set_header_map:
  assumes H: "header_map_laws (ra_headers A) inl valid" and h: "headers_of d c = Some h" "valid h"
    and b: "0 < pb_capacity b" "\<And>k. inl k \<Longrightarrow> length (filter (\<lambda>e. lower (fst e) = k) (pb_pairs b)) \<le> 1"
  shows "\<exists>c' h'. ffi_step A (FfiSetHeaderMap d (Some b)) c = Some (RCode Success, c') \<and> headers_of d c' = Some h' \<and>
    (\<forall>k. hm_get (ra_headers A) k h' = map (\<lambda>e. (k, snd e)) (filter (\<lambda>e. lower (fst e) = k) (pb_pairs b))) \<and>
    (\<forall>d'. d' \<noteq> d \<longrightarrow> headers_of d' c' = headers_of d' c)"
proof -
  have other: "d' \<noteq> d \<Longrightarrow> headers_of d' (set_headers_of d x c) = headers_of d' c" for d' x
    by (cases d; cases d') (simp_all add: headers_of_def set_headers_of_def)
  have same: "headers_of d (set_headers_of d x c) = x" for x
    by (cases d) (simp_all add: headers_of_def set_headers_of_def)
  show ?thesis
    using h(1) b(1) get_fold_add_lower [OF H get_cleared [OF H h(2)] b(2)]
    by (auto simp: ffi_step_def inner_setHeaderMap_def Let_def same other)
qed

text \<open>A script that replaces the headers of a response.\<close>

definition example_rider_api :: "(string \<times> string) list rider_api" where
  "example_rider_api =
     \<lparr>ra_headers = list_headers,
      ra_getAllOfHeaderAsString =
        (\<lambda>h k. case filter (\<lambda>e. fst e = k) h of
                 [] \<Rightarrow> NoValue | [e] \<Rightarrow> InHeader (snd e) | es \<Rightarrow> InResult (concat (map snd es))),
      ra_path = (\<lambda>h. map_of h '':path''), ra_parseQueryString = (\<lambda>_. []), ra_overflow = (\<lambda>_. 0)\<rparr>"

definition example_rider_ctx :: "(string \<times> string) list rider_ctx" where
  "example_rider_ctx =
     \<lparr>rx_request_headers = Some [('':path'', ''/'')], rx_response_headers = Some [(''server'', ''a''), (''x'', ''1'')],
      rx_request_buffer = None, rx_response_buffer = None, rx_route_config = None, rx_route_metadata = None,
      rx_dynamic_metadata = [], rx_shared_table = None, rx_next_ref = 0, rx_plugin = None, rx_upstream_host = None,
      rx_local_address = None, rx_remote_address = None, rx_log = None, rx_start_time = 0, rx_now = 0\<rparr>"

theorem rider_set_header_map_witness:
  "\<exists>c' h'. ffi_step example_rider_api
      (FfiSetHeaderMap UpstreamToDownstream (Some \<lparr>pb_capacity = 1, pb_pairs = [(''X'', ''2'')]\<rparr>)) example_rider_ctx =
        Some (RCode Success, c') \<and> headers_of UpstreamToDownstream c' = Some h' \<and>
      hm_get list_headers ''x'' h' = [(''x'', ''2'')] \<and> hm_get list_headers ''server'' h' = []"
proof -
  let ?h = "[(''server'', ''a''), (''x'', ''1'')]"
  have "\<forall>e\<in>set ?h. name_ok (fst e) \<and> text_ok (snd e)"
    by (simp add: name_ok_def text_ok_def lower_def tolower_def)
  moreover have "headers_of UpstreamToDownstream example_rider_ctx = Some ?h"
    by (simp add: headers_of_def example_rider_ctx_def)
  moreover have "header_map_laws (ra_headers example_rider_api) (\<lambda>k. False) (\<lambda>h. \<forall>e\<in>set h. name_ok (fst e) \<and> text_ok (snd e))"
    using list_headers_laws by (simp add: example_rider_api_def)
  ultimately obtain c' h' where
    c': "ffi_step example_rider_api
      (FfiSetHeaderMap UpstreamToDownstream (Some \<lparr>pb_capacity = 1, pb_pairs = [(''X'', ''2'')]\<rparr>)) example_rider_ctx =
        Some (RCode Success, c')" "headers_of UpstreamToDownstream c' = Some h'"
    and get: "\<And>k. hm_get (ra_headers example_rider_api) k h' =
      map (\<lambda>e. (k, snd e)) (filter (\<lambda>e. lower (fst e) = k) [(''X'', ''2'')])"
    using rider_set_header_map [of example_rider_api "\<lambda>k. False" _ UpstreamToDownstream example_rider_ctx ?h
        "\<lparr>pb_capacity = 1, pb_pairs = [(''X'', ''2'')]\<rparr>"] by fastforce
  have "lower ''X'' = ''x''" by code_simp
  then have "hm_get list_headers ''x'' h' = [(''x'', ''2'')]" "hm_get list_headers ''server'' h' = []"
    using get [of "''x''"] get [of "''server''"] by (simp_all add: example_rider_api_def)
  with c' show ?thesis by blast
qed

end
