(* ===== verification/Rider_Stream.thy ===== *)
theory Rider_Stream
  imports Rider_Api
begin

text \<open>
  The coroutines of a plugin and the state machine around them, \<^verbatim>\<open>Coroutine\<close> in \<^verbatim>\<open>source/filters/http/rider/vm.cc\<close> and
  \<^verbatim>\<open>StreamWrapper\<close> in \<^verbatim>\<open>filter.{h,cc}\<close>.

  \<^item> A Lua function is given by what it does, the tree \<open>lua_script\<close>: it finishes, fails, or calls one of the functions
    that the filter offers and continues depending on the result. A call that raises an error gives the script the left
    part of a sum, so a script that does not catch it is one that fails there. The calls are made in the coroutine that
    the filter runs, so the yield of a call suspends the script; scripts that make a call in a Lua coroutine of their own,
    with \<^verbatim>\<open>coroutine.wrap\<close>, say, where the yield returns to the script, are those of \<open>Rider_Coroutines\<close>.
  \<^item> The tables that a script passes as headers have strings as keys.
  \<^item> The exported C functions push the context, and some the direction, on the Lua stack and leave them there, above the
    script's arguments; \<open>stack\<close> is the stack that the arguments are read from.
  \<^item> How \<^verbatim>\<open>FilterCallbacks\<close> responds is an argument of the functions, as it is a virtual method of the code.
  \<^item> A result \<open>None\<close> is the dereference of a null pointer, or a resume of a coroutine that waits for nothing. A second
    component \<open>Some e\<close> is a \<^verbatim>\<open>LuaException\<close> that is thrown after the state has changed as the first component says.
\<close>

section \<open>Scripts\<close>

datatype lua_arg =
    ArgNil
  | ArgString string
  | ArgNumber string int
  | ArgTable "(string \<times> lua_arg) list"
  | ArgOther

datatype lua_values =
    NoValues
  | BodyValue string
  | ResponseValue "(string \<times> string) list" "string option"

datatype lua_script =
    Finish
  | Fail "string option"
  | FfiCall ffi_call "ffi_result \<Rightarrow> lua_script"
  | GetBody stream_direction "string + lua_values \<Rightarrow> lua_script"
  | HttpCallScript "lua_arg list" "string + lua_values \<Rightarrow> lua_script"
  | Respond "lua_arg list" "string + lua_values \<Rightarrow> lua_script"
  | CoYield "lua_values \<Rightarrow> lua_script"

definition arg :: "nat \<Rightarrow> lua_arg list \<Rightarrow> lua_arg" where
  "arg i stack = (if 0 < i \<and> i \<le> length stack then stack ! (i - 1) else ArgNil)"

definition direction_arg :: "stream_direction \<Rightarrow> lua_arg" where
  "direction_arg d = (case d of DownstreamToUpstream \<Rightarrow> ArgNumber ''0'' 0 | UpstreamToDownstream \<Rightarrow> ArgNumber ''1'' 1)"

text \<open>The stack of \<^verbatim>\<open>static_lua_respond\<close> and \<^verbatim>\<open>static_lua_http_call\<close>: the arguments, the context and the direction.\<close>

definition call_stack :: "stream_direction \<Rightarrow> lua_arg list \<Rightarrow> lua_arg list" where
  "call_stack d args = args @ [ArgOther, direction_arg d]"

definition checkstring :: "lua_arg \<Rightarrow> string throws" where
  "checkstring a = (case a of ArgString s \<Rightarrow> Inr s | ArgNumber s n \<Rightarrow> Inr s | _ \<Rightarrow> Inl ''string expected'')"

definition optlstring :: "lua_arg \<Rightarrow> string option throws" where
  "optlstring a = (case a of ArgNil \<Rightarrow> Inr None | _ \<Rightarrow> (case checkstring a of Inl e \<Rightarrow> Inl e | Inr s \<Rightarrow> Inr (Some s)))"

definition checktable :: "lua_arg \<Rightarrow> (string \<times> lua_arg) list throws" where
  "checktable a = (case a of ArgTable t \<Rightarrow> Inr t | _ \<Rightarrow> Inl ''table expected'')"

definition checkint :: "(string \<Rightarrow> int option) \<Rightarrow> lua_arg \<Rightarrow> int throws" where
  "checkint tonumber a =
     (case a of
        ArgNumber s n \<Rightarrow> Inr n
      | ArgString s \<Rightarrow> (case tonumber s of Some n \<Rightarrow> Inr n | None \<Rightarrow> Inl ''number expected'')
      | _ \<Rightarrow> Inl ''number expected'')"

fun buildHeadersFromTable :: "'h header_map_ops \<Rightarrow> (string \<times> lua_arg) list \<Rightarrow> 'h \<Rightarrow> 'h throws" where
  "buildHeadersFromTable H [] h = Inr h"
| "buildHeadersFromTable H ((k, v) # t) h =
     (case checkstring v of
        Inl e \<Rightarrow> Inl e
      | Inr s \<Rightarrow> buildHeadersFromTable H t (hm_addCopy H (lower (c_str k)) (c_str s) h))"

section \<open>The filter's state\<close>

datatype coroutine = NotStarted | Suspended "lua_values \<Rightarrow> lua_script" | Finished | Dead

datatype wrapper_state = Running | WaitForBody | WaitForBodyChunk | WaitForTrailers | HttpCall | Responded

record stream_wrapper =
  sw_state :: wrapper_state
  sw_coroutine :: coroutine
  sw_http_request :: bool
  sw_saw_body :: bool
  sw_buffered_body :: bool
  sw_end_stream :: bool
  sw_headers_continued :: bool
  sw_start_body :: bool
  sw_function_ref_body :: "nat option"

definition StreamWrapper :: "bool \<Rightarrow> stream_wrapper" where
  "StreamWrapper end_stream =
     \<lparr>sw_state = Running, sw_coroutine = NotStarted, sw_http_request = False, sw_saw_body = False,
      sw_buffered_body = False, sw_end_stream = end_stream, sw_headers_continued = False, sw_start_body = False,
      sw_function_ref_body = None\<rparr>"

text \<open>What the filter asks of Envoy, in order.\<close>

datatype 'h rider_call =
    SendRequest string 'h "string option" "int option"
  | CancelRequest stream_direction
  | RiderEncodeHeaders 'h bool
  | RiderEncodeData string bool
  | AddData stream_direction string
  | ContinueIteration stream_direction
  | UnrefTable nat
  | LogError string
  | HeadersReturned headers_status
  | DataReturned data_status

record 'h rider_filter =
  rf_ctx :: "'h rider_ctx"
  rf_request :: "stream_wrapper option"
  rf_response :: "stream_wrapper option"
  rf_responded :: bool
  rf_destroyed :: bool
  rf_error :: bool
  rf_sent :: nat
  rf_calls :: "'h rider_call list"

text \<open>
  The surroundings of a stream: the route, the plugin, and what Envoy does. \<open>re_send n\<close> is how the \<open>n\<close>-th call that is
  sent to a cluster starts: \<open>None\<close> if it is under way, or else the answer that came at once. \<open>re_encoder_reached\<close> says
  whether a direct response gets to this filter's encoder before the call that sent it returns, and
  \<open>re_ends_stream\<close> whether the stream ends when the headers of a direct response have been sent.
\<close>

record 'h rider_env =
  re_api :: "'h rider_api"
  re_config :: rider_config
  re_handle :: plugin_handle
  re_registry :: "lua_script lua_registry"
  re_has_route :: bool
  re_route_plugins :: "route_plugin_config list option"
  re_cluster :: "string \<Rightarrow> bool"
  re_send :: "nat \<Rightarrow> ((string \<times> string) list \<times> string) option option"
  re_tonumber :: "string \<Rightarrow> int option"
  re_atoi :: "string \<Rightarrow> u64 option"
  re_encoder_reached :: bool
  re_ends_stream :: bool

type_synonym 'h respond_fn = "'h \<Rightarrow> string option \<Rightarrow> 'h rider_filter \<Rightarrow> 'h rider_filter option throws"

definition wrapper_of :: "stream_direction \<Rightarrow> 'h rider_filter \<Rightarrow> stream_wrapper option" where
  "wrapper_of d f = (case d of DownstreamToUpstream \<Rightarrow> rf_request f | UpstreamToDownstream \<Rightarrow> rf_response f)"

definition set_wrapper :: "stream_direction \<Rightarrow> stream_wrapper \<Rightarrow> 'h rider_filter \<Rightarrow> 'h rider_filter" where
  "set_wrapper d w f =
     (case d of DownstreamToUpstream \<Rightarrow> f\<lparr>rf_request := Some w\<rparr> | UpstreamToDownstream \<Rightarrow> f\<lparr>rf_response := Some w\<rparr>)"

definition upd_wrapper :: "stream_direction \<Rightarrow> (stream_wrapper \<Rightarrow> stream_wrapper) \<Rightarrow> 'h rider_filter \<Rightarrow> 'h rider_filter" where
  "upd_wrapper d g f = (case wrapper_of d f of None \<Rightarrow> f | Some w \<Rightarrow> set_wrapper d (g w) f)"

definition log_call :: "'h rider_call \<Rightarrow> 'h rider_filter \<Rightarrow> 'h rider_filter" where
  "log_call c f = f\<lparr>rf_calls := rf_calls f @ [c]\<rparr>"

definition scriptError :: "string \<Rightarrow> 'h rider_filter \<Rightarrow> 'h rider_filter" where
  "scriptError e f = log_call (LogError e) (f\<lparr>rf_error := True\<rparr>)"

section \<open>The functions that may suspend a script\<close>

datatype api_result = ApiError string | ApiValues lua_values | ApiYield

definition luaBody :: "stream_direction \<Rightarrow> 'h rider_filter \<Rightarrow> (api_result \<times> 'h rider_filter) option" where
  "luaBody d f =
     (case wrapper_of d f of
        None \<Rightarrow> None
      | Some w \<Rightarrow> Some (
          if sw_end_stream w
          then (if \<not> sw_buffered_body w \<and> sw_saw_body w
                then (ApiError ''cannot call body() after body has been streamed'', f)
                else case buffered_body_of d (rf_ctx f) of
                       None \<Rightarrow> (ApiValues NoValues, f)
                     | Some b \<Rightarrow> (ApiValues (BodyValue b), f))
          else if sw_saw_body w then (ApiError ''cannot call body() after body streaming has started'', f)
          else (ApiYield, set_wrapper d (w\<lparr>sw_state := WaitForBody, sw_buffered_body := True\<rparr>) f)))"

definition response_status :: "'h rider_env \<Rightarrow> 'h \<Rightarrow> u64 option" where
  "response_status E h =
     re_atoi E (case hm_get (ra_headers (re_api E)) '':status'' h of [] \<Rightarrow> '''' | e # _ \<Rightarrow> snd e)"

definition luaRespond ::
    "'h rider_env \<Rightarrow> 'h respond_fn \<Rightarrow> stream_direction \<Rightarrow> lua_arg list \<Rightarrow> 'h rider_filter \<Rightarrow>
     (api_result \<times> 'h rider_filter) option" where
  "luaRespond E rsp d stack f =
     (let H = ra_headers (re_api E) in
      case wrapper_of d f of
        None \<Rightarrow> None
      | Some w \<Rightarrow>
        (if sw_headers_continued w
         then Some (ApiError ''respond() cannot be called if headers have been continued'', f)
         else case checktable (arg 1 stack) of
                Inl e \<Rightarrow> Some (ApiError e, f)
              | Inr t \<Rightarrow>
                (case optlstring (arg 2 stack) of
                   Inl e \<Rightarrow> Some (ApiError e, f)
                 | Inr raw_body \<Rightarrow>
                   (case buildHeadersFromTable H t (hm_create H) of
                      Inl e \<Rightarrow> Some (ApiError e, f)
                    | Inr h \<Rightarrow>
                      (case response_status E h of
                         None \<Rightarrow> Some (ApiError '':status must be between 200-599'', f)
                       | Some status \<Rightarrow>
                         (if status < 200 \<or> 600 \<le> status
                          then Some (ApiError '':status must be between 200-599'', f)
                          else let h' = (case raw_body of
                                           None \<Rightarrow> h
                                         | Some b \<Rightarrow> hm_setCopy H ''content-length'' (decimal_int (int (length b))) h)
                               in case rsp h' raw_body (f\<lparr>rf_responded := True\<rparr>) of
                                    Inl e \<Rightarrow> Some (ApiError e, f\<lparr>rf_responded := True\<rparr>)
                                  | Inr None \<Rightarrow> None
                                  | Inr (Some f') \<Rightarrow>
                                      Some (ApiYield, upd_wrapper d (\<lambda>w. w\<lparr>sw_state := Responded\<rparr>) f')))))))"

text \<open>The table that a script gets for the headers of an answer: a later value of a name replaces an earlier one.\<close>

definition headers_table :: "(string \<times> string) list \<Rightarrow> (string \<times> string) list" where
  "headers_table hs = fold (\<lambda>(k, v). AList.update k v) hs []"

definition response_values :: "(string \<times> string) list \<Rightarrow> string \<Rightarrow> lua_values" where
  "response_values hs body = ResponseValue (headers_table hs) (if body = '''' then None else Some body)"

definition upstream_failure :: "(string \<times> string) list \<times> string" where
  "upstream_failure = ([('':status'', ''503'')], ''upstream failure'')"

definition quoted :: "string \<Rightarrow> string" where
  "quoted s = CHR 0x27 # s @ [CHR 0x27]"

text \<open>\<open>re_send\<close> gives the answer with its headers and body; a failure at once is the made up answer of \<^verbatim>\<open>onFailure\<close>.\<close>

definition luaHttpCall ::
    "'h rider_env \<Rightarrow> stream_direction \<Rightarrow> lua_arg list \<Rightarrow> 'h rider_filter \<Rightarrow> (api_result \<times> 'h rider_filter) option" where
  "luaHttpCall E d stack f =
     (let H = ra_headers (re_api E); err = (\<lambda>e. Some (ApiError e, f)) in
      case wrapper_of d f of
        None \<Rightarrow> None
      | Some w \<Rightarrow>
        (case checkstring (arg 1 stack) of
           Inl e \<Rightarrow> err e
         | Inr cluster \<Rightarrow>
        (case checktable (arg 2 stack) of
           Inl e \<Rightarrow> err e
         | Inr t \<Rightarrow>
        (case optlstring (arg 3 stack) of
           Inl e \<Rightarrow> err e
         | Inr body \<Rightarrow>
        (case checkint (re_tonumber E) (arg 4 stack) of
           Inl e \<Rightarrow> err e
         | Inr timeout_ms \<Rightarrow>
           (if timeout_ms < 0 then err ''http call timeout must be >= 0''
            else if \<not> re_cluster E (c_str cluster) then err ''http call cluster invalid. Must be configured''
            else case buildHeadersFromTable H t (hm_create H) of
                   Inl e \<Rightarrow> err e
                 | Inr h \<Rightarrow>
                   (if hm_get H '':path'' h = [] \<or> hm_get H '':method'' h = [] \<or> hm_get H '':authority'' h = []
                    then err (''http call headers must include '' @ quoted '':path'' @ '', '' @ quoted '':method'' @
                              '', and '' @ quoted '':authority'')
                    else let h' = (case body of
                                     None \<Rightarrow> h
                                   | Some b \<Rightarrow> hm_setCopy H ''content-length'' (decimal_int (int (length b))) h);
                             timeout = (if 0 < timeout_ms then Some timeout_ms else None);
                             f1 = log_call (SendRequest (c_str cluster) h' body timeout) (f\<lparr>rf_sent := Suc (rf_sent f)\<rparr>)
                         in case re_send E (rf_sent f) of
                              None \<Rightarrow>
                                Some (ApiYield, upd_wrapper d (\<lambda>w. w\<lparr>sw_http_request := True, sw_state := HttpCall\<rparr>) f1)
                            | Some answer \<Rightarrow>
                                (let (hs, b) = (case answer of None \<Rightarrow> upstream_failure | Some r \<Rightarrow> r)
                                 in Some (ApiValues (response_values hs b),
                                          upd_wrapper d (\<lambda>w. w\<lparr>sw_http_request := False\<rparr>) f1)))))))))"

section \<open>Coroutines\<close>

datatype lua_outcome = Returned | Raised "string option" | Yielded "lua_values \<Rightarrow> lua_script"

text \<open>A script runs until it returns, fails or is suspended.\<close>

primrec run_lua ::
    "'h rider_env \<Rightarrow> 'h respond_fn \<Rightarrow> stream_direction \<Rightarrow> lua_script \<Rightarrow> 'h rider_filter \<Rightarrow>
     (lua_outcome \<times> 'h rider_filter) option" where
  "run_lua E rsp d Finish = (\<lambda>f. Some (Returned, f))"
| "run_lua E rsp d (Fail m) = (\<lambda>f. Some (Raised m, f))"
| "run_lua E rsp d (FfiCall c k) =
     (\<lambda>f. case ffi_step (re_api E) c (rf_ctx f) of
            None \<Rightarrow> None
          | Some (r, c') \<Rightarrow> run_lua E rsp d (k r) (f\<lparr>rf_ctx := c'\<rparr>))"
| "run_lua E rsp d (GetBody d' k) =
     (\<lambda>f. case luaBody d' f of
            None \<Rightarrow> None
          | Some (ApiError e, f') \<Rightarrow> run_lua E rsp d (k (Inl e)) f'
          | Some (ApiValues v, f') \<Rightarrow> run_lua E rsp d (k (Inr v)) f'
          | Some (ApiYield, f') \<Rightarrow> Some (Yielded (\<lambda>v. k (Inr v)), f'))"
| "run_lua E rsp d (HttpCallScript args k) =
     (\<lambda>f. case luaHttpCall E d (call_stack d args) f of
            None \<Rightarrow> None
          | Some (ApiError e, f') \<Rightarrow> run_lua E rsp d (k (Inl e)) f'
          | Some (ApiValues v, f') \<Rightarrow> run_lua E rsp d (k (Inr v)) f'
          | Some (ApiYield, f') \<Rightarrow> Some (Yielded (\<lambda>v. k (Inr v)), f'))"
| "run_lua E rsp d (Respond args k) =
     (\<lambda>f. case luaRespond E rsp d (call_stack d args) f of
            None \<Rightarrow> None
          | Some (ApiError e, f') \<Rightarrow> run_lua E rsp d (k (Inl e)) f'
          | Some (ApiValues v, f') \<Rightarrow> run_lua E rsp d (k (Inr v)) f'
          | Some (ApiYield, f') \<Rightarrow> Some (Yielded (\<lambda>v. k (Inr v)), f'))"
| "run_lua E rsp d (CoYield k) = (\<lambda>f. Some (Yielded k, f))"

type_synonym ('h, 's) rider_result = "('h rider_filter \<times> 's throws) option"

definition runtime_error :: "string option \<Rightarrow> string" where
  "runtime_error m = (case m of None \<Rightarrow> ''runtime error(2)'' | Some m \<Rightarrow> ''runtime error: '' @ m @ ''(2)'')"

definition state_of :: "stream_direction \<Rightarrow> 'h rider_filter \<Rightarrow> wrapper_state" where
  "state_of d f = (case wrapper_of d f of None \<Rightarrow> Running | Some w \<Rightarrow> sw_state w)"

text \<open>What \<^verbatim>\<open>Coroutine::resume\<close> makes of the result of \<^verbatim>\<open>lua_resume\<close>; a yield calls \<^verbatim>\<open>yield_callback_\<close> of the wrapper.\<close>

definition co_end :: "stream_direction \<Rightarrow> lua_outcome \<times> 'h rider_filter \<Rightarrow> 'h rider_filter \<times> unit throws" where
  "co_end d r =
     (let (out, f) = r
      in case out of
           Returned \<Rightarrow> (upd_wrapper d (\<lambda>w. w\<lparr>sw_coroutine := Finished\<rparr>) f, Inr ())
         | Raised m \<Rightarrow> (upd_wrapper d (\<lambda>w. w\<lparr>sw_coroutine := Dead\<rparr>) f, Inl (runtime_error m))
         | Yielded k \<Rightarrow>
             (upd_wrapper d (\<lambda>w. w\<lparr>sw_coroutine := Suspended k\<rparr>) f,
              if state_of d f = Running then Inl ''Lua code performed an unexpected yield'' else Inr ()))"

definition dead_coroutine :: string where
  "dead_coroutine = runtime_error (Some ''cannot resume non-suspended coroutine'')"

definition co_resume ::
    "'h rider_env \<Rightarrow> 'h respond_fn \<Rightarrow> stream_direction \<Rightarrow> lua_values \<Rightarrow> 'h rider_filter \<Rightarrow> ('h, unit) rider_result" where
  "co_resume E rsp d v f =
     (case wrapper_of d f of
        None \<Rightarrow> None
      | Some w \<Rightarrow>
        (case sw_coroutine w of
           Suspended k \<Rightarrow> map_option (co_end d) (run_lua E rsp d (k v) f)
         | Dead \<Rightarrow> Some (f, Inl dead_coroutine)
         | _ \<Rightarrow> None))"

text \<open>
  \<^verbatim>\<open>Coroutine::start\<close> pushes the function and resumes: a coroutine that is suspended goes on where it is, with no values,
  and the function is not called.
\<close>

definition co_start ::
    "'h rider_env \<Rightarrow> 'h respond_fn \<Rightarrow> stream_direction \<Rightarrow> nat \<Rightarrow> 'h rider_filter \<Rightarrow> ('h, unit) rider_result" where
  "co_start E rsp d function_ref f =
     (case wrapper_of d f of
        None \<Rightarrow> None
      | Some w \<Rightarrow>
        (case map_of (reg_entries (re_registry E)) function_ref of
           None \<Rightarrow> Some (f, Inl ''error start coroutine, expect lua function'')
         | Some s \<Rightarrow>
           (case sw_coroutine w of
              Suspended k \<Rightarrow> map_option (co_end d) (run_lua E rsp d (k NoValues) f)
            | Dead \<Rightarrow> Some (f, Inl dead_coroutine)
            | _ \<Rightarrow> map_option (co_end d) (run_lua E rsp d s f))))"

section \<open>The stream wrapper\<close>

definition sw_start1 ::
    "'h rider_env \<Rightarrow> 'h respond_fn \<Rightarrow> stream_direction \<Rightarrow> nat \<Rightarrow> 'h rider_filter \<Rightarrow> ('h, headers_status) rider_result" where
  "sw_start1 E rsp d function_ref f =
     (case co_start E rsp d function_ref f of
        None \<Rightarrow> None
      | Some (f1, Inl e) \<Rightarrow> Some (f1, Inl e)
      | Some (f1, Inr _) \<Rightarrow>
          Some (if state_of d f1 \<in> {WaitForBody, HttpCall, Responded} then (f1, Inr StopIteration)
                else (upd_wrapper d (\<lambda>w. w\<lparr>sw_headers_continued := True\<rparr>) f1, Inr Continue)))"

text \<open>Runs a coroutine and turns an exception into a script error.\<close>

definition caught :: "('h, unit) rider_result \<Rightarrow> 'h rider_filter option" where
  "caught r = (case r of None \<Rightarrow> None | Some (f, Inl e) \<Rightarrow> Some (scriptError e f) | Some (f, Inr _) \<Rightarrow> Some f)"

definition sw_start2 ::
    "'h rider_env \<Rightarrow> 'h respond_fn \<Rightarrow> stream_direction \<Rightarrow> nat \<Rightarrow> nat option \<Rightarrow> 'h rider_filter \<Rightarrow>
     ('h, headers_status) rider_result" where
  "sw_start2 E rsp d function_ref function_ref_body f =
     (case co_start E rsp d function_ref f of
        None \<Rightarrow> None
      | Some (f1, Inl e) \<Rightarrow> Some (f1, Inl e)
      | Some (f1, Inr _) \<Rightarrow>
        (case wrapper_of d f1 of
           None \<Rightarrow> None
         | Some w \<Rightarrow>
           (if sw_state w = HttpCall
            then Some (if sw_end_stream w \<and> function_ref_body \<noteq> None
                       then set_wrapper d (w\<lparr>sw_start_body := True, sw_function_ref_body := function_ref_body\<rparr>) f1
                       else f1, Inr StopAllIterationAndBuffer)
            else if sw_state w = Responded then Some (f1, Inr StopIteration)
            else if sw_end_stream w
            then (case function_ref_body of
                    None \<Rightarrow> Some (f1, Inr Continue)
                  | Some n \<Rightarrow>
                    (case caught (co_start E rsp d n f1) of
                       None \<Rightarrow> None
                     | Some f2 \<Rightarrow>
                         Some (f2, Inr (if state_of d f2 \<in> {HttpCall, Responded} then StopIteration else Continue))))
            else Some (f1, Inr StopIteration))))"

definition add_buffer :: "stream_direction \<Rightarrow> string \<Rightarrow> 'h rider_filter \<Rightarrow> 'h rider_filter" where
  "add_buffer d data f =
     (let c = rf_ctx f; b = Some (case buffered_body_of d c of None \<Rightarrow> data | Some b \<Rightarrow> b @ data)
      in case d of DownstreamToUpstream \<Rightarrow> f\<lparr>rf_ctx := c\<lparr>rx_request_buffer := b\<rparr>\<rparr>
         | UpstreamToDownstream \<Rightarrow> f\<lparr>rf_ctx := c\<lparr>rx_response_buffer := b\<rparr>\<rparr>)"

definition addData :: "stream_direction \<Rightarrow> string \<Rightarrow> 'h rider_filter \<Rightarrow> 'h rider_filter" where
  "addData d data f = log_call (AddData d data) (add_buffer d data f)"

text \<open>A Lua error of \<^verbatim>\<open>luaBody\<close> here is outside of a protected call and ends the process.\<close>

definition sw_onData1 ::
    "'h rider_env \<Rightarrow> 'h respond_fn \<Rightarrow> stream_direction \<Rightarrow> string \<Rightarrow> bool \<Rightarrow> 'h rider_filter \<Rightarrow> ('h, data_status) rider_result" where
  "sw_onData1 E rsp d data end_stream f =
     (let f1 = upd_wrapper d (\<lambda>w. w\<lparr>sw_end_stream := end_stream, sw_saw_body := True\<rparr>) f;
          r = (if state_of d f1 = WaitForBody \<and> end_stream
               then let f2 = upd_wrapper d (\<lambda>w. w\<lparr>sw_state := Running\<rparr>) (addData d data f1)
                    in (case luaBody d f2 of Some (ApiValues v, f3) \<Rightarrow> co_resume E rsp d v f3 | _ \<Rightarrow> None)
               else Some (f1, Inr ()))
      in case r of
           None \<Rightarrow> None
         | Some (f4, Inl e) \<Rightarrow> Some (f4, Inl e)
         | Some (f4, Inr _) \<Rightarrow>
             Some (if state_of d f4 = HttpCall \<or> state_of d f4 = WaitForBody then (f4, Inr StopIterationAndBuffer)
                   else if state_of d f4 = Responded then (f4, Inr StopIterationNoBuffer)
                   else (upd_wrapper d (\<lambda>w. w\<lparr>sw_headers_continued := True\<rparr>) f4, Inr DataContinue)))"

definition sw_onData2 ::
    "'h rider_env \<Rightarrow> 'h respond_fn \<Rightarrow> stream_direction \<Rightarrow> nat \<Rightarrow> string \<Rightarrow> bool \<Rightarrow> 'h rider_filter \<Rightarrow>
     ('h rider_filter \<times> data_status) option" where
  "sw_onData2 E rsp d function_ref data end_stream f =
     (let f1 = upd_wrapper d (\<lambda>w. w\<lparr>sw_end_stream := end_stream, sw_saw_body := True\<rparr>) f;
          r = (if end_stream \<and> state_of d f1 = Running then caught (co_start E rsp d function_ref (addData d data f1)) else Some f1)
      in case r of
           None \<Rightarrow> None
         | Some f2 \<Rightarrow>
             Some (f2, if state_of d f2 = HttpCall then StopIterationAndBuffer
                       else if state_of d f2 = Responded then StopIterationNoBuffer
                       else if \<not> end_stream then StopIterationAndBuffer
                       else DataContinue))"

text \<open>The answer of a call that was under way. The start of the body's function follows an error of the script, too.\<close>

definition sw_onSuccess ::
    "'h rider_env \<Rightarrow> 'h respond_fn \<Rightarrow> stream_direction \<Rightarrow> (string \<times> string) list \<times> string \<Rightarrow> 'h rider_filter \<Rightarrow>
     'h rider_filter option" where
  "sw_onSuccess E rsp d response f =
     (let f1 = upd_wrapper d (\<lambda>w. w\<lparr>sw_http_request := False\<rparr>) f
      in if state_of d f1 \<noteq> HttpCall then Some f1
         else case co_resume E rsp d (response_values (fst response) (snd response))
                     (upd_wrapper d (\<lambda>w. w\<lparr>sw_state := Running\<rparr>) f1) of
                None \<Rightarrow> None
              | Some (f2, r) \<Rightarrow>
                (let f3 = (case r of Inl e \<Rightarrow> upd_wrapper d (\<lambda>w. w\<lparr>sw_state := Running\<rparr>) (scriptError e f2) | Inr _ \<Rightarrow> f2)
                 in if state_of d f3 \<noteq> Running then Some f3
                    else case wrapper_of d f3 of
                           None \<Rightarrow> None
                         | Some w \<Rightarrow>
                           (if sw_start_body w
                            then let f' = set_wrapper d (w\<lparr>sw_start_body := False\<rparr>) f3
                                 in (case caught (case sw_function_ref_body w of
                                                    None \<Rightarrow> Some (f', Inl ''error start coroutine, expect lua function'')
                                                  | Some n \<Rightarrow> co_start E rsp d n f') of
                                       None \<Rightarrow> None
                                     | Some f4 \<Rightarrow>
                                         Some (if state_of d f4 = Running then log_call (ContinueIteration d) f4 else f4))
                            else Some (log_call (ContinueIteration d) f3))))"

definition sw_onFailure ::
    "'h rider_env \<Rightarrow> 'h respond_fn \<Rightarrow> stream_direction \<Rightarrow> 'h rider_filter \<Rightarrow> 'h rider_filter option" where
  "sw_onFailure E rsp d f = sw_onSuccess E rsp d upstream_failure f"

definition sw_onReset :: "stream_direction \<Rightarrow> 'h rider_filter \<Rightarrow> 'h rider_filter" where
  "sw_onReset d f =
     (case wrapper_of d f of
        None \<Rightarrow> f
      | Some w \<Rightarrow>
          (if sw_http_request w then set_wrapper d (w\<lparr>sw_http_request := False\<rparr>) (log_call (CancelRequest d) f) else f))"

section \<open>The filter\<close>

definition resetInternalState :: "'h rider_filter \<Rightarrow> 'h rider_filter" where
  "resetInternalState f =
     (let f1 = sw_onReset UpstreamToDownstream (sw_onReset DownstreamToUpstream (f\<lparr>rf_destroyed := True\<rparr>))
      in case rx_shared_table (rf_ctx f1) of None \<Rightarrow> f1 | Some n \<Rightarrow> log_call (UnrefTable n) f1)"

definition rider_onDestroy :: "'h rider_filter \<Rightarrow> 'h rider_filter" where
  "rider_onDestroy f = resetInternalState (f\<lparr>rf_destroyed := True\<rparr>)"

definition headers_result :: "('h, headers_status) rider_result \<Rightarrow> ('h rider_filter \<times> headers_status) option" where
  "headers_result r =
     (case r of None \<Rightarrow> None | Some (f, Inl e) \<Rightarrow> Some (scriptError e f, Continue) | Some (f, Inr s) \<Rightarrow> Some (f, s))"

definition doHeaders1 ::
    "'h rider_env \<Rightarrow> 'h respond_fn \<Rightarrow> stream_direction \<Rightarrow> nat option \<Rightarrow> bool \<Rightarrow> 'h rider_filter \<Rightarrow>
     ('h rider_filter \<times> headers_status) option" where
  "doHeaders1 E rsp d function_ref end_stream f =
     (case function_ref of
        None \<Rightarrow> Some (f, Continue)
      | Some n \<Rightarrow>
          (if rf_error f then Some (f, Continue)
           else headers_result (sw_start1 E rsp d n (set_wrapper d (StreamWrapper end_stream) f))))"

definition doHeaders2 ::
    "'h rider_env \<Rightarrow> 'h respond_fn \<Rightarrow> stream_direction \<Rightarrow> nat option \<Rightarrow> nat option \<Rightarrow> bool \<Rightarrow> 'h rider_filter \<Rightarrow>
     ('h rider_filter \<times> headers_status) option" where
  "doHeaders2 E rsp d function_ref function_ref_body end_stream f =
     (case function_ref of
        None \<Rightarrow> (if rf_responded f then Some (f\<lparr>rf_responded := False\<rparr>, StopIteration) else Some (f, Continue))
      | Some n \<Rightarrow>
          (if rf_error f then Some (f, Continue)
           else headers_result (sw_start2 E rsp d n function_ref_body (set_wrapper d (StreamWrapper end_stream) f))))"

definition doData1 ::
    "'h rider_env \<Rightarrow> 'h respond_fn \<Rightarrow> stream_direction \<Rightarrow> string \<Rightarrow> bool \<Rightarrow> 'h rider_filter \<Rightarrow>
     ('h rider_filter \<times> data_status) option" where
  "doData1 E rsp d data end_stream f =
     (case sw_onData1 E rsp d data end_stream f of
        None \<Rightarrow> None
      | Some (f', Inl e) \<Rightarrow> Some (scriptError e f', DataContinue)
      | Some (f', Inr s) \<Rightarrow> Some (f', s))"

text \<open>\<^verbatim>\<open>decodeData\<close> and \<^verbatim>\<open>encodeData\<close>, which differ in the direction only.\<close>

definition rider_onData ::
    "'h rider_env \<Rightarrow> 'h respond_fn \<Rightarrow> stream_direction \<Rightarrow> string \<Rightarrow> bool \<Rightarrow> 'h rider_filter \<Rightarrow>
     ('h rider_filter \<times> data_status) option" where
  "rider_onData E rsp d data end_stream f =
     (let h = re_handle E; body_ref = (case d of DownstreamToUpstream \<Rightarrow> on_request_body_ref h | UpstreamToDownstream \<Rightarrow> on_response_body_ref h)
      in if ph_version h = V1
         then (if rf_error f \<or> wrapper_of d f = None then Some (f, DataContinue) else doData1 E rsp d data end_stream f)
         else case body_ref of
                None \<Rightarrow> Some (f, DataContinue)
              | Some n \<Rightarrow>
                  (if rf_error f then Some (f, DataContinue)
                   else sw_onData2 E rsp d n data end_stream
                          (if wrapper_of d f = None then set_wrapper d (StreamWrapper end_stream) f else f)))"

text \<open>\<^verbatim>\<open>EncoderCallbacks::respond\<close>.\<close>

definition encoder_respond :: "'h respond_fn" where
  "encoder_respond h body f = Inl ''respond not currently supported in the response path''"

definition rider_encodeHeaders ::
    "'h rider_env \<Rightarrow> 'h \<Rightarrow> bool \<Rightarrow> 'h rider_filter \<Rightarrow> ('h rider_filter \<times> headers_status) option" where
  "rider_encodeHeaders E headers end_stream f =
     (if \<not> rc_allow_no_route (re_config E) \<and> rx_route_config (rf_ctx f) = None then Some (f, Continue)
      else let h = re_handle E; f1 = f\<lparr>rf_ctx := (rf_ctx f)\<lparr>rx_response_headers := Some headers\<rparr>\<rparr>
           in if ph_version h = V1 then doHeaders1 E encoder_respond UpstreamToDownstream (on_response_ref h) end_stream f1
              else doHeaders2 E encoder_respond UpstreamToDownstream (on_response_header_ref h) (on_response_body_ref h) end_stream f1)"

definition rider_encodeData ::
    "'h rider_env \<Rightarrow> string \<Rightarrow> bool \<Rightarrow> 'h rider_filter \<Rightarrow> ('h rider_filter \<times> data_status) option" where
  "rider_encodeData E = rider_onData E encoder_respond UpstreamToDownstream"

text \<open>\<^verbatim>\<open>DecoderCallbacks::respond\<close>: the response goes through the filter's own encoder before the call returns.\<close>

definition decoder_respond :: "'h rider_env \<Rightarrow> 'h respond_fn" where
  "decoder_respond E h body f = Inr (
     let f1 = log_call (RiderEncodeHeaders h (body = None)) f;
         r = (if re_encoder_reached E
              then map_option (\<lambda>(f, s). log_call (HeadersReturned s) f) (rider_encodeHeaders E h (body = None) f1)
              else Some f1)
     in case r of
          None \<Rightarrow> None
        | Some f2 \<Rightarrow>
          (let f3 = (if re_ends_stream E then rider_onDestroy f2 else f2)
           in case body of
                None \<Rightarrow> Some f3
              | Some b \<Rightarrow>
                (if rf_destroyed f3 then Some f3
                 else let f4 = log_call (RiderEncodeData b True) f3
                      in if re_encoder_reached E
                         then map_option (\<lambda>(f, s). log_call (DataReturned s) f) (rider_encodeData E b True f4)
                         else Some f4)))"

definition rider_decodeHeaders ::
    "'h rider_env \<Rightarrow> 'h \<Rightarrow> bool \<Rightarrow> 'h rider_filter \<Rightarrow> ('h rider_filter \<times> headers_status) option" where
  "rider_decodeHeaders E headers end_stream f =
     (if \<not> re_has_route E \<and> \<not> rc_allow_no_route (re_config E) then Some (f, Continue)
      else let h = re_handle E; c = rf_ctx f;
               c1 = (if re_has_route E
                     then c\<lparr>rx_route_config :=
                            lookupPerFilterConfig (pl_name (rc_plugin (re_config E))) (rx_route_config c) (re_route_plugins E)\<rparr>
                     else c);
               f1 = f\<lparr>rf_ctx := c1\<lparr>rx_request_headers := Some headers\<rparr>\<rparr>
           in if ph_version h = V1
              then doHeaders1 E (decoder_respond E) DownstreamToUpstream (on_request_ref h) end_stream f1
              else doHeaders2 E (decoder_respond E) DownstreamToUpstream (on_request_header_ref h) (on_request_body_ref h) end_stream f1)"

definition rider_decodeData ::
    "'h rider_env \<Rightarrow> string \<Rightarrow> bool \<Rightarrow> 'h rider_filter \<Rightarrow> ('h rider_filter \<times> data_status) option" where
  "rider_decodeData E = rider_onData E (decoder_respond E) DownstreamToUpstream"

end
