(* ===== verification/Rider_Sandbox.thy ===== *)
theory Rider_Sandbox
  imports Rider_Stream
begin

text \<open>
  The Lua state behind the coroutines of one worker thread: \<^verbatim>\<open>source/filters/http/rider/common.h\<close>
  (\<^verbatim>\<open>LuaUtils\<close>), \<^verbatim>\<open>vm.cc\<close> (\<^verbatim>\<open>initializeCallInAPIs\<close>, the constructors of the virtual machine,
  of a plugin's thread and of coroutines), the constructors of \<^verbatim>\<open>ContextBase\<close> and \<^verbatim>\<open>Filter\<close>, and
  the pointer \<^verbatim>\<open>global_ctx\<close>.

  \<^item> The part of the Lua C interface that this code uses is a machine of tables and threads: a thread has
    a stack (top first) and the address of its table of globals; a table has fields and perhaps a metatable, whose field
    \<^verbatim>\<open>__index\<close> names the table that is searched next. A call is a function on machines; a body of the
    source that is a sequence of calls is the list of them under \<open>api_calls\<close>.
  \<^item> LuaJIT follows at most a hundred tables in one access; that is the fuel of \<open>index_chain\<close>.
  \<^item> A function of a script has the environment that the plugin's thread had when the code was loaded.
    \<open>AssignGlobal\<close> is an assignment to a global name in such a function and \<open>AssignThread\<close>
    is one to \<^verbatim>\<open>getfenv(0)\<close>; \<open>run_action\<close> is Lua's rule for the two, not code of the repository.
    Scripts that replace metatables or environments are outside the model.
\<close>

section \<open>The machine\<close>

datatype lua_cell =
  CNil | CPointer nat | CNumber int | CString string | CTable nat | CThread nat | CFunction string

record lua_table =
  tb_fields :: "string \<Rightarrow> lua_cell"
  tb_metatable :: "nat option"

record lua_thread =
  th_stack :: "lua_cell list"
  th_globals :: nat

record lua_machine =
  lm_tables :: "lua_table list"
  lm_threads :: "lua_thread list"

type_synonym lua_op = "nat \<Rightarrow> lua_machine \<Rightarrow> lua_machine throws"

fun api_calls :: "lua_op list \<Rightarrow> lua_op" where
  "api_calls [] L m = Inr m"
| "api_calls (f # fs) L m = (case f L m of Inl e \<Rightarrow> Inl e | Inr m' \<Rightarrow> api_calls fs L m')"

definition rawget :: "lua_machine \<Rightarrow> nat \<Rightarrow> string \<Rightarrow> lua_cell" where
  "rawget m t k = tb_fields (lm_tables m ! t) k"

definition rawset :: "nat \<Rightarrow> string \<Rightarrow> lua_cell \<Rightarrow> lua_machine \<Rightarrow> lua_machine" where
  "rawset t k v m =
     m\<lparr>lm_tables := (lm_tables m)[t := tb_fields_update (\<lambda>f. f(k := v)) (lm_tables m ! t)]\<rparr>"

definition LJ_MAX_IDXCHAIN :: nat where
  "LJ_MAX_IDXCHAIN = 100"

fun index_chain :: "nat \<Rightarrow> lua_machine \<Rightarrow> nat \<Rightarrow> string \<Rightarrow> lua_cell throws" where
  "index_chain 0 m t k = Inl lua_panic"
| "index_chain (Suc n) m t k =
     (if rawget m t k \<noteq> CNil then Inr (rawget m t k)
      else case tb_metatable (lm_tables m ! t) of
             None \<Rightarrow> Inr CNil
           | Some mt \<Rightarrow>
               (case rawget m mt ''__index'' of
                  CNil \<Rightarrow> Inr CNil
                | CTable t' \<Rightarrow> index_chain n m t' k
                | _ \<Rightarrow> Inl lua_panic))"

definition upd_thread :: "nat \<Rightarrow> (lua_thread \<Rightarrow> lua_thread) \<Rightarrow> lua_machine \<Rightarrow> lua_machine" where
  "upd_thread L g m = m\<lparr>lm_threads := (lm_threads m)[L := g (lm_threads m ! L)]\<rparr>"

definition stack_of :: "nat \<Rightarrow> lua_machine \<Rightarrow> lua_cell list" where
  "stack_of L m = th_stack (lm_threads m ! L)"

definition globals_of :: "nat \<Rightarrow> lua_machine \<Rightarrow> nat" where
  "globals_of L m = th_globals (lm_threads m ! L)"

definition lua_push :: "lua_cell \<Rightarrow> lua_op" where
  "lua_push v L m = Inr (upd_thread L (th_stack_update (\<lambda>s. v # s)) m)"

definition lua_pop :: "nat \<Rightarrow> lua_op" where
  "lua_pop n L m = Inr (upd_thread L (th_stack_update (drop n)) m)"

definition LUA_GLOBALSINDEX :: int where
  "LUA_GLOBALSINDEX = - 10002"

definition value_at :: "int \<Rightarrow> nat \<Rightarrow> lua_machine \<Rightarrow> lua_cell" where
  "value_at i L m =
     (if i = LUA_GLOBALSINDEX then CTable (globals_of L m)
      else if i < 0 then (if nat (- i) \<le> length (stack_of L m) then stack_of L m ! (nat (- i) - 1) else CNil)
      else if 0 < i \<and> nat i \<le> length (stack_of L m) then stack_of L m ! (length (stack_of L m) - nat i)
      else CNil)"

definition lua_pushvalue :: "int \<Rightarrow> lua_op" where
  "lua_pushvalue i L m = lua_push (value_at i L m) L m"

definition lua_createtable :: "nat \<Rightarrow> nat \<Rightarrow> lua_op" where
  "lua_createtable narr nrec L m =
     lua_push (CTable (length (lm_tables m))) L
       (m\<lparr>lm_tables := lm_tables m @ [\<lparr>tb_fields = (\<lambda>_. CNil), tb_metatable = None\<rparr>]\<rparr>)"

definition lua_setfield :: "int \<Rightarrow> string \<Rightarrow> lua_op" where
  "lua_setfield i k L m =
     (case value_at i L m of
        CTable t \<Rightarrow> lua_pop 1 L (rawset t k (value_at (- 1) L m) m)
      | _ \<Rightarrow> Inl lua_panic)"

definition lua_getfield :: "int \<Rightarrow> string \<Rightarrow> lua_op" where
  "lua_getfield i k L m =
     (case value_at i L m of
        CTable t \<Rightarrow> (case index_chain LJ_MAX_IDXCHAIN m t k of Inl e \<Rightarrow> Inl e | Inr v \<Rightarrow> lua_push v L m)
      | _ \<Rightarrow> Inl lua_panic)"

definition lua_setglobal :: "string \<Rightarrow> lua_op" where
  "lua_setglobal k = lua_setfield LUA_GLOBALSINDEX k"

definition lua_getglobal :: "string \<Rightarrow> lua_op" where
  "lua_getglobal k = lua_getfield LUA_GLOBALSINDEX k"

definition lua_setmetatable :: "int \<Rightarrow> lua_op" where
  "lua_setmetatable i L m =
     (case (value_at i L m, value_at (- 1) L m) of
        (CTable t, CTable mt) \<Rightarrow>
          lua_pop 1 L (m\<lparr>lm_tables := (lm_tables m)[t := (lm_tables m ! t)\<lparr>tb_metatable := Some mt\<rparr>]\<rparr>)
      | _ \<Rightarrow> Inl lua_panic)"

text \<open>\<^verbatim>\<open>lua_replace\<close> is used with \<^verbatim>\<open>LUA_GLOBALSINDEX\<close> only.\<close>

definition lua_replace_globals :: lua_op where
  "lua_replace_globals L m =
     (case value_at (- 1) L m of
        CTable t \<Rightarrow> lua_pop 1 L (upd_thread L (\<lambda>th. th\<lparr>th_globals := t\<rparr>) m)
      | _ \<Rightarrow> Inl lua_panic)"

definition lua_concat2 :: lua_op where
  "lua_concat2 L m =
     (case (value_at (- 2) L m, value_at (- 1) L m) of
        (CString a, CString b) \<Rightarrow> api_calls [lua_pop 2, lua_push (CString (a @ b))] L m
      | _ \<Rightarrow> Inl lua_panic)"

text \<open>A new thread shares the table of globals of the thread that makes it, and is left on the stack of that thread.\<close>

definition lua_newthread :: lua_op where
  "lua_newthread L m =
     lua_push (CThread (length (lm_threads m))) L
       (m\<lparr>lm_threads := lm_threads m @ [\<lparr>th_stack = [], th_globals = globals_of L m\<rparr>]\<rparr>)"

section \<open>LuaUtils\<close>

definition lua_global_context_key :: string where
  "lua_global_context_key = ''_envoy_context''"

definition lua_global_stream_direction :: string where
  "lua_global_stream_direction = ''_envoy_stream_direction''"

definition setContext :: "nat \<Rightarrow> lua_op" where
  "setContext r = api_calls [lua_push (CPointer r), lua_setglobal lua_global_context_key]"

definition lua_touserdata :: "lua_cell \<Rightarrow> nat option" where
  "lua_touserdata v = (case v of CPointer p \<Rightarrow> Some p | _ \<Rightarrow> None)"

definition lua_getContext :: "nat \<Rightarrow> lua_machine \<Rightarrow> (nat option \<times> lua_machine) throws" where
  "lua_getContext L m =
     (case lua_getglobal lua_global_context_key L m of
        Inl e \<Rightarrow> Inl e
      | Inr m' \<Rightarrow> Inr (lua_touserdata (value_at (- 1) L m'), m'))"

definition getUserData :: "string \<Rightarrow> nat \<Rightarrow> lua_machine \<Rightarrow> (nat option \<times> lua_machine) throws" where
  "getUserData key L m =
     (case lua_getglobal key L m of
        Inl e \<Rightarrow> Inl e
      | Inr m' \<Rightarrow> (case lua_pop 1 L m' of Inl e \<Rightarrow> Inl e | Inr m'' \<Rightarrow> Inr (lua_touserdata (value_at (- 1) L m'), m'')))"

definition setLightuserdata :: "string \<Rightarrow> nat \<Rightarrow> lua_op" where
  "setLightuserdata key data = api_calls [lua_push (CPointer data), lua_setglobal key]"

definition createNewGlobalsTable :: "nat \<Rightarrow> nat \<Rightarrow> lua_op" where
  "createNewGlobalsTable narr nrec =
     api_calls [lua_createtable narr (nrec + 1), lua_pushvalue (- 1), lua_setfield (- 2) ''_G'']"

definition setGlobalsTable :: lua_op where
  "setGlobalsTable = lua_replace_globals"

definition getGlobalsTable :: lua_op where
  "getGlobalsTable = lua_pushvalue LUA_GLOBALSINDEX"

definition setupSandbox :: lua_op where
  "setupSandbox =
     api_calls [createNewGlobalsTable 0 0,
            lua_createtable 0 1, getGlobalsTable, lua_setfield (- 2) ''__index'', lua_setmetatable (- 2),
            setGlobalsTable]"

definition lua_istable :: "lua_cell \<Rightarrow> bool" where
  "lua_istable v = (case v of CTable _ \<Rightarrow> True | _ \<Rightarrow> False)"

definition addLuaPackagePath :: "string \<Rightarrow> nat \<Rightarrow> lua_machine \<Rightarrow> (bool \<times> lua_machine) throws" where
  "addLuaPackagePath path L m =
     (case lua_getglobal ''package'' L m of
        Inl e \<Rightarrow> Inl e
      | Inr m1 \<Rightarrow>
          (if \<not> lua_istable (value_at (- 1) L m1) then Inr (False, m1)
           else case api_calls [lua_push (CString path), lua_getfield (- 2) ''path'', lua_concat2,
                            lua_setfield (- 2) ''path'', lua_pop 1] L m1 of
                  Inl e \<Rightarrow> Inl e
                | Inr m2 \<Rightarrow> Inr (True, m2)))"

section \<open>Virtual machines, threads and coroutines\<close>

definition initializeCallInAPIs :: lua_op where
  "initializeCallInAPIs =
     api_calls [lua_createtable 0 20,
            lua_createtable 0 8, lua_push (CFunction ''static_lua_get_request_body''),
            lua_setfield (- 2) ''get_body'', lua_setfield (- 2) ''req'',
            lua_createtable 0 4, lua_push (CFunction ''static_lua_get_response_body''),
            lua_setfield (- 2) ''get_body'', lua_setfield (- 2) ''resp'',
            lua_createtable 0 4, lua_setfield (- 2) ''runtime'',
            lua_createtable 0 8, lua_setfield (- 2) ''streaminfo'',
            lua_createtable 0 8, lua_setfield (- 2) ''stream'',
            lua_push (CFunction ''static_lua_respond''), lua_setfield (- 2) ''respond'',
            lua_push (CFunction ''static_lua_http_call''), lua_setfield (- 2) ''httpCall'',
            lua_getglobal ''package'', lua_getfield (- 1) ''loaded'', lua_pushvalue (- 3),
            lua_setfield (- 2) ''envoy'', lua_pop 2,
            lua_setglobal ''envoy'']"

text \<open>
  The state of a new virtual machine, from the machine \<open>libs\<close> that \<^verbatim>\<open>lua_open\<close> and
  \<^verbatim>\<open>luaL_openlibs\<close> give, with the main thread as thread 0. The registration of the buffer's type
  touches the registry only.
\<close>

definition new_vm_state :: "lua_machine \<Rightarrow> string \<Rightarrow> lua_machine throws" where
  "new_vm_state libs package_path =
     (case (if package_path = '''' then Inr (True, libs) else addLuaPackagePath package_path 0 libs) of
        Inl e \<Rightarrow> Inl e
      | Inr (ok, m) \<Rightarrow>
          (if \<not> ok then Inl (''failed to add package path '' @ package_path)
           else initializeCallInAPIs 0 m))"

text \<open>
  A sandboxed thread under the thread \<open>parent\<close>: the reference takes the new thread from the stack of its parent.
  The constructor of a plugin's thread and \<^verbatim>\<open>createCoroutine\<close> both do this.
\<close>

definition sandboxed_thread :: "nat \<Rightarrow> lua_machine \<Rightarrow> (nat \<times> lua_machine) throws" where
  "sandboxed_thread parent m =
     (let L = length (lm_threads m)
      in case api_calls [lua_newthread, lua_pop 1] parent m of
           Inl e \<Rightarrow> Inl e
         | Inr m' \<Rightarrow> (case setupSandbox L m' of Inl e \<Rightarrow> Inl e | Inr m'' \<Rightarrow> Inr (L, m'')))"

definition LuaThread :: "lua_machine \<Rightarrow> (nat \<times> lua_machine) throws" where
  "LuaThread m = sandboxed_thread 0 m"

definition createCoroutine :: "nat \<Rightarrow> lua_machine \<Rightarrow> (nat \<times> lua_machine) throws" where
  "createCoroutine plugin_thread m = sandboxed_thread plugin_thread m"

definition direction_int :: "stream_direction \<Rightarrow> int" where
  "direction_int d = (case d of DownstreamToUpstream \<Rightarrow> 0 | UpstreamToDownstream \<Rightarrow> 1)"

definition co_initialize :: "nat \<Rightarrow> stream_direction \<Rightarrow> lua_op" where
  "co_initialize context direction =
     api_calls [setContext context, lua_push (CNumber (direction_int direction)), lua_setglobal lua_global_stream_direction]"

section \<open>Scripts of several streams\<close>

text \<open>
  The worker thread runs the scripts of all its streams on one machine. A context is numbered: the base context
  of a plugin and the filters. \<open>wd_coroutines\<close> are \<^verbatim>\<open>request_coroutine_\<close> and
  \<^verbatim>\<open>response_coroutine_\<close> of the filters, with the plugin and the thread of each. Every run of a
  script is recorded in \<open>wd_views\<close> with what its calls into the filter will find: the context and the direction
  that the C functions read from the thread's globals, and \<^verbatim>\<open>global_ctx\<close>, which the functions of the second
  version use.
\<close>

datatype script_action = AssignGlobal string lua_cell | AssignThread string lua_cell

definition run_action :: "nat \<Rightarrow> nat \<Rightarrow> script_action \<Rightarrow> lua_machine \<Rightarrow> lua_machine" where
  "run_action env L a m =
     (case a of AssignGlobal k v \<Rightarrow> rawset env k v m | AssignThread k v \<Rightarrow> rawset (globals_of L m) k v m)"

datatype script_kind = ConfigureScript | StreamScript version

record script_view =
  sv_kind :: script_kind
  sv_owner :: nat
  sv_direction :: "stream_direction option"
  sv_found_context :: "nat option"
  sv_found_direction :: lua_cell
  sv_global_ctx :: "nat option"

record lua_world =
  wd_lua :: lua_machine
  wd_plugins :: "nat list"
  wd_coroutines :: "((nat \<times> stream_direction) \<times> nat \<times> nat) list"
  wd_global_ctx :: "nat option"
  wd_views :: "script_view list"

definition find_global :: "string \<Rightarrow> nat \<Rightarrow> lua_machine \<Rightarrow> lua_cell" where
  "find_global k L m = (case lua_getglobal k L m of Inl e \<Rightarrow> CNil | Inr m' \<Rightarrow> value_at (- 1) L m')"

definition find_context :: "nat \<Rightarrow> lua_machine \<Rightarrow> nat option" where
  "find_context L m = (case lua_getContext L m of Inl e \<Rightarrow> None | Inr (r, m') \<Rightarrow> r)"

definition run_script ::
    "script_kind \<Rightarrow> nat \<Rightarrow> stream_direction option \<Rightarrow> nat \<Rightarrow> nat \<Rightarrow> script_action list \<Rightarrow> lua_world \<Rightarrow> lua_world" where
  "run_script k owner d plugin_thread L acts w =
     w\<lparr>wd_views := wd_views w @
         [\<lparr>sv_kind = k, sv_owner = owner, sv_direction = d, sv_found_context = find_context L (wd_lua w),
           sv_found_direction = find_global lua_global_stream_direction L (wd_lua w),
           sv_global_ctx = wd_global_ctx w\<rparr>],
       wd_lua := fold (run_action (globals_of plugin_thread (wd_lua w)) L) acts (wd_lua w)\<rparr>"

definition new_world :: "lua_machine \<Rightarrow> lua_world" where
  "new_world m = \<lparr>wd_lua = m, wd_plugins = [], wd_coroutines = [], wd_global_ctx = None, wd_views = []\<rparr>"

text \<open>
  \<^verbatim>\<open>startPlugin\<close>: the plugin's thread, its base context, the code of the plugin (\<open>chunk\<close>) and
  \<^verbatim>\<open>on_configure\<close>.
\<close>

definition load_plugin :: "nat \<Rightarrow> script_action list \<Rightarrow> script_action list \<Rightarrow> lua_world \<Rightarrow> lua_world throws" where
  "load_plugin context_base chunk on_configure w =
     (case LuaThread (wd_lua w) of
        Inl e \<Rightarrow> Inl e
      | Inr (P, m) \<Rightarrow>
          (case setContext context_base P m of
             Inl e \<Rightarrow> Inl e
           | Inr m' \<Rightarrow>
               Inr (run_script ConfigureScript context_base None P P on_configure
                      (w\<lparr>wd_plugins := wd_plugins w @ [P], wd_lua := fold (run_action (globals_of P m') P) chunk m'\<rparr>))))"

text \<open>The constructor of a filter of the plugin \<open>p\<close>, with that of its base class.\<close>

definition create_filter :: "nat \<Rightarrow> nat \<Rightarrow> lua_world \<Rightarrow> lua_world throws" where
  "create_filter p f w =
     (case setContext f (wd_plugins w ! p) (wd_lua w) of
        Inl e \<Rightarrow> Inl e
      | Inr m \<Rightarrow> Inr (w\<lparr>wd_lua := m, wd_global_ctx := Some f\<rparr>))"

definition new_coroutine :: "nat \<Rightarrow> nat \<Rightarrow> stream_direction \<Rightarrow> lua_world \<Rightarrow> lua_world throws" where
  "new_coroutine p f d w =
     (case createCoroutine (wd_plugins w ! p) (wd_lua w) of
        Inl e \<Rightarrow> Inl e
      | Inr (L, m) \<Rightarrow>
          (case co_initialize f d L m of
             Inl e \<Rightarrow> Inl e
           | Inr m' \<Rightarrow> Inr (w\<lparr>wd_lua := m', wd_coroutines := ((f, d), p, L) # AList.delete (f, d) (wd_coroutines w)\<rparr>)))"

definition run_coroutine ::
    "version \<Rightarrow> nat \<Rightarrow> stream_direction \<Rightarrow> script_action list \<Rightarrow> lua_world \<Rightarrow> lua_world" where
  "run_coroutine ver f d acts w =
     (case map_of (wd_coroutines w) (f, d) of
        None \<Rightarrow> w
      | Some (p, L) \<Rightarrow> run_script (StreamScript ver) f (Some d) (wd_plugins w ! p) L acts w)"

text \<open>
  The places where a script runs: the headers in both versions (\<^verbatim>\<open>doHeaders\<close> with \<^verbatim>\<open>start\<close>), the body
  of the second version (\<^verbatim>\<open>decodeData\<close> and \<^verbatim>\<open>encodeData\<close> with \<^verbatim>\<open>startBody\<close>), the body
  of the first (\<^verbatim>\<open>onData\<close>), and the answer to a call.
\<close>

datatype world_event =
    LoadPlugin nat "script_action list" "script_action list"
  | CreateFilter nat nat
  | StartHeaders version nat nat stream_direction "script_action list"
  | StartBody nat nat stream_direction "script_action list"
  | ResumeBody nat stream_direction "script_action list"
  | ResumeAnswer version nat stream_direction "script_action list"

definition set_global_ctx :: "nat \<Rightarrow> lua_world \<Rightarrow> lua_world" where
  "set_global_ctx f w = w\<lparr>wd_global_ctx := Some f\<rparr>"

fun world_step :: "world_event \<Rightarrow> lua_world \<Rightarrow> lua_world throws" where
  "world_step (LoadPlugin c chunk conf) w = load_plugin c chunk conf w"
| "world_step (CreateFilter p f) w = create_filter p f w"
| "world_step (StartHeaders ver p f d acts) w =
     (case new_coroutine p f d w of
        Inl e \<Rightarrow> Inl e
      | Inr w' \<Rightarrow> Inr (run_coroutine ver f d acts (if ver = V2 then set_global_ctx f w' else w')))"
| "world_step (StartBody p f d acts) w =
     (case (if map_of (wd_coroutines w) (f, d) = None then new_coroutine p f d w else Inr w) of
        Inl e \<Rightarrow> Inl e
      | Inr w' \<Rightarrow> Inr (run_coroutine V2 f d acts (set_global_ctx f w')))"
| "world_step (ResumeBody f d acts) w = Inr (run_coroutine V1 f d acts w)"
| "world_step (ResumeAnswer ver f d acts) w = Inr (run_coroutine ver f d acts (set_global_ctx f w))"

fun world_steps :: "world_event list \<Rightarrow> lua_world \<Rightarrow> lua_world throws" where
  "world_steps [] w = Inr w"
| "world_steps (e # es) w = (case world_step e w of Inl x \<Rightarrow> Inl x | Inr w' \<Rightarrow> world_steps es w')"

text \<open>
  What scripts must respect: no assignment to the two reserved names in the table of the own thread. For the
  code of a plugin and its \<^verbatim>\<open>on_configure\<close>, the table of the thread is also the environment of the functions.
\<close>

definition reserved :: "string \<Rightarrow> bool" where
  "reserved k = (k = lua_global_context_key \<or> k = lua_global_stream_direction)"

definition polite :: "script_action \<Rightarrow> bool" where
  "polite a = (case a of AssignThread k v \<Rightarrow> \<not> reserved k | AssignGlobal k v \<Rightarrow> True)"

definition polite_loading :: "script_action \<Rightarrow> bool" where
  "polite_loading a = (case a of AssignThread k v \<Rightarrow> \<not> reserved k | AssignGlobal k v \<Rightarrow> \<not> reserved k)"

text \<open>Events in an order that the filter manager keeps to: the plugin of a filter is loaded before the filter exists.\<close>

fun event_ok :: "nat \<Rightarrow> world_event \<Rightarrow> bool" where
  "event_ok n (LoadPlugin c chunk conf) = (list_all polite_loading chunk \<and> list_all polite_loading conf)"
| "event_ok n (CreateFilter p f) = (p < n)"
| "event_ok n (StartHeaders ver p f d acts) = (p < n \<and> list_all polite acts)"
| "event_ok n (StartBody p f d acts) = (p < n \<and> list_all polite acts)"
| "event_ok n (ResumeBody f d acts) = list_all polite acts"
| "event_ok n (ResumeAnswer ver f d acts) = list_all polite acts"

fun events_ok :: "nat \<Rightarrow> world_event list \<Rightarrow> bool" where
  "events_ok n [] = True"
| "events_ok n (e # es) = (event_ok n e \<and> events_ok (case e of LoadPlugin _ _ _ \<Rightarrow> Suc n | _ \<Rightarrow> n) es)"

section \<open>What the operations do\<close>

lemma drop_pushed [simp]: "drop (Suc 0) \<circ> (#) v = (\<lambda>s. s)"
  by (simp add: fun_eq_iff)

lemma same_stack [simp]: "th_stack_update (\<lambda>s. s) th = th"
  by simp

lemma api_calls_append: "api_calls (fs @ gs) L m = (case api_calls fs L m of Inl e \<Rightarrow> Inl e | Inr m' \<Rightarrow> api_calls gs L m')"
  by (induction fs arbitrary: m) (auto split: sum.splits)

lemmas lua_api_defs =
  lua_push_def lua_pop_def lua_pushvalue_def lua_createtable_def lua_setfield_def lua_getfield_def lua_setglobal_def
  lua_getglobal_def lua_setmetatable_def lua_replace_globals_def lua_newthread_def value_at_def upd_thread_def stack_of_def
  globals_of_def rawset_def LUA_GLOBALSINDEX_def

lemma setContext_result:
  "L < length (lm_threads m) \<Longrightarrow> setContext r L m = Inr (rawset (globals_of L m) lua_global_context_key (CPointer r) m)"
  by (simp add: setContext_def lua_api_defs)

lemma co_initialize_result:
  "L < length (lm_threads m) \<Longrightarrow>
   co_initialize f d L m =
     Inr (rawset (globals_of L m) lua_global_stream_direction (CNumber (direction_int d))
            (rawset (globals_of L m) lua_global_context_key (CPointer f) m))"
  by (simp add: co_initialize_def setContext_result) (simp add: lua_api_defs)

text \<open>The machine with a sandboxed thread under \<open>parent\<close>: two tables and the thread are new and nothing else changes.\<close>

definition with_sandbox :: "nat \<Rightarrow> lua_machine \<Rightarrow> lua_machine" where
  "with_sandbox parent m =
     (let n = length (lm_tables m)
      in m\<lparr>lm_tables := lm_tables m @
             [\<lparr>tb_fields = (\<lambda>_. CNil)(''_G'' := CTable n), tb_metatable = Some (Suc n)\<rparr>,
              \<lparr>tb_fields = (\<lambda>_. CNil)(''__index'' := CTable (globals_of parent m)), tb_metatable = None\<rparr>],
           lm_threads := lm_threads m @ [\<lparr>th_stack = [], th_globals = n\<rparr>]\<rparr>)"

lemma setupSandbox_result:
  assumes "L < length (lm_threads m)"
  shows "setupSandbox L m =
     Inr (upd_thread L (\<lambda>th. th\<lparr>th_globals := length (lm_tables m)\<rparr>)
       (m\<lparr>lm_tables := lm_tables m @
            [\<lparr>tb_fields = (\<lambda>_. CNil)(''_G'' := CTable (length (lm_tables m))), tb_metatable = Some (Suc (length (lm_tables m)))\<rparr>,
             \<lparr>tb_fields = (\<lambda>_. CNil)(''__index'' := CTable (globals_of L m)), tb_metatable = None\<rparr>]\<rparr>))"
  using assms
  by (simp add: setupSandbox_def createNewGlobalsTable_def getGlobalsTable_def setGlobalsTable_def lua_api_defs nth_append
        list_update_append comp_def)

lemma sandboxed_thread_result:
  assumes "parent < length (lm_threads m)"
  shows "sandboxed_thread parent m = Inr (length (lm_threads m), with_sandbox parent m)"
proof -
  have "api_calls [lua_newthread, lua_pop 1] parent m =
          Inr (m\<lparr>lm_threads := lm_threads m @ [\<lparr>th_stack = [], th_globals = globals_of parent m\<rparr>]\<rparr>)"
    using assms by (simp add: lua_api_defs nth_append list_update_append)
  then show ?thesis
    by (simp add: sandboxed_thread_def Let_def setupSandbox_result with_sandbox_def upd_thread_def globals_of_def nth_append
          list_update_append)
qed

lemma rawset_shape [simp]:
  "lm_threads (rawset t k v m) = lm_threads m"
  "length (lm_tables (rawset t k v m)) = length (lm_tables m)"
  "globals_of L (rawset t k v m) = globals_of L m"
  by (simp_all add: rawset_def globals_of_def)

lemma rawget_rawset [simp]:
  "t < length (lm_tables m) \<Longrightarrow> rawget (rawset t' k' v m) t k = (if t' = t \<and> k' = k then v else rawget m t k)"
  by (cases "t' = t") (auto simp: rawget_def rawset_def)

lemma with_sandbox_shape [simp]:
  "length (lm_threads (with_sandbox parent m)) = Suc (length (lm_threads m))"
  "length (lm_tables (with_sandbox parent m)) = Suc (Suc (length (lm_tables m)))"
  "L < length (lm_threads m) \<Longrightarrow> globals_of L (with_sandbox parent m) = globals_of L m"
  "globals_of (length (lm_threads m)) (with_sandbox parent m) = length (lm_tables m)"
  "t < length (lm_tables m) \<Longrightarrow> rawget (with_sandbox parent m) t k = rawget m t k"
  by (simp_all add: with_sandbox_def Let_def globals_of_def rawget_def nth_append)

lemma run_action_shape [simp]:
  "lm_threads (run_action env L a m) = lm_threads m"
  "length (lm_tables (run_action env L a m)) = length (lm_tables m)"
  "globals_of L' (run_action env L a m) = globals_of L' m"
  by (simp_all add: run_action_def split: script_action.splits)

lemma run_actions_shape [simp]:
  "lm_threads (fold (run_action env L) acts m) = lm_threads m"
  "length (lm_tables (fold (run_action env L) acts m)) = length (lm_tables m)"
  "globals_of L' (fold (run_action env L) acts m) = globals_of L' m"
  by (induction acts arbitrary: m) simp_all

lemma index_chain_own: "0 < n \<Longrightarrow> rawget m t k \<noteq> CNil \<Longrightarrow> index_chain n m t k = Inr (rawget m t k)"
  by (cases n) simp_all

lemma lua_getglobal_own:
  assumes "L < length (lm_threads m)" "rawget m (globals_of L m) k \<noteq> CNil"
  shows "lua_getglobal k L m = lua_push (rawget m (globals_of L m) k) L m"
  using assms by (simp add: lua_getglobal_def lua_getfield_def value_at_def LJ_MAX_IDXCHAIN_def index_chain_own)

lemma find_context_own:
  "L < length (lm_threads m) \<Longrightarrow> rawget m (globals_of L m) lua_global_context_key = CPointer f \<Longrightarrow> find_context L m = Some f"
  by (simp add: find_context_def lua_getContext_def lua_getglobal_own lua_push_def value_at_def LUA_GLOBALSINDEX_def stack_of_def
        upd_thread_def lua_touserdata_def)

lemma find_global_own:
  "L < length (lm_threads m) \<Longrightarrow> rawget m (globals_of L m) k = v \<Longrightarrow> v \<noteq> CNil \<Longrightarrow> find_global k L m = v"
  by (simp add: find_global_def lua_getglobal_own lua_push_def value_at_def LUA_GLOBALSINDEX_def stack_of_def upd_thread_def)

section \<open>Tables of globals as private stores\<close>

text \<open>
  What a family of stores promises its users: a write to one store is seen there and nowhere else. The lemma
  that rests on it is the isolation of the threads: a name in a store changes only by a write to that name in that store.
\<close>

locale private_stores =
  fixes valid :: "nat list \<Rightarrow> 'm \<Rightarrow> bool"
    and fetch :: "'m \<Rightarrow> nat \<Rightarrow> string \<Rightarrow> 'v"
    and store :: "nat \<Rightarrow> string \<Rightarrow> 'v \<Rightarrow> 'm \<Rightarrow> 'm"
  assumes valid_store: "valid Ls m \<Longrightarrow> valid Ls (store L k v m)"
    and fetch_store: "valid Ls m \<Longrightarrow> L \<in> set Ls \<Longrightarrow> L' \<in> set Ls \<Longrightarrow>
      fetch (store L k v m) L' k' = (if L = L' \<and> k = k' then v else fetch m L' k')"
begin

definition writes :: "(nat \<times> string \<times> 'v) list \<Rightarrow> 'm \<Rightarrow> 'm" where
  "writes = fold (\<lambda>(L, k, v). store L k v)"

lemma valid_writes: "valid Ls m \<Longrightarrow> valid Ls (writes ws m)"
  by (induction ws arbitrary: m) (auto simp: writes_def valid_store)

lemma fetch_writes:
  "valid Ls m \<Longrightarrow> fst ` set ws \<subseteq> set Ls \<Longrightarrow> L \<in> set Ls \<Longrightarrow> (\<And>v. (L, k, v) \<notin> set ws) \<Longrightarrow> fetch (writes ws m) L k = fetch m L k"
proof (induction ws arbitrary: m)
  case (Cons x ws)
  obtain L' k' v' where x: "x = (L', k', v')" by (cases x)
  have "fetch (writes ws (store L' k' v' m)) L k = fetch (store L' k' v' m) L k"
    using Cons.prems by (intro Cons.IH valid_store) auto
  also have "\<dots> = fetch m L k" using Cons.prems x by (subst fetch_store) auto
  finally show ?case by (simp add: writes_def x)
qed (simp add: writes_def)

end

definition own_global :: "lua_machine \<Rightarrow> nat \<Rightarrow> string \<Rightarrow> lua_cell" where
  "own_global m L k = rawget m (globals_of L m) k"

definition set_own_global :: "nat \<Rightarrow> string \<Rightarrow> lua_cell \<Rightarrow> lua_machine \<Rightarrow> lua_machine" where
  "set_own_global L k v m = rawset (globals_of L m) k v m"

text \<open>A machine with the threads \<open>Ls\<close>, each with a table of globals of its own.\<close>

definition separate :: "nat list \<Rightarrow> lua_machine \<Rightarrow> bool" where
  "separate Ls m \<longleftrightarrow>
     distinct (map (\<lambda>L. globals_of L m) Ls) \<and> 0 < length (lm_threads m) \<and>
     (\<forall>L \<in> set Ls. L < length (lm_threads m) \<and> globals_of L m < length (lm_tables m))"

lemma separateD:
  "separate Ls m \<Longrightarrow> L \<in> set Ls \<Longrightarrow> L < length (lm_threads m)"
  "separate Ls m \<Longrightarrow> L \<in> set Ls \<Longrightarrow> globals_of L m < length (lm_tables m)"
  "separate Ls m \<Longrightarrow> L \<in> set Ls \<Longrightarrow> L' \<in> set Ls \<Longrightarrow> globals_of L m = globals_of L' m \<longleftrightarrow> L = L'"
  by (auto simp: separate_def distinct_map inj_on_def)

lemma separate_distinct: "separate Ls m \<Longrightarrow> distinct Ls"
  unfolding separate_def distinct_map by blast

interpretation gl: private_stores separate own_global set_own_global
proof
  show "separate Ls (set_own_global L k v m)" if "separate Ls m" for Ls m L k v
    using that by (simp add: separate_def set_own_global_def)
  show "own_global (set_own_global L k v m) L' k' = (if L = L' \<and> k = k' then v else own_global m L' k')"
    if "separate Ls m" "L \<in> set Ls" "L' \<in> set Ls" for Ls m L L' k k' v
    using that separateD(2) [OF that(1,3)] separateD(3) [OF that]
    by (auto simp: own_global_def set_own_global_def)
qed

text \<open>The assignments of a script of the coroutine \<open>L\<close> of the plugin with the thread \<open>P\<close>, as writes.\<close>

definition writes_of :: "nat \<Rightarrow> nat \<Rightarrow> script_action list \<Rightarrow> (nat \<times> string \<times> lua_cell) list" where
  "writes_of P L = map (\<lambda>a. case a of AssignGlobal k v \<Rightarrow> (P, k, v) | AssignThread k v \<Rightarrow> (L, k, v))"

lemma run_actions_writes: "env = globals_of P m \<Longrightarrow> fold (run_action env L) acts m = gl.writes (writes_of P L acts) m"
proof (induction acts arbitrary: m)
  case (Cons a acts)
  have "fold (run_action env L) acts (run_action env L a m) = gl.writes (writes_of P L acts) (run_action env L a m)"
    using Cons.prems by (intro Cons.IH) simp
  moreover have "gl.writes (writes_of P L (a # acts)) m = gl.writes (writes_of P L acts) (run_action env L a m)"
    using Cons.prems
    by (auto simp: gl.writes_def writes_of_def run_action_def set_own_global_def split: script_action.splits)
  ultimately show ?case by simp
qed (simp add: gl.writes_def writes_of_def)

lemma writes_of_threads: "P \<in> set Ls \<Longrightarrow> L \<in> set Ls \<Longrightarrow> fst ` set (writes_of P L acts) \<subseteq> set Ls"
  by (auto simp: writes_of_def split: script_action.splits)

lemma polite_writes: "list_all polite acts \<Longrightarrow> P \<noteq> L' \<Longrightarrow> reserved k \<Longrightarrow> (L', k, v) \<notin> set (writes_of P L acts)"
  by (auto simp: writes_of_def polite_def list_all_iff split: script_action.splits)

lemma polite_loading_writes: "list_all polite_loading acts \<Longrightarrow> reserved k \<Longrightarrow> (L', k, v) \<notin> set (writes_of P L acts)"
  by (auto simp: writes_of_def polite_loading_def list_all_iff split: script_action.splits)

lemma reserved_names [simp]: "reserved lua_global_context_key" "reserved lua_global_stream_direction"
  by (simp_all add: reserved_def)

lemma reserved_differ [simp]:
  "lua_global_context_key \<noteq> lua_global_stream_direction" "lua_global_stream_direction \<noteq> lua_global_context_key"
  by (simp_all add: lua_global_context_key_def lua_global_stream_direction_def)

lemma separate_sandbox:
  assumes "separate (Ps @ Cs) m"
  shows "separate (Ps @ length (lm_threads m) # Cs) (with_sandbox parent m)"
proof -
  have old: "globals_of L (with_sandbox parent m) = globals_of L m" if "L \<in> set (Ps @ Cs)" for L
    using that assms by (simp add: separateD(1))
  have same: "map (\<lambda>L. globals_of L (with_sandbox parent m)) Ps = map (\<lambda>L. globals_of L m) Ps"
    "map (\<lambda>L. globals_of L (with_sandbox parent m)) Cs = map (\<lambda>L. globals_of L m) Cs"
    using old by (auto intro!: map_cong)
  have "distinct (map (\<lambda>L. globals_of L (with_sandbox parent m)) Ps)"
    "distinct (map (\<lambda>L. globals_of L (with_sandbox parent m)) Cs)"
    unfolding same using assms by (simp_all add: separate_def)
  moreover have "length (lm_tables m) \<notin> set (map (\<lambda>L. globals_of L m) (Ps @ Cs))"
    using assms by (auto dest: separateD(2))
  ultimately show ?thesis using assms old by (auto simp: separate_def less_Suc_eq dest: separateD)
qed

lemma own_global_sandbox:
  "separate Ls m \<Longrightarrow> L \<in> set Ls \<Longrightarrow> own_global (with_sandbox parent m) L k = own_global m L k"
  by (simp add: own_global_def separateD)

section \<open>The invariant\<close>

definition threads_of :: "lua_world \<Rightarrow> nat list" where
  "threads_of w = wd_plugins w @ map (snd \<circ> snd) (wd_coroutines w)"

definition owned :: "lua_machine \<Rightarrow> (nat \<times> stream_direction) \<times> nat \<times> nat \<Rightarrow> bool" where
  "owned m c = (case c of ((f, d), p, L) \<Rightarrow>
     own_global m L lua_global_context_key = CPointer f \<and>
     own_global m L lua_global_stream_direction = CNumber (direction_int d))"

definition view_ok :: "script_view \<Rightarrow> bool" where
  "view_ok v \<longleftrightarrow>
     sv_found_context v = Some (sv_owner v) \<and>
     (\<forall>d. sv_direction v = Some d \<longrightarrow> sv_found_direction v = CNumber (direction_int d)) \<and>
     (sv_kind v = StreamScript V2 \<longrightarrow> sv_global_ctx v = Some (sv_owner v))"

definition world_ok :: "lua_world \<Rightarrow> bool" where
  "world_ok w \<longleftrightarrow>
     separate (threads_of w) (wd_lua w) \<and> distinct (map fst (wd_coroutines w)) \<and>
     (\<forall>c \<in> set (wd_coroutines w). owned (wd_lua w) c \<and> fst (snd c) < length (wd_plugins w)) \<and>
     (\<forall>v \<in> set (wd_views w). view_ok v)"

lemma world_ok_new: "lm_threads m \<noteq> [] \<Longrightarrow> world_ok (new_world m)"
  by (simp add: world_ok_def new_world_def threads_of_def separate_def)

lemma owned_cong:
  "(\<And>k. reserved k \<Longrightarrow> own_global m' (snd (snd c)) k = own_global m (snd (snd c)) k) \<Longrightarrow> owned m' c = owned m c"
  by (auto simp: owned_def split: prod.splits)

lemma coroutine_thread: "c \<in> set (wd_coroutines w) \<Longrightarrow> snd (snd c) \<in> set (threads_of w)"
  by (force simp: threads_of_def)

lemma plugin_thread: "p < length (wd_plugins w) \<Longrightarrow> wd_plugins w ! p \<in> set (threads_of w)"
  by (simp add: threads_of_def)

text \<open>The thread of a plugin is never that of a coroutine.\<close>

lemma plugin_not_coroutine:
  assumes "separate (threads_of w) m" "P \<in> set (wd_plugins w)" "c \<in> set (wd_coroutines w)"
  shows "P \<noteq> snd (snd c)"
proof -
  have "distinct (threads_of w)" using assms(1) by (rule separate_distinct)
  then show ?thesis using assms(2,3) by (force simp: threads_of_def)
qed

lemma run_script_ok:
  assumes w: "world_ok w" and P: "P \<in> set (wd_plugins w)" and L: "L \<in> set (threads_of w)"
    and acts: "list_all polite acts" and v: "own_global (wd_lua w) L lua_global_context_key = CPointer owner"
    and d: "\<And>d'. d = Some d' \<Longrightarrow> own_global (wd_lua w) L lua_global_stream_direction = CNumber (direction_int d')"
    and g: "k = StreamScript V2 \<Longrightarrow> wd_global_ctx w = Some owner"
  shows "world_ok (run_script k owner d P L acts w)"
proof -
  let ?m = "wd_lua w" and ?m' = "gl.writes (writes_of P L acts) (wd_lua w)"
  have sep: "separate (threads_of w) ?m" using w by (simp add: world_ok_def)
  have Pt: "P \<in> set (threads_of w)" using P by (simp add: threads_of_def)
  have keeps: "owned ?m' c = owned ?m c" if "c \<in> set (wd_coroutines w)" for c
    using that acts plugin_not_coroutine [OF sep P that] sep Pt L coroutine_thread [OF that]
    by (intro owned_cong gl.fetch_writes [where Ls = "threads_of w"] writes_of_threads) (auto simp: polite_writes)
  have "find_context L ?m = Some owner" using sep L v by (intro find_context_own) (auto simp: own_global_def dest: separateD)
  moreover have "find_global lua_global_stream_direction L ?m = CNumber (direction_int d')" if "d = Some d'" for d'
    using sep L d [OF that] by (intro find_global_own) (auto simp: own_global_def dest: separateD)
  ultimately show ?thesis using w g keeps
    by (auto simp: world_ok_def run_script_def run_actions_writes [OF refl] threads_of_def view_ok_def intro: gl.valid_writes)
qed

lemma setContext_store: "L < length (lm_threads m) \<Longrightarrow> setContext r L m = Inr (set_own_global L lua_global_context_key (CPointer r) m)"
  by (simp add: setContext_result set_own_global_def)

lemma co_initialize_store:
  "L < length (lm_threads m) \<Longrightarrow>
   co_initialize f d L m =
     Inr (set_own_global L lua_global_stream_direction (CNumber (direction_int d))
            (set_own_global L lua_global_context_key (CPointer f) m))"
  by (simp add: co_initialize_result set_own_global_def)

lemma store_elsewhere_owned:
  assumes "separate Ls m" "L \<in> set Ls" "snd (snd c) \<in> set Ls" "L \<noteq> snd (snd c)"
  shows "owned (set_own_global L k v m) c = owned m c"
  using assms by (intro owned_cong) (simp add: gl.fetch_store)

lemma create_filter_ok:
  assumes w: "world_ok w" and p: "p < length (wd_plugins w)"
  shows "\<exists>w'. create_filter p f w = Inr w' \<and> world_ok w' \<and> wd_plugins w' = wd_plugins w"
proof -
  have sep: "separate (threads_of w) (wd_lua w)" using w by (simp add: world_ok_def)
  have P: "wd_plugins w ! p \<in> set (wd_plugins w)" using p by simp
  have "owned (set_own_global (wd_plugins w ! p) lua_global_context_key (CPointer f) (wd_lua w)) c = owned (wd_lua w) c"
    if "c \<in> set (wd_coroutines w)" for c
    using plugin_not_coroutine [OF sep P that] plugin_thread [OF p] coroutine_thread [OF that] sep
    by (intro store_elsewhere_owned)
  then show ?thesis using w separateD(1) [OF sep plugin_thread [OF p]]
    by (auto simp: create_filter_def setContext_store world_ok_def threads_of_def gl.valid_store)
qed

lemma separate_mono: "separate Ls m \<Longrightarrow> set Ls' \<subseteq> set Ls \<Longrightarrow> distinct Ls' \<Longrightarrow> separate Ls' m"
  by (auto simp: separate_def distinct_map inj_on_def)

text \<open>A new sandboxed thread leaves the names of the others as they were.\<close>

lemma owned_sandbox:
  "separate (threads_of w) (wd_lua w) \<Longrightarrow> c \<in> set (wd_coroutines w) \<Longrightarrow>
   owned (with_sandbox parent (wd_lua w)) c = owned (wd_lua w) c"
  by (intro owned_cong) (simp add: own_global_sandbox coroutine_thread)

lemma load_plugin_ok:
  assumes w: "world_ok w" and acts: "list_all polite_loading chunk" "list_all polite_loading conf"
  shows "\<exists>w'. load_plugin c chunk conf w = Inr w' \<and> world_ok w' \<and> length (wd_plugins w') = Suc (length (wd_plugins w))"
proof -
  let ?m = "wd_lua w" and ?P = "length (lm_threads (wd_lua w))"
  let ?mc = "set_own_global ?P lua_global_context_key (CPointer c) (with_sandbox 0 ?m)"
  let ?md = "gl.writes (writes_of ?P ?P chunk) ?mc"
  let ?w = "w\<lparr>wd_plugins := wd_plugins w @ [?P], wd_lua := ?md\<rparr>"
  have sep: "separate (threads_of w) ?m" using w by (simp add: world_ok_def)
  have threads: "threads_of ?w = wd_plugins w @ ?P # map (snd \<circ> snd) (wd_coroutines w)" by (simp add: threads_of_def)
  have sep0: "separate (threads_of ?w) (with_sandbox 0 ?m)"
    using separate_sandbox [of "wd_plugins w" "map (snd \<circ> snd) (wd_coroutines w)" ?m 0] sep unfolding threads by (simp add: threads_of_def)
  have sep1: "separate (threads_of ?w) ?mc" by (intro gl.valid_store sep0)
  have sep2: "separate (threads_of ?w) ?md" by (intro gl.valid_writes sep1)
  have Pin: "?P \<in> set (threads_of ?w)" unfolding threads by simp
  have ctx: "own_global ?md ?P lua_global_context_key = CPointer c"
    using acts(1) sep0 sep1 Pin
    by (subst gl.fetch_writes [OF sep1 writes_of_threads [OF Pin Pin] Pin]) (auto simp: polite_loading_writes gl.fetch_store [OF sep0])
  have keeps: "owned ?md x = owned ?m x" if x: "x \<in> set (wd_coroutines w)" for x
  proof -
    have other: "?P \<noteq> snd (snd x)" using separateD(1) [OF sep coroutine_thread [OF x]] by auto
    have xin: "snd (snd x) \<in> set (threads_of ?w)" using coroutine_thread [OF x] by (auto simp: threads_of_def)
    have "owned ?md x = owned ?mc x"
      using acts(1) by (intro owned_cong gl.fetch_writes [OF sep1 writes_of_threads [OF Pin Pin] xin]) (auto simp: polite_loading_writes)
    also have "\<dots> = owned (with_sandbox 0 ?m) x" by (rule store_elsewhere_owned [OF sep0 Pin xin other])
    finally show ?thesis using owned_sandbox [OF sep x] by simp
  qed
  have ok: "world_ok ?w" using w sep2 keeps by (auto simp: world_ok_def)
  have "list_all polite conf"
    using acts(2) by (auto simp: list_all_iff polite_def polite_loading_def split: script_action.splits)
  then have "world_ok (run_script ConfigureScript c None ?P ?P conf ?w)"
    using ok ctx Pin by (intro run_script_ok) auto
  moreover have "load_plugin c chunk conf w = Inr (run_script ConfigureScript c None ?P ?P conf ?w)"
    using sep by (simp add: load_plugin_def LuaThread_def sandboxed_thread_result setContext_store separate_def run_actions_writes [OF refl])
  ultimately show ?thesis by (simp add: run_script_def)
qed

lemma new_coroutine_ok:
  assumes w: "world_ok w" and p: "p < length (wd_plugins w)"
  shows "\<exists>w' L. new_coroutine p f d w = Inr w' \<and> world_ok w' \<and> wd_plugins w' = wd_plugins w \<and>
           map_of (wd_coroutines w') (f, d) = Some (p, L)"
proof -
  let ?m = "wd_lua w" and ?L = "length (lm_threads (wd_lua w))" and ?P = "wd_plugins w ! p"
  let ?Cs = "map (snd \<circ> snd) (wd_coroutines w)"
  let ?mb = "with_sandbox ?P ?m"
  let ?mc = "set_own_global ?L lua_global_context_key (CPointer f) ?mb"
  let ?md = "set_own_global ?L lua_global_stream_direction (CNumber (direction_int d)) ?mc"
  let ?rest = "AList.delete (f, d) (wd_coroutines w)"
  let ?w = "w\<lparr>wd_lua := ?md, wd_coroutines := ((f, d), p, ?L) # ?rest\<rparr>"
  have sep: "separate (threads_of w) ?m" using w by (simp add: world_ok_def)
  have sep0: "separate (wd_plugins w @ ?L # ?Cs) ?mb"
    using separate_sandbox [of "wd_plugins w" ?Cs ?m ?P] sep by (simp add: threads_of_def)
  have sep1: "separate (wd_plugins w @ ?L # ?Cs) ?mc" by (intro gl.valid_store sep0)
  have sep2: "separate (wd_plugins w @ ?L # ?Cs) ?md" by (intro gl.valid_store sep1)
  have Lin: "?L \<in> set (wd_plugins w @ ?L # ?Cs)" by simp
  have all: "distinct (wd_plugins w @ ?L # ?Cs)" using sep0 by (rule separate_distinct)
  have sepw: "separate (threads_of ?w) ?md"
  proof (rule separate_mono [OF sep2])
    show "set (threads_of ?w) \<subseteq> set (wd_plugins w @ ?L # ?Cs)" by (auto simp: threads_of_def AList.delete_eq)
    show "distinct (threads_of ?w)" using all by (auto simp: threads_of_def AList.delete_eq distinct_map_filter)
  qed
  have keeps: "owned ?md x = owned ?m x" if x: "x \<in> set (wd_coroutines w)" for x
  proof -
    have other: "?L \<noteq> snd (snd x)" using separateD(1) [OF sep coroutine_thread [OF x]] by auto
    have xin: "snd (snd x) \<in> set (wd_plugins w @ ?L # ?Cs)" using coroutine_thread [OF x] by (auto simp: threads_of_def)
    have "owned ?md x = owned ?mc x" by (rule store_elsewhere_owned [OF sep1 Lin xin other])
    also have "\<dots> = owned ?mb x" by (rule store_elsewhere_owned [OF sep0 Lin xin other])
    finally show ?thesis using owned_sandbox [OF sep x] by simp
  qed
  have new: "owned ?md ((f, d), p, ?L)"
    by (simp add: owned_def gl.fetch_store [OF sep1 Lin Lin] gl.fetch_store [OF sep0 Lin Lin])
  have "new_coroutine p f d w = Inr ?w"
    using separateD(1) [OF sep plugin_thread [OF p]]
    by (simp add: new_coroutine_def createCoroutine_def sandboxed_thread_result co_initialize_store)
  moreover have "world_ok ?w" using w sepw keeps new p
    by (auto simp: world_ok_def AList.delete_eq distinct_map_filter)
  ultimately show ?thesis by simp
qed

lemma run_coroutine_ok:
  assumes w: "world_ok w" and acts: "list_all polite acts" and g: "ver = V2 \<Longrightarrow> wd_global_ctx w = Some f"
  shows "world_ok (run_coroutine ver f d acts w)"
proof (cases "map_of (wd_coroutines w) (f, d)")
  case (Some c)
  obtain p L where c: "c = (p, L)" by (cases c)
  have mem: "((f, d), p, L) \<in> set (wd_coroutines w)" using Some c by (simp add: map_of_SomeD)
  then have "owned (wd_lua w) ((f, d), p, L)" "p < length (wd_plugins w)" using w by (auto simp: world_ok_def)
  then show ?thesis using Some c w acts g coroutine_thread [OF mem]
    by (auto simp: run_coroutine_def owned_def intro!: run_script_ok)
qed (simp add: run_coroutine_def w)

lemma world_ok_global_ctx [simp]: "world_ok (set_global_ctx f w) = world_ok w"
  by (simp add: world_ok_def set_global_ctx_def threads_of_def)

lemma plugins_kept [simp]:
  "wd_plugins (set_global_ctx f w) = wd_plugins w" "wd_plugins (run_coroutine ver f d acts w) = wd_plugins w"
  "wd_global_ctx (set_global_ctx f w) = Some f"
  by (simp_all add: set_global_ctx_def run_coroutine_def run_script_def split: option.splits)

lemma world_step_ok:
  assumes w: "world_ok w" and e: "event_ok (length (wd_plugins w)) e"
  shows "\<exists>w'. world_step e w = Inr w' \<and> world_ok w' \<and>
           length (wd_plugins w') = (case e of LoadPlugin _ _ _ \<Rightarrow> Suc (length (wd_plugins w)) | _ \<Rightarrow> length (wd_plugins w))"
proof (cases e)
  case (LoadPlugin c chunk conf)
  then show ?thesis using load_plugin_ok [OF w] e by simp
next
  case (CreateFilter p f)
  then show ?thesis using create_filter_ok [OF w, of p f] e by auto
next
  case (StartHeaders ver p f d acts)
  then have "p < length (wd_plugins w)" using e by simp
  from new_coroutine_ok [OF w this, of f d] obtain w' where "new_coroutine p f d w = Inr w'" "world_ok w'"
    "wd_plugins w' = wd_plugins w" by blast
  then show ?thesis using StartHeaders e by (auto intro: run_coroutine_ok)
next
  case (StartBody p f d acts)
  then have "p < length (wd_plugins w)" using e by simp
  from new_coroutine_ok [OF w this, of f d] obtain w' where "new_coroutine p f d w = Inr w'" "world_ok w'"
    "wd_plugins w' = wd_plugins w" by blast
  then show ?thesis using StartBody e w by (auto intro: run_coroutine_ok)
qed (use w e in \<open>auto intro: run_coroutine_ok\<close>)

lemma world_steps_ok:
  "world_ok w \<Longrightarrow> events_ok (length (wd_plugins w)) es \<Longrightarrow> \<exists>w'. world_steps es w = Inr w' \<and> world_ok w'"
proof (induction es arbitrary: w)
  case (Cons e es)
  then obtain w1 where "world_step e w = Inr w1" "world_ok w1"
    "length (wd_plugins w1) = (case e of LoadPlugin _ _ _ \<Rightarrow> Suc (length (wd_plugins w)) | _ \<Rightarrow> length (wd_plugins w))"
    using world_step_ok [of w e] by auto
  then show ?case using Cons.IH [of w1] Cons.prems by simp
qed simp

section \<open>A new virtual machine\<close>

text \<open>
  What \<^verbatim>\<open>luaL_openlibs\<close> promises: the main thread exists, and its globals hold the table \<^verbatim>\<open>package\<close>
  with the table \<^verbatim>\<open>loaded\<close> and the string \<^verbatim>\<open>path\<close>.
\<close>

definition libs_ok :: "lua_machine \<Rightarrow> nat \<Rightarrow> nat \<Rightarrow> string \<Rightarrow> bool" where
  "libs_ok m pk ld s \<longleftrightarrow>
     0 < length (lm_threads m) \<and> globals_of 0 m < length (lm_tables m) \<and> pk < length (lm_tables m) \<and> ld < length (lm_tables m) \<and>
     distinct [globals_of 0 m, pk, ld] \<and>
     rawget m (globals_of 0 m) ''package'' = CTable pk \<and> rawget m pk ''loaded'' = CTable ld \<and> rawget m pk ''path'' = CString s"

lemma addLuaPackagePath_result:
  assumes "libs_ok m pk ld s"
  shows "addLuaPackagePath path 0 m = Inr (True, rawset pk ''path'' (CString (path @ s)) m)"
proof -
  have g: "lua_getglobal ''package'' 0 m = lua_push (CTable pk) 0 m"
    using assms by (simp add: lua_getglobal_own libs_ok_def)
  have "index_chain 100 (m\<lparr>lm_threads := ts\<rparr>) pk ''path'' = Inr (CString s)" for ts
    using assms by (subst index_chain_own) (auto simp: libs_ok_def rawget_def)
  then show ?thesis using assms g
    by (simp add: addLuaPackagePath_def lua_api_defs lua_istable_def lua_concat2_def libs_ok_def LJ_MAX_IDXCHAIN_def comp_def)
qed

definition api_table :: "nat \<Rightarrow> lua_table" where
  "api_table n =
     \<lparr>tb_fields = (\<lambda>_. CNil)(''req'' := CTable (Suc n), ''resp'' := CTable (Suc (Suc n)),
        ''runtime'' := CTable (Suc (Suc (Suc n))), ''streaminfo'' := CTable (Suc (Suc (Suc (Suc n)))),
        ''stream'' := CTable (Suc (Suc (Suc (Suc (Suc n))))), ''respond'' := CFunction ''static_lua_respond'',
        ''httpCall'' := CFunction ''static_lua_http_call''), tb_metatable = None\<rparr>"

definition field_table :: "string \<Rightarrow> lua_cell \<Rightarrow> lua_table" where
  "field_table k v = \<lparr>tb_fields = (\<lambda>_. CNil)(k := v), tb_metatable = None\<rparr>"

definition blank_table :: lua_table where
  "blank_table = \<lparr>tb_fields = (\<lambda>_. CNil), tb_metatable = None\<rparr>"

definition api_tables :: "nat \<Rightarrow> lua_table list" where
  "api_tables n =
     [api_table n, field_table ''get_body'' (CFunction ''static_lua_get_request_body''),
      field_table ''get_body'' (CFunction ''static_lua_get_response_body''), blank_table, blank_table, blank_table]"

lemma initializeCallInAPIs_result:
  assumes "libs_ok m pk ld s"
  shows "initializeCallInAPIs 0 m =
     Inr (rawset (globals_of 0 m) ''envoy'' (CTable (length (lm_tables m)))
       (rawset ld ''envoy'' (CTable (length (lm_tables m))) (m\<lparr>lm_tables := lm_tables m @ api_tables (length (lm_tables m))\<rparr>)))"
proof -
  let ?n = "length (lm_tables m)"
  have pkg: "index_chain 100 (m\<lparr>lm_tables := lm_tables m @ ys, lm_threads := ts\<rparr>) (th_globals (lm_threads m ! 0)) ''package'' = Inr (CTable pk)" for ts ys
    using assms by (subst index_chain_own) (auto simp: libs_ok_def rawget_def nth_append globals_of_def)
  have loaded: "index_chain 100 (m\<lparr>lm_tables := lm_tables m @ ys, lm_threads := ts\<rparr>) pk ''loaded'' = Inr (CTable ld)" for ts ys
    using assms by (subst index_chain_own) (auto simp: libs_ok_def rawget_def nth_append globals_of_def)
  show ?thesis using assms
    by (simp add: initializeCallInAPIs_def lua_api_defs libs_ok_def LJ_MAX_IDXCHAIN_def comp_def nth_append list_update_append pkg loaded
       api_tables_def api_table_def field_table_def blank_table_def)
qed

text \<open>\<^verbatim>\<open>LuaStackUnchange\<close> asserts in its destructor that the stack is as high as when it was made.\<close>

definition stack_unchanged :: "nat \<Rightarrow> nat \<Rightarrow> lua_machine \<Rightarrow> bool" where
  "stack_unchanged original_top L m = (original_top = length (stack_of L m))"

lemma initializeCallInAPIs_stack:
  assumes "libs_ok m pk ld s" and "initializeCallInAPIs 0 m = Inr m'"
  shows "stack_unchanged (length (stack_of 0 m)) 0 m'"
  using assms(2) unfolding initializeCallInAPIs_result [OF assms(1)] by (auto simp: stack_unchanged_def stack_of_def)

lemma libs_ok_path: "libs_ok m pk ld s \<Longrightarrow> libs_ok (rawset pk ''path'' (CString s') m) pk ld s'"
  by (auto simp: libs_ok_def)

text \<open>
  The state of a new virtual machine: the stacks are as before, which is what \<^verbatim>\<open>LuaStackUnchange\<close> asserts, the interface
  is reached as the global \<^verbatim>\<open>envoy\<close> and as the loaded module, and the path for modules starts with the configured one.
\<close>

lemma new_vm_state_result:
  assumes "libs_ok libs pk ld s"
  shows "\<exists>m e. new_vm_state libs path = Inr m \<and> lm_threads m = lm_threads libs \<and>
           rawget m pk ''path'' = CString (if path = '''' then s else path @ s) \<and>
           find_global ''envoy'' 0 m = CTable e \<and> rawget m ld ''envoy'' = CTable e \<and> lm_tables m ! e = api_table e \<and>
           lm_tables m ! Suc e = field_table ''get_body'' (CFunction ''static_lua_get_request_body'') \<and>
           lm_tables m ! Suc (Suc e) = field_table ''get_body'' (CFunction ''static_lua_get_response_body'')"
proof -
  let ?s = "if path = '''' then s else path @ s"
  define m0 where "m0 = (if path = '''' then libs else rawset pk ''path'' (CString (path @ s)) libs)"
  have ok: "libs_ok m0 pk ld ?s" using assms by (simp add: m0_def libs_ok_path)
  have vm: "new_vm_state libs path = initializeCallInAPIs 0 m0"
    using assms by (simp add: new_vm_state_def addLuaPackagePath_result m0_def)
  let ?e = "length (lm_tables m0)"
  let ?m' = "m0\<lparr>lm_tables := lm_tables m0 @ api_tables ?e\<rparr>"
  let ?m = "rawset (globals_of 0 m0) ''envoy'' (CTable ?e) (rawset ld ''envoy'' (CTable ?e) ?m')"
  have threads: "lm_threads ?m = lm_threads libs" by (simp add: m0_def)
  have len: "length (lm_tables ?m) = ?e + 6" by (simp add: api_tables_def)
  have old: "rawget ?m' t k = rawget m0 t k" if "t < ?e" for t k using that by (simp add: rawget_def nth_append)
  have small: "globals_of 0 m0 < ?e" "ld < ?e" "pk < ?e" "globals_of 0 m0 \<noteq> pk" "ld \<noteq> pk" "0 < length (lm_threads ?m)"
    using ok by (auto simp: libs_ok_def)
  have g: "globals_of 0 ?m = globals_of 0 m0" by (simp add: globals_of_def)
  have env: "rawget ?m (globals_of 0 ?m) ''envoy'' = CTable ?e" unfolding g using small by (simp add: api_tables_def)
  then have "find_global ''envoy'' 0 ?m = CTable ?e" using small by (intro find_global_own) auto
  moreover have "rawget ?m ld ''envoy'' = CTable ?e" using small by (simp add: api_tables_def)
  moreover have "rawget ?m pk ''path'' = CString ?s" using small ok old by (simp add: api_tables_def libs_ok_def)
  moreover have "lm_tables ?m ! ?e = api_table ?e" "lm_tables ?m ! Suc ?e = field_table ''get_body'' (CFunction ''static_lua_get_request_body'')"
    "lm_tables ?m ! Suc (Suc ?e) = field_table ''get_body'' (CFunction ''static_lua_get_response_body'')"
    using small by (simp_all add: rawset_def api_tables_def nth_append nth_list_update)
  ultimately show ?thesis using threads initializeCallInAPIs_result [OF ok] vm by metis
qed

text \<open>
  C8: The rider filters of one worker thread run their scripts on one Lua machine, in any order of their streams. Whenever a
  script runs, the context that its calls find is the filter of its own stream and the direction is its own, whatever the
  scripts of other streams assigned; the functions of the second version, which use \<^verbatim>\<open>global_ctx\<close>,
  find the same filter. None of the steps fails.
\<close>

theorem rider_scripts_see_own_stream:
  assumes "libs_ok libs pk ld s" and "events_ok 0 es"
  shows "\<exists>m w. new_vm_state libs path = Inr m \<and> world_steps es (new_world m) = Inr w \<and>
           (\<forall>v \<in> set (wd_views w). view_ok v) \<and>
           (\<forall>((f, d), p, L) \<in> set (wd_coroutines w).
              find_context L (wd_lua w) = Some f \<and>
              find_global lua_global_stream_direction L (wd_lua w) = CNumber (direction_int d))"
proof -
  obtain m where m: "new_vm_state libs path = Inr m" "lm_threads m = lm_threads libs"
    using new_vm_state_result [OF assms(1)] by blast
  then have "world_ok (new_world m)" using assms(1) by (intro world_ok_new) (auto simp: libs_ok_def)
  then obtain w where w: "world_steps es (new_world m) = Inr w" "world_ok w"
    using world_steps_ok [of "new_world m" es] assms(2) by (auto simp: new_world_def)
  have "find_context L (wd_lua w) = Some f \<and> find_global lua_global_stream_direction L (wd_lua w) = CNumber (direction_int d)"
    if mem: "((f, d), p, L) \<in> set (wd_coroutines w)" for f d p L
  proof -
    have "L < length (lm_threads (wd_lua w))"
      using w(2) coroutine_thread [OF mem] by (auto simp: world_ok_def dest: separateD)
    then show ?thesis using w(2) mem
      by (auto simp: world_ok_def owned_def own_global_def intro!: find_context_own find_global_own)
  qed
  then show ?thesis using m(1) w by (auto simp: world_ok_def)
qed

text \<open>The machine that the Lua libraries leave, reduced to what the code relies on, and two streams of one plugin.\<close>

definition example_libs :: lua_machine where
  "example_libs =
     \<lparr>lm_tables =
        [\<lparr>tb_fields = (\<lambda>_. CNil)(''package'' := CTable 1), tb_metatable = None\<rparr>,
         \<lparr>tb_fields = (\<lambda>_. CNil)(''loaded'' := CTable 2, ''path'' := CString ''./?.lua''), tb_metatable = None\<rparr>,
         \<lparr>tb_fields = (\<lambda>_. CNil), tb_metatable = None\<rparr>],
      lm_threads = [\<lparr>th_stack = [], th_globals = 0\<rparr>]\<rparr>"

definition example_events :: "world_event list" where
  "example_events =
     [LoadPlugin 0 [AssignGlobal ''hits'' (CNumber 0)] [],
      CreateFilter 0 1, StartHeaders V1 0 1 DownstreamToUpstream [AssignGlobal ''_envoy_context'' (CPointer 7)],
      CreateFilter 0 2, StartHeaders V2 0 2 DownstreamToUpstream [AssignThread ''x'' (CNumber 1)],
      ResumeAnswer V2 1 DownstreamToUpstream [], StartBody 0 2 UpstreamToDownstream []]"

lemma example_libs_ok: "libs_ok example_libs 1 2 ''./?.lua''"
  by (simp add: libs_ok_def example_libs_def globals_of_def rawget_def)

theorem rider_scripts_see_own_stream_witness:
  "\<exists>m w. new_vm_state example_libs ''/lua/?.lua;'' = Inr m \<and> world_steps example_events (new_world m) = Inr w \<and>
     (\<forall>v \<in> set (wd_views w). view_ok v)"
  using rider_scripts_see_own_stream [OF example_libs_ok, of example_events "''/lua/?.lua;''"]
  by (auto simp: example_events_def polite_def polite_loading_def reserved_def lua_global_context_key_def
        lua_global_stream_direction_def)

text \<open>
  \<^verbatim>\<open>on_configure\<close> runs before any filter of the worker thread has set \<^verbatim>\<open>global_ctx\<close>: the functions
  of the second version find no context there.
\<close>

lemma configure_without_global_ctx:
  "load_plugin c [] [] (new_world m) = Inr w \<Longrightarrow> map sv_global_ctx (wd_views w) = [None]"
  by (auto simp: load_plugin_def new_world_def run_script_def split: sum.splits)

end
