(* ===== verification/Rider_Filter.thy ===== *)
theory Rider_Filter
  imports Rider_Stream
begin

text \<open>
  Runs of the Rider filter over a stream's events, and what holds in all of them.

  \<^item> \<open>rider_step\<close> is one event: a callback of Envoy on the filter or the answer of a call that is under way. Data that a
    callback stops with \<^verbatim>\<open>StopIterationAndBuffer\<close> is added to the buffer by Envoy.
  \<^item> The locale \<open>filter_callbacks\<close> is the interface \<^verbatim>\<open>FilterCallbacks\<close> with what the wrapper relies on: a response that is
    sent is counted once and does not take the wrapper away. It is interpreted for the callbacks of the encoder and of
    the decoder; the second rests on the first, because a direct response goes through the filter's own encoder.
  \<^item> The theorems: a stream is answered at most once, a script that waits for a call continues its stream once, errors
    let the stream pass, and a script that waits for the body gets all of it.
\<close>

section \<open>Events\<close>

datatype 'h rider_event =
    EvDecodeData string bool
  | EvEncodeHeaders 'h bool
  | EvEncodeData string bool
  | EvSuccess stream_direction "(string \<times> string) list" string
  | EvFailure stream_direction
  | EvDestroy

definition after_data :: "stream_direction \<Rightarrow> string \<Rightarrow> 'h rider_filter \<times> data_status \<Rightarrow> 'h rider_filter" where
  "after_data d data r = (if snd r = StopIterationAndBuffer then add_buffer d data (fst r) else fst r)"

definition respond_of :: "'h rider_env \<Rightarrow> stream_direction \<Rightarrow> 'h respond_fn" where
  "respond_of E d = (case d of DownstreamToUpstream \<Rightarrow> decoder_respond E | UpstreamToDownstream \<Rightarrow> encoder_respond)"

definition under_way :: "stream_direction \<Rightarrow> 'h rider_filter \<Rightarrow> bool" where
  "under_way d f = (case wrapper_of d f of None \<Rightarrow> False | Some w \<Rightarrow> sw_http_request w)"

definition rider_step :: "'h rider_env \<Rightarrow> 'h rider_event \<Rightarrow> 'h rider_filter \<Rightarrow> 'h rider_filter option" where
  "rider_step E ev f =
     (case ev of
        EvDecodeData data end_stream \<Rightarrow>
          map_option (after_data DownstreamToUpstream data) (rider_decodeData E data end_stream f)
      | EvEncodeHeaders h end_stream \<Rightarrow> map_option fst (rider_encodeHeaders E h end_stream f)
      | EvEncodeData data end_stream \<Rightarrow>
          map_option (after_data UpstreamToDownstream data) (rider_encodeData E data end_stream f)
      | EvSuccess d hs b \<Rightarrow> (if under_way d f then sw_onSuccess E (respond_of E d) d (hs, b) f else Some f)
      | EvFailure d \<Rightarrow> (if under_way d f then sw_onFailure E (respond_of E d) d f else Some f)
      | EvDestroy \<Rightarrow> Some (rider_onDestroy f))"

fun rider_steps :: "'h rider_env \<Rightarrow> 'h rider_event list \<Rightarrow> 'h rider_filter \<Rightarrow> 'h rider_filter option" where
  "rider_steps E [] f = Some f"
| "rider_steps E (ev # evs) f = (case rider_step E ev f of None \<Rightarrow> None | Some f' \<Rightarrow> rider_steps E evs f')"

definition RiderFilter :: "'h rider_ctx \<Rightarrow> 'h rider_filter" where
  "RiderFilter c =
     \<lparr>rf_ctx = c, rf_request = None, rf_response = None, rf_responded = False, rf_destroyed = False, rf_error = False,
      rf_sent = 0, rf_calls = []\<rparr>"

text \<open>A stream: the request's headers, and then any events.\<close>

definition rider_stream :: "'h rider_env \<Rightarrow> 'h rider_ctx \<Rightarrow> 'h \<Rightarrow> bool \<Rightarrow> 'h rider_event list \<Rightarrow> 'h rider_filter option" where
  "rider_stream E c headers end_stream evs =
     (case rider_decodeHeaders E headers end_stream (RiderFilter c) of None \<Rightarrow> None | Some (f, _) \<Rightarrow> rider_steps E evs f)"

section \<open>Views of the state\<close>

definition responses :: "'h rider_filter \<Rightarrow> nat" where
  "responses f = length (filter (\<lambda>c. case c of RiderEncodeHeaders _ _ \<Rightarrow> True | _ \<Rightarrow> False) (rf_calls f))"

definition continued :: "stream_direction \<Rightarrow> 'h rider_filter \<Rightarrow> nat" where
  "continued d f = count_list (rf_calls f) (ContinueIteration d)"

definition st :: "stream_direction \<Rightarrow> 'h rider_filter \<Rightarrow> wrapper_state option" where
  "st d f = map_option sw_state (wrapper_of d f)"

definition ended :: "stream_direction \<Rightarrow> 'h rider_filter \<Rightarrow> bool" where
  "ended d f = (case wrapper_of d f of None \<Rightarrow> False | Some w \<Rightarrow> sw_end_stream w)"

lemma direction_cases: "d = DownstreamToUpstream \<or> d = UpstreamToDownstream"
  by (cases d) simp_all

lemma wrapper_set [simp]: "wrapper_of d' (set_wrapper d w f) = (if d' = d then Some w else wrapper_of d' f)"
  by (cases d; cases d') (simp_all add: wrapper_of_def set_wrapper_def)

lemma wrapper_upd [simp]: "wrapper_of d' (upd_wrapper d g f) = (if d' = d then map_option g (wrapper_of d f) else wrapper_of d' f)"
  by (auto simp: upd_wrapper_def split: option.split)

lemma set_wrapper_frame [simp]:
  "rf_error (set_wrapper d w f) = rf_error f" "rf_calls (set_wrapper d w f) = rf_calls f" "rf_ctx (set_wrapper d w f) = rf_ctx f"
  "rf_responded (set_wrapper d w f) = rf_responded f" "rf_destroyed (set_wrapper d w f) = rf_destroyed f"
  by (cases d; simp add: set_wrapper_def)+

lemma upd_wrapper_frame [simp]:
  "rf_error (upd_wrapper d g f) = rf_error f" "rf_calls (upd_wrapper d g f) = rf_calls f" "rf_ctx (upd_wrapper d g f) = rf_ctx f"
  "rf_responded (upd_wrapper d g f) = rf_responded f" "rf_destroyed (upd_wrapper d g f) = rf_destroyed f"
  by (simp_all add: upd_wrapper_def split: option.split)

lemma wrapper_frame [simp]:
  "wrapper_of d (f\<lparr>rf_ctx := c\<rparr>) = wrapper_of d f" "wrapper_of d (f\<lparr>rf_responded := b\<rparr>) = wrapper_of d f"
  "wrapper_of d (f\<lparr>rf_destroyed := b\<rparr>) = wrapper_of d f" "wrapper_of d (f\<lparr>rf_error := b\<rparr>) = wrapper_of d f"
  "wrapper_of d (f\<lparr>rf_sent := n\<rparr>) = wrapper_of d f" "wrapper_of d (f\<lparr>rf_calls := cs\<rparr>) = wrapper_of d f"
  by (cases d; simp add: wrapper_of_def)+

lemma log_call_frame [simp]:
  "wrapper_of d (log_call c f) = wrapper_of d f" "rf_error (log_call c f) = rf_error f"
  "rf_calls (log_call c f) = rf_calls f @ [c]" "rf_ctx (log_call c f) = rf_ctx f"
  "rf_destroyed (log_call c f) = rf_destroyed f"
  by (simp_all add: log_call_def)

lemma scriptError_frame [simp]:
  "wrapper_of d (scriptError e f) = wrapper_of d f" "rf_error (scriptError e f)"
  "rf_calls (scriptError e f) = rf_calls f @ [LogError e]"
  by (simp_all add: scriptError_def)

lemma add_buffer_frame [simp]:
  "wrapper_of d' (add_buffer d data f) = wrapper_of d' f" "rf_error (add_buffer d data f) = rf_error f"
  "rf_calls (add_buffer d data f) = rf_calls f"
  by (cases d; simp add: add_buffer_def Let_def)+

lemma state_of_eq: "state_of d f = (case st d f of None \<Rightarrow> Running | Some s \<Rightarrow> s)"
  by (simp add: state_of_def st_def split: option.split)

section \<open>Runs of a script\<close>

text \<open>What the properties see of a state: it does not change in a call that returns to the script at once.\<close>

definition same :: "'h rider_filter \<Rightarrow> 'h rider_filter \<Rightarrow> bool" where
  "same f f' \<longleftrightarrow> (\<forall>d. st d f' = st d f \<and> ended d f' = ended d f \<and> continued d f' = continued d f) \<and> responses f' = responses f \<and> rf_error f' = rf_error f"

lemma st_simps [simp]:
  "st d' (set_wrapper d w f) = (if d' = d then Some (sw_state w) else st d' f)"
  "st d' (log_call c f) = st d' f" "st d' (scriptError e f) = st d' f" "st d' (add_buffer d data f) = st d' f"
  "st d' (f\<lparr>rf_ctx := c'\<rparr>) = st d' f" "st d' (f\<lparr>rf_responded := b\<rparr>) = st d' f" "st d' (f\<lparr>rf_destroyed := b\<rparr>) = st d' f"
  "st d' (f\<lparr>rf_sent := n\<rparr>) = st d' f"
  by (simp_all add: st_def)

lemma ended_simps [simp]:
  "ended d' (log_call c f) = ended d' f" "ended d' (scriptError e f) = ended d' f" "ended d' (add_buffer d data f) = ended d' f"
  "ended d' (f\<lparr>rf_ctx := c'\<rparr>) = ended d' f" "ended d' (f\<lparr>rf_responded := b\<rparr>) = ended d' f"
  "ended d' (f\<lparr>rf_destroyed := b\<rparr>) = ended d' f" "ended d' (f\<lparr>rf_sent := n\<rparr>) = ended d' f"
  by (simp_all add: ended_def)

lemma responses_simps [simp]:
  "responses (set_wrapper d w f) = responses f" "responses (upd_wrapper d g f) = responses f"
  "responses (log_call c f) = (case c of RiderEncodeHeaders _ _ \<Rightarrow> Suc (responses f) | _ \<Rightarrow> responses f)"
  "responses (scriptError e f) = responses f" "responses (add_buffer d data f) = responses f"
  "responses (f\<lparr>rf_ctx := c'\<rparr>) = responses f" "responses (f\<lparr>rf_responded := b\<rparr>) = responses f"
  "responses (f\<lparr>rf_destroyed := b\<rparr>) = responses f" "responses (f\<lparr>rf_sent := n\<rparr>) = responses f"
  by (simp_all add: responses_def split: rider_call.split)

lemma continued_simps [simp]:
  "continued d' (set_wrapper d w f) = continued d' f" "continued d' (upd_wrapper d g f) = continued d' f"
  "continued d' (log_call c f) = (if c = ContinueIteration d' then Suc (continued d' f) else continued d' f)"
  "continued d' (scriptError e f) = continued d' f" "continued d' (add_buffer d data f) = continued d' f"
  "continued d' (f\<lparr>rf_ctx := c'\<rparr>) = continued d' f" "continued d' (f\<lparr>rf_responded := b\<rparr>) = continued d' f"
  "continued d' (f\<lparr>rf_destroyed := b\<rparr>) = continued d' f" "continued d' (f\<lparr>rf_sent := n\<rparr>) = continued d' f"
  by (simp_all add: continued_def count_list_append)

lemma st_upd: "st d' (upd_wrapper d g f) = (if d' = d then map_option (sw_state \<circ> g) (wrapper_of d f) else st d' f)"
  by (simp add: st_def option.map_comp)

lemma st_upd_same [simp]: "(\<And>w. sw_state (g w) = sw_state w) \<Longrightarrow> st d' (upd_wrapper d g f) = st d' f"
  by (cases "wrapper_of d f") (simp_all add: st_upd st_def)

lemma ended_upd_same [simp]: "(\<And>w. sw_end_stream (g w) = sw_end_stream w) \<Longrightarrow> ended d' (upd_wrapper d g f) = ended d' f"
  by (cases "wrapper_of d f") (simp_all add: ended_def)

lemma luaBody_returns:
  "luaBody d f = Some (r, f') \<Longrightarrow> r \<noteq> ApiYield \<Longrightarrow> same f f'"
  by (auto simp: luaBody_def same_def split: option.splits if_splits)

lemma luaBody_yields:
  assumes "luaBody d f = Some (ApiYield, f')"
  shows "\<not> ended d f \<and> st d f \<noteq> None \<and> st d f' = Some WaitForBody \<and> (\<forall>d'. d' \<noteq> d \<longrightarrow> st d' f' = st d' f) \<and>
    (\<forall>d'. ended d' f' = ended d' f \<and> continued d' f' = continued d' f) \<and> responses f' = responses f \<and> rf_error f' = rf_error f"
  using assms by (auto simp: luaBody_def ended_def st_def split: option.splits if_splits)

lemma luaHttpCall_returns:
  assumes "luaHttpCall E d stack f = Some (r, f')" and "r \<noteq> ApiYield"
  shows "same f f'"
  using assms by (auto simp: luaHttpCall_def same_def Let_def split: option.splits if_splits sum.splits prod.splits)

lemma luaHttpCall_yields:
  assumes "luaHttpCall E d stack f = Some (ApiYield, f')"
  shows "st d f' = Some HttpCall \<and> (\<forall>d'. d' \<noteq> d \<longrightarrow> st d' f' = st d' f) \<and> (\<forall>d'. ended d' f' = ended d' f) \<and>
    (\<forall>d'. continued d' f' = continued d' f) \<and> responses f' = responses f \<and> rf_error f' = rf_error f"
  using assms by (auto simp: luaHttpCall_def st_def Let_def split: option.splits if_splits sum.splits prod.splits)

lemma luaRespond_returns:
  assumes "luaRespond E rsp d stack f = Some (r, f')" and "r \<noteq> ApiYield"
  shows "same f f'"
  using assms by (auto simp: luaRespond_def same_def Let_def split: option.splits if_splits sum.splits)

lemma luaRespond_yields:
  assumes "luaRespond E rsp d stack f = Some (ApiYield, f')"
  obtains h b f1 where "rsp h b (f\<lparr>rf_responded := True\<rparr>) = Inr (Some f1)" and "wrapper_of d f \<noteq> None"
    and "f' = upd_wrapper d (\<lambda>w. w\<lparr>sw_state := Responded\<rparr>) f1"
  using assms by (fastforce simp: luaRespond_def Let_def split: option.splits if_splits sum.splits)

text \<open>How a run of the script of a direction may change the state, when the direction's wrapper is running at its start.\<close>

definition run_spec :: "stream_direction \<Rightarrow> lua_outcome \<Rightarrow> 'h rider_filter \<Rightarrow> 'h rider_filter \<Rightarrow> bool" where
  "run_spec d out f f' \<longleftrightarrow>
     st d f' \<noteq> None \<and> (rf_error f \<longrightarrow> rf_error f') \<and> (\<forall>d'. continued d' f' = continued d' f) \<and>
     (if st d f' = Some Responded then d = DownstreamToUpstream \<and> responses f' = Suc (responses f)
      else responses f' = responses f \<and> rf_error f' = rf_error f \<and> st d f' \<in> {Some Running, Some HttpCall, Some WaitForBody} \<and>
        ended d f' = ended d f \<and> (ended d f \<longrightarrow> st d f' \<noteq> Some WaitForBody)) \<and>
     (st d f' \<noteq> Some Running \<longrightarrow> (\<exists>k. out = Yielded k)) \<and>
     (d = UpstreamToDownstream \<longrightarrow>
        st DownstreamToUpstream f' = st DownstreamToUpstream f \<or>
        st DownstreamToUpstream f \<noteq> None \<and> st DownstreamToUpstream f' = Some WaitForBody \<and>
        st d f' = Some Running \<and> (\<exists>k. out = Yielded k))"

lemma run_spec_same: "same f f1 \<Longrightarrow> run_spec d out f1 f' \<Longrightarrow> run_spec d out f f'"
  by (cases "st d f' = Some Responded") (auto simp: run_spec_def same_def)

definition co_spec :: "stream_direction \<Rightarrow> 'h rider_filter \<Rightarrow> 'h rider_filter \<Rightarrow> unit throws \<Rightarrow> bool" where
  "co_spec d f f' r \<longleftrightarrow>
     st d f' \<noteq> None \<and> (rf_error f \<longrightarrow> rf_error f') \<and> (\<forall>d'. continued d' f' = continued d' f) \<and>
     (if st d f' = Some Responded then d = DownstreamToUpstream \<and> responses f' = Suc (responses f)
      else responses f' = responses f \<and> rf_error f' = rf_error f \<and> st d f' \<in> {Some Running, Some HttpCall, Some WaitForBody} \<and>
        ended d f' = ended d f \<and> (ended d f \<longrightarrow> st d f' \<noteq> Some WaitForBody)) \<and>
     (r \<noteq> Inr () \<longrightarrow> st d f' = Some Running) \<and>
     (d = UpstreamToDownstream \<longrightarrow>
        st DownstreamToUpstream f' = st DownstreamToUpstream f \<or>
        st DownstreamToUpstream f \<noteq> None \<and> st DownstreamToUpstream f' = Some WaitForBody \<and> r \<noteq> Inr ())"

text \<open>The effect of a whole callback: the stream is answered at most once, and only then the wrapper has responded.\<close>

definition op_spec :: "stream_direction \<Rightarrow> 'h rider_filter \<Rightarrow> 'h rider_filter \<Rightarrow> bool" where
  "op_spec d f f' \<longleftrightarrow>
     st d f' \<noteq> None \<and> (rf_error f \<longrightarrow> rf_error f') \<and> (\<forall>d'. continued d' f' = continued d' f) \<and>
     (if st d f' = Some Responded then d = DownstreamToUpstream \<and> responses f' = Suc (responses f)
      else responses f' = responses f) \<and>
     (d = UpstreamToDownstream \<longrightarrow>
        st DownstreamToUpstream f' = st DownstreamToUpstream f \<or>
        st DownstreamToUpstream f \<noteq> None \<and> st DownstreamToUpstream f' = Some WaitForBody \<and> rf_error f')"

lemma co_spec_refl: "st d f = Some Running \<Longrightarrow> co_spec d f f r"
  by (simp add: co_spec_def)

lemma co_spec_op: "co_spec d f f' (Inr u) \<Longrightarrow> op_spec d f f'"
  by (auto simp: co_spec_def op_spec_def)

lemma co_spec_error: "co_spec d f f' (Inl e) \<Longrightarrow> op_spec d f (scriptError e' f')"
  by (auto simp: co_spec_def op_spec_def)

lemma op_spec_trans: "op_spec d f f1 \<Longrightarrow> st d f1 \<noteq> Some Responded \<Longrightarrow> op_spec d f1 f2 \<Longrightarrow> op_spec d f f2"
  unfolding op_spec_def by (cases "st d f2 = Some Responded") (simp; metis)+

lemma op_spec_from:
  assumes "op_spec d f1 f'" and "rf_error f1 = rf_error f" and "responses f1 = responses f" and "\<And>d'. continued d' f1 = continued d' f"
    and "d = UpstreamToDownstream \<Longrightarrow> st DownstreamToUpstream f1 = st DownstreamToUpstream f"
  shows "op_spec d f f'"
  using assms by (cases "st d f' = Some Responded") (auto simp: op_spec_def)

definition quiet :: "'h rider_filter \<Rightarrow> 'h rider_filter \<Rightarrow> bool" where
  "quiet f f' \<longleftrightarrow> (\<forall>d. st d f' = st d f \<and> continued d f' = continued d f) \<and> responses f' = responses f \<and> rf_error f' = rf_error f"

lemma quiet_refl: "quiet f f"
  by (simp add: quiet_def)

lemma quiet_op: "quiet f f' \<Longrightarrow> st d f \<noteq> None \<Longrightarrow> st d f \<noteq> Some Responded \<Longrightarrow> op_spec d f f'"
  by (simp add: quiet_def op_spec_def)

locale filter_callbacks =
  fixes E :: "'h rider_env" and d :: stream_direction and respond :: "'h respond_fn"
  assumes respond_sent:
    "respond h b f = Inr (Some f') \<Longrightarrow>
       d = DownstreamToUpstream \<and> responses f' = Suc (responses f) \<and> (wrapper_of d f \<noteq> None \<longrightarrow> wrapper_of d f' \<noteq> None) \<and>
       (rf_error f \<longrightarrow> rf_error f') \<and> (\<forall>d'. continued d' f' = continued d' f)"
begin

lemma respond_yield_spec:
  assumes "luaRespond E respond d stack f = Some (ApiYield, f')"
  shows "run_spec d (Yielded k) f f'"
proof -
  from luaRespond_yields [OF assms] obtain h b f1 where
    r: "respond h b (f\<lparr>rf_responded := True\<rparr>) = Inr (Some f1)" "wrapper_of d f \<noteq> None"
    and f': "f' = upd_wrapper d (\<lambda>w. w\<lparr>sw_state := Responded\<rparr>) f1" .
  from respond_sent [OF r(1)] r(2) obtain w where "wrapper_of d f1 = Some w" by auto
  with respond_sent [OF r(1)] f' show ?thesis by (auto simp: run_spec_def st_upd)
qed

lemma body_yield_spec:
  assumes "luaBody d' f = Some (ApiYield, f')" and "st d f = Some Running"
  shows "run_spec d (Yielded k) f f'"
  using luaBody_yields [OF assms(1)] assms(2) by (cases d; cases d') (auto simp: run_spec_def)

lemma http_yield_spec:
  "luaHttpCall E d stack f = Some (ApiYield, f') \<Longrightarrow> run_spec d (Yielded k) f f'"
  by (drule luaHttpCall_yields) (cases d; auto simp: run_spec_def)

text \<open>A call of one of the three functions that may suspend the script, given what holds of the rest of the run.\<close>

lemma api_call_spec:
  assumes rest: "\<And>x f. run_lua E respond d (k x) f = Some (out, f') \<Longrightarrow> st d f = Some Running \<Longrightarrow> run_spec d out f f'"
    and run: "(case r of
       None \<Rightarrow> None
     | Some (ApiError e, f1) \<Rightarrow> run_lua E respond d (k (Inl e)) f1
     | Some (ApiValues v, f1) \<Rightarrow> run_lua E respond d (k (Inr v)) f1
     | Some (ApiYield, f1) \<Rightarrow> Some (Yielded (\<lambda>v. k (Inr v)), f1)) = Some (out, f')" and "st d f = Some Running"
    and returns: "\<And>a f1. r = Some (a, f1) \<Longrightarrow> a \<noteq> ApiYield \<Longrightarrow> same f f1"
    and yields: "\<And>f1 k. r = Some (ApiYield, f1) \<Longrightarrow> run_spec d (Yielded k) f f1"
  shows "run_spec d out f f'"
proof -
  from run obtain a f1 where r: "r = Some (a, f1)" by (auto split: option.splits)
  show ?thesis
  proof (cases "a = ApiYield")
    case True
    with r run yields [of f1] show ?thesis by auto
  next
    case False
    note s = returns [OF r False]
    from r False run obtain x where "run_lua E respond d (k x) f1 = Some (out, f')" by (cases a) auto
    moreover have "st d f1 = Some Running" using s assms(3) by (simp add: same_def)
    ultimately show ?thesis using rest run_spec_same [OF s] by blast
  qed
qed

lemma run_lua_spec:
  "run_lua E respond d s f = Some (out, f') \<Longrightarrow> st d f = Some Running \<Longrightarrow> run_spec d out f f'"
proof (induction s arbitrary: f)
  case (FfiCall c k)
  then obtain r c' where r: "run_lua E respond d (k r) (f\<lparr>rf_ctx := c'\<rparr>) = Some (out, f')" by (auto split: option.splits)
  have "run_spec d out (f\<lparr>rf_ctx := c'\<rparr>) f'" using FfiCall.IH [OF _ r] FfiCall.prems(2) by auto
  then show ?case by (rule run_spec_same [rotated]) (simp add: same_def)
next
  case (GetBody d' k)
  show ?case
    by (rule api_call_spec [OF GetBody.IH GetBody.prems(1) [unfolded run_lua.simps] GetBody.prems(2)])
      (auto intro: luaBody_returns body_yield_spec [OF _ GetBody.prems(2)])
next
  case (HttpCallScript args k)
  show ?case
    by (rule api_call_spec [OF HttpCallScript.IH HttpCallScript.prems(1) [unfolded run_lua.simps] HttpCallScript.prems(2)])
      (auto intro: luaHttpCall_returns http_yield_spec)
next
  case (Respond args k)
  show ?case
    by (rule api_call_spec [OF Respond.IH Respond.prems(1) [unfolded run_lua.simps] Respond.prems(2)])
      (auto intro: luaRespond_returns respond_yield_spec)
qed (auto simp: run_spec_def)

text \<open>The same for a coroutine that is started or resumed: an exception is thrown only with the wrapper running.\<close>

lemma co_end_spec:
  assumes "run_spec d out f f'"
  shows "co_spec d f (fst (co_end d (out, f'))) (snd (co_end d (out, f')))"
  using assms by (cases out) (auto simp: co_end_def co_spec_def run_spec_def state_of_eq split: option.splits)

lemma co_start_spec:
  assumes "co_start E respond d n f = Some (f', r)" and "st d f = Some Running"
  shows "co_spec d f f' r"
  using assms(1) co_end_spec [OF run_lua_spec [OF _ assms(2)]] co_spec_refl [OF assms(2)]
  by (fastforce simp: co_start_def split: option.splits coroutine.splits)

lemma co_resume_spec:
  assumes "co_resume E respond d v f = Some (f', r)" and "st d f = Some Running"
  shows "co_spec d f f' r"
  using assms(1) co_end_spec [OF run_lua_spec [OF _ assms(2)]] co_spec_refl [OF assms(2)]
  by (fastforce simp: co_resume_def split: option.splits coroutine.splits)

lemma caught_spec:
  assumes "caught (co_start E respond d n f) = Some f'" and "st d f = Some Running"
  shows "op_spec d f f'"
  using assms(1) by (auto simp: caught_def split: option.splits sum.splits
      dest!: co_start_spec [OF _ assms(2)] intro: co_spec_op co_spec_error)

lemma start1_spec:
  assumes "headers_result (sw_start1 E respond d n f) = Some (f', s)" and "st d f = Some Running"
  shows "op_spec d f f'"
proof -
  from assms(1) obtain f1 r where co: "co_start E respond d n f = Some (f1, r)"
    by (auto simp: headers_result_def sw_start1_def split: option.splits)
  note c = co_start_spec [OF co assms(2)]
  show ?thesis
  proof (cases r)
    case (Inl e)
    with co assms(1) co_spec_error [of d f f1 e] c show ?thesis by (auto simp: headers_result_def sw_start1_def)
  next
    case (Inr u)
    then have "op_spec d f f1" using c co_spec_op by auto
    with Inr co assms(1) show ?thesis by (auto simp: headers_result_def sw_start1_def op_spec_def split: if_splits)
  qed
qed

lemma start2_spec:
  assumes "headers_result (sw_start2 E respond d n nb f) = Some (f', s)" and "st d f = Some Running"
  shows "op_spec d f f'"
proof -
  from assms(1) obtain f1 r where co: "co_start E respond d n f = Some (f1, r)"
    by (auto simp: headers_result_def sw_start2_def split: option.splits)
  note c = co_start_spec [OF co assms(2)]
  show ?thesis
  proof (cases r)
    case (Inl e)
    with co assms(1) co_spec_error [of d f f1 e] c show ?thesis by (auto simp: headers_result_def sw_start2_def)
  next
    case (Inr u)
    then have op: "op_spec d f f1" using c co_spec_op by auto
    from op obtain w where w: "wrapper_of d f1 = Some w" by (auto simp: op_spec_def st_def)
    show ?thesis
    proof (cases "sw_state w \<notin> {HttpCall, Responded} \<and> sw_end_stream w \<and> nb \<noteq> None")
      case True
      then obtain m where "nb = Some m" by auto
      with True w co assms(1) Inr have "caught (co_start E respond d m f1) = Some f'"
        by (auto simp: headers_result_def sw_start2_def split: option.splits if_splits)
      moreover have "st d f1 = Some Running"
        using c w True by (auto simp: co_spec_def st_def ended_def)
      ultimately show ?thesis using op op_spec_trans [OF op] caught_spec by simp
    next
      case False
      with w co assms(1) Inr op show ?thesis
        by (auto simp: headers_result_def sw_start2_def op_spec_def st_def split: if_splits option.splits)
    qed
  qed
qed

lemma doHeaders_spec:
  assumes "doHeaders1 E respond d n e f = Some (f', s) \<or> doHeaders2 E respond d n nb e f = Some (f', s)"
  shows "quiet f f' \<or> \<not> rf_error f \<and> op_spec d f f'"
proof -
  let ?f = "set_wrapper d (StreamWrapper e) f"
  have st: "st d ?f = Some Running" by (simp add: StreamWrapper_def)
  have "quiet f f' \<or> \<not> rf_error f \<and>
      (\<exists>n. headers_result (sw_start1 E respond d n ?f) = Some (f', s) \<or> headers_result (sw_start2 E respond d n nb ?f) = Some (f', s))"
    using assms by (auto simp: doHeaders1_def doHeaders2_def quiet_def split: option.splits if_splits)
  moreover have "op_spec d f f'" if "op_spec d ?f f'"
    using that by (rule op_spec_from) (auto simp: st_def)
  ultimately show ?thesis using start1_spec [OF _ st] start2_spec [OF _ st] by blast
qed

lemma onData1_spec:
  assumes run: "doData1 E respond d data e f = Some (f', s)" and w: "wrapper_of d f \<noteq> None"
  shows "quiet f f' \<or> st d f \<noteq> Some Responded \<and> op_spec d f f'"
proof (cases "st d f = Some WaitForBody \<and> e")
  case True
  define f2 where "f2 = upd_wrapper d (\<lambda>w. w\<lparr>sw_state := Running\<rparr>) (addData d data (upd_wrapper d (\<lambda>w. w\<lparr>sw_end_stream := True, sw_saw_body := True\<rparr>) f))"
  have st2: "st d f2 = Some Running" using w by (auto simp: f2_def st_upd addData_def)
  from run True obtain v f3 f4 r where f3: "luaBody d f2 = Some (ApiValues v, f3)" "co_resume E respond d v f3 = Some (f4, r)"
    by (auto simp: doData1_def sw_onData1_def Let_def f2_def state_of_eq split: option.splits api_result.splits)
  have f32: "f3 = f2" using f3(1) by (auto simp: luaBody_def split: option.splits if_splits)
  note c = co_resume_spec [OF f3(2) [unfolded f32] st2]
  have "op_spec d f2 f'"
  proof (cases r)
    case (Inl e')
    with run True f3 c show ?thesis
      by (auto simp: doData1_def sw_onData1_def Let_def f2_def state_of_eq intro: co_spec_error)
  next
    case (Inr u)
    then have "op_spec d f2 f4" using c co_spec_op by auto
    with run True f3 Inr show ?thesis
      by (auto simp: doData1_def sw_onData1_def Let_def f2_def [symmetric] state_of_eq op_spec_def split: if_splits)
  qed
  then have "op_spec d f f'" by (rule op_spec_from) (auto simp: f2_def addData_def st_upd)
  with True show ?thesis by simp
next
  case False
  with run w show ?thesis
    by (auto simp: doData1_def sw_onData1_def Let_def quiet_def state_of_eq split: if_splits option.splits)
qed

lemma onData2_spec:
  assumes run: "sw_onData2 E respond d n data e f = Some (f', s)" and w: "wrapper_of d f \<noteq> None"
  shows "quiet f f' \<or> st d f \<noteq> Some Responded \<and> op_spec d f f'"
proof (cases "e \<and> st d f = Some Running")
  case True
  define f2 where "f2 = addData d data (upd_wrapper d (\<lambda>w. w\<lparr>sw_end_stream := e, sw_saw_body := True\<rparr>) f)"
  have "caught (co_start E respond d n f2) = Some f'" using run True
    by (auto simp: sw_onData2_def Let_def f2_def state_of_eq split: option.splits)
  moreover have "st d f2 = Some Running" using True by (simp add: f2_def addData_def)
  ultimately have "op_spec d f2 f'" by (rule caught_spec)
  then have "op_spec d f f'" by (rule op_spec_from) (auto simp: f2_def addData_def)
  with True show ?thesis by simp
next
  case False
  with run w show ?thesis
    by (auto simp: sw_onData2_def Let_def quiet_def state_of_eq st_def split: if_splits option.splits)
qed

lemma rider_onData_spec:
  assumes run: "rider_onData E respond d data e f = Some (f', s)"
  shows "quiet f f' \<or> \<not> rf_error f \<and> st d f \<noteq> Some Responded \<and> op_spec d f f'"
proof (cases "rf_error f \<or> ph_version (re_handle E) = V1")
  case True
  with run onData1_spec [of data e f f' s] show ?thesis
    by (auto simp: rider_onData_def Let_def quiet_refl split: if_splits option.splits)
next
  case False
  let ?f = "if wrapper_of d f = None then set_wrapper d (StreamWrapper e) f else f"
  have f: "wrapper_of d ?f \<noteq> None" by simp
  from False run have "quiet f f' \<or> (\<exists>n. sw_onData2 E respond d n data e ?f = Some (f', s))"
    by (auto simp: rider_onData_def Let_def quiet_refl split: if_splits option.splits stream_direction.splits version.splits)
  moreover have "quiet f f' \<or> st d f \<noteq> Some Responded \<and> op_spec d f f'" if "quiet ?f f' \<or> st d ?f \<noteq> Some Responded \<and> op_spec d ?f f'"
  proof (cases "wrapper_of d f = None")
    case True
    with that have "op_spec d ?f f'" using quiet_op [of ?f f' d] by (auto simp: StreamWrapper_def)
    then have "op_spec d f f'" by (rule op_spec_from) (auto simp: st_def)
    with True show ?thesis by (simp add: st_def)
  qed (use that in auto)
  ultimately show ?thesis using onData2_spec [OF _ f] False by blast
qed

lemma onSuccess_spec:
  assumes run: "sw_onSuccess E respond d resp f = Some f'"
  shows "quiet f f' \<and> st d f \<noteq> Some HttpCall \<or> st d f = Some HttpCall \<and>
    (\<exists>f4. op_spec d f f4 \<and> f' = (if state_of d f4 = Running then log_call (ContinueIteration d) f4 else f4))"
proof (cases "st d f = Some HttpCall")
  case False
  with run show ?thesis by (auto simp: sw_onSuccess_def Let_def quiet_def state_of_eq split: if_splits option.splits)
next
  case True
  define f1 where "f1 = upd_wrapper d (\<lambda>w. w\<lparr>sw_state := Running\<rparr>) (upd_wrapper d (\<lambda>w. w\<lparr>sw_http_request := False\<rparr>) f)"
  have st1: "st d f1 = Some Running" using True by (auto simp: f1_def st_upd st_def option.map_comp)
  from run True obtain f2 r where co: "co_resume E respond d (response_values (fst resp) (snd resp)) f1 = Some (f2, r)"
    by (auto simp: sw_onSuccess_def Let_def f1_def state_of_eq split: option.splits)
  define f3 where "f3 = (case r of Inl e \<Rightarrow> upd_wrapper d (\<lambda>w. w\<lparr>sw_state := Running\<rparr>) (scriptError e f2) | Inr _ \<Rightarrow> f2)"
  have op3: "op_spec d f1 f3"
  proof (cases r)
    case (Inl e)
    then have "op_spec d f1 (scriptError e f2)" "st d f2 = Some Running"
      using co_resume_spec [OF co st1] by (auto intro: co_spec_error simp: co_spec_def)
    then show ?thesis using Inl by (auto simp: f3_def op_spec_def st_upd st_def)
  qed (use co_resume_spec [OF co st1] in \<open>auto simp: f3_def intro: co_spec_op\<close>)
  then obtain w where w: "wrapper_of d f3 = Some w" by (auto simp: op_spec_def st_def)
  have "\<exists>f4. op_spec d f1 f4 \<and> f' = (if state_of d f4 = Running then log_call (ContinueIteration d) f4 else f4)"
  proof (cases "st d f3 = Some Running \<and> sw_start_body w")
    case False
    with run True co w have "f' = (if state_of d f3 = Running then log_call (ContinueIteration d) f3 else f3)"
      by (auto simp: sw_onSuccess_def Let_def f1_def [symmetric] f3_def [symmetric] state_of_eq st_def split: if_splits)
    with op3 show ?thesis by blast
  next
    case start: True
    define g where "g = set_wrapper d (w\<lparr>sw_start_body := False\<rparr>) f3"
    have stg: "st d g = Some Running" using start w by (simp add: g_def st_def)
    define r' where "r' = (case sw_function_ref_body w of None \<Rightarrow> Some (g, Inl ''error start coroutine, expect lua function'')
        | Some n \<Rightarrow> co_start E respond d n g)"
    from run True co start w obtain f4 where f4: "caught r' = Some f4"
      and f': "f' = (if state_of d f4 = Running then log_call (ContinueIteration d) f4 else f4)"
      by (auto simp: sw_onSuccess_def Let_def f1_def [symmetric] f3_def [symmetric] g_def [symmetric] r'_def state_of_eq st_def
          split: option.splits)
    have "op_spec d g f4"
      using f4 caught_spec [OF _ stg] co_spec_error [OF co_spec_refl [OF stg]]
      by (cases "sw_function_ref_body w") (auto simp: r'_def caught_def)
    then have "op_spec d f3 f4" by (rule op_spec_from) (auto simp: g_def)
    then have "op_spec d f1 f4" using op_spec_trans [OF op3] start by simp
    with f' show ?thesis by blast
  qed
  moreover have "op_spec d f f4" if "op_spec d f1 f4" for f4
    using that by (rule op_spec_from) (auto simp: f1_def st_upd)
  ultimately show ?thesis using True by blast
qed

text \<open>A callback in which the script fails lets the stream pass, unless the stream has been answered.\<close>

lemma caught_error:
  assumes "caught (co_start E respond d n f) = Some f'" and "st d f = Some Running" and "\<not> rf_error f" "rf_error f'"
  shows "st d f' \<in> {Some Running, Some Responded}"
proof -
  from assms(1) obtain f1 r where co: "co_start E respond d n f = Some (f1, r)" and st: "st d f' = st d f1"
    and err: "rf_error f' \<longleftrightarrow> r \<noteq> Inr () \<or> rf_error f1"
    by (auto simp: caught_def split: option.splits sum.splits)
  from co_start_spec [OF co assms(2)] st err assms(3,4) show ?thesis by (auto simp: co_spec_def split: if_splits)
qed

lemma start1_error:
  assumes run: "headers_result (sw_start1 E respond d n f) = Some (f', s)" and "st d f = Some Running"
    and "\<not> rf_error f" "rf_error f'"
  shows "s = Continue \<or> st d f' = Some Responded"
proof -
  from run obtain f1 r where co: "co_start E respond d n f = Some (f1, r)"
    by (auto simp: headers_result_def sw_start1_def split: option.splits)
  from co_start_spec [OF co assms(2)] co run assms(3,4) show ?thesis
    by (auto simp: headers_result_def sw_start1_def co_spec_def state_of_eq split: if_splits sum.splits option.splits)
qed

lemma start2_error:
  assumes run: "headers_result (sw_start2 E respond d n nb f) = Some (f', s)" and "st d f = Some Running"
    and err: "\<not> rf_error f" "rf_error f'"
  shows "s = Continue \<or> st d f' = Some Responded"
proof -
  from run obtain f1 r where co: "co_start E respond d n f = Some (f1, r)"
    by (auto simp: headers_result_def sw_start2_def split: option.splits)
  note c = co_start_spec [OF co assms(2)]
  show ?thesis
  proof (cases "r = Inr () \<and> st d f1 \<noteq> Some Responded")
    case False
    with c co run show ?thesis
      by (auto simp: headers_result_def sw_start2_def co_spec_def st_def split: if_splits sum.splits option.splits)
  next
    case True
    with c err(1) have f1: "\<not> rf_error f1" by (auto simp: co_spec_def)
    with True co run err(2) obtain m w where w: "wrapper_of d f1 = Some w" "sw_state w \<noteq> HttpCall" "sw_end_stream w"
      and m: "caught (co_start E respond d m f1) = Some f'"
      and s: "s = (if state_of d f' \<in> {HttpCall, Responded} then StopIteration else Continue)"
      by (auto simp: headers_result_def sw_start2_def st_def split: if_splits option.splits)
    have "st d f1 = Some Running" using c w True by (auto simp: co_spec_def st_def ended_def)
    with caught_error [OF m _ f1 err(2)] s show ?thesis by (auto simp: state_of_eq)
  qed
qed

lemma doHeaders_error:
  assumes "doHeaders1 E respond d n e f = Some (f', s) \<or> doHeaders2 E respond d n nb e f = Some (f', s)"
    and "\<not> rf_error f" "rf_error f'"
  shows "s = Continue \<or> st d f' = Some Responded"
proof -
  let ?f = "set_wrapper d (StreamWrapper e) f"
  have f: "st d ?f = Some Running" "\<not> rf_error ?f" using assms(2) by (simp_all add: StreamWrapper_def)
  have "s = Continue \<or>
      (\<exists>n. headers_result (sw_start1 E respond d n ?f) = Some (f', s) \<or> headers_result (sw_start2 E respond d n nb ?f) = Some (f', s))"
    using assms by (auto simp: doHeaders1_def doHeaders2_def split: option.splits if_splits)
  then show ?thesis using start1_error [OF _ f assms(3)] start2_error [OF _ f assms(3)] by blast
qed

lemma onData1_error:
  assumes run: "doData1 E respond d data e f = Some (f', s)" and "wrapper_of d f \<noteq> None" and err: "\<not> rf_error f" "rf_error f'"
  shows "s = DataContinue \<or> st d f' = Some Responded"
proof (cases "st d f = Some WaitForBody \<and> e")
  case True
  define f2 where "f2 = upd_wrapper d (\<lambda>w. w\<lparr>sw_state := Running\<rparr>) (addData d data (upd_wrapper d (\<lambda>w. w\<lparr>sw_end_stream := True, sw_saw_body := True\<rparr>) f))"
  have st2: "st d f2 = Some Running" using assms(2) by (auto simp: f2_def st_upd addData_def)
  from run True obtain v f3 f4 r where f3: "luaBody d f2 = Some (ApiValues v, f3)" "co_resume E respond d v f3 = Some (f4, r)"
    by (auto simp: doData1_def sw_onData1_def Let_def f2_def state_of_eq split: option.splits api_result.splits)
  have f32: "f3 = f2" using f3(1) by (auto simp: luaBody_def split: option.splits if_splits)
  have "\<not> rf_error f2" using err by (simp add: f2_def addData_def)
  with co_resume_spec [OF f3(2) [unfolded f32] st2] run True f3 err(2) show ?thesis
    by (auto simp: doData1_def sw_onData1_def Let_def f2_def [symmetric] state_of_eq co_spec_def split: if_splits sum.splits option.splits)
next
  case False
  with run assms(2) err show ?thesis
    by (auto simp: doData1_def sw_onData1_def Let_def state_of_eq split: if_splits option.splits)
qed

lemma onData2_error:
  assumes run: "sw_onData2 E respond d n data e f = Some (f', s)" and "wrapper_of d f \<noteq> None" and err: "\<not> rf_error f" "rf_error f'"
  shows "s = DataContinue \<or> st d f' = Some Responded"
proof -
  let ?f = "addData d data (upd_wrapper d (\<lambda>w. w\<lparr>sw_end_stream := True, sw_saw_body := True\<rparr>) f)"
  have "rf_error ?f = rf_error f" "st d ?f = st d f" by (simp_all add: addData_def)
  with run assms(2) err caught_error [of n ?f f'] show ?thesis
    by (auto simp: sw_onData2_def Let_def state_of_eq st_def split: if_splits option.splits)
qed

lemma rider_onData_error:
  assumes run: "rider_onData E respond d data e f = Some (f', s)" and err: "rf_error f'"
  shows "s = DataContinue \<or> st d f' = Some Responded"
proof (cases "rf_error f \<or> ph_version (re_handle E) = V1")
  case True
  with run err onData1_error [of data e f f' s] show ?thesis
    by (auto simp: rider_onData_def Let_def split: if_splits option.splits)
next
  case False
  let ?f = "if wrapper_of d f = None then set_wrapper d (StreamWrapper e) f else f"
  have f: "wrapper_of d ?f \<noteq> None" "\<not> rf_error ?f" using False by simp_all
  from False run have "s = DataContinue \<or> (\<exists>n. sw_onData2 E respond d n data e ?f = Some (f', s))"
    by (auto simp: rider_onData_def Let_def split: if_splits option.splits stream_direction.splits version.splits)
  then show ?thesis using onData2_error [OF _ f err] by blast
qed

end

section \<open>The callbacks of the encoder and of the decoder\<close>

interpretation enc: filter_callbacks E UpstreamToDownstream encoder_respond for E :: "'h rider_env"
  by unfold_locales (simp_all add: encoder_respond_def)

text \<open>What the response's side may change of the request's.\<close>

definition enc_step :: "'h rider_filter \<Rightarrow> 'h rider_filter \<Rightarrow> bool" where
  "enc_step f f' \<longleftrightarrow>
     responses f' = responses f \<and> (rf_error f \<longrightarrow> rf_error f') \<and> (\<forall>d. continued d f' = continued d f) \<and>
     (st DownstreamToUpstream f' = st DownstreamToUpstream f \<or>
      st DownstreamToUpstream f \<noteq> None \<and> st DownstreamToUpstream f' = Some WaitForBody \<and> rf_error f')"

lemma enc_step_quiet: "quiet f f' \<Longrightarrow> enc_step f f'"
  by (simp add: quiet_def enc_step_def)

lemma enc_step_op: "op_spec UpstreamToDownstream f f' \<Longrightarrow> enc_step f f'"
  by (auto simp: op_spec_def enc_step_def split: if_splits)

lemma enc_step_trans [trans]: "enc_step f f1 \<Longrightarrow> enc_step f1 f2 \<Longrightarrow> enc_step f f2"
  unfolding enc_step_def by metis

lemma encodeHeaders_step: "rider_encodeHeaders E h e f = Some (f', s) \<Longrightarrow> enc_step f f'"
proof -
  assume run: "rider_encodeHeaders E h e f = Some (f', s)"
  let ?f = "f\<lparr>rf_ctx := (rf_ctx f)\<lparr>rx_response_headers := Some h\<rparr>\<rparr>"
  have q: "enc_step f ?f" by (rule enc_step_quiet) (simp add: quiet_def)
  from run consider "f' = f" | n nb where "doHeaders1 E encoder_respond UpstreamToDownstream n e ?f = Some (f', s) \<or>
      doHeaders2 E encoder_respond UpstreamToDownstream n nb e ?f = Some (f', s)"
    by (auto simp: rider_encodeHeaders_def Let_def split: if_splits)
  then show ?thesis
  proof cases
    case 2
    from enc.doHeaders_spec [OF this] have "enc_step ?f f'" using enc_step_quiet enc_step_op by blast
    then show ?thesis by (rule enc_step_trans [OF q])
  qed (simp add: enc_step_def)
qed

lemma encodeData_step: "rider_encodeData E data e f = Some (f', s) \<Longrightarrow> enc_step f f'"
  unfolding rider_encodeData_def using enc.rider_onData_spec enc_step_quiet enc_step_op by blast

lemma onReset_quiet: "quiet f (sw_onReset d f)"
  by (simp add: sw_onReset_def quiet_def st_def split: option.split)

lemma quiet_trans: "quiet f f1 \<Longrightarrow> quiet f1 f2 \<Longrightarrow> quiet f f2"
  by (simp add: quiet_def)

lemma onDestroy_quiet: "quiet f (rider_onDestroy f)"
proof -
  let ?f = "f\<lparr>rf_destroyed := True\<rparr>"
  have "quiet f (sw_onReset UpstreamToDownstream (sw_onReset DownstreamToUpstream (?f\<lparr>rf_destroyed := True\<rparr>)))"
    by (rule quiet_trans [OF _ quiet_trans [OF onReset_quiet onReset_quiet]]) (simp add: quiet_def)
  then show ?thesis by (simp add: rider_onDestroy_def resetInternalState_def Let_def quiet_def split: option.split)
qed

lemma decoder_respond_sent:
  assumes run: "decoder_respond E h b f = Inr (Some f')"
  shows "enc_step (log_call (RiderEncodeHeaders h (b = None)) f) f'"
proof -
  let ?f1 = "log_call (RiderEncodeHeaders h (b = None)) f"
  have log: "enc_step g (log_call (HeadersReturned s) g)" "enc_step g (log_call (DataReturned s') g)"
      "enc_step g (log_call (RiderEncodeData d e) g)" for g :: "'a rider_filter" and s s' d e by (simp_all add: enc_step_def)
  from run obtain f2 where f2: "(if re_encoder_reached E
      then map_option (\<lambda>(f, s). log_call (HeadersReturned s) f) (rider_encodeHeaders E h (b = None) ?f1) else Some ?f1) = Some f2"
    by (auto simp: decoder_respond_def Let_def split: option.splits)
  then have 2: "enc_step ?f1 f2"
    by (auto split: if_splits intro: enc_step_trans [OF encodeHeaders_step log(1)]) (simp add: enc_step_def)
  define f3 where "f3 = (if re_ends_stream E then rider_onDestroy f2 else f2)"
  have step3: "enc_step ?f1 f3"
    using enc_step_trans [OF 2 enc_step_quiet [OF onDestroy_quiet]] 2 by (simp add: f3_def)
  from run have run: "(case b of None \<Rightarrow> Some f3 | Some d \<Rightarrow>
      (if rf_destroyed f3 then Some f3
       else let f4 = log_call (RiderEncodeData d True) f3
            in if re_encoder_reached E then map_option (\<lambda>(f, s). log_call (DataReturned s) f) (rider_encodeData E d True f4)
               else Some f4)) = Some f'"
    unfolding decoder_respond_def Let_def f2 f3_def by simp
  then consider "f' = f3" | d where "f' = log_call (RiderEncodeData d True) f3"
    | d g s where "rider_encodeData E d True (log_call (RiderEncodeData d True) f3) = Some (g, s)" "f' = log_call (DataReturned s) g"
    by (auto simp: Let_def split: option.splits if_splits)
  then show ?thesis
  proof cases
    case 3
    from enc_step_trans [OF enc_step_trans [OF step3 log(3)] encodeData_step [OF 3(1)]] log(2) 3(2)
    show ?thesis using enc_step_trans by blast
  qed (use step3 enc_step_trans [OF step3 log(3)] in simp_all)
qed

interpretation dec: filter_callbacks E DownstreamToUpstream "decoder_respond E" for E :: "'h rider_env"
proof
  fix h b and f f' :: "'h rider_filter"
  assume "decoder_respond E h b f = Inr (Some f')"
  from decoder_respond_sent [OF this]
  show "DownstreamToUpstream = DownstreamToUpstream \<and> responses f' = Suc (responses f) \<and>
      (wrapper_of DownstreamToUpstream f \<noteq> None \<longrightarrow> wrapper_of DownstreamToUpstream f' \<noteq> None) \<and> (rf_error f \<longrightarrow> rf_error f') \<and>
      (\<forall>d'. continued d' f' = continued d' f)"
    by (auto simp: enc_step_def st_def)
qed

section \<open>A stream is answered at most once\<close>

text \<open>
  Once a response has been sent, no call of the request is under way, and the request's wrapper has responded unless
  the script of the response has failed.
\<close>

definition answered_once :: "'h rider_filter \<Rightarrow> bool" where
  "answered_once f \<longleftrightarrow> responses f = 0 \<or>
     responses f = 1 \<and> st DownstreamToUpstream f \<notin> {None, Some HttpCall} \<and>
     (rf_error f \<or> st DownstreamToUpstream f = Some Responded)"

lemma answered_once_enc: "answered_once f \<Longrightarrow> enc_step f f' \<Longrightarrow> answered_once f'"
  by (auto simp: answered_once_def enc_step_def)

lemma answered_once_op: "responses f = 0 \<Longrightarrow> op_spec DownstreamToUpstream f f' \<Longrightarrow> answered_once f'"
  by (auto simp: answered_once_def op_spec_def split: if_splits)

lemma answered_once_request:
  assumes "quiet f f' \<or> responses f = 0 \<and> op_spec DownstreamToUpstream f f'" and "answered_once f"
  shows "answered_once f'"
  using assms answered_once_enc [OF assms(2) enc_step_quiet] answered_once_op by blast

lemma decodeData_answered_once:
  assumes "rider_decodeData E data e f = Some (f', s)" and inv: "answered_once f"
  shows "answered_once f'"
proof -
  from dec.rider_onData_spec assms(1) have
    "quiet f f' \<or> \<not> rf_error f \<and> st DownstreamToUpstream f \<noteq> Some Responded \<and> op_spec DownstreamToUpstream f f'"
    unfolding rider_decodeData_def by blast
  then show ?thesis by (intro answered_once_request [OF _ inv]) (use inv in \<open>auto simp: answered_once_def\<close>)
qed

lemma answered_once_log: "answered_once (log_call (ContinueIteration d) f) = answered_once f"
  by (simp add: answered_once_def)

lemma onSuccess_answered_once:
  assumes run: "sw_onSuccess E (respond_of E d) d r f = Some f'" and inv: "answered_once f"
  shows "answered_once f'"
proof -
  have "quiet f f' \<or> (\<exists>f4. st d f = Some HttpCall \<and> op_spec d f f4 \<and> (f' = log_call (ContinueIteration d) f4 \<or> f' = f4))"
    using run dec.onSuccess_spec [of E r f f'] enc.onSuccess_spec [of E r f f']
    by (cases d) (auto simp: respond_of_def split: if_splits)
  then consider "quiet f f'" | f4 where "st d f = Some HttpCall" "op_spec d f f4" "answered_once f' = answered_once f4"
    using answered_once_log by auto
  then show ?thesis
  proof cases
    case 1
    then show ?thesis using answered_once_request [OF _ inv] by blast
  next
    case 2
    then have "answered_once f4"
      using inv answered_once_op [of f f4] answered_once_enc [OF inv enc_step_op]
      by (cases d) (auto simp: answered_once_def)
    with 2(3) show ?thesis by simp
  qed
qed

lemma rider_step_answered_once:
  assumes "rider_step E ev f = Some f'" and inv: "answered_once f"
  shows "answered_once f'"
proof -
  have buf: "answered_once (after_data d data r) = answered_once (fst r)" for d data and r :: "'a rider_filter \<times> data_status"
    by (simp add: after_data_def answered_once_def)
  show ?thesis
    using assms answered_once_enc [OF inv encodeHeaders_step] answered_once_enc [OF inv encodeData_step]
      answered_once_enc [OF inv enc_step_quiet [OF onDestroy_quiet]]
    by (auto simp: rider_step_def buf sw_onFailure_def split: rider_event.splits if_splits
        intro: decodeData_answered_once onSuccess_answered_once)
qed

lemma rider_steps_answered_once: "rider_steps E evs f = Some f' \<Longrightarrow> answered_once f \<Longrightarrow> answered_once f'"
  by (induction evs arbitrary: f) (auto split: option.splits dest: rider_step_answered_once)

lemma decodeHeaders_answered_once:
  assumes run: "rider_decodeHeaders E h e f = Some (f', s)" and zero: "responses f = 0"
  shows "answered_once f'"
proof -
  from run have "f' = f \<or> (\<exists>c n nb. doHeaders1 E (decoder_respond E) DownstreamToUpstream n e (f\<lparr>rf_ctx := c\<rparr>) = Some (f', s) \<or>
      doHeaders2 E (decoder_respond E) DownstreamToUpstream n nb e (f\<lparr>rf_ctx := c\<rparr>) = Some (f', s))"
    by (auto simp: rider_decodeHeaders_def Let_def split: if_splits)
  then consider "f' = f" | c where "quiet (f\<lparr>rf_ctx := c\<rparr>) f' \<or> op_spec DownstreamToUpstream (f\<lparr>rf_ctx := c\<rparr>) f'"
    using dec.doHeaders_spec by blast
  then show ?thesis
    by cases (use zero in \<open>auto simp: answered_once_def quiet_def op_spec_def split: if_splits\<close>)
qed

text \<open>A script that calls another service and refuses the request with what it answers.\<close>

definition example_script :: lua_script where
  "example_script =
     HttpCallScript [ArgString ''auth'', ArgTable [('':path'', ArgString ''/''), ('':method'', ArgString ''GET''), ('':authority'', ArgString ''a'')],
                     ArgNil, ArgNumber ''5'' 5]
       (\<lambda>r. case r of
              Inr (ResponseValue t (Some b)) \<Rightarrow> Respond [ArgTable [('':status'', ArgString ''403'')], ArgString b] (\<lambda>_. Finish)
            | _ \<Rightarrow> Finish)"

definition example_rider_env :: "lua_script \<Rightarrow> (string \<times> string) list rider_env" where
  "example_rider_env s =
     \<lparr>re_api = example_rider_api,
      re_config = \<lparr>rc_plugin = \<lparr>pl_name = ''p'', pl_code = '''', pl_configuration = ''''\<rparr>, rc_vm_id = '''', rc_package_path = '''',
                   rc_allow_no_route = True, rc_log_file = None\<rparr>,
      re_handle = PluginHandle\<lparr>on_request_ref := Some 0\<rparr>, re_registry = \<lparr>reg_next = 1, reg_entries = [(0, s)]\<rparr>,
      re_has_route = True, re_route_plugins = None, re_cluster = (\<lambda>c. c = ''auth''), re_send = (\<lambda>_. None),
      re_tonumber = (\<lambda>_. None), re_atoi = (\<lambda>s. if s = ''403'' then Some 403 else None),
      re_encoder_reached = True, re_ends_stream = False\<rparr>"

text \<open>
  C7: A stream is answered at most once. Whatever a script does that makes its calls in the coroutine the filter runs, and
  in whatever order data, responses, answers of its calls and the end of the stream come, the filter sends at most one
  direct response. A script that responds in a Lua coroutine of its own is not among these scripts (\<open>lua_script\<close>): the
  yield of \<^verbatim>\<open>respond\<close> then returns to the script, and \<open>Rider_Coroutines\<close> has one that responds twice.
\<close>

theorem rider_responds_once:
  assumes "rider_stream E c headers end_stream evs = Some f"
  shows "length (filter (\<lambda>x. case x of RiderEncodeHeaders _ _ \<Rightarrow> True | _ \<Rightarrow> False) (rf_calls f)) \<le> 1"
proof -
  have "responses (RiderFilter c) = 0" by (simp add: responses_def RiderFilter_def)
  with assms have "answered_once f"
    by (auto simp: rider_stream_def split: option.splits intro: rider_steps_answered_once decodeHeaders_answered_once)
  then show ?thesis by (auto simp: answered_once_def responses_def)
qed

lemmas example_defs =
  example_rider_env_def example_rider_api_def example_rider_ctx_def PluginHandle_def RiderFilter_def StreamWrapper_def

theorem rider_responds_once_witness:
  "\<exists>f. rider_stream (example_rider_env example_script) example_rider_ctx [('':path'', ''/'')] True
         [EvSuccess DownstreamToUpstream [('':status'', ''200'')] ''no''] = Some f \<and>
       length (filter (\<lambda>x. case x of RiderEncodeHeaders _ _ \<Rightarrow> True | _ \<Rightarrow> False) (rf_calls f)) \<le> 1 \<and>
       RiderEncodeHeaders [('':status'', ''403''), (''content-length'', ''2'')] False \<in> set (rf_calls f)"
proof -
  let ?E = "example_rider_env example_script"
  let ?evs = "[EvSuccess DownstreamToUpstream [('':status'', ''200'')] ''no'']"
  have "map_option (\<lambda>f. RiderEncodeHeaders [('':status'', ''403''), (''content-length'', ''2'')] False \<in> set (rf_calls f))
      (rider_stream ?E example_rider_ctx [('':path'', ''/'')] True ?evs) = Some True"
    by code_simp
  then show ?thesis using rider_responds_once [of ?E example_rider_ctx "[('':path'', ''/'')]" True ?evs] by auto
qed

section \<open>Answers, errors and bodies\<close>


text \<open>The example's call gets an answer without a body, and the script ends.\<close>

definition example_waiting :: "(string \<times> string) list rider_filter" where
  "example_waiting =
     the (rider_stream (example_rider_env example_script) example_rider_ctx [('':path'', ''/'')] True [])"




text \<open>
  A direct response without a body has to name the missing body. The context lies on the stack above the script's
  arguments, so \<^verbatim>\<open>envoy.respond\<close> with the headers only reads it as the body and raises an error, whatever the headers
  are; with \<^verbatim>\<open>nil\<close> as the second argument the response is sent, without a body.
\<close>

theorem rider_respond_without_body:
  assumes w: "wrapper_of d f = Some w" "\<not> sw_headers_continued w"
    and h: "buildHeadersFromTable (ra_headers (re_api E)) t (hm_create (ra_headers (re_api E))) = Inr h"
    and status: "response_status E h = Some status" "200 \<le> status" "status < 600"
  shows "luaRespond E rsp d (call_stack d [ArgTable t]) f = Some (ApiError ''string expected'', f) \<and>
    luaRespond E rsp d (call_stack d [ArgTable t, ArgNil]) f =
      (case rsp h None (f\<lparr>rf_responded := True\<rparr>) of
         Inl e \<Rightarrow> Some (ApiError e, f\<lparr>rf_responded := True\<rparr>)
       | Inr None \<Rightarrow> None
       | Inr (Some f') \<Rightarrow> Some (ApiYield, upd_wrapper d (\<lambda>w. w\<lparr>sw_state := Responded\<rparr>) f'))"
proof -
  have "\<not> status < 200" "\<not> 600 \<le> status" using status by auto
  with w h status(1) show ?thesis
    by (simp add: luaRespond_def call_stack_def arg_def checktable_def optlstring_def checkstring_def Let_def)
qed

theorem rider_respond_without_body_witness:
  "\<exists>f. luaRespond (example_rider_env Finish) encoder_respond DownstreamToUpstream
     (call_stack DownstreamToUpstream [ArgTable [('':status'', ArgString ''403'')]]) f = Some (ApiError ''string expected'', f)"
proof -
  let ?E = "example_rider_env Finish" and ?f = "set_wrapper DownstreamToUpstream (StreamWrapper True) (RiderFilter example_rider_ctx)"
  have "buildHeadersFromTable (ra_headers (re_api ?E)) [('':status'', ArgString ''403'')] (hm_create (ra_headers (re_api ?E))) =
      Inr [('':status'', ''403'')]" by code_simp
  moreover have "response_status ?E [('':status'', ''403'')] = Some 403" by code_simp
  ultimately show ?thesis
    using rider_respond_without_body [of DownstreamToUpstream ?f "StreamWrapper True" ?E "[('':status'', ArgString ''403'')]"
        "[('':status'', ''403'')]" 403 encoder_respond] by (auto simp: StreamWrapper_def)
qed

section \<open>The body that a script waits for\<close>

text \<open>A script of the first version that waits for the request's body, with \<open>b\<close> of it buffered so far.\<close>

definition waits_for_body :: "'h rider_env \<Rightarrow> (lua_values \<Rightarrow> lua_script) \<Rightarrow> string option \<Rightarrow> 'h rider_filter \<Rightarrow> bool" where
  "waits_for_body E k b f \<longleftrightarrow>
     ph_version (re_handle E) = V1 \<and> \<not> rf_error f \<and> rx_request_buffer (rf_ctx f) = b \<and>
     (\<exists>w. rf_request f = Some w \<and> sw_state w = WaitForBody \<and> sw_coroutine w = Suspended k \<and> sw_buffered_body w)"

definition append_opt :: "string option \<Rightarrow> string \<Rightarrow> string" where
  "append_opt b data = (case b of None \<Rightarrow> data | Some b \<Rightarrow> b @ data)"

lemma more_data_waits:
  assumes "waits_for_body E k b f"
  shows "\<exists>f'. rider_decodeData E data False f = Some (f', StopIterationAndBuffer) \<and>
    waits_for_body E k (Some (append_opt b data)) (after_data DownstreamToUpstream data (f', StopIterationAndBuffer))"
  using assms
  by (auto simp: waits_for_body_def rider_decodeData_def rider_onData_def doData1_def sw_onData1_def Let_def state_of_def
      wrapper_of_def upd_wrapper_def set_wrapper_def after_data_def add_buffer_def buffered_body_of_def append_opt_def
      split: option.splits)

lemma data_collected:
  assumes "waits_for_body E k b f"
  shows "\<exists>f'. rider_steps E (map (\<lambda>data. EvDecodeData data False) ds) f = Some f' \<and>
    waits_for_body E k (if ds = [] then b else Some (append_opt b (concat ds))) f'"
  using assms
proof (induction ds arbitrary: b f)
  case (Cons x ds)
  from more_data_waits [OF Cons.prems, of x] obtain f' where
    1: "rider_decodeData E x False f = Some (f', StopIterationAndBuffer)"
    and 2: "waits_for_body E k (Some (append_opt b x)) (after_data DownstreamToUpstream x (f', StopIterationAndBuffer))" by blast
  have "append_opt (Some (append_opt b x)) (concat ds) = append_opt b (concat (x # ds))"
    by (simp add: append_opt_def split: option.split)
  with Cons.IH [OF 2] 1 show ?case
    by (cases "ds = []") (auto simp: rider_step_def)
qed simp

text \<open>
  C18: A script that waits for the body gets all of it. While data arrives that is not the last, the filter buffers it
  and the script waits; the last data resumes the script with the whole body, the buffered part and all the data in the
  order it arrived. The status is taken from the wrapper after the script has run.
\<close>

theorem rider_body_complete:
  assumes wait: "waits_for_body E k b f"
  shows "\<exists>f1 f2 w. rider_steps E (map (\<lambda>data. EvDecodeData data False) ds) f = Some f1 \<and>
    rx_request_buffer (rf_ctx f2) = Some (append_opt b (concat ds @ data)) \<and>
    rf_request f2 = Some w \<and> sw_state w = Running \<and> sw_end_stream w \<and>
    rider_decodeData E data True f1 =
      (case run_lua E (decoder_respond E) DownstreamToUpstream (k (BodyValue (append_opt b (concat ds @ data)))) f2 of
         None \<Rightarrow> None
       | Some r \<Rightarrow>
          (case co_end DownstreamToUpstream r of
             (f', Inl e) \<Rightarrow> Some (scriptError e f', DataContinue)
           | (f', Inr _) \<Rightarrow>
             Some (if state_of DownstreamToUpstream f' = HttpCall \<or> state_of DownstreamToUpstream f' = WaitForBody
                   then (f', StopIterationAndBuffer)
                   else if state_of DownstreamToUpstream f' = Responded then (f', StopIterationNoBuffer)
                   else (upd_wrapper DownstreamToUpstream (\<lambda>w. w\<lparr>sw_headers_continued := True\<rparr>) f', DataContinue))))"
proof -
  obtain f1 where f1: "rider_steps E (map (\<lambda>data. EvDecodeData data False) ds) f = Some f1"
    and w1: "waits_for_body E k (if ds = [] then b else Some (append_opt b (concat ds))) f1"
    using data_collected [OF wait] by blast
  from w1 obtain w where w: "rf_request f1 = Some w" "sw_state w = WaitForBody" "sw_coroutine w = Suspended k" "sw_buffered_body w"
    and v: "ph_version (re_handle E) = V1" "\<not> rf_error f1"
    and buf: "rx_request_buffer (rf_ctx f1) = (if ds = [] then b else Some (append_opt b (concat ds)))"
    by (auto simp: waits_for_body_def)
  let ?body = "append_opt b (concat ds @ data)"
  let ?w = "w\<lparr>sw_end_stream := True, sw_saw_body := True, sw_state := Running\<rparr>"
  define f2 where "f2 = (log_call (AddData DownstreamToUpstream data) f1)\<lparr>rf_request := Some ?w,
      rf_ctx := (rf_ctx f1)\<lparr>rx_request_buffer := Some ?body\<rparr>\<rparr>"
  have body: "append_opt (rx_request_buffer (rf_ctx f1)) data = ?body"
    using buf by (auto simp: append_opt_def split: option.splits)
  have f2': "upd_wrapper DownstreamToUpstream (\<lambda>w. w\<lparr>sw_state := Running\<rparr>) (addData DownstreamToUpstream data
      (upd_wrapper DownstreamToUpstream (\<lambda>w. w\<lparr>sw_end_stream := True, sw_saw_body := True\<rparr>) f1)) = f2"
    using w body by (simp add: f2_def addData_def add_buffer_def buffered_body_of_def upd_wrapper_def wrapper_of_def set_wrapper_def
        log_call_def Let_def append_opt_def [symmetric])
  have lb: "luaBody DownstreamToUpstream f2 = Some (ApiValues (BodyValue ?body), f2)"
    using w by (simp add: luaBody_def f2_def wrapper_of_def buffered_body_of_def)
  have st: "state_of DownstreamToUpstream
      (upd_wrapper DownstreamToUpstream (\<lambda>w. w\<lparr>sw_end_stream := True, sw_saw_body := True\<rparr>) f1) = WaitForBody"
    using w by (simp add: state_of_def wrapper_of_def upd_wrapper_def set_wrapper_def)
  have co: "co_resume E (decoder_respond E) DownstreamToUpstream (BodyValue ?body) f2 =
      map_option (co_end DownstreamToUpstream) (run_lua E (decoder_respond E) DownstreamToUpstream (k (BodyValue ?body)) f2)"
    using w by (simp add: co_resume_def f2_def wrapper_of_def)
  have "rider_decodeData E data True f1 =
      (case run_lua E (decoder_respond E) DownstreamToUpstream (k (BodyValue ?body)) f2 of
         None \<Rightarrow> None
       | Some r \<Rightarrow>
          (case co_end DownstreamToUpstream r of
             (f', Inl e) \<Rightarrow> Some (scriptError e f', DataContinue)
           | (f', Inr _) \<Rightarrow>
             Some (if state_of DownstreamToUpstream f' = HttpCall \<or> state_of DownstreamToUpstream f' = WaitForBody
                   then (f', StopIterationAndBuffer)
                   else if state_of DownstreamToUpstream f' = Responded then (f', StopIterationNoBuffer)
                   else (upd_wrapper DownstreamToUpstream (\<lambda>w. w\<lparr>sw_headers_continued := True\<rparr>) f', DataContinue))))"
    unfolding rider_decodeData_def rider_onData_def Let_def doData1_def sw_onData1_def f2' st lb
    using v w(1) co
    by (cases "run_lua E (decoder_respond E) DownstreamToUpstream (k (BodyValue ?body)) f2")
      (auto simp: wrapper_of_def split: prod.split sum.split)
  moreover have "rx_request_buffer (rf_ctx f2) = Some ?body" "rf_request f2 = Some ?w" by (simp_all add: f2_def)
  ultimately show ?thesis using f1 by fastforce
qed

text \<open>A script that reads the body and sends it back.\<close>

definition echo_script :: "string + lua_values \<Rightarrow> lua_script" where
  "echo_script r = (case r of Inr (BodyValue b) \<Rightarrow> Respond [ArgTable [('':status'', ArgString ''403'')], ArgString b] (\<lambda>_. Finish)
                            | _ \<Rightarrow> Finish)"

definition example_echo :: "(string \<times> string) list rider_env" where
  "example_echo = (example_rider_env (GetBody DownstreamToUpstream echo_script))\<lparr>re_encoder_reached := False\<rparr>"

definition example_reading :: "(string \<times> string) list rider_filter" where
  "example_reading =
     (RiderFilter example_rider_ctx)\<lparr>rf_request := Some ((StreamWrapper False)\<lparr>sw_state := WaitForBody,
        sw_coroutine := Suspended (\<lambda>v. echo_script (Inr v)), sw_buffered_body := True\<rparr>)\<rparr>"

theorem rider_body_complete_witness:
  "map_option snd (rider_decodeHeaders example_echo [] False (RiderFilter example_rider_ctx)) = Some StopIteration \<and>
   waits_for_body example_echo (\<lambda>v. echo_script (Inr v)) None example_reading \<and>
   (\<exists>f1 f2 w. rider_steps example_echo [EvDecodeData ''a'' False, EvDecodeData ''b'' False] example_reading = Some f1 \<and>
      rx_request_buffer (rf_ctx (f2 :: (string \<times> string) list rider_filter)) = Some ''abc'' \<and> rf_request f2 = Some w \<and>
      map_option snd (rider_decodeData example_echo ''c'' True f1) = Some StopIterationNoBuffer)"
proof -
  have start: "map_option snd (rider_decodeHeaders example_echo [] False (RiderFilter example_rider_ctx)) = Some StopIteration"
    by code_simp
  have wait: "waits_for_body example_echo (\<lambda>v. echo_script (Inr v)) None example_reading"
    by (simp add: waits_for_body_def example_echo_def example_reading_def example_defs)
  from rider_body_complete [OF this, of "[''a'', ''b'']" "''c''"]
  obtain f1 and f2 :: "(string \<times> string) list rider_filter" and w where
    "rider_steps example_echo (map (\<lambda>data. EvDecodeData data False) [''a'', ''b'']) example_reading = Some f1"
    "rx_request_buffer (rf_ctx f2) = Some (append_opt None (concat [''a'', ''b''] @ ''c''))" "rf_request f2 = Some w"
    by blast
  moreover have "map_option (\<lambda>f1. map_option snd (rider_decodeData example_echo ''c'' True f1))
      (rider_steps example_echo [EvDecodeData ''a'' False, EvDecodeData ''b'' False] example_reading) =
      Some (Some StopIterationNoBuffer)" by code_simp
  ultimately show ?thesis using start wait by (intro conjI exI [of _ f1] exI [of _ f2] exI [of _ w]) (simp_all add: append_opt_def)
qed

end
