(* ===== verification/Filter_Factories.thy ===== *)
theory Filter_Factories
  imports Circuit_Breaker_Traffic Header_Restriction Ip_Restriction Static_Downgrade Dynamic_Downgrade Super_Cache
    Header_Rewrite Local_Limit Traffic_Mark Metadata_Hub Detailed_Stats Waf Rider_Sandbox Rider_Filter
begin

text \<open>
  The factories, \<^verbatim>\<open>config.{h,cc}\<close> and \<^verbatim>\<open>*_factory.{h,cc}\<close> of the filters: Envoy finds a
  factory by the name of the filter in its configuration, hands it the message, and gets a callback that adds a
  filter to every new stream.

  \<^item> The result of a factory is what its callback adds to a stream: the interface under which the filter is added
    and the filter, which is new for every stream and shares the configuration that was constructed once.
  \<^item> An exception of a configuration's constructor is an exception of the factory, and Envoy rejects the configuration.
  \<^item> The registration is a list of names with the interface each factory adds its filter under.
\<close>

datatype 'f added = AddStreamFilter 'f | AddStreamDecoderFilter 'f | AddStreamEncoderFilter 'f

section \<open>Factories whose configuration may be rejected\<close>

text \<open>What these factories share: they accept a message exactly if the constructor of the configuration does.\<close>

locale config_factory =
  fixes config :: "'p \<Rightarrow> 'c throws" and filter_of :: "'c \<Rightarrow> 'f added" and create :: "'p \<Rightarrow> 'f added throws"
  assumes create_eq: "create p = (case config p of Inl e \<Rightarrow> Inl e | Inr c \<Rightarrow> Inr (filter_of c))"
begin

lemma accepts: "(\<exists>f. create p = Inr f) \<longleftrightarrow> (\<exists>c. config p = Inr c)"
  by (auto simp: create_eq split: sum.splits)

lemma same_exception: "create p = Inl e \<longleftrightarrow> config p = Inl e"
  by (auto simp: create_eq split: sum.splits)

end

definition header_rewrite_factory ::
    "('h, 'hm, 'qm, 'sm, 're, 't) rewrite_env \<Rightarrow> string \<Rightarrow> ('hm, 'qm, 'sm) header_rewrite_proto \<Rightarrow>
     (string \<times> ('hm, 'qm, 'sm, 're, 't) header_rewrite_config \<times> ('hm, 'qm, 'sm, 're, 't) rw_filter) added throws" where
  "header_rewrite_factory R alias_name p =
     (case HeaderRewriteConfig R p of
        Inl e \<Rightarrow> Inl e
      | Inr shared_config \<Rightarrow> Inr (AddStreamFilter (alias_name, shared_config, rw_Filter)))"

definition super_cache_factory ::
    "string \<Rightarrow> string \<Rightarrow> registry \<Rightarrow> proto_cache list \<times> string \<Rightarrow>
     (string \<times> (string list option \<times> string \<times> registry) \<times> ('h, 'hm, 'r) sc_filter) added throws" where
  "super_cache_factory alias_name uuid r p =
     (case CommonCacheConfig (fst p) (snd p) uuid r of
        Inl e \<Rightarrow> Inl e
      | Inr config \<Rightarrow> Inr (AddStreamFilter (alias_name, config, HttpCacheFilter)))"

definition dynamic_downgrade_factory ::
    "string \<Rightarrow> registry \<Rightarrow> proto_cache list \<times> (string \<times> u32 option) option \<times> string \<Rightarrow>
     ((dd_common_config \<times> registry) \<times> ('h, 'hm, 'r) dd_filter) added throws" where
  "dynamic_downgrade_factory uuid r p =
     (case DynamicDowngradeCommonConfig (fst p) (fst (snd p)) (snd (snd p)) uuid r of
        Inl e \<Rightarrow> Inl e
      | Inr shared_config \<Rightarrow> Inr (AddStreamFilter (shared_config, HttpDynamicDowngradeFilter)))"

definition waf_factory :: "'t modsec_ops \<Rightarrow> waf_rule list \<Rightarrow> 't waf_filter added throws" where
  "waf_factory M rules =
     (case RuleSetConfig rules of
        Inl e \<Rightarrow> Inl e
      | Inr shared_config \<Rightarrow> Inr (AddStreamFilter (WafFilter M shared_config)))"

definition rider_factory ::
    "'f lua_env \<Rightarrow> 'h rider_ctx \<Rightarrow> rider_proto \<Rightarrow> (rider_config \<times> 'h rider_filter) added throws" where
  "rider_factory L ctx p =
     (case RiderConfigImpl L p of
        Inl e \<Rightarrow> Inl e
      | Inr filter_config \<Rightarrow> Inr (AddStreamFilter (filter_config, RiderFilter ctx)))"

definition header_restriction_factory ::
    "('h, 'hm, 'qm, 'sm) matcher_env \<Rightarrow> string \<Rightarrow> ('hm, 'qm, 'sm) restriction_proto \<Rightarrow>
     (string \<times> ('hm, 'qm, 'sm) restriction_config) added throws" where
  "header_restriction_factory M alias_name p =
     (case HeaderRestrictionConfig M p of
        Inl e \<Rightarrow> Inl e
      | Inr shared_config \<Rightarrow> Inr (AddStreamFilter (alias_name, shared_config)))"

text \<open>
  The factory of the statistics first registers the namespaces of the configuration with the process; they stay
  registered when the constructor of the configuration throws.
\<close>

definition detailed_stats_factory ::
    "('h, 'hm, 'qm, 'sm) matcher_env \<Rightarrow> string list \<Rightarrow> ('hm, 'qm, 'sm) matched_stats_proto list \<Rightarrow> string list \<Rightarrow>
     string list \<times> (('hm, 'qm, 'sm) ds_config \<times> ds_filter) added throws" where
  "detailed_stats_factory M custom_stat_namespaces ps registered =
     (registered @ custom_stat_namespaces,
      case ds_CommonConfig M ps of
        Inl e \<Rightarrow> Inl e
      | Inr shared_config \<Rightarrow> Inr (AddStreamEncoderFilter (shared_config, \<lparr>response_headers_seen = False\<rparr>)))"

interpretation restriction_ff: config_factory "HeaderRestrictionConfig M" "\<lambda>c. AddStreamFilter (alias_name, c)"
    "header_restriction_factory M alias_name"
  for M :: "('h, 'hm, 'qm, 'sm) matcher_env" and alias_name
  by unfold_locales (simp add: header_restriction_factory_def)

interpretation stats_ff: config_factory "ds_CommonConfig M"
    "\<lambda>c. AddStreamEncoderFilter (c, \<lparr>response_headers_seen = False\<rparr>)" "\<lambda>ps. snd (detailed_stats_factory M namespaces ps registered)"
  for M :: "('h, 'hm, 'qm, 'sm) matcher_env" and namespaces registered
  by unfold_locales (simp add: detailed_stats_factory_def)

interpretation rewrite_ff: config_factory "HeaderRewriteConfig R"
    "\<lambda>c. AddStreamFilter (alias_name, c, rw_Filter)" "header_rewrite_factory R alias_name"
  for R :: "('h, 'hm, 'qm, 'sm, 're, 't) rewrite_env" and alias_name
  by unfold_locales (simp add: header_rewrite_factory_def)

interpretation cache_ff: config_factory "\<lambda>p. CommonCacheConfig (fst p) (snd p) uuid r"
    "\<lambda>c. AddStreamFilter (alias_name, c, HttpCacheFilter)" "super_cache_factory alias_name uuid r"
  for alias_name uuid and r :: registry
  by unfold_locales (simp add: super_cache_factory_def)

interpretation downgrade_ff: config_factory
    "\<lambda>p. DynamicDowngradeCommonConfig (fst p) (fst (snd p)) (snd (snd p)) uuid r"
    "\<lambda>c. AddStreamFilter (c, HttpDynamicDowngradeFilter)" "dynamic_downgrade_factory uuid r"
  for uuid and r :: registry
  by unfold_locales (simp add: dynamic_downgrade_factory_def)

interpretation waf_ff: config_factory RuleSetConfig "\<lambda>c. AddStreamFilter (WafFilter M c)" "waf_factory M"
  for M :: "'t modsec_ops"
  by unfold_locales (simp add: waf_factory_def)

interpretation rider_ff: config_factory "RiderConfigImpl L" "\<lambda>c. AddStreamFilter (c, RiderFilter ctx)" "rider_factory L ctx"
  for L :: "'f lua_env" and ctx :: "'h rider_ctx"
  by unfold_locales (simp add: rider_factory_def)

text \<open>A rule file that is not absolute or is given twice is rejected before any filter exists, for instance.\<close>

lemma waf_factory_accepts: "(\<exists>f. waf_factory M rules = Inr f) \<longleftrightarrow> (\<exists>c. RuleSetConfig rules = Inr c)"
  by (rule waf_ff.accepts)

section \<open>Factories that accept every message\<close>

text \<open>The address list of the filter itself is the name of a header, as a \<^verbatim>\<open>LowerCaseString\<close>, with its counters.\<close>

definition ip_restriction_factory :: "string \<Rightarrow> (string \<times> ip_stats) added" where
  "ip_restriction_factory ip_source_header =
     AddStreamDecoderFilter (lower ip_source_header, \<lparr>ok_count = 0, denied_count = 0\<rparr>)"

definition static_downgrade_factory :: "('hm, 'sm) sd_filter added" where
  "static_downgrade_factory = AddStreamFilter HttpStaticDowngradeFilter"

definition service_downgrade_factory ::
    "(string \<times> u32 option) option \<Rightarrow> (httpx_config option \<times> 'hm sv_filter) added" where
  "service_downgrade_factory remote = AddStreamFilter (CommonConfig remote, sv_Filter)"

text \<open>The configuration of the local limit is empty; its limits are those of the routes.\<close>

definition local_limit_factory :: "unit added" where
  "local_limit_factory = AddStreamDecoderFilter ()"

definition traffic_mark_factory :: "mark_proto \<Rightarrow> mark_config added" where
  "traffic_mark_factory p = AddStreamDecoderFilter (MarkConfigImpl p)"

definition metadata_hub_factory :: "hub_proto \<Rightarrow> hub_config added" where
  "metadata_hub_factory p = AddStreamFilter (MetadataHubCommonConfig p)"

section \<open>Registration\<close>

datatype interface = AsStreamFilter | AsDecoderFilter | AsEncoderFilter

text \<open>The HTTP filters: the name and the interface under which the filter is added.\<close>

definition registered_http_filters :: "(string \<times> interface) list" where
  "registered_http_filters =
     [(''proxy.filters.http.circuitbreaker'', AsStreamFilter),
      (''proxy.filters.http.detailed_stats'', AsEncoderFilter),
      (''proxy.filters.http.dynamicdowngrade'', AsStreamFilter),
      (''proxy.filters.http.header_restriction'', AsStreamFilter),
      (''proxy.filters.http.ua_restriction'', AsStreamFilter),
      (''proxy.filters.http.referer_restriction'', AsStreamFilter),
      (''proxy.filters.http.header_rewrite'', AsStreamFilter),
      (''proxy.filters.http.header_rewrite.request_headers_to_add'', AsStreamFilter),
      (''proxy.filters.http.header_rewrite.traffic_mark'', AsStreamFilter),
      (''proxy.filters.http.path_rewrite'', AsStreamFilter),
      (''proxy.filters.http.iprestriction'', AsDecoderFilter),
      (''proxy.filters.http.locallimit'', AsDecoderFilter),
      (''proxy.filters.http.metadatahub'', AsStreamFilter),
      (''proxy.filters.http.rider'', AsStreamFilter),
      (''proxy.filters.http.service_downgrade'', AsStreamFilter),
      (''proxy.filters.http.staticdowngrade'', AsStreamFilter),
      (''proxy.filters.http.super_cache'', AsStreamFilter),
      (''proxy.filters.http.local_cache'', AsStreamFilter),
      (''proxy.filters.http.redis_cache'', AsStreamFilter),
      (''proxy.filters.http.traffic_mark'', AsDecoderFilter),
      (''proxy.filters.http.waf'', AsStreamFilter)]"

text \<open>Envoy stops at a second registration of a name; no name is registered twice, and a name finds its own factory.\<close>

lemma registered_names_distinct: "distinct (map fst registered_http_filters)"
  by code_simp

lemma registered_name_found:
  "(n, i) \<in> set registered_http_filters \<longleftrightarrow> map_of registered_http_filters n = Some i"
  using map_of_eq_Some_iff [OF registered_names_distinct] by blast

end
