(* ===== verification/Dubbo_Json.thy ===== *)
theory Dubbo_Json
  imports Header_Map "HOL-Library.Multiset"
begin

text \<open>
  From JSON to Hessian values: the first half of \<^verbatim>\<open>source/common/dubbo/utility.cc\<close>, with the table of
  converters for the Java types.

  \<^item> \<open>hessian\<close> is the data of \<^verbatim>\<open>Hessian2::Object\<close>, a sum over the kinds of object; maps keep the order of
    insertion, which the hash map of the library leaves open; statements on values that have been sent are up to that
    order (\<open>same_value\<close>).
  \<^item> rapidjson's parser is the parameter \<open>parse\<close>, the text it prints for a value in an error message the
    parameter \<open>debugStringOfJsonValue\<close>, and \<open>rnd\<close> rounds an integer that is converted to \<^verbatim>\<open>double\<close>.
\<close>

section \<open>Hessian values\<close>

datatype hessian =
    HNull
  | HBool bool
  | HInt int
  | HLong int
  | HDouble real
  | HDate int
  | HString string
  | HBinary string
  | HList "hessian list"
  | HTypedList string "hessian list"
  | HMap "(hessian \<times> hessian) list"
  | HTypedMap string "(hessian \<times> hessian) list"
  | HClass "(string \<times> string list) option" "hessian list"

text \<open>\<^verbatim>\<open>emplace\<close> on a map keeps the value of a key that is already there.\<close>

definition emplace :: "'k \<Rightarrow> 'v \<Rightarrow> ('k \<times> 'v) list \<Rightarrow> ('k \<times> 'v) list" where
  "emplace k v m = (if k \<in> fst ` set m then m else m @ [(k, v)])"

section \<open>Conversion of a value\<close>

definition int32_range :: "int \<Rightarrow> bool" where
  "int32_range i \<longleftrightarrow> - (2 ^ 31) \<le> i \<and> i < 2 ^ 31"

definition int64_range :: "int \<Rightarrow> bool" where
  "int64_range i \<longleftrightarrow> - (2 ^ 63) \<le> i \<and> i < 2 ^ 63"

fun is_JNull :: "json \<Rightarrow> bool" where
  "is_JNull JNull = True"
| "is_JNull _ = False"

fun jsonValueToHessianValueInternal :: "(real \<Rightarrow> real) \<Rightarrow> bool \<Rightarrow> nat \<Rightarrow> json \<Rightarrow> hessian"
and list_to_hessian :: "(real \<Rightarrow> real) \<Rightarrow> bool \<Rightarrow> nat \<Rightarrow> json list \<Rightarrow> hessian list"
and members_to_hessian ::
    "(real \<Rightarrow> real) \<Rightarrow> bool \<Rightarrow> nat \<Rightarrow> (string \<times> json) list \<Rightarrow> (hessian \<times> hessian) list \<Rightarrow> (hessian \<times> hessian) list"
where
  "jsonValueToHessianValueInternal rnd ignore_null depth v =
     (if 50 \<le> depth then HNull
      else case v of
        JNull \<Rightarrow> HNull
      | JBool b \<Rightarrow> HBool b
      | JInt i \<Rightarrow> (if int32_range i then HInt i else if int64_range i then HLong i else HDouble (rnd (of_int i)))
      | JDouble d \<Rightarrow> HDouble d
      | JString s \<Rightarrow> HString s
      | JArray vs \<Rightarrow> HList (list_to_hessian rnd ignore_null (depth + 1) vs)
      | JObject ms \<Rightarrow> HMap (members_to_hessian rnd ignore_null (depth + 1) ms []))"
| "list_to_hessian rnd ignore_null depth [] = []"
| "list_to_hessian rnd ignore_null depth (v # vs) =
     jsonValueToHessianValueInternal rnd ignore_null depth v # list_to_hessian rnd ignore_null depth vs"
| "members_to_hessian rnd ignore_null depth [] m = m"
| "members_to_hessian rnd ignore_null depth ((k, v) # ms) m =
     (if ignore_null \<and> is_JNull v then members_to_hessian rnd ignore_null depth ms m
      else members_to_hessian rnd ignore_null depth ms
             (emplace (HString k) (jsonValueToHessianValueInternal rnd ignore_null depth v) m))"

section \<open>Converters by type\<close>

type_synonym json_converter = "json \<Rightarrow> bool \<Rightarrow> hessian throws"

record json_lib =
  parse :: "string \<Rightarrow> json option"
  debugStringOfJsonValue :: "json \<Rightarrow> string"
  to_double :: "real \<Rightarrow> real"

definition invalid_value :: "json_lib \<Rightarrow> json \<Rightarrow> string" where
  "invalid_value L v =
     ''Dubbo bridge: value '' @ [CHR 0x27] @ debugStringOfJsonValue L v @ [CHR 0x27] @ '' is invalid for current type''"

definition loadableJsonConverter :: "json_lib \<Rightarrow> (json \<Rightarrow> bool) \<Rightarrow> json_converter" where
  "loadableJsonConverter L type_checker v ignore_null =
     (if type_checker v then Inr (jsonValueToHessianValueInternal (to_double L) ignore_null 0 v)
      else case v of
        JString s \<Rightarrow>
          (case parse L s of
             None \<Rightarrow> Inl (invalid_value L v)
           | Some inner_value \<Rightarrow>
               (if type_checker inner_value
                then Inr (jsonValueToHessianValueInternal (to_double L) ignore_null 0 inner_value)
                else Inl (invalid_value L v)))
      | _ \<Rightarrow> Inl (invalid_value L v))"

definition strictJsonConverter :: "json_lib \<Rightarrow> (json \<Rightarrow> bool) \<Rightarrow> json_converter" where
  "strictJsonConverter L type_checker v ignore_null =
     (if type_checker v then Inr (jsonValueToHessianValueInternal (to_double L) ignore_null 0 v)
      else Inl (invalid_value L v))"

definition stringJsonConverter :: "json_lib \<Rightarrow> json_converter" where
  "stringJsonConverter L v ignore_null =
     (case v of
        JNull \<Rightarrow> Inr (jsonValueToHessianValueInternal (to_double L) ignore_null 0 v)
      | JString s \<Rightarrow> Inr (jsonValueToHessianValueInternal (to_double L) ignore_null 0 v)
      | _ \<Rightarrow> Inr (HString (debugStringOfJsonValue L v)))"

fun is_Bool :: "json \<Rightarrow> bool" where
  "is_Bool (JBool b) = True"
| "is_Bool _ = False"

fun is_Number :: "json \<Rightarrow> bool" where
  "is_Number (JInt i) = True"
| "is_Number (JDouble d) = True"
| "is_Number _ = False"

fun is_Int :: "json \<Rightarrow> bool" where
  "is_Int (JInt i) = int32_range i"
| "is_Int _ = False"

fun is_Int64 :: "json \<Rightarrow> bool" where
  "is_Int64 (JInt i) = int64_range i"
| "is_Int64 _ = False"

fun is_Array :: "json \<Rightarrow> bool" where
  "is_Array (JArray vs) = True"
| "is_Array _ = False"

fun is_Object :: "json \<Rightarrow> bool" where
  "is_Object (JObject ms) = True"
| "is_Object _ = False"

fun not_empty_string :: "json \<Rightarrow> bool" where
  "not_empty_string (JString s) = (s \<noteq> '''')"
| "not_empty_string _ = False"

definition null_or :: "(json \<Rightarrow> bool) \<Rightarrow> json \<Rightarrow> bool" where
  "null_or p v \<longleftrightarrow> is_JNull v \<or> p v"

definition not_empty_string_or :: "(json \<Rightarrow> bool) \<Rightarrow> json \<Rightarrow> bool" where
  "not_empty_string_or p v \<longleftrightarrow> not_empty_string v \<or> p v"

text \<open>The table, in the order of the source.\<close>

definition TypedJsonConverters :: "json_lib \<Rightarrow> (string \<times> json_converter) list" where
  "TypedJsonConverters L =
    [(''java.lang.Boolean'', loadableJsonConverter L (null_or is_Bool)),
     (''boolean'', loadableJsonConverter L is_Bool),
     (''java.lang.Float'', loadableJsonConverter L (null_or is_Number)),
     (''float'', loadableJsonConverter L is_Number),
     (''java.lang.Double'', loadableJsonConverter L (null_or is_Number)),
     (''double'', loadableJsonConverter L is_Number),
     (''java.lang.Byte'', loadableJsonConverter L (null_or is_Int)),
     (''byte'', loadableJsonConverter L is_Int),
     (''java.lang.Short'', loadableJsonConverter L (null_or is_Int)),
     (''short'', loadableJsonConverter L is_Int),
     (''java.lang.Integer'', loadableJsonConverter L (null_or is_Int64)),
     (''int'', loadableJsonConverter L is_Int64),
     (''java.lang.Long'', loadableJsonConverter L (null_or is_Int64)),
     (''long'', loadableJsonConverter L is_Int64),
     (''java.lang.String'', stringJsonConverter L),
     (''java.lang.Character'', strictJsonConverter L (not_empty_string_or is_JNull)),
     (''char'', strictJsonConverter L not_empty_string),
     (''java.lang.Enum'', strictJsonConverter L (not_empty_string_or is_JNull)),
     (''java.time.DayOfWeek'', strictJsonConverter L (not_empty_string_or is_JNull)),
     (''java.util.Date'', strictJsonConverter L (not_empty_string_or (null_or is_Number))),
     (''java.math.BigDecimal'', strictJsonConverter L (not_empty_string_or (null_or is_Number))),
     (''java.math.BigInteger'', strictJsonConverter L (not_empty_string_or (null_or is_Number))),
     (''java.lang.Void'', strictJsonConverter L is_JNull),
     (''java.util.List'', loadableJsonConverter L (null_or is_Array)),
     (''java.util.ArrayList'', loadableJsonConverter L (null_or is_Array)),
     (''java.util.LinkedList'', loadableJsonConverter L (null_or is_Array)),
     (''com.alibaba.fastjson.JSONArray'', loadableJsonConverter L (null_or is_Array)),
     (''java.util.Set'', loadableJsonConverter L (null_or is_Array)),
     (''java.util.HashSet'', loadableJsonConverter L (null_or is_Array)),
     (''java.util.TreeSet'', loadableJsonConverter L (null_or is_Array)),
     (''java.util.LinkedHashSet'', loadableJsonConverter L (null_or is_Array)),
     (''java.util.Map'', loadableJsonConverter L (null_or is_Object)),
     (''java.util.HashMap'', loadableJsonConverter L (null_or is_Object)),
     (''java.util.TreeMap'', loadableJsonConverter L (null_or is_Object)),
     (''java.util.LinkedHashMap'', loadableJsonConverter L (null_or is_Object))]"

definition jsonValueToHessianValue :: "json_lib \<Rightarrow> json \<Rightarrow> string \<Rightarrow> bool \<Rightarrow> hessian throws" where
  "jsonValueToHessianValue L v ty ignore_null =
     (case map_of (TypedJsonConverters L) ty of
        Some conv \<Rightarrow> conv v ignore_null
      | None \<Rightarrow> Inr (jsonValueToHessianValueInternal (to_double L) ignore_null 0 v))"

declare jsonValueToHessianValueInternal.simps [simp del]

section \<open>Values of the Java types\<close>

text \<open>
  The types of Java that the converters know, by what a value of them is: \<open>integral_range\<close> are the ranges of the Java
  language, and a class that a number or a text stands for takes any of them.
\<close>

definition primitive_types :: "string list" where
  "primitive_types = [''boolean'', ''byte'', ''short'', ''int'', ''long'', ''float'', ''double'', ''char'']"

definition integral_range :: "string \<Rightarrow> (int \<times> int) option" where
  "integral_range ty = map_of
     [(''byte'', (- 128, 127)), (''java.lang.Byte'', (- 128, 127)),
      (''short'', (- 32768, 32767)), (''java.lang.Short'', (- 32768, 32767)),
      (''int'', (- (2 ^ 31), 2 ^ 31 - 1)), (''java.lang.Integer'', (- (2 ^ 31), 2 ^ 31 - 1)),
      (''long'', (- (2 ^ 63), 2 ^ 63 - 1)), (''java.lang.Long'', (- (2 ^ 63), 2 ^ 63 - 1))] ty"

definition in_java_range :: "string \<Rightarrow> int \<Rightarrow> bool" where
  "in_java_range ty i = (case integral_range ty of None \<Rightarrow> False | Some (lo, hi) \<Rightarrow> lo \<le> i \<and> i \<le> hi)"

definition real_types :: "string list" where
  "real_types = [''float'', ''java.lang.Float'', ''double'', ''java.lang.Double'']"

definition written_types :: "string list" where
  "written_types = [''java.util.Date'', ''java.math.BigDecimal'', ''java.math.BigInteger'']"

definition constant_types :: "string list" where
  "constant_types = [''java.lang.Enum'', ''java.time.DayOfWeek'']"

definition collection_types :: "string list" where
  "collection_types =
     [''java.util.List'', ''java.util.ArrayList'', ''java.util.LinkedList'', ''com.alibaba.fastjson.JSONArray'',
      ''java.util.Set'', ''java.util.HashSet'', ''java.util.TreeSet'', ''java.util.LinkedHashSet'']"

definition dictionary_types :: "string list" where
  "dictionary_types = [''java.util.Map'', ''java.util.HashMap'', ''java.util.TreeMap'', ''java.util.LinkedHashMap'']"

text \<open>Whether a Hessian value is one of the Java type: a Hessian long is a Java \<^verbatim>\<open>Long\<close>, and a character is a text of one byte.\<close>

fun java_value :: "string \<Rightarrow> hessian \<Rightarrow> bool" where
  "java_value ty HNull = (ty \<notin> set primitive_types)"
| "java_value ty (HBool b) = (ty \<in> {''boolean'', ''java.lang.Boolean''})"
| "java_value ty (HInt i) = (in_java_range ty i \<or> ty \<in> set real_types \<or> ty \<in> set written_types)"
| "java_value ty (HLong i) =
     (ty \<in> {''long'', ''java.lang.Long''} \<and> in_java_range ty i \<or> ty \<in> set real_types \<or> ty \<in> set written_types)"
| "java_value ty (HDouble d) = (ty \<in> set real_types \<or> ty \<in> set written_types)"
| "java_value ty (HString s) =
     (ty = ''java.lang.String'' \<or> ty \<in> {''char'', ''java.lang.Character''} \<and> length s = 1 \<or>
      (ty \<in> set constant_types \<or> ty \<in> set written_types) \<and> s \<noteq> '''')"
| "java_value ty (HList vs) = (ty \<in> set collection_types)"
| "java_value ty (HMap ms) = (ty \<in> set dictionary_types)"
| "java_value ty _ = False"

text \<open>The values that are let through although they are too wide for the type.\<close>

fun too_wide :: "string \<Rightarrow> hessian \<Rightarrow> bool" where
  "too_wide ty (HInt i) =
     (ty \<in> {''byte'', ''java.lang.Byte'', ''short'', ''java.lang.Short''} \<and> int32_range i \<and> \<not> in_java_range ty i)"
| "too_wide ty (HLong i) = (ty \<in> {''int'', ''java.lang.Integer''} \<and> int64_range i \<and> \<not> in_java_range ty i)"
| "too_wide ty (HString s) = (ty \<in> {''char'', ''java.lang.Character''} \<and> 1 < length s)"
| "too_wide ty _ = False"

lemmas java_type_defs =
  primitive_types_def real_types_def written_types_def constant_types_def collection_types_def dictionary_types_def

text \<open>The results of the conversion for the values that pass a check.\<close>

definition passes :: "(real \<Rightarrow> real) \<Rightarrow> bool \<Rightarrow> (json \<Rightarrow> bool) \<Rightarrow> hessian \<Rightarrow> bool" where
  "passes rnd ign p t \<longleftrightarrow> (\<exists>w. p w \<and> t = jsonValueToHessianValueInternal rnd ign 0 w)"

lemma converter_results:
  "loadableJsonConverter L p v ign = Inr t \<Longrightarrow> passes (to_double L) ign p t"
  "strictJsonConverter L p v ign = Inr t \<Longrightarrow> passes (to_double L) ign p t"
  by (auto simp: passes_def loadableJsonConverter_def strictJsonConverter_def split: if_splits json.splits option.splits)

lemma checked_value:
  "is_JNull w \<Longrightarrow> jsonValueToHessianValueInternal rnd ign 0 w = HNull"
  "is_Bool w \<Longrightarrow> \<exists>b. jsonValueToHessianValueInternal rnd ign 0 w = HBool b"
  "is_Int w \<Longrightarrow> \<exists>i. jsonValueToHessianValueInternal rnd ign 0 w = HInt i \<and> int32_range i"
  "is_Int64 w \<Longrightarrow> (\<exists>i. jsonValueToHessianValueInternal rnd ign 0 w = HInt i \<and> int32_range i) \<or>
     (\<exists>i. jsonValueToHessianValueInternal rnd ign 0 w = HLong i \<and> int64_range i \<and> \<not> int32_range i)"
  "is_Number w \<Longrightarrow> (\<exists>i. jsonValueToHessianValueInternal rnd ign 0 w = HInt i) \<or>
     (\<exists>i. jsonValueToHessianValueInternal rnd ign 0 w = HLong i) \<or> (\<exists>d. jsonValueToHessianValueInternal rnd ign 0 w = HDouble d)"
  "not_empty_string w \<Longrightarrow> \<exists>s. jsonValueToHessianValueInternal rnd ign 0 w = HString s \<and> s \<noteq> ''''"
  "is_Array w \<Longrightarrow> \<exists>vs. jsonValueToHessianValueInternal rnd ign 0 w = HList vs"
  "is_Object w \<Longrightarrow> \<exists>ms. jsonValueToHessianValueInternal rnd ign 0 w = HMap ms"
  by (cases w; simp add: jsonValueToHessianValueInternal.simps)+

lemma passes_checks:
  "passes rnd ign is_JNull t \<Longrightarrow> t = HNull"
  "passes rnd ign (null_or p) t \<Longrightarrow> t = HNull \<or> passes rnd ign p t"
  "passes rnd ign not_empty_string t \<Longrightarrow> \<exists>s. t = HString s \<and> s \<noteq> ''''"
  "passes rnd ign (not_empty_string_or p) t \<Longrightarrow> (\<exists>s. t = HString s \<and> s \<noteq> '''') \<or> passes rnd ign p t"
  "passes rnd ign is_Bool t \<Longrightarrow> \<exists>b. t = HBool b"
  "passes rnd ign is_Int t \<Longrightarrow> \<exists>i. t = HInt i \<and> int32_range i"
  "passes rnd ign is_Int64 t \<Longrightarrow>
     (\<exists>i. t = HInt i \<and> int32_range i) \<or> (\<exists>i. t = HLong i \<and> int64_range i \<and> \<not> int32_range i)"
  "passes rnd ign is_Number t \<Longrightarrow> (\<exists>i. t = HInt i) \<or> (\<exists>i. t = HLong i) \<or> (\<exists>d. t = HDouble d)"
  "passes rnd ign is_Array t \<Longrightarrow> \<exists>vs. t = HList vs"
  "passes rnd ign is_Object t \<Longrightarrow> \<exists>ms. t = HMap ms"
  unfolding passes_def null_or_def not_empty_string_or_def
  using checked_value [where rnd = rnd and ign = ign] by metis+

lemma string_converter_value:
  "stringJsonConverter L v ign = Inr t \<Longrightarrow> t = HNull \<or> (\<exists>s. t = HString s)"
  by (cases v) (auto simp: stringJsonConverter_def jsonValueToHessianValueInternal.simps)

lemma ranges:
  "int32_range i \<Longrightarrow> in_java_range ''int'' i" "int32_range i \<Longrightarrow> in_java_range ''java.lang.Integer'' i"
  "int32_range i \<Longrightarrow> in_java_range ''long'' i" "int32_range i \<Longrightarrow> in_java_range ''java.lang.Long'' i"
  "int64_range i \<Longrightarrow> in_java_range ''long'' i" "int64_range i \<Longrightarrow> in_java_range ''java.lang.Long'' i"
  "\<not> int32_range i \<Longrightarrow> \<not> in_java_range ''int'' i" "\<not> int32_range i \<Longrightarrow> \<not> in_java_range ''java.lang.Integer'' i"
  by (auto simp: in_java_range_def integral_range_def int32_range_def int64_range_def)

lemma nonempty_length: "s \<noteq> [] \<Longrightarrow> length s = 1 \<or> 1 < length s"
  by (cases s) auto

lemma table_values:
  "\<forall>(ty, conv)\<in>set (TypedJsonConverters L). \<forall>v ign t. conv v ign = Inr t \<longrightarrow> java_value ty t \<or> too_wide ty t"
  unfolding TypedJsonConverters_def
  by (simp only: list.set ball_simps(5,7) prod.case simp_thms; intro conjI allI impI)
    (auto simp: java_type_defs ranges dest!: converter_results string_converter_value passes_checks dest: nonempty_length)

section \<open>Values up to the order of map entries\<close>

text \<open>
  The library keeps the entries of a map in a hash map, whose order it leaves open. \<open>same_value\<close> relates the values that
  differ in nothing but the order of the entries of maps, at any depth.
\<close>

inductive same_value :: "hessian \<Rightarrow> hessian \<Rightarrow> bool" where
  same: "same_value t t"
| list: "list_all2 same_value ts us \<Longrightarrow> same_value (HList ts) (HList us)"
| typed_list: "list_all2 same_value ts us \<Longrightarrow> same_value (HTypedList ty ts) (HTypedList ty us)"
| map: "list_all2 (\<lambda>p q. same_value (fst p) (fst q) \<and> same_value (snd p) (snd q)) ps qs \<Longrightarrow> mset qs = mset rs \<Longrightarrow>
    same_value (HMap ps) (HMap rs)"
| typed_map: "list_all2 (\<lambda>p q. same_value (fst p) (fst q) \<and> same_value (snd p) (snd q)) ps qs \<Longrightarrow> mset qs = mset rs \<Longrightarrow>
    same_value (HTypedMap ty ps) (HTypedMap ty rs)"
| object: "list_all2 same_value ts us \<Longrightarrow> same_value (HClass def ts) (HClass def us)"

lemma leaf_values:
  "jsonValueToHessianValueInternal rnd ign 0 (JInt i) =
     (if int32_range i then HInt i else if int64_range i then HLong i else HDouble (rnd (of_int i)))"
  "jsonValueToHessianValueInternal rnd ign 0 (JString s) = HString s"
  by (simp_all add: jsonValueToHessianValueInternal.simps)

lemma integer_converters:
  "map_of (TypedJsonConverters L) ''byte'' = Some (loadableJsonConverter L is_Int)"
  "map_of (TypedJsonConverters L) ''java.lang.Byte'' = Some (loadableJsonConverter L (null_or is_Int))"
  "map_of (TypedJsonConverters L) ''short'' = Some (loadableJsonConverter L is_Int)"
  "map_of (TypedJsonConverters L) ''java.lang.Short'' = Some (loadableJsonConverter L (null_or is_Int))"
  "map_of (TypedJsonConverters L) ''int'' = Some (loadableJsonConverter L is_Int64)"
  "map_of (TypedJsonConverters L) ''java.lang.Integer'' = Some (loadableJsonConverter L (null_or is_Int64))"
  by (simp_all add: TypedJsonConverters_def)

lemma character_converters:
  "map_of (TypedJsonConverters L) ''char'' = Some (strictJsonConverter L not_empty_string)"
  "map_of (TypedJsonConverters L) ''java.lang.Character'' = Some (strictJsonConverter L (not_empty_string_or is_JNull))"
  by (simp_all add: TypedJsonConverters_def)

section \<open>Properties\<close>


definition example_json_lib :: json_lib where
  "example_json_lib =
     \<lparr>parse = \<lambda>s. if s = ''12'' then Some (JInt 12) else None, debugStringOfJsonValue = \<lambda>v. ''?'', to_double = \<lambda>x. x\<rparr>"


end
