(* ===== verification/Dubbo_BigInteger.thy ===== *)
theory Dubbo_BigInteger
  imports Prelude
begin

unbundle bit_operations_syntax

text \<open>
  The conversion of a \<^verbatim>\<open>java.math.BigInteger\<close> magnitude (32 bit words, most significant first, each in a
  \<^verbatim>\<open>uint64_t\<close>) to decimal text in \<^verbatim>\<open>source/common/dubbo/utility.cc\<close>: the number is divided by
  \<open>10 ^ 9\<close> again and again in place, with 64 bit shifts and divisions, and the remainders are the groups
  of nine digits. The reference is \<open>decimal_nat\<close> of the number that the words denote.
\<close>

section \<open>The algorithm\<close>

definition divisor :: u64 where
  "divisor = 1000000000"

text \<open>The loop of \<^verbatim>\<open>divideByWord\<close> over the words from index \<open>i\<close> on.\<close>

fun divide_loop :: "u64 list \<Rightarrow> nat \<Rightarrow> u64 \<Rightarrow> bool \<Rightarrow> nat \<Rightarrow> u64 list \<times> u64 \<times> nat" where
  "divide_loop [] i remainder previous_non_zero from = ([], remainder, from)"
| "divide_loop (v # vs) i remainder previous_non_zero from =
     (let tmp_dividend = push_bit 32 remainder OR v;
          tmp_result = tmp_dividend div divisor;
          tmp_remainder = tmp_dividend - tmp_result * divisor;
          from' = (if tmp_result = 0 \<and> \<not> previous_non_zero then i + 1 else from);
          non_zero' = (tmp_result \<noteq> 0 \<or> previous_non_zero);
          (vs', r, f) = divide_loop vs (i + 1) tmp_remainder non_zero' from'
      in (tmp_result # vs', r, f))"

definition divideByWord :: "u64 list \<Rightarrow> nat \<Rightarrow> u64 \<times> u64 list \<times> nat" where
  "divideByWord values from =
     (let (vs, r, f) = divide_loop (drop from values) from 0 False from
      in (r, take from values @ vs, f))"

partial_function (option) divide_groups :: "u64 list \<Rightarrow> nat \<Rightarrow> u64 list \<Rightarrow> u64 list option" where
  "divide_groups values from final_values =
     (if from < length values
      then let (r, values', from') = divideByWord values from
           in divide_groups values' from' (final_values @ [r])
      else Some final_values)"

text \<open>\<^verbatim>\<open>fmt::format("{:0>9}", tmp)\<close>: zeros on the left up to nine characters.\<close>

definition pad9 :: "string \<Rightarrow> string" where
  "pad9 s = replicate (9 - length s) (CHR ''0'') @ s"

text \<open>The groups from the most significant one on; only the first is not padded.\<close>

definition groups_text :: "u64 list \<Rightarrow> string" where
  "groups_text final_values =
     (case rev final_values of
        [] \<Rightarrow> ''''
      | g # gs \<Rightarrow> decimal_nat (unat g) @ concat (map (\<lambda>g. pad9 (decimal_nat (unat g))) gs))"

definition magnitude_text :: "u64 list \<Rightarrow> string option" where
  "magnitude_text values = map_option groups_text (divide_groups values 0 [])"

section \<open>What the words denote\<close>

definition words_ok :: "u64 list \<Rightarrow> bool" where
  "words_ok vs \<longleftrightarrow> (\<forall>v\<in>set vs. unat v < 2 ^ 32)"

fun big :: "u64 list \<Rightarrow> nat" where
  "big [] = 0"
| "big (v # vs) = unat v * 2 ^ (32 * length vs) + big vs"

lemma big_less: "words_ok vs \<Longrightarrow> big vs < 2 ^ (32 * length vs)"
proof (induction vs)
  case (Cons v vs)
  then have "unat v < 2 ^ 32" and "big vs < 2 ^ (32 * length vs)" by (simp_all add: words_ok_def)
  then have "unat v * 2 ^ (32 * length vs) + big vs < (unat v + 1) * 2 ^ (32 * length vs)" by simp
  also have "\<dots> \<le> 2 ^ 32 * 2 ^ (32 * length vs)" using \<open>unat v < 2 ^ 32\<close> by (intro mult_right_mono) simp_all
  finally show ?case by (simp add: power_add)
qed simp

lemma big_append: "big (xs @ ys) = big xs * 2 ^ (32 * length ys) + big ys"
  by (induction xs) (simp_all add: power_add [symmetric] algebra_simps)


lemma words_ok_append: "words_ok (xs @ ys) \<longleftrightarrow> words_ok xs \<and> words_ok ys"
  by (auto simp: words_ok_def)

lemma big_eq_0: "big vs = 0 \<longleftrightarrow> (\<forall>v\<in>set vs. v = 0)"
  by (induction vs) (simp_all add: unat_eq_zero)

section \<open>One division\<close>

text \<open>Two 32 bit halves put together by a shift and an OR, and divided without a carry.\<close>

lemma dividend_step:
  fixes r v :: u64
  assumes r: "unat r < 1000000000" and v: "unat v < 2 ^ 32"
  defines "d \<equiv> push_bit 32 r OR v"
  shows "unat d = unat r * 2 ^ 32 + unat v"
    and "unat (d div divisor) = (unat r * 2 ^ 32 + unat v) div 1000000000"
    and "unat (d - d div divisor * divisor) = (unat r * 2 ^ 32 + unat v) mod 1000000000"
    and "unat (d div divisor) < 2 ^ 32"
proof -
  have "take_bit 32 v = v"
    using v by (simp add: word_unat_eq_iff unsigned_take_bit_eq take_bit_nat_eq_self)
  then have "\<not> bit v n" if "32 \<le> n" for n
    using that by (metis bit_take_bit_iff not_le)
  then have "push_bit 32 r AND v = 0"
    by (intro bit_eqI) (auto simp: bit_simps)
  then have "d = push_bit 32 r + v" by (simp add: d_def disjunctive_add_eq_or)
  then show d: "unat d = unat r * 2 ^ 32 + unat v"
    using r v by (simp add: push_bit_eq_mult unat_word_ariths)
  then show q: "unat (d div divisor) = (unat r * 2 ^ 32 + unat v) div 1000000000"
    by (simp add: unat_div divisor_def)
  have "d - d div divisor * divisor = d mod divisor" by (simp add: minus_div_mult_eq_mod)
  then show "unat (d - d div divisor * divisor) = (unat r * 2 ^ 32 + unat v) mod 1000000000"
    by (simp add: unat_mod d) (simp add: divisor_def)
  show "unat (d div divisor) < 2 ^ 32"
    using r v unfolding q by (intro less_mult_imp_div_less) simp
qed

text \<open>The number of leading zero words.\<close>

abbreviation leading :: "u64 list \<Rightarrow> nat" where
  "leading vs \<equiv> length (takeWhile (\<lambda>v. v = 0) vs)"

lemma div_mod_step:
  fixes N B d r v :: nat
  assumes "0 < d"
  shows "((r * B + v) div d) * P + (((r * B + v) mod d) * P + w) div d = (r * (B * P) + v * P + w) div d"
    and "(((r * B + v) mod d) * P + w) mod d = (r * (B * P) + v * P + w) mod d"
proof -
  have "r * (B * P) + v * P + w = (r * B + v) * P + w" by (simp add: algebra_simps)
  also have "\<dots> = ((r * B + v) div d * d + (r * B + v) mod d) * P + w" by simp
  also have "\<dots> = ((r * B + v) mod d * P + w) + d * ((r * B + v) div d * P)" by (simp only: algebra_simps)
  finally have eq: "r * (B * P) + v * P + w = ((r * B + v) mod d * P + w) + d * ((r * B + v) div d * P)" .
  show "((r * B + v) div d) * P + (((r * B + v) mod d) * P + w) div d = (r * (B * P) + v * P + w) div d"
    unfolding eq using assms by simp
  show "(((r * B + v) mod d) * P + w) mod d = (r * (B * P) + v * P + w) mod d"
    unfolding eq by simp
qed

lemma divide_loop_correct:
  assumes "words_ok vs" and "unat r < 1000000000" and "divide_loop vs i r prev from = (vs', r', f)"
  shows "length vs' = length vs \<and> words_ok vs' \<and>
    big vs' = (unat r * 2 ^ (32 * length vs) + big vs) div 1000000000 \<and>
    unat r' = (unat r * 2 ^ (32 * length vs) + big vs) mod 1000000000 \<and>
    f = (if prev \<or> vs = [] \<or> leading vs' = 0 then from else i + leading vs')"
  using assms
proof (induction vs arbitrary: i r prev "from" vs' r' f)
  case Nil
  then show ?case by (auto simp: words_ok_def)
next
  case (Cons v vs)
  have v: "unat v < 2 ^ 32" and vs: "words_ok vs" using Cons.prems(1) by (simp_all add: words_ok_def)
  let ?d = "push_bit 32 r OR v"
  let ?q = "?d div divisor" and ?m = "?d - ?d div divisor * divisor"
  let ?from = "if ?q = 0 \<and> \<not> prev then i + 1 else from"
  note step = dividend_step [OF Cons.prems(2) v]
  obtain ws where ws: "divide_loop vs (i + 1) ?m (?q \<noteq> 0 \<or> prev) ?from = (ws, r', f)" "vs' = ?q # ws"
    using Cons.prems(3) by (auto simp: Let_def split: prod.splits)
  have "unat ?m < 1000000000" unfolding step(3) by simp
  note IH = Cons.IH [OF vs this ws(1)]
  note dm = div_mod_step [of 1000000000 "unat r" "2 ^ 32" "unat v" "2 ^ (32 * length vs)" "big vs"]

  have "big vs' = (unat r * 2 ^ (32 * length (v # vs)) + big (v # vs)) div 1000000000"
    using IH dm(1) by (simp add: ws(2) step power_add add.assoc)
  moreover have "unat r' = (unat r * 2 ^ (32 * length (v # vs)) + big (v # vs)) mod 1000000000"
    using IH dm(2) by (simp add: step power_add add.assoc)
  moreover have "words_ok vs'" using IH step(4) by (simp add: ws(2) words_ok_def)
  moreover have "f = (if prev \<or> leading vs' = 0 then from else i + leading vs')"
    using IH by (auto simp: ws(2))
  ultimately show ?case using IH by (simp add: ws(2))
qed

section \<open>All groups\<close>

lemma takeWhile_shorter: "length (takeWhile P xs) < length xs \<longleftrightarrow> (\<exists>x\<in>set xs. \<not> P x)"
  by (induction xs) auto

lemma divideByWord_correct:
  assumes ok: "words_ok values" and zeros: "\<forall>v\<in>set (take from values). v = 0"
    and div: "divideByWord values from = (r, values', from')"
  shows "words_ok values' \<and> length values' = length values \<and> big values' = big values div 1000000000 \<and>
    unat r = big values mod 1000000000 \<and> (\<forall>v\<in>set (take from' values'). v = 0) \<and>
    (from < length values \<longrightarrow> (from' < length values \<longleftrightarrow> big values' \<noteq> 0))"
proof -
  obtain vs where vs: "divide_loop (drop from values) from 0 False from = (vs, r, from')"
      "values' = take from values @ vs"
    using div by (auto simp: divideByWord_def split: prod.splits)
  have "words_ok (drop from values)" using ok by (auto simp: words_ok_def dest: in_set_dropD)
  note loop = divide_loop_correct [OF this _ vs(1), simplified]
  have tz: "big (take from values) = 0" using zeros by (simp add: big_eq_0)
  have "big (take from values @ drop from values) = big (drop from values)"
    using tz by (simp only: big_append)
  then have bv: "big values = big (drop from values)" by simp
  have bv': "big values' = big vs" using tz by (simp add: vs(2) big_append)
  have f: "from' = from + leading vs" if "from < length values" using loop that by auto
  have "\<forall>v\<in>set (take from' values'). v = 0"
  proof (cases "from < length values")
    case True
    have "take from' values' = take from values @ takeWhile (\<lambda>v. v = 0) vs"
      using True f by (simp add: vs(2) takeWhile_eq_take [symmetric])
    then show ?thesis using zeros by (auto dest: set_takeWhileD)
  next
    case False
    then have "vs = []" using loop by simp
    then show ?thesis using zeros False by (auto simp: vs(2) dest: in_set_takeD)
  qed
  moreover have "from' < length values \<longleftrightarrow> big values' \<noteq> 0" if "from < length values"
  proof -
    have "length vs = length values - from" using loop by simp
    then have "from' < length values \<longleftrightarrow> leading vs < length vs" using f [OF that] that by linarith
    also have "\<dots> \<longleftrightarrow> big values' \<noteq> 0" unfolding bv' big_eq_0 takeWhile_shorter by blast
    finally show ?thesis .
  qed
  moreover have "words_ok (take from values)" using ok by (auto simp: words_ok_def dest: in_set_takeD)
  moreover have "words_ok vs" "length vs = length values - from" "big vs = big values div 1000000000"
      "unat r = big values mod 1000000000"
    using loop by (simp_all add: bv)
  moreover have "length values' = length values" using loop by (simp add: vs(2))
  moreover have "words_ok values'" using calculation by (simp add: vs(2) words_ok_append)
  ultimately show ?thesis by (simp only: bv') simp
qed

fun base9 :: "nat \<Rightarrow> nat list" where
  "base9 N = (if N < 1000000000 then [N] else N mod 1000000000 # base9 (N div 1000000000))"

declare base9.simps [simp del]

lemma divide_groups_correct:
  assumes "words_ok values" and "\<forall>v\<in>set (take from values). v = 0" and "from < length values"
  shows "\<exists>gs. divide_groups values from acc = Some (acc @ gs) \<and> map unat gs = base9 (big values)"
  using assms
proof (induction "big values" arbitrary: "values" "from" acc rule: less_induct)
  case less
  obtain r values' from' where d: "divideByWord values from = (r, values', from')" by (cases "divideByWord values from")
  note c = divideByWord_correct [OF less.prems(1,2) d]
  show ?case
  proof (cases "from' < length values")
    case False
    with c less.prems(3) have "big values div 1000000000 = 0" by simp
    then have "base9 (big values) = [unat r]" using c by (simp add: base9.simps)
    moreover have "divide_groups values from acc = Some (acc @ [r])"
      using less.prems(3) False c
      by (subst divide_groups.simps) (simp add: d, subst divide_groups.simps, simp)
    ultimately show ?thesis by simp
  next
    case True
    with c less.prems(3) have "big values div 1000000000 \<noteq> 0" by metis
    then have big: "1000000000 \<le> big values" by (rule contrapos_np) simp
    then have "big values' < big values" using c by simp
    from less.hyps [OF this, of from' "acc @ [r]"] c True obtain gs where
      gs: "divide_groups values' from' (acc @ [r]) = Some ((acc @ [r]) @ gs)" "map unat gs = base9 (big values')"
      by auto
    have "divide_groups values from acc = Some (acc @ r # gs)"
      using less.prems(3) gs(1) by (subst divide_groups.simps) (simp add: d)
    moreover have "base9 (big values) = unat r # base9 (big values')"
      using big c by (subst base9.simps) simp
    ultimately show ?thesis using gs(2) by (intro exI [of _ "r # gs"]) simp
  qed
qed

section \<open>The text\<close>

definition groups_text_nat :: "nat list \<Rightarrow> string" where
  "groups_text_nat gs =
     (case rev gs of
        [] \<Rightarrow> ''''
      | g # gs' \<Rightarrow> decimal_nat g @ concat (map (\<lambda>g. pad9 (decimal_nat g)) gs'))"

lemma groups_text_unat: "groups_text gs = groups_text_nat (map unat gs)"
  by (simp add: groups_text_def groups_text_nat_def rev_map [symmetric] comp_def split: list.splits)

lemma groups_text_Cons: "gs \<noteq> [] \<Longrightarrow> groups_text_nat (g # gs) = groups_text_nat gs @ pad9 (decimal_nat g)"
  by (cases "rev gs") (auto simp: groups_text_nat_def)

lemma pad9_digits: "g < 1000000000 \<Longrightarrow> pad9 (decimal_nat g) = digits 9 g"
  using digits_pad [of g 8] by (simp add: pad9_def del: digits.simps)

lemma base9_nonempty [simp]: "base9 N \<noteq> []"
  by (subst base9.simps) simp

lemma groups_text_base9: "groups_text_nat (base9 N) = decimal_nat N"
proof (induction N rule: base9.induct)
  case (1 N)
  show ?case
  proof (cases "N < 1000000000")
    case True
    then show ?thesis by (simp add: base9.simps groups_text_nat_def)
  next
    case False
    have "groups_text_nat (base9 N) = decimal_nat (N div 1000000000) @ digits 9 (N mod 1000000000)"
      using 1 [OF False] False by (subst base9.simps) (simp add: groups_text_Cons pad9_digits)
    also have "\<dots> = decimal_nat (N div 1000000000 * 10 ^ 9 + N mod 1000000000)"
      using False by (intro decimal_nat_split [symmetric]) (simp_all add: div_greater_zero_iff)
    finally show ?thesis by simp
  qed
qed

lemma magnitude_text_decimal:
  assumes "values \<noteq> []" and "words_ok values"
  shows "magnitude_text values = Some (decimal_nat (big values))"
proof -
  obtain gs where "divide_groups values 0 [] = Some gs" "map unat gs = base9 (big values)"
    using divide_groups_correct [OF assms(2), of 0 "[]"] assms(1) by auto
  then show ?thesis by (simp add: magnitude_text_def groups_text_unat groups_text_base9)
qed

section \<open>Properties\<close>

text \<open>
  C26: The decimal text of a big integer is right. For every nonempty magnitude of 32 bit words the loop
  of in-place divisions ends, without 64 bit overflow, and the text is the decimal numeral of the number
  that the words denote, with no superfluous leading zero and every inner group padded.
\<close>

theorem big_integer_text:
  assumes "values \<noteq> []" and "words_ok values"
  shows "magnitude_text values = Some (decimal_nat (big values))"
  by (rule magnitude_text_decimal [OF assms])

theorem big_integer_text_witness:
  "magnitude_text [0, 1, 0] = Some (decimal_nat 4294967296)"
  using big_integer_text [of "[0, 1, 0]"] by (simp add: words_ok_def)

end
