(* ===== verification/Dubbo_Output.thy ===== *)
theory Dubbo_Output
  imports Dubbo_Json Dubbo_BigInteger
begin

text \<open>
  From Hessian values to JSON: \<^verbatim>\<open>hessianValueToJsonString\<close> and the class converters of
  \<^verbatim>\<open>source/common/dubbo/utility.cc\<close>.

  A decoded response is a graph: a reference object points at another object, and the code recognises
  objects that are being converted by their address. So objects live in a heap from addresses to nodes,
  in which a pointer to an address without a node is a null pointer, and \<^verbatim>\<open>history\<close> is a set of addresses.

  \<^item> What is written is the list of calls on the JSON writer; the text of a map key that is not a string
    is made with \<open>render\<close>.
  \<^item> The recursion takes fuel, \<open>None\<close> is fuel used up; \<open>Some (Inl _)\<close> is an exception, or the use of a
    null pointer.
  \<^item> \<open>atoi64\<close> is \<^verbatim>\<open>absl::SimpleAtoi\<close>.

  What the conversion writes for a graph is in \<open>Dubbo_Graph\<close>, and what becomes of JSON that is sent and returned in
  \<open>Dubbo_Roundtrip\<close>.
\<close>

section \<open>The heap of objects\<close>

type_synonym address = nat

datatype hnode =
    NNull
  | NBool bool
  | NInt int
  | NLong int
  | NDouble real
  | NDate int
  | NString string
  | NBinary string
  | NUntypedList "address list"
  | NTypedList string "address list"
  | NUntypedMap "(address \<times> address) list"
  | NTypedMap string "(address \<times> address) list"
  | NClass "(string \<times> string list) option" "address list"
  | NRef address

type_synonym heap = "address \<rightharpoonup> hnode"

type_synonym 'a result = "'a throws option"

abbreviation null_error :: string where
  "null_error \<equiv> ''null pointer''"

section \<open>Class converters\<close>

definition checkClassOnlyHasOneValue :: "string \<times> string list \<Rightarrow> 'a list \<Rightarrow> unit throws" where
  "checkClassOnlyHasOneValue def data =
     (if length (snd def) \<noteq> 1 \<or> snd def ! 0 \<noteq> ''value''
      then Inl (''Unknown type definition for: '' @ fst def)
      else if length data \<noteq> 1
      then Inl (''Expected fields size: 1 but actual fields size: '' @ decimal_nat (length data) @ '' for '' @ fst def)
      else Inr ())"

datatype value_kind = KInteger | KLong | KDouble | KDate

definition handleValueNumber :: "heap \<Rightarrow> value_kind \<Rightarrow> string \<times> string list \<Rightarrow> address list \<Rightarrow> json_event list throws" where
  "handleValueNumber h T def data =
     (case checkClassOnlyHasOneValue def data of
        Inl err \<Rightarrow> Inl err
      | Inr _ \<Rightarrow>
          (case h (data ! 0) of
             None \<Rightarrow> Inl null_error
           | Some n \<Rightarrow>
               (case (T, n) of
                  (KInteger, NInt i) \<Rightarrow> Inr [WInt64 i]
                | (KLong, NLong i) \<Rightarrow> Inr [WInt64 i]
                | (KDouble, NDouble d) \<Rightarrow> Inr [WDouble d]
                | (KDate, NDate i) \<Rightarrow> Inr [WInt64 i]
                | _ \<Rightarrow> Inr [WNull])))"

definition convert_big_decimal :: "heap \<Rightarrow> string \<times> string list \<Rightarrow> address list \<Rightarrow> json_event list throws" where
  "convert_big_decimal h def data =
     (case checkClassOnlyHasOneValue def data of
        Inl err \<Rightarrow> Inl err
      | Inr _ \<Rightarrow>
          (case h (data ! 0) of
             None \<Rightarrow> Inl null_error
           | Some (NString s) \<Rightarrow> Inr [WRaw s]
           | Some _ \<Rightarrow> Inr [WNull]))"

text \<open>The loop over the field names keeps the last index of each of the two names.\<close>

fun field_index :: "string \<Rightarrow> nat \<Rightarrow> string list \<Rightarrow> nat option \<Rightarrow> nat option" where
  "field_index name i [] found = found"
| "field_index name i (n # ns) found = field_index name (Suc i) ns (if n = name then Some i else found)"

text \<open>\<^verbatim>\<open>int_value & LONG_LONG_MASK\<close> for the elements, all of which must be integers.\<close>

fun magnitude_words :: "heap \<Rightarrow> address list \<Rightarrow> u64 list option throws" where
  "magnitude_words h [] = Inr (Some [])"
| "magnitude_words h (a # as) =
     (case h a of
        None \<Rightarrow> Inl null_error
      | Some (NInt i) \<Rightarrow>
          (case magnitude_words h as of
             Inr (Some ws) \<Rightarrow> Inr (Some (and (word_of_int i) 0xffffffff # ws))
           | res \<Rightarrow> res)
      | Some _ \<Rightarrow> Inr None)"

definition big_integer_events :: "(string \<Rightarrow> int option) \<Rightarrow> int \<Rightarrow> u64 list \<Rightarrow> json_event list result" where
  "big_integer_events atoi64 sig ws =
     (case magnitude_text ws of
        None \<Rightarrow> None
      | Some text \<Rightarrow>
          (let final_integer_str = (if sig < 0 then ''-'' else '''') @ text
           in case atoi64 final_integer_str of
                Some i \<Rightarrow> Some (Inr [WInt64 i])
              | None \<Rightarrow> Some (Inr [WString final_integer_str])))"

definition convert_big_integer ::
    "(string \<Rightarrow> int option) \<Rightarrow> heap \<Rightarrow> string \<times> string list \<Rightarrow> address list \<Rightarrow> json_event list result" where
  "convert_big_integer atoi64 h def data =
     (case (field_index ''mag'' 0 (snd def) None, field_index ''signum'' 0 (snd def) None) of
        (Some mag_index, Some sig_index) \<Rightarrow>
          (if length data \<le> mag_index \<or> length data \<le> sig_index then Some (Inr [WNull])
           else case h (data ! sig_index) of
             None \<Rightarrow> Some (Inl null_error)
           | Some (NInt sig) \<Rightarrow>
               (if sig = 0 then Some (Inr [WInt64 0])
                else case h (data ! mag_index) of
                  None \<Rightarrow> Some (Inl null_error)
                | Some (NTypedList ty vs) \<Rightarrow>
                    (case magnitude_words h vs of
                       Inl err \<Rightarrow> Some (Inl err)
                     | Inr None \<Rightarrow> Some (Inr [WNull])
                     | Inr (Some ws) \<Rightarrow> big_integer_events atoi64 sig ws)
                | Some _ \<Rightarrow> Some (Inr [WNull]))
           | Some _ \<Rightarrow> Some (Inr [WNull]))
      | _ \<Rightarrow> Some (Inr [WNull]))"

definition TypedClassConverters ::
    "(string \<Rightarrow> int option) \<Rightarrow> heap \<Rightarrow> (string \<times> (string \<times> string list \<Rightarrow> address list \<Rightarrow> json_event list result)) list" where
  "TypedClassConverters atoi64 h =
    [(''java.math.BigDecimal'', \<lambda>def data. Some (convert_big_decimal h def data)),
     (''java.math.BigInteger'', convert_big_integer atoi64 h),
     (''java.sql.Date'', \<lambda>def data. Some (handleValueNumber h KDate def data)),
     (''java.sql.Time'', \<lambda>def data. Some (handleValueNumber h KDate def data)),
     (''java.sql.Timestamp'', \<lambda>def data. Some (handleValueNumber h KDate def data)),
     (''java.util.concurrent.atomic.AtomicInteger'', \<lambda>def data. Some (handleValueNumber h KInteger def data)),
     (''java.util.concurrent.atomic.AtomicLong'', \<lambda>def data. Some (handleValueNumber h KLong def data))]"

section \<open>Conversion of an object\<close>

type_synonym history = "address set"

type_synonym conversion = "history \<Rightarrow> (json_event list \<times> history) result"

text \<open>One conversion after the other, the events and the history threaded through.\<close>

definition then_convert :: "conversion \<Rightarrow> conversion \<Rightarrow> conversion" where
  "then_convert f g H =
     (case f H of
        None \<Rightarrow> None
      | Some (Inl err) \<Rightarrow> Some (Inl err)
      | Some (Inr (evs, H1)) \<Rightarrow>
          (case g H1 of
             None \<Rightarrow> None
           | Some (Inl err) \<Rightarrow> Some (Inl err)
           | Some (Inr (evs', H2)) \<Rightarrow> Some (Inr (evs @ evs', H2))))"

definition emit :: "json_event list \<Rightarrow> conversion" where
  "emit evs H = Some (Inr (evs, H))"

definition enter :: "address \<Rightarrow> conversion" where
  "enter a H = Some (Inr ([], insert a H))"

definition leave :: "address \<Rightarrow> conversion" where
  "leave a H = Some (Inr ([], H - {a}))"

record output_lib =
  render :: "json_event list \<Rightarrow> string"
  atoi64 :: "string \<Rightarrow> int option"

function (sequential) hessianValueToJsonStringInternal :: "output_lib \<Rightarrow> heap \<Rightarrow> nat \<Rightarrow> address \<Rightarrow> conversion"
and convert_all :: "output_lib \<Rightarrow> heap \<Rightarrow> nat \<Rightarrow> address list \<Rightarrow> conversion"
and convert_pairs :: "output_lib \<Rightarrow> heap \<Rightarrow> nat \<Rightarrow> (address \<times> address) list \<Rightarrow> conversion"
and convert_fields :: "output_lib \<Rightarrow> heap \<Rightarrow> nat \<Rightarrow> (string \<times> address) list \<Rightarrow> conversion"
where
  "hessianValueToJsonStringInternal L h 0 a H = None"
| "hessianValueToJsonStringInternal L h (Suc n) a H =
     (case h a of
        None \<Rightarrow> emit [WNull] H
      | Some obj \<Rightarrow>
          (case obj of
             NString s \<Rightarrow> emit [WString s] H
           | NLong i \<Rightarrow> emit [WInt64 i] H
           | NInt i \<Rightarrow> emit [WInt64 i] H
           | NBool b \<Rightarrow> emit [WBool b] H
           | NDouble d \<Rightarrow> emit [WDouble d] H
           | NDate i \<Rightarrow> emit [WInt64 i] H
           | NBinary s \<Rightarrow> emit [WString s] H
           | NNull \<Rightarrow> emit [WNull] H
           | NUntypedList as \<Rightarrow>
               then_convert (emit [StartArray]) (then_convert (enter a) (then_convert (convert_all L h n as)
                 (then_convert (leave a) (emit [EndArray])))) H
           | NTypedList ty as \<Rightarrow>
               then_convert (emit [StartArray]) (then_convert (enter a) (then_convert (convert_all L h n as)
                 (then_convert (leave a) (emit [EndArray])))) H
           | NUntypedMap ps \<Rightarrow>
               then_convert (enter a) (then_convert (emit [StartObject]) (then_convert (convert_pairs L h n ps)
                 (then_convert (emit [EndObject]) (leave a)))) H
           | NTypedMap ty ps \<Rightarrow>
               then_convert (enter a) (then_convert (emit [StartObject]) (then_convert (convert_pairs L h n ps)
                 (then_convert (emit [EndObject]) (leave a)))) H
           | NClass def data \<Rightarrow>
               then_convert (enter a) (then_convert
                 (case def of
                    None \<Rightarrow> emit [WNull]
                  | Some d \<Rightarrow>
                      (case map_of (TypedClassConverters (atoi64 L) h) (fst d) of
                         Some conv \<Rightarrow> (\<lambda>H. map_option (map_sum id (\<lambda>evs. (evs, H))) (conv d data))
                       | None \<Rightarrow>
                           then_convert (emit [StartObject]) (then_convert
                             (convert_fields L h n (zip (snd d) data)) (emit [EndObject]))))
                 (leave a)) H
           | NRef dest \<Rightarrow>
               (if dest \<in> H then emit [WNull] H
                else then_convert (enter a)
                       (then_convert (hessianValueToJsonStringInternal L h n dest) (leave a)) H)))"
| "convert_all L h n [] H = emit [] H"
| "convert_all L h n (a # as) H =
     then_convert (hessianValueToJsonStringInternal L h n a) (convert_all L h n as) H"
| "convert_pairs L h n [] H = emit [] H"
| "convert_pairs L h n ((k, v) # ps) H =
     then_convert
       (\<lambda>H. case h k of
              None \<Rightarrow> Some (Inl null_error)
            | Some (NString s) \<Rightarrow> emit [WString s] H
            | Some _ \<Rightarrow>
                (case hessianValueToJsonStringInternal L h n k {} of
                   None \<Rightarrow> None
                 | Some (Inl err) \<Rightarrow> Some (Inl err)
                 | Some (Inr (evs, _)) \<Rightarrow> emit [WString (render L evs)] H))
       (then_convert (hessianValueToJsonStringInternal L h n v) (convert_pairs L h n ps)) H"
| "convert_fields L h n [] H = emit [] H"
| "convert_fields L h n ((f, a) # fs) H =
     then_convert (emit [WString f])
       (then_convert (hessianValueToJsonStringInternal L h n a) (convert_fields L h n fs)) H"
  by pat_completeness auto

text \<open>The fuel goes down at every object, and a list gets shorter at every step on the same fuel.\<close>

termination
  by (relation "measures
       [case_sum (case_sum (\<lambda>(L, h, n, a, H). n) (\<lambda>(L, h, n, as, H). n))
          (case_sum (\<lambda>(L, h, n, ps, H). n) (\<lambda>(L, h, n, fs, H). n)),
        case_sum (case_sum (\<lambda>_. 0) (\<lambda>(L, h, n, as, H). Suc (length as)))
          (case_sum (\<lambda>(L, h, n, ps, H). Suc (length ps)) (\<lambda>(L, h, n, fs, H). Suc (length fs)))]") auto

definition hessianValueToJsonString :: "output_lib \<Rightarrow> heap \<Rightarrow> nat \<Rightarrow> address \<Rightarrow> string result" where
  "hessianValueToJsonString L h fuel a =
     map_option (map_sum id (\<lambda>(evs, H). render L evs)) (hessianValueToJsonStringInternal L h fuel a {})"

text \<open>The simple getter of \<^verbatim>\<open>bridge/dubbo/simple\<close> gives this text and no response code of its own.\<close>

definition getStringFromResponse :: "output_lib \<Rightarrow> heap \<Rightarrow> nat \<Rightarrow> address \<Rightarrow> (string \<times> u32 option) result" where
  "getStringFromResponse L h fuel a = map_option (map_sum id (\<lambda>value. (value, None))) (hessianValueToJsonString L h fuel a)"

section \<open>A response that is never converted\<close>

text \<open>
  The list 10 holds the list 11 and a reference to the list 13; 11 holds 13; and 13 holds references to 11
  and to itself. All references point at objects that were begun before, as in a decoded stream.
\<close>

definition cyclic_heap :: heap where
  "cyclic_heap =
     [10 \<mapsto> NUntypedList [11, 12], 11 \<mapsto> NUntypedList [13], 12 \<mapsto> NRef 13, 13 \<mapsto> NUntypedList [14, 15],
      14 \<mapsto> NRef 11, 15 \<mapsto> NRef 13]"

lemma cyclic_nodes [simp]:
  "cyclic_heap 10 = Some (NUntypedList [11, 12])" "cyclic_heap 11 = Some (NUntypedList [13])"
  "cyclic_heap 12 = Some (NRef 13)" "cyclic_heap 13 = Some (NUntypedList [14, 15])"
  "cyclic_heap 14 = Some (NRef 11)" "cyclic_heap 15 = Some (NRef 13)"
  by (simp_all add: cyclic_heap_def)

lemmas conversion_defs = then_convert_def emit_def enter_def leave_def

lemma cyclic_inner:
  assumes "11 \<in> H"
  shows "hessianValueToJsonStringInternal L cyclic_heap n 13 H \<in>
    {None, Some (Inr ([StartArray, WNull, WNull, EndArray], H - {13}))}"
proof (cases n)
  case (Suc m)
  with assms show ?thesis by (cases m) (auto simp: conversion_defs)
qed simp

lemma cyclic_outer:
  assumes "11 \<notin> H"
  shows "hessianValueToJsonStringInternal L cyclic_heap n 11 H \<in>
    {None, Some (Inr ([StartArray, StartArray, WNull, WNull, EndArray, EndArray], H - {13}))}"
proof (cases n)
  case (Suc m)
  from Suc assms cyclic_inner [of "insert 11 H" L m] show ?thesis
    by (auto simp: conversion_defs insert_Diff_if)
qed simp

lemma cyclic_diverges:
  "11 \<notin> H \<Longrightarrow> hessianValueToJsonStringInternal L cyclic_heap n 13 H = None"
proof (induction n arbitrary: H rule: less_induct)
  case (less n)
  show ?case
  proof (cases n)
    case (Suc m)
    show ?thesis
    proof (cases m)
      case 0
      with Suc show ?thesis by (simp add: conversion_defs)
    next
      case m: (Suc k)
      have rec: "hessianValueToJsonStringInternal L cyclic_heap k 13 H = None" if "11 \<notin> H" for H
        using less.IH [of k H] Suc m that by simp
      from Suc m less.prems cyclic_outer [of "insert 14 (insert 13 H)" L k] show ?thesis
        by (auto simp: conversion_defs rec)
    qed
  qed simp
qed

section \<open>Properties\<close>

text \<open>
  C30: A response whose conversion never ends. The list 10 above consists of six objects with well-formed
  references, but no amount of recursion converts it: leaving the inner conversion of the list 13 erases it
  from the history while the outer conversion of the same list is still running, so that its reference to
  itself is followed again and again.
\<close>

theorem cyclic_response_never_converted:
  "hessianValueToJsonString L cyclic_heap fuel 10 = None"
proof (cases fuel)
  case (Suc m)
  have "hessianValueToJsonStringInternal L cyclic_heap m 12 H = None" if "11 \<notin> H" "13 \<notin> H" for H
    using that cyclic_diverges by (cases m) (simp_all add: conversion_defs)
  with Suc cyclic_outer [of "{10}" L m] have "hessianValueToJsonStringInternal L cyclic_heap fuel 10 {} = None"
    by (auto simp: conversion_defs)
  then show ?thesis by (simp add: hessianValueToJsonString_def)
qed (simp add: hessianValueToJsonString_def)

end
