(* ===== verification/Dubbo_Graph.thy ===== *)
theory Dubbo_Graph
  imports Dubbo_Output
begin

text \<open>
  What the conversion of a response writes, without its heap, its history and its fuel.

  \<^item> \<open>unfolds h P a t\<close>: the graph below the address \<open>a\<close> unfolds to the tree \<open>t\<close>, in which every reference is followed,
    except that a reference to one of the enclosing objects \<open>P\<close> becomes \<open>RBack\<close>. The key of a map is unfolded on its own.
  \<^item> \<open>print_tree\<close> is the text of a tree, or the exception: it is a function of the tree alone, with arithmetic on numbers
    where the code divides words.
  \<^item> \<open>linked h rank a0\<close> is a condition on the graph, which does not speak of the conversion: every object has a rank above
    the ranks of its parts, and every reference points at an object of lower rank or at one that lies on each path from the
    root to the reference. Such a graph has an unfolding, and its conversion ends with the text of it.
\<close>

section \<open>Trees\<close>

datatype rtree =
    RMissing
  | RLeaf hnode
  | RList "string option" "rtree list"
  | RMap "(rtree \<times> rtree) list"
  | RClass "(string \<times> string list) option" "rtree list"
  | RRef rtree
  | RBack

fun leaf_text :: "hnode \<Rightarrow> json_event list option" where
  "leaf_text NNull = Some [WNull]"
| "leaf_text (NBool b) = Some [WBool b]"
| "leaf_text (NInt i) = Some [WInt64 i]"
| "leaf_text (NLong i) = Some [WInt64 i]"
| "leaf_text (NDouble d) = Some [WDouble d]"
| "leaf_text (NDate i) = Some [WInt64 i]"
| "leaf_text (NString s) = Some [WString s]"
| "leaf_text (NBinary s) = Some [WString s]"
| "leaf_text _ = None"

text \<open>One text after the other; the first exception is the exception of the whole.\<close>

definition join :: "json_event list throws \<Rightarrow> json_event list throws \<Rightarrow> json_event list throws" where
  "join r r' = (case r of Inl e \<Rightarrow> Inl e | Inr a \<Rightarrow> map_sum id (\<lambda>b. a @ b) r')"

definition in_order :: "json_event list throws list \<Rightarrow> json_event list throws" where
  "in_order rs = foldr join rs (Inr [])"

definition bracket :: "json_event \<Rightarrow> json_event list throws \<Rightarrow> json_event \<Rightarrow> json_event list throws" where
  "bracket b r e = join (Inr [b]) (join r (Inr [e]))"

subsection \<open>Registered classes\<close>

text \<open>The one field of a class that wraps a value.\<close>

definition wrapped :: "string \<times> string list \<Rightarrow> rtree list \<Rightarrow> (rtree \<Rightarrow> json_event) \<Rightarrow> json_event list throws" where
  "wrapped def ts f =
     (case checkClassOnlyHasOneValue def ts of
        Inl e \<Rightarrow> Inl e
      | Inr _ \<Rightarrow> (case ts ! 0 of RMissing \<Rightarrow> Inl null_error | t \<Rightarrow> Inr [f t]))"

fun decimal_event :: "rtree \<Rightarrow> json_event" where
  "decimal_event (RLeaf (NString s)) = WRaw s"
| "decimal_event _ = WNull"

fun date_event :: "rtree \<Rightarrow> json_event" where
  "date_event (RLeaf (NDate i)) = WInt64 i"
| "date_event _ = WNull"

fun integer_event :: "rtree \<Rightarrow> json_event" where
  "integer_event (RLeaf (NInt i)) = WInt64 i"
| "integer_event _ = WNull"

fun long_event :: "rtree \<Rightarrow> json_event" where
  "long_event (RLeaf (NLong i)) = WInt64 i"
| "long_event _ = WNull"

text \<open>The digits of a big integer to the base \<open>2 ^ 32\<close>, the most significant one first, and their number.\<close>

fun big_digits :: "rtree list \<Rightarrow> nat list option throws" where
  "big_digits [] = Inr (Some [])"
| "big_digits (RMissing # ts) = Inl null_error"
| "big_digits (RLeaf (NInt i) # ts) = map_sum id (map_option (\<lambda>ns. nat (i mod 2 ^ 32) # ns)) (big_digits ts)"
| "big_digits (_ # ts) = Inr None"

definition big_number :: "nat list \<Rightarrow> nat" where
  "big_number ns = fold (\<lambda>n acc. acc * 2 ^ 32 + n) ns 0"

text \<open>A number that fits \<^verbatim>\<open>int64_t\<close> is written as one, a longer one as a string.\<close>

definition signed_event :: "output_lib \<Rightarrow> int \<Rightarrow> nat list \<Rightarrow> json_event" where
  "signed_event L sig ns =
     (let text = (if sig < 0 then ''-'' else '''') @ (if ns = [] then '''' else decimal_nat (big_number ns))
      in case atoi64 L text of Some i \<Rightarrow> WInt64 i | None \<Rightarrow> WString text)"

definition magnitude_event :: "output_lib \<Rightarrow> int \<Rightarrow> rtree \<Rightarrow> json_event list throws" where
  "magnitude_event L sig mag =
     (case mag of
        RMissing \<Rightarrow> Inl null_error
      | RList (Some ty) ts \<Rightarrow>
          map_sum id (\<lambda>d. [case d of None \<Rightarrow> WNull | Some ns \<Rightarrow> signed_event L sig ns]) (big_digits ts)
      | _ \<Rightarrow> Inr [WNull])"

definition big_integer_text_of :: "output_lib \<Rightarrow> string list \<Rightarrow> rtree list \<Rightarrow> json_event list throws" where
  "big_integer_text_of L names ts =
     (case (field_index ''mag'' 0 names None, field_index ''signum'' 0 names None) of
        (Some m, Some s) \<Rightarrow>
          (if length ts \<le> m \<or> length ts \<le> s then Inr [WNull]
           else case ts ! s of
             RMissing \<Rightarrow> Inl null_error
           | RLeaf (NInt sig) \<Rightarrow> (if sig = 0 then Inr [WInt64 0] else magnitude_event L sig (ts ! m))
           | _ \<Rightarrow> Inr [WNull])
      | _ \<Rightarrow> Inr [WNull])"

definition class_text :: "output_lib \<Rightarrow> string \<times> string list \<Rightarrow> rtree list \<Rightarrow> json_event list throws option" where
  "class_text L def ts =
     (if fst def = ''java.math.BigDecimal'' then Some (wrapped def ts decimal_event)
      else if fst def = ''java.math.BigInteger'' then Some (big_integer_text_of L (snd def) ts)
      else if fst def \<in> {''java.sql.Date'', ''java.sql.Time'', ''java.sql.Timestamp''} then Some (wrapped def ts date_event)
      else if fst def = ''java.util.concurrent.atomic.AtomicInteger'' then Some (wrapped def ts integer_event)
      else if fst def = ''java.util.concurrent.atomic.AtomicLong'' then Some (wrapped def ts long_event)
      else None)"

subsection \<open>The text of a tree\<close>

definition key_text :: "output_lib \<Rightarrow> rtree \<Rightarrow> json_event list throws \<Rightarrow> json_event list throws" where
  "key_text L k r =
     (case k of
        RMissing \<Rightarrow> Inl null_error
      | RLeaf (NString s) \<Rightarrow> Inr [WString s]
      | _ \<Rightarrow> map_sum id (\<lambda>evs. [WString (render L evs)]) r)"

fun print_tree :: "output_lib \<Rightarrow> rtree \<Rightarrow> json_event list throws" where
  "print_tree L RMissing = Inr [WNull]"
| "print_tree L (RLeaf n) = Inr (case leaf_text n of None \<Rightarrow> [] | Some evs \<Rightarrow> evs)"
| "print_tree L (RList ty ts) = bracket StartArray (in_order (map (print_tree L) ts)) EndArray"
| "print_tree L (RMap ps) =
     bracket StartObject (in_order (map (\<lambda>(k, v). join (key_text L k (print_tree L k)) (print_tree L v)) ps)) EndObject"
| "print_tree L (RClass None ts) = Inr [WNull]"
| "print_tree L (RClass (Some def) ts) =
     (case class_text L def ts of
        Some r \<Rightarrow> r
      | None \<Rightarrow>
          bracket StartObject
            (in_order (map (\<lambda>(f, r). join (Inr [WString f]) r) (zip (snd def) (map (print_tree L) ts)))) EndObject)"
| "print_tree L (RRef t) = print_tree L t"
| "print_tree L RBack = Inr [WNull]"

section \<open>The unfolding of a graph\<close>

inductive unfolds :: "heap \<Rightarrow> address set \<Rightarrow> address \<Rightarrow> rtree \<Rightarrow> bool" for h where
  missing: "h a = None \<Longrightarrow> unfolds h P a RMissing"
| leaf: "h a = Some n \<Longrightarrow> leaf_text n \<noteq> None \<Longrightarrow> unfolds h P a (RLeaf n)"
| list: "h a = Some (NUntypedList as) \<Longrightarrow> a \<notin> P \<Longrightarrow> list_all2 (unfolds h (insert a P)) as ts \<Longrightarrow>
    unfolds h P a (RList None ts)"
| typed_list: "h a = Some (NTypedList ty as) \<Longrightarrow> a \<notin> P \<Longrightarrow> list_all2 (unfolds h (insert a P)) as ts \<Longrightarrow>
    unfolds h P a (RList (Some ty) ts)"
| map: "h a \<in> {Some (NUntypedMap ps), Some (NTypedMap ty ps)} \<Longrightarrow> a \<notin> P \<Longrightarrow>
    list_all2 (\<lambda>p q. unfolds h {} (fst p) (fst q) \<and> unfolds h (insert a P) (snd p) (snd q)) ps qs \<Longrightarrow>
    unfolds h P a (RMap qs)"
| object: "h a = Some (NClass def data) \<Longrightarrow> a \<notin> P \<Longrightarrow> list_all2 (unfolds h (insert a P)) data ts \<Longrightarrow>
    unfolds h P a (RClass def ts)"
| upward: "h a = Some (NRef dest) \<Longrightarrow> dest \<in> P \<Longrightarrow> unfolds h P a RBack"
| reference: "h a = Some (NRef dest) \<Longrightarrow> dest \<notin> P \<Longrightarrow> a \<notin> P \<Longrightarrow> unfolds h (insert a P) dest t \<Longrightarrow>
    unfolds h P a (RRef t)"

inductive_cases unfolds_cases: "unfolds h P a t"

lemma list_all2_unique:
  "list_all2 (\<lambda>a t. \<forall>t'. R a t' \<longrightarrow> t = t') xs ts \<Longrightarrow> list_all2 R xs ts' \<Longrightarrow> ts = ts'"
  by (induction arbitrary: ts' rule: list_all2_induct) (auto simp: list_all2_Cons1)

lemma unfolds_unique: "unfolds h P a t \<Longrightarrow> unfolds h P a t' \<Longrightarrow> t = t'"
proof (induction arbitrary: t' rule: unfolds.induct)
  case (list a as P ts)
  then have "list_all2 (\<lambda>a t. \<forall>t'. unfolds h (insert a' P) a t' \<longrightarrow> t = t') as ts" if "a' = a" for a'
    using that by (auto elim: list_all2_mono)
  with list show ?case by (auto elim!: unfolds_cases [of h P a t'] dest: list_all2_unique)
next
  case (typed_list a ty as P ts)
  then have "list_all2 (\<lambda>a t. \<forall>t'. unfolds h (insert a' P) a t' \<longrightarrow> t = t') as ts" if "a' = a" for a'
    using that by (auto elim: list_all2_mono)
  with typed_list show ?case by (auto elim!: unfolds_cases [of h P a t'] dest: list_all2_unique)
next
  case (map a ps ty P qs)
  let ?R = "\<lambda>p q. unfolds h {} (fst p) (fst q) \<and> unfolds h (insert a P) (snd p) (snd q)"
  from map(3) have "list_all2 (\<lambda>p q. \<forall>q'. ?R p q' \<longrightarrow> q = q') ps qs"
    by (rule list_all2_mono) (auto simp: prod_eq_iff)
  then have "qs = qs'" if "list_all2 ?R ps qs'" for qs' using that list_all2_unique [of ?R ps qs qs'] by blast
  with map(1,4) show ?case by (auto elim!: unfolds_cases [of h P a t'])
next
  case (object a def data P ts)
  then have "list_all2 (\<lambda>a t. \<forall>t'. unfolds h (insert a' P) a t' \<longrightarrow> t = t') data ts" if "a' = a" for a'
    using that by (auto elim: list_all2_mono)
  with object show ?case by (auto elim!: unfolds_cases [of h P a t'] dest: list_all2_unique)
next
  case (missing a P)
  then show ?case by (auto elim!: unfolds_cases [of h P a t'])
next
  case (leaf a n P)
  then show ?case by (auto elim!: unfolds_cases [of h P a t'])
next
  case (upward a dest P)
  then show ?case by (auto elim!: unfolds_cases [of h P a t'])
next
  case (reference a dest P t)
  from reference.prems reference.hyps(1,2) obtain u where u: "t' = RRef u" "unfolds h (insert a P) dest u"
    by cases auto
  from reference.IH [OF u(2)] u(1) show ?case by simp
qed

subsection \<open>Converters on the heap and on trees\<close>

lemma one_value_tree:
  assumes "list_all2 (unfolds h Q) data ts"
  shows "checkClassOnlyHasOneValue def data = checkClassOnlyHasOneValue def ts"
  using list_all2_lengthD [OF assms] by (simp add: checkClassOnlyHasOneValue_def)

lemma wrapped_tree:
  assumes ts: "list_all2 (unfolds h Q) data ts" and one: "checkClassOnlyHasOneValue def data = Inr ()"
  shows "unfolds h Q (data ! 0) (ts ! 0)"
proof -
  from one have "length data = 1" by (simp add: checkClassOnlyHasOneValue_def split: if_splits)
  then have "0 < length data" by simp
  then show ?thesis by (rule list_all2_nthD [OF ts])
qed

lemma number_tree:
  assumes ts: "list_all2 (unfolds h Q) data ts"
  shows "handleValueNumber h KDate def data = wrapped def ts date_event"
    and "handleValueNumber h KInteger def data = wrapped def ts integer_event"
    and "handleValueNumber h KLong def data = wrapped def ts long_event"
    and "convert_big_decimal h def data = wrapped def ts decimal_event"
proof -
  note one = one_value_tree [OF ts, of def, symmetric]
  note defs = handleValueNumber_def wrapped_def convert_big_decimal_def one
  have t: "unfolds h Q (data ! 0) (ts ! 0)" if "checkClassOnlyHasOneValue def data = Inr u" for u
    using wrapped_tree [OF ts, of def] that by simp
  show "handleValueNumber h KDate def data = wrapped def ts date_event"
    "handleValueNumber h KInteger def data = wrapped def ts integer_event"
    "handleValueNumber h KLong def data = wrapped def ts long_event"
    "convert_big_decimal h def data = wrapped def ts decimal_event"
    unfolding defs
    by (cases "checkClassOnlyHasOneValue def data"; simp; drule t; erule unfolds_cases; auto split: hnode.splits)+
qed

text \<open>The words of a big integer, which the code divides, and its digits.\<close>

lemma word_digit: "unat (and (word_of_int i) 0xffffffff :: u64) = nat (i mod 2 ^ 32)"
proof -
  have "(0xffffffff :: u64) = mask 32" by (simp add: mask_eq_exp_minus_1)
  then have "(and (word_of_int i) 0xffffffff :: u64) = take_bit 32 (word_of_int i)" by (simp add: take_bit_eq_mask)
  also have "unat \<dots> = nat (i mod 2 ^ 32)"
    by (simp add: unsigned_take_bit_eq unsigned_of_int take_bit_nat_eq flip: take_bit_eq_mod [of 32 i, simplified])
  finally show ?thesis .
qed

lemma big_fold: "fold (\<lambda>n acc. acc * 2 ^ 32 + n) (map unat ws) acc = acc * 2 ^ (32 * length ws) + big ws"
  by (induction ws arbitrary: acc) (simp_all add: algebra_simps power_add)

lemma big_big_number: "big_number (map unat ws) = big ws"
  using big_fold [of ws 0] by (simp add: big_number_def)

lemma int_view:
  assumes "unfolds h Q a t"
  shows "t = RMissing \<longleftrightarrow> h a = None" and "t = RLeaf (NInt i) \<longleftrightarrow> h a = Some (NInt i)"
  using assms by (cases; auto)+

lemma magnitude_step:
  assumes t: "unfolds h Q a t"
  shows "magnitude_words h (a # as) =
      (if t = RMissing then Inl null_error
       else case t of RLeaf (NInt i) \<Rightarrow>
            map_sum id (map_option (\<lambda>ws. and (word_of_int i) 0xffffffff # ws)) (magnitude_words h as)
          | _ \<Rightarrow> Inr None)"
    and "big_digits (t # ts) =
      (if t = RMissing then Inl null_error
       else case t of RLeaf (NInt i) \<Rightarrow> map_sum id (map_option (\<lambda>ns. nat (i mod 2 ^ 32) # ns)) (big_digits ts)
          | _ \<Rightarrow> Inr None)"
proof -
  show "magnitude_words h (a # as) =
      (if t = RMissing then Inl null_error
       else case t of RLeaf (NInt i) \<Rightarrow>
            map_sum id (map_option (\<lambda>ws. and (word_of_int i) 0xffffffff # ws)) (magnitude_words h as)
          | _ \<Rightarrow> Inr None)"
    using t by cases (auto split: sum.split option.split hnode.split)
  show "big_digits (t # ts) =
      (if t = RMissing then Inl null_error
       else case t of RLeaf (NInt i) \<Rightarrow> map_sum id (map_option (\<lambda>ns. nat (i mod 2 ^ 32) # ns)) (big_digits ts)
          | _ \<Rightarrow> Inr None)"
    by (cases t) (auto split: hnode.split)
qed

lemma not_int_case: "(\<And>i. t \<noteq> RLeaf (NInt i)) \<Longrightarrow> (case t of RLeaf (NInt i) \<Rightarrow> f i | _ \<Rightarrow> c) = c"
  by (cases t) (auto split: hnode.split)

lemma magnitude_tree:
  "list_all2 (unfolds h Q) vs ts \<Longrightarrow>
     (\<exists>e. magnitude_words h vs = Inl e \<and> big_digits ts = Inl e) \<or>
     (magnitude_words h vs = Inr None \<and> big_digits ts = Inr None) \<or>
     (\<exists>ws. magnitude_words h vs = Inr (Some ws) \<and> big_digits ts = Inr (Some (map unat ws)) \<and> words_ok ws)"
proof (induction rule: list_all2_induct)
  case (Cons a as t ts)
  note step = magnitude_step [OF Cons(1)]
  consider "t = RMissing" | i where "t = RLeaf (NInt i)" | "t \<noteq> RMissing" "\<And>i. t \<noteq> RLeaf (NInt i)" by blast
  then show ?case
  proof cases
    case 2
    have "unat (and (word_of_int i) 0xffffffff :: u64) < 2 ^ 32" by (simp add: word_digit nat_less_iff)
    with Cons(3) 2 show ?thesis unfolding step by (auto simp: word_digit words_ok_def)
  next
    case 3
    then show ?thesis unfolding step by (simp add: not_int_case)
  qed (use int_view(1) [OF Cons(1)] in simp)
qed (simp add: words_ok_def)

lemma big_integer_events_tree:
  assumes "words_ok ws"
  shows "big_integer_events (atoi64 L) sig ws = Some (Inr [signed_event L sig (map unat ws)])"
proof -
  have "divide_groups [] 0 [] = Some []" by (subst divide_groups.simps) simp
  then have "magnitude_text ws = Some (if ws = [] then '''' else decimal_nat (big ws))"
    using magnitude_text_decimal [OF _ assms] by (auto simp: magnitude_text_def groups_text_def)
  then show ?thesis
    by (simp add: big_integer_events_def signed_event_def big_big_number Let_def split: option.split)
qed

lemma big_integer_tree:
  assumes ts: "list_all2 (unfolds h Q) data ts"
  shows "convert_big_integer (atoi64 L) h def data = Some (big_integer_text_of L (snd def) ts)"
proof (cases "field_index ''mag'' 0 (snd def) None = None \<or> field_index ''signum'' 0 (snd def) None = None")
  case True
  then show ?thesis by (auto simp: convert_big_integer_def big_integer_text_of_def split: option.splits)
next
  case False
  then obtain m s where ms: "field_index ''mag'' 0 (snd def) None = Some m" "field_index ''signum'' 0 (snd def) None = Some s"
    by auto
  have len: "length data = length ts" using ts by (rule list_all2_lengthD)
  show ?thesis
  proof (cases "length ts \<le> m \<or> length ts \<le> s")
    case True
    with ms len show ?thesis by (simp add: convert_big_integer_def big_integer_text_of_def)
  next
    case False
    then have sig: "unfolds h Q (data ! s) (ts ! s)" and mag: "unfolds h Q (data ! m) (ts ! m)"
      using list_all2_nthD [OF ts] len by auto
    have m_text: "(case h (data ! m) of
          None \<Rightarrow> Some (Inl null_error)
        | Some (NTypedList ty vs) \<Rightarrow>
            (case magnitude_words h vs of
               Inl err \<Rightarrow> Some (Inl err)
             | Inr None \<Rightarrow> Some (Inr [WNull])
             | Inr (Some ws) \<Rightarrow> big_integer_events (atoi64 L) i ws)
        | Some _ \<Rightarrow> Some (Inr [WNull])) = Some (magnitude_event L i (ts ! m))" for i
      using mag
    proof cases
      case (typed_list ty as us)
      then show ?thesis using magnitude_tree [of h "insert (data ! m) Q" as us]
        by (auto simp: magnitude_event_def big_integer_events_tree)
    qed (auto simp: magnitude_event_def split: hnode.splits)
    show ?thesis
    proof (cases "\<exists>i. ts ! s = RLeaf (NInt i)")
      case True
      then obtain i where i: "ts ! s = RLeaf (NInt i)" by blast
      then have "h (data ! s) = Some (NInt i)" using int_view(2) [OF sig] by simp
      with i False ms len m_text [of i] show ?thesis
        by (simp add: convert_big_integer_def big_integer_text_of_def)
    next
      case other: False
      then have "h (data ! s) \<noteq> Some (NInt i)" for i using int_view(2) [OF sig] by simp
      then have "(case h (data ! s) of None \<Rightarrow> c | Some (NInt i) \<Rightarrow> f i | Some _ \<Rightarrow> d) = (if h (data ! s) = None then c else d)"
        for c d :: "json_event list result" and f by (auto split: option.split hnode.split)
      moreover have "(case ts ! s of RMissing \<Rightarrow> c | RLeaf (NInt i) \<Rightarrow> f i | _ \<Rightarrow> d) = (if h (data ! s) = None then c else d)"
        for c d :: "json_event list throws" and f
        using other int_view(1) [OF sig] by (cases "ts ! s") (auto split: hnode.split)
      ultimately show ?thesis using False ms len by (simp add: convert_big_integer_def big_integer_text_of_def)
    qed
  qed
qed

lemma registered_tree:
  assumes "list_all2 (unfolds h Q) data ts"
  shows "(case map_of (TypedClassConverters (atoi64 L) h) (fst def) of
      None \<Rightarrow> class_text L def ts = None
    | Some conv \<Rightarrow> conv def data = class_text L def ts)"
  by (simp add: TypedClassConverters_def class_text_def number_tree [OF assms] big_integer_tree [OF assms])

lemma registered_known:
  "class_text L def ts = None \<longleftrightarrow> map_of (TypedClassConverters (atoi64 L) h) (fst def) = None"
  by (simp add: TypedClassConverters_def class_text_def)

section \<open>The conversion of a graph that unfolds\<close>

text \<open>With enough fuel, \<open>f\<close> has the result \<open>r\<close> and leaves the history \<open>P\<close> as it is.\<close>

definition result_of :: "json_event list throws \<Rightarrow> history \<Rightarrow> (json_event list \<times> history) result" where
  "result_of r P = Some (map_sum id (\<lambda>evs. (evs, P)) r)"

definition gives :: "(nat \<Rightarrow> conversion) \<Rightarrow> history \<Rightarrow> json_event list throws \<Rightarrow> bool" where
  "gives f P r \<longleftrightarrow> (\<exists>n0. \<forall>n\<ge>n0. f n P = result_of r P)"

lemma result_join: "f P = result_of r P \<Longrightarrow> g P = result_of r' P \<Longrightarrow> then_convert f g P = result_of (join r r') P"
  by (cases r; cases r') (simp_all add: then_convert_def result_of_def join_def)

lemma gives_join:
  assumes "gives f P r" and "gives g P r'"
  shows "gives (\<lambda>n. then_convert (f n) (g n)) P (join r r')"
proof -
  obtain n1 n2 where "\<forall>n\<ge>n1. f n P = result_of r P" "\<forall>n\<ge>n2. g n P = result_of r' P"
    using assms by (auto simp: gives_def)
  then have "\<forall>n\<ge>max n1 n2. then_convert (f n) (g n) P = result_of (join r r') P" by (simp add: result_join)
  then show ?thesis unfolding gives_def by blast
qed

lemma emit_result: "emit evs P = result_of (Inr evs) P"
  by (simp add: emit_def result_of_def)

lemma gives_emit: "gives (\<lambda>n. emit evs) P (Inr evs)"
  by (simp add: gives_def emit_result)

lemma gives_Suc:
  assumes "gives g Q r" and "\<And>n. g n Q = result_of r Q \<Longrightarrow> f (Suc n) P = result_of r' P"
  shows "gives f P r'"
proof -
  obtain n0 where "\<forall>n\<ge>n0. g n Q = result_of r Q" using assms(1) by (auto simp: gives_def)
  then have "f n P = result_of r' P" if "Suc n0 \<le> n" for n using assms(2) [of "n - 1"] that by (cases n) auto
  then show ?thesis unfolding gives_def by blast
qed

lemma gives_direct: "(\<And>n. f (Suc n) P = result_of r P) \<Longrightarrow> gives f P r"
  unfolding gives_def by (metis Suc_le_D)

text \<open>A container is entered, its parts are converted, and it is left.\<close>

lemma inside:
  assumes "g (insert a P) = result_of r (insert a P)" and "a \<notin> P"
  shows "then_convert (enter a) (then_convert g (leave a)) P = result_of r P"
    and "then_convert (emit [b]) (then_convert (enter a) (then_convert g (then_convert (leave a) (emit [e])))) P =
      result_of (bracket b r e) P"
    and "then_convert (enter a) (then_convert (emit [b]) (then_convert g (then_convert (emit [e]) (leave a)))) P =
      result_of (bracket b r e) P"
    and "then_convert (enter a) (then_convert (then_convert (emit [b]) (then_convert g (emit [e]))) (leave a)) P =
      result_of (bracket b r e) P"
  using assms
  by (cases r; simp add: conversion_defs result_of_def bracket_def join_def)+

abbreviation converts :: "output_lib \<Rightarrow> heap \<Rightarrow> address set \<Rightarrow> address \<Rightarrow> rtree \<Rightarrow> bool" where
  "converts L h P a t \<equiv> gives (\<lambda>n. hessianValueToJsonStringInternal L h n a) P (print_tree L t)"

lemma all_gives:
  "list_all2 (converts L h P) as ts \<Longrightarrow> gives (\<lambda>n. convert_all L h n as) P (in_order (map (print_tree L) ts))"
proof (induction rule: list_all2_induct)
  case Nil
  show ?case by (simp add: gives_def emit_result in_order_def)
next
  case (Cons a as t ts)
  from gives_join [OF Cons(1,3)] show ?case by (simp add: gives_def in_order_def)
qed

lemma fields_gives:
  "list_all2 (converts L h P) as ts \<Longrightarrow>
     gives (\<lambda>n. convert_fields L h n (zip fs as)) P
       (in_order (map (\<lambda>(f, r). join (Inr [WString f]) r) (zip fs (map (print_tree L) ts))))"
proof (induction arbitrary: fs rule: list_all2_induct)
  case Nil
  show ?case by (simp add: gives_def emit_result in_order_def)
next
  case (Cons a as t ts)
  show ?case
  proof (cases fs)
    case Nil
    show ?thesis by (simp add: gives_def emit_result in_order_def Nil)
  next
    case fs: (Cons f fs')
    have assoc: "join x (join y z) = join (join x y) z" for x y z
      by (cases x; cases y; cases z) (simp_all add: join_def)
    from gives_join [OF gives_emit [of "[WString f]"] gives_join [OF Cons(1) Cons(3) [of fs']]] show ?thesis
      by (simp add: gives_def in_order_def fs assoc)
  qed
qed

lemma string_view:
  assumes "unfolds h Q a t"
  shows "t = RLeaf (NString s) \<longleftrightarrow> h a = Some (NString s)"
  using assms by (cases; auto)

lemma key_result:
  assumes k: "unfolds h {} a k" and c: "hessianValueToJsonStringInternal L h n a {} = result_of (print_tree L k) {}"
  shows "(case h a of
              None \<Rightarrow> Some (Inl null_error)
            | Some (NString s) \<Rightarrow> emit [WString s] P
            | Some _ \<Rightarrow>
                (case hessianValueToJsonStringInternal L h n a {} of
                   None \<Rightarrow> None
                 | Some (Inl err) \<Rightarrow> Some (Inl err)
                 | Some (Inr (evs, _)) \<Rightarrow> emit [WString (render L evs)] P)) = result_of (key_text L k (print_tree L k)) P"
proof -
  consider "h a = None" | s where "h a = Some (NString s)" | x where "h a = Some x" "\<And>s. x \<noteq> NString s"
    by (cases "h a") auto
  then show ?thesis
  proof cases
    case 1
    with int_view(1) [OF k] show ?thesis by (simp add: key_text_def result_of_def)
  next
    case 2
    with string_view [OF k] have "k = RLeaf (NString s)" by simp
    with 2 show ?thesis by (simp add: key_text_def emit_result)
  next
    case 3
    then have "k \<noteq> RMissing" "\<And>s. k \<noteq> RLeaf (NString s)" using int_view(1) [OF k] string_view [OF k] by simp_all
    then have "key_text L k r = map_sum id (\<lambda>evs. [WString (render L evs)]) r" for r
      by (cases k) (auto simp: key_text_def split: hnode.split)
    then show ?thesis unfolding 3(1) c
      by (cases "print_tree L k") (use 3(2) in \<open>cases x; simp add: result_of_def emit_def\<close>)+
  qed
qed

lemma pairs_gives:
  "list_all2 (\<lambda>p q. (unfolds h {} (fst p) (fst q) \<and> converts L h {} (fst p) (fst q)) \<and> converts L h P (snd p) (snd q)) ps qs \<Longrightarrow>
     gives (\<lambda>n. convert_pairs L h n ps) P
       (in_order (map (\<lambda>(k, v). join (key_text L k (print_tree L k)) (print_tree L v)) qs))"
proof (induction rule: list_all2_induct)
  case Nil
  show ?case by (simp add: gives_def emit_result in_order_def)
next
  case (Cons p ps q qs)
  obtain a b k v where pq: "p = (a, b)" "q = (k, v)" by (cases p; cases q)
  obtain n1 where n1: "\<And>n. n \<ge> n1 \<Longrightarrow> hessianValueToJsonStringInternal L h n a {} = result_of (print_tree L k) {}"
    using Cons(1) pq by (auto simp: gives_def)
  obtain n2 where n2: "\<And>n. n \<ge> n2 \<Longrightarrow> hessianValueToJsonStringInternal L h n b P = result_of (print_tree L v) P"
    using Cons(1) pq by (auto simp: gives_def)
  obtain n3 where n3: "\<And>n. n \<ge> n3 \<Longrightarrow> convert_pairs L h n ps P =
      result_of (in_order (map (\<lambda>(k, v). join (key_text L k (print_tree L k)) (print_tree L v)) qs)) P"
    using Cons(3) by (auto simp: gives_def)
  have k: "unfolds h {} a k" using Cons(1) pq by simp
  have assoc: "join x (join y z) = join (join x y) z" for x y z
    by (cases x; cases y; cases z) (simp_all add: join_def)
  have "convert_pairs L h n (p # ps) P =
      result_of (in_order (map (\<lambda>(k, v). join (key_text L k (print_tree L k)) (print_tree L v)) (q # qs))) P"
    if "n \<ge> max n1 (max n2 n3)" for n
  proof -
    have "n \<ge> n1" "n \<ge> n2" "n \<ge> n3" using that by auto
    note parts = key_result [OF k n1 [OF this(1)], of P] n2 [OF this(2)] n3 [OF this(3)]
    have "then_convert (hessianValueToJsonStringInternal L h n b) (convert_pairs L h n ps) P =
        result_of (join (print_tree L v) (in_order (map (\<lambda>(k, v). join (key_text L k (print_tree L k)) (print_tree L v)) qs))) P"
      by (rule result_join, rule parts(2), rule parts(3))
    then show ?thesis unfolding pq convert_pairs.simps
      by (rule trans [OF result_join [where f = "\<lambda>H. _ H"], rotated]) (simp_all add: in_order_def assoc parts(1))
  qed
  then show ?case unfolding gives_def by blast
qed

lemma unfolds_converts: "unfolds h P a t \<Longrightarrow> converts L h P a t"
proof (induction rule: unfolds.induct)
  case (list a as P ts)
  from list(3) have "list_all2 (converts L h (insert a P)) as ts" by (auto elim: list_all2_mono)
  from all_gives [OF this] show ?case
    by (rule gives_Suc) (simp add: list(1) inside(2) [OF _ list(2)])
next
  case (typed_list a ty as P ts)
  from typed_list(3) have "list_all2 (converts L h (insert a P)) as ts" by (auto elim: list_all2_mono)
  from all_gives [OF this] show ?case
    by (rule gives_Suc) (simp add: typed_list(1) inside(2) [OF _ typed_list(2)])
next
  case (map a ps ty P qs)
  from map(3) have "list_all2 (\<lambda>p q. (unfolds h {} (fst p) (fst q) \<and> converts L h {} (fst p) (fst q)) \<and>
      converts L h (insert a P) (snd p) (snd q)) ps qs"
    by (auto elim: list_all2_mono)
  from pairs_gives [OF this] show ?case
    by (rule gives_Suc) (use map(1) in \<open>auto simp: inside(3) [OF _ map(2)]\<close>)
next
  case (object a def data P ts)
  from object(3) have ts: "list_all2 (unfolds h (insert a P)) data ts" by (auto elim: list_all2_mono)
  from object(3) have c: "list_all2 (converts L h (insert a P)) data ts" by (auto elim: list_all2_mono)
  show ?case
  proof (cases def)
    case None
    show ?thesis
      by (rule gives_direct)
        (use object(2) in \<open>simp add: object(1) None inside(1) [where r = "Inr [WNull]"] emit_result\<close>)
  next
    case (Some d)
    show ?thesis
    proof (cases "map_of (TypedClassConverters (atoi64 L) h) (fst d)")
      case None
      with registered_tree [OF ts, of L d] have "class_text L d ts = None" by simp
      with fields_gives [OF c, of "snd d"] show ?thesis
        by (intro gives_Suc [OF fields_gives [OF c, of "snd d"]])
          (simp add: object(1) Some None inside(4) [OF _ object(2)])
    next
      case conv: (Some conv)
      with registered_tree [OF ts, of L d] have r: "conv d data = class_text L d ts" by simp
      have "class_text L d ts \<noteq> None" using conv registered_known [of L d ts h] by simp
      then obtain r where r': "class_text L d ts = Some r" by auto
      have "(\<lambda>H. map_option (map_sum id (\<lambda>evs. (evs, H))) (conv d data)) = result_of r"
        using r r' by (simp add: result_of_def fun_eq_iff)
      then show ?thesis
        by (intro gives_direct) (use object(2) in \<open>simp add: object(1) Some conv r' inside(1)\<close>)
    qed
  qed
next
  case (reference a dest P t)
  from reference.IH show ?case
    by (rule gives_Suc) (use reference(2) in \<open>simp add: reference(1) inside(1) [OF _ reference(3)]\<close>)
next
  case (leaf a n P)
  then show ?case by (intro gives_direct) (cases n; simp add: emit_result)
qed (rule gives_direct; simp add: emit_result)+

section \<open>Graphs that unfold\<close>

text \<open>The parts of an object that are converted within it, and the keys of a map, which are converted on their own.\<close>

definition parts :: "heap \<Rightarrow> address \<Rightarrow> address list" where
  "parts h a =
     (case h a of
        Some (NUntypedList as) \<Rightarrow> as
      | Some (NTypedList ty as) \<Rightarrow> as
      | Some (NUntypedMap ps) \<Rightarrow> map snd ps
      | Some (NTypedMap ty ps) \<Rightarrow> map snd ps
      | Some (NClass def data) \<Rightarrow> data
      | _ \<Rightarrow> [])"

definition keys :: "heap \<Rightarrow> address \<Rightarrow> address list" where
  "keys h a = (case h a of Some (NUntypedMap ps) \<Rightarrow> map fst ps | Some (NTypedMap ty ps) \<Rightarrow> map fst ps | _ \<Rightarrow> [])"

text \<open>\<open>path h rank r P a\<close>: there is a path from \<open>r\<close> down to \<open>a\<close>, on which \<open>P\<close> are the objects above \<open>a\<close>.\<close>

inductive path :: "heap \<Rightarrow> (address \<Rightarrow> nat) \<Rightarrow> address \<Rightarrow> address set \<Rightarrow> address \<Rightarrow> bool" for h rank r where
  start: "path h rank r {} r"
| part: "path h rank r P a \<Longrightarrow> b \<in> set (parts h a) \<Longrightarrow> path h rank r (insert a P) b"
| reference: "path h rank r P a \<Longrightarrow> h a = Some (NRef b) \<Longrightarrow> rank b < rank a \<Longrightarrow> path h rank r (insert a P) b"

definition linked :: "heap \<Rightarrow> (address \<Rightarrow> nat) \<Rightarrow> address \<Rightarrow> bool" where
  "linked h rank a0 \<longleftrightarrow>
     (\<forall>a b. b \<in> set (parts h a) \<or> b \<in> set (keys h a) \<longrightarrow> rank b < rank a) \<and>
     (\<forall>r P a dest. (r = a0 \<or> (\<exists>m. r \<in> set (keys h m))) \<and> path h rank r P a \<and> h a = Some (NRef dest) \<longrightarrow>
        dest \<in> P \<or> rank dest < rank a)"

lemma path_rank:
  assumes "linked h rank a0"
  shows "path h rank r P a \<Longrightarrow> p \<in> P \<Longrightarrow> rank a < rank p"
proof (induction arbitrary: p rule: path.induct)
  case (part P a b)
  have "rank b < rank a" using assms part(2) by (auto simp: linked_def)
  with part.IH part.prems show ?case using less_trans by blast
next
  case (reference P a b)
  then show ?case using less_trans by blast
qed simp

lemma list_all2_choice: "(\<And>x. x \<in> set xs \<Longrightarrow> \<exists>y. R x y) \<Longrightarrow> \<exists>ys. list_all2 R xs ys"
proof (induction xs)
  case (Cons x xs)
  then obtain ys where ys: "list_all2 R xs ys" by auto
  obtain y where "R x y" using Cons.prems [of x] by auto
  with ys have "list_all2 R (x # xs) (y # ys)" by simp
  then show ?case by blast
qed auto

lemma linked_unfolds:
  assumes linked: "linked h rank a0"
  shows "r = a0 \<or> (\<exists>m. r \<in> set (keys h m)) \<Longrightarrow> path h rank r P a \<Longrightarrow> \<exists>t. unfolds h P a t"
proof (induction "rank a" arbitrary: r P a rule: less_induct)
  case less
  have notin: "a \<notin> P" using path_rank [OF linked less.prems(2)] by blast
  have part: "\<exists>t. unfolds h (insert a P) b t" if "b \<in> set (parts h a)" for b
    using less.hyps [OF _ less.prems(1) path.part [OF less.prems(2) that]] linked that by (auto simp: linked_def)
  have key: "\<exists>t. unfolds h {} b t" if "b \<in> set (keys h a)" for b
    using less.hyps [OF _ _ path.start [of h rank b]] linked that by (auto simp: linked_def)
  show ?case
  proof (cases "h a")
    case None
    then show ?thesis by (blast intro: unfolds.missing)
  next
    case (Some n)
    have pairs: "\<exists>qs. list_all2 (\<lambda>p q. unfolds h {} (fst p) (fst q) \<and> unfolds h (insert a P) (snd p) (snd q)) ps qs"
      if "\<And>b. b \<in> set (map snd ps) \<Longrightarrow> b \<in> set (parts h a)" "\<And>b. b \<in> set (map fst ps) \<Longrightarrow> b \<in> set (keys h a)" for ps
    proof (rule list_all2_choice)
      fix p assume "p \<in> set ps"
      then have "\<exists>t. unfolds h {} (fst p) t" "\<exists>t. unfolds h (insert a P) (snd p) t" using that part key by auto
      then show "\<exists>q. unfolds h {} (fst p) (fst q) \<and> unfolds h (insert a P) (snd p) (snd q)" by auto
    qed
    have all: "\<exists>ts. list_all2 (unfolds h (insert a P)) as ts" if "parts h a = as" for as
      using that part by (intro list_all2_choice) auto
    show ?thesis
    proof (cases n)
      case (NUntypedList as)
      then show ?thesis using Some notin all by (auto simp: parts_def intro: unfolds.list)
    next
      case (NTypedList ty as)
      then show ?thesis using Some notin all by (auto simp: parts_def intro: unfolds.typed_list)
    next
      case (NUntypedMap ps)
      then obtain qs where "list_all2 (\<lambda>p q. unfolds h {} (fst p) (fst q) \<and> unfolds h (insert a P) (snd p) (snd q)) ps qs"
        using Some pairs [of ps] by (auto simp: parts_def keys_def)
      then show ?thesis using Some NUntypedMap notin by (blast intro: unfolds.map)
    next
      case (NTypedMap ty ps)
      then obtain qs where "list_all2 (\<lambda>p q. unfolds h {} (fst p) (fst q) \<and> unfolds h (insert a P) (snd p) (snd q)) ps qs"
        using Some pairs [of ps] by (auto simp: parts_def keys_def)
      then show ?thesis using Some NTypedMap notin by (blast intro: unfolds.map)
    next
      case (NClass def data)
      then show ?thesis using Some notin all by (auto simp: parts_def intro: unfolds.object)
    next
      case (NRef dest)
      show ?thesis
      proof (cases "dest \<in> P")
        case True
        with Some NRef show ?thesis by (blast intro: unfolds.upward)
      next
        case False
        then have "rank dest < rank a" using linked less.prems Some NRef unfolding linked_def by blast
        then have "\<exists>t. unfolds h (insert a P) dest t"
          using less.hyps [OF _ less.prems(1) path.reference [OF less.prems(2)]] Some NRef by simp
        with False Some NRef notin show ?thesis by (blast intro: unfolds.reference)
      qed
    qed (rule exI, rule unfolds.leaf, rule Some, simp)+
  qed
qed

section \<open>Properties\<close>

text \<open>
  C25: Converting an object graph to JSON. Let the objects have ranks such that every object ranks above its parts, and
  every reference points at an object of lower rank, or at one that lies on every path from the root to the reference (or
  from the key of a map in which the reference lies). Then the graph unfolds to one finite tree, and with enough fuel the
  conversion ends and gives exactly what \<open>print_tree\<close> gives for it: the exception, or the text, with shared objects
  written at every place that refers to them, null for a reference to an enclosing object, keys that are not strings in
  their own text, and the values of the registered classes.
\<close>

theorem hessian_output_correct:
  assumes "linked h rank a"
  shows "\<exists>t. (\<forall>t'. unfolds h {} a t' \<longleftrightarrow> t' = t) \<and>
    (\<exists>n0. \<forall>n\<ge>n0. hessianValueToJsonString L h n a = Some (map_sum id (render L) (print_tree L t)))"
proof -
  obtain t where t: "unfolds h {} a t" using linked_unfolds [OF assms _ path.start] by blast
  from unfolds_converts [OF t] obtain n0 where
    n0: "\<And>n. n0 \<le> n \<Longrightarrow> hessianValueToJsonStringInternal L h n a {} = result_of (print_tree L t) {}"
    by (auto simp: gives_def)
  have "hessianValueToJsonString L h n a = Some (map_sum id (render L) (print_tree L t))" if "n0 \<le> n" for n
    using n0 [OF that] by (cases "print_tree L t") (simp_all add: hessianValueToJsonString_def result_of_def)
  with t unfolds_unique [OF t] show ?thesis by blast
qed

text \<open>A list with a shared map whose key is a number, and a reference back to the list.\<close>

definition example_graph :: heap where
  "example_graph =
     [7 \<mapsto> NUntypedList [8, 9, 10], 8 \<mapsto> NUntypedMap [(5, 6)], 9 \<mapsto> NRef 8, 10 \<mapsto> NRef 7, 5 \<mapsto> NInt 1,
      6 \<mapsto> NClass (Some (''java.math.BigDecimal'', [''value''])) [4], 4 \<mapsto> NString ''2.50'']"

definition example_rank :: "address \<Rightarrow> nat" where
  "example_rank a = (if a = 7 then 4 else if a = 9 then 3 else if a = 8 then 2 else if a = 6 then 1 else 0)"

definition example_tree :: rtree where
  "example_tree =
     (let m = RMap [(RLeaf (NInt 1), RClass (Some (''java.math.BigDecimal'', [''value''])) [RLeaf (NString ''2.50'')])]
      in RList None [m, RRef m, RBack])"

definition example_output_lib :: output_lib where
  "example_output_lib = \<lparr>render = concat \<circ> map (\<lambda>e. case e of WRaw s \<Rightarrow> s | WString s \<Rightarrow> s | WInt64 i \<Rightarrow> ''#'' | _ \<Rightarrow> ''.''),
     atoi64 = \<lambda>s. None\<rparr>"

lemma example_path:
  "path example_graph example_rank r P a \<Longrightarrow> r \<in> {7, 5} \<Longrightarrow> a = 10 \<Longrightarrow> 7 \<in> P"
  by (induction rule: path.induct)
    (auto simp: example_graph_def parts_def split: if_splits)

lemma example_linked: "linked example_graph example_rank 7"
  unfolding linked_def
proof (intro conjI allI impI)
  fix a b assume "b \<in> set (parts example_graph a) \<or> b \<in> set (keys example_graph a)"
  then show "example_rank b < example_rank a"
    by (auto simp: parts_def keys_def example_graph_def example_rank_def split: if_splits)
next
  fix r P a dest
  assume a: "(r = 7 \<or> (\<exists>m. r \<in> set (keys example_graph m))) \<and> path example_graph example_rank r P a \<and>
    example_graph a = Some (NRef dest)"
  then have "r \<in> {7, 5}" by (auto simp: keys_def example_graph_def split: if_splits)
  with a example_path [of r P a] show "dest \<in> P \<or> example_rank dest < example_rank a"
    by (auto simp: example_graph_def example_rank_def split: if_splits)
qed

theorem hessian_output_correct_witness:
  "\<exists>n0. \<forall>n\<ge>n0. hessianValueToJsonString example_output_lib example_graph n 7 = Some (Inr ''..#2.50..#2.50...'')"
proof -
  from hessian_output_correct [OF example_linked, of example_output_lib] obtain t where t: "\<forall>t'. unfolds example_graph {} 7 t' \<longleftrightarrow> t' = t"
    and n0: "\<exists>n0. \<forall>n\<ge>n0. hessianValueToJsonString example_output_lib example_graph n 7 =
      Some (map_sum id (render example_output_lib) (print_tree example_output_lib t))" by blast
  let ?b = "RClass (Some (''java.math.BigDecimal'', [''value''])) [RLeaf (NString ''2.50'')]" and ?g = example_graph
  have node: "?g 7 = Some (NUntypedList [8, 9, 10])" "?g 8 = Some (NUntypedMap [(5, 6)])" "?g 9 = Some (NRef 8)"
    "?g 10 = Some (NRef 7)" "?g 5 = Some (NInt 1)" "?g 4 = Some (NString ''2.50'')"
    "?g 6 = Some (NClass (Some (''java.math.BigDecimal'', [''value''])) [4])" by (simp_all add: example_graph_def)
  have num: "unfolds ?g P 5 (RLeaf (NInt 1))" "unfolds ?g P 4 (RLeaf (NString ''2.50''))" for P
    by (rule unfolds.leaf; simp add: node)+
  have dec: "unfolds ?g P 6 ?b" if "6 \<notin> P" for P
    by (rule unfolds.object, rule node(7), rule that) (simp add: num)
  have map: "unfolds ?g P 8 (RMap [(RLeaf (NInt 1), ?b)])" if "6 \<notin> P" "8 \<notin> P" for P
    by (rule unfolds.map [where ps = "[(5, 6)]"]) (use that in \<open>simp_all add: node num dec\<close>)
  have "unfolds ?g {} 7 example_tree" unfolding example_tree_def Let_def
    by (rule unfolds.list, rule node(1))
      (simp_all add: map unfolds.reference [of ?g 9 8] unfolds.upward [of ?g 10 7] node)
  with t have "t = example_tree" by simp
  moreover have "map_sum id (render example_output_lib) (print_tree example_output_lib example_tree) = Inr ''..#2.50..#2.50...''"
    by code_simp
  ultimately show ?thesis using n0 by simp
qed

end
