(* ===== verification/Dubbo_Roundtrip.thy ===== *)
theory Dubbo_Roundtrip
  imports Dubbo_Graph
begin

text \<open>
  What becomes of a JSON value that is sent as an argument and comes back in a response.

  \<^item> \<open>argument_json\<close> is the JSON value that is sent for a value and a declared type: the value itself, the document in a
    string, or the text of the value for a string parameter.
  \<^item> \<open>sent\<close> is what is left of it on the wire: null below the depth of fifty, a double for an integer of more than 64
    bits, the first of several members with the same name, and no null members if they are ignored. \<open>kept\<close> tells when
    nothing is lost.
  \<^item> The order of the members of an object is lost in the hash map of the library; \<open>same_json\<close> ignores it.
  \<^item> A server that returns its argument makes a heap that \<open>stores\<close> it.
\<close>

section \<open>What is sent\<close>

definition loaded_types :: "string list" where
  "loaded_types =
     [''boolean'', ''java.lang.Boolean'', ''byte'', ''java.lang.Byte'', ''short'', ''java.lang.Short'', ''int'',
      ''java.lang.Integer'', ''long'', ''java.lang.Long''] @ real_types @ collection_types @ dictionary_types"

definition argument_json :: "json_lib \<Rightarrow> string \<Rightarrow> json \<Rightarrow> json" where
  "argument_json L ty v =
     (case v of
        JString s \<Rightarrow> (if ty \<in> set loaded_types then (case parse L s of Some w \<Rightarrow> w | None \<Rightarrow> v) else v)
      | JNull \<Rightarrow> v
      | _ \<Rightarrow> (if ty = ''java.lang.String'' then JString (debugStringOfJsonValue L v) else v))"

fun first_of :: "('k \<times> 'v) list \<Rightarrow> ('k \<times> 'v) list" where
  "first_of [] = []"
| "first_of (m # ms) = m # first_of (filter (\<lambda>n. fst n \<noteq> fst m) ms)"

fun sent :: "(real \<Rightarrow> real) \<Rightarrow> bool \<Rightarrow> nat \<Rightarrow> json \<Rightarrow> json" where
  "sent rnd ign d (JInt i) = (if 50 \<le> d then JNull else if int64_range i then JInt i else JDouble (rnd (of_int i)))"
| "sent rnd ign d (JArray vs) = (if 50 \<le> d then JNull else JArray (map (sent rnd ign (d + 1)) vs))"
| "sent rnd ign d (JObject ms) =
     (if 50 \<le> d then JNull
      else JObject (first_of (concat (map (\<lambda>(k, v). if ign \<and> is_JNull v then [] else [(k, sent rnd ign (d + 1) v)]) ms))))"
| "sent rnd ign d v = (if 50 \<le> d then JNull else v)"

fun kept :: "bool \<Rightarrow> nat \<Rightarrow> json \<Rightarrow> bool" where
  "kept ign d JNull = True"
| "kept ign d (JInt i) = (d < 50 \<and> int64_range i)"
| "kept ign d (JArray vs) = (d < 50 \<and> (\<forall>v\<in>set vs. kept ign (d + 1) v))"
| "kept ign d (JObject ms) =
     (d < 50 \<and> distinct (map fst ms) \<and> (\<forall>(k, v)\<in>set ms. \<not> (ign \<and> is_JNull v) \<and> kept ign (d + 1) v))"
| "kept ign d v = (d < 50)"

lemma first_of_distinct: "distinct (map fst ms) \<Longrightarrow> first_of ms = ms"
proof (induction ms)
  case (Cons m ms)
  then have "filter (\<lambda>n. fst n \<noteq> fst m) ms = ms" by (auto simp: filter_id_conv rev_image_eqI)
  with Cons show ?case by simp
qed simp

lemma kept_sent: "kept ign d v \<Longrightarrow> sent rnd ign d v = v"
proof (induction ign d v rule: kept.induct)
  case (4 ign d ms)
  have "concat (map (\<lambda>(k, v). if ign \<and> is_JNull v then [] else [(k, sent rnd ign (d + 1) v)]) ms) =
      concat (map (\<lambda>m. [m]) ms)"
    by (rule arg_cong [of _ _ concat], rule map_cong [OF refl]) (use 4 in fastforce)
  also have "\<dots> = ms" by simp
  finally show ?case using 4 by (simp add: first_of_distinct)
qed (auto simp: map_idI)

inductive same_json :: "json \<Rightarrow> json \<Rightarrow> bool" where
  same: "same_json v v"
| array: "list_all2 same_json vs ws \<Longrightarrow> same_json (JArray vs) (JArray ws)"
| object: "list_all2 (\<lambda>m n. fst m = fst n \<and> same_json (snd m) (snd n)) ms ns \<Longrightarrow> mset ns = mset os \<Longrightarrow>
    same_json (JObject ms) (JObject os)"

section \<open>Hessian values and the JSON they show\<close>

inductive means :: "hessian \<Rightarrow> json \<Rightarrow> bool" where
  "means HNull JNull"
| "means (HBool b) (JBool b)"
| "means (HInt i) (JInt i)"
| "means (HLong i) (JInt i)"
| "means (HDouble d) (JDouble d)"
| "means (HString s) (JString s)"
| list: "list_all2 means ts vs \<Longrightarrow> means (HList ts) (JArray vs)"
| map: "list_all2 (\<lambda>p m. fst p = HString (fst m) \<and> means (snd p) (snd m)) ps ms \<Longrightarrow> means (HMap ps) (JObject ms)"

inductive_cases means_HListE: "means (HList ts) v"
inductive_cases means_HMapE: "means (HMap ps) v"
inductive_cases means_noE: "means (HTypedList ty ts) v" "means (HTypedMap ty ps) v" "means (HClass def ts) v"

lemma list_to_hessian_map: "list_to_hessian rnd ign d vs = map (jsonValueToHessianValueInternal rnd ign d) vs"
  by (induction vs) auto

lemma first_of_map: "first_of (map (\<lambda>(k, v). (k, f v)) ms) = map (\<lambda>(k, v). (k, f v)) (first_of ms)"
  by (induction ms rule: first_of.induct) (auto simp: filter_map comp_def split_beta)

lemma members_first:
  "members_to_hessian rnd ign d ms acc =
     acc @ map (\<lambda>(k, v). (HString k, jsonValueToHessianValueInternal rnd ign d v))
       (first_of (filter (\<lambda>(k, v). \<not> (ign \<and> is_JNull v) \<and> HString k \<notin> fst ` set acc) ms))"
proof (induction ms arbitrary: acc)
  case (Cons m ms)
  obtain k v where m: "m = (k, v)" by (cases m)
  let ?acc = "acc @ [(HString k, jsonValueToHessianValueInternal rnd ign d v)]"
  have split: "filter (\<lambda>(k, v). \<not> (ign \<and> is_JNull v) \<and> HString k \<notin> fst ` set ?acc) ms =
      filter (\<lambda>n. fst n \<noteq> k) (filter (\<lambda>(k, v). \<not> (ign \<and> is_JNull v) \<and> HString k \<notin> fst ` set acc) ms)"
    by (auto simp: filter_filter intro: filter_cong)
  show ?case
  proof (cases "\<not> (ign \<and> is_JNull v) \<and> HString k \<notin> fst ` set acc")
    case True
    then have "members_to_hessian rnd ign d (m # ms) acc = members_to_hessian rnd ign d ms ?acc" by (auto simp: m emplace_def)
    with Cons.IH [of ?acc] split True show ?thesis by (simp add: m)
  next
    case False
    then have "members_to_hessian rnd ign d (m # ms) acc = members_to_hessian rnd ign d ms acc" by (auto simp: m emplace_def)
    with Cons.IH [of acc] False show ?thesis by (auto simp: m)
  qed
qed simp

lemma kept_members:
  "concat (map (\<lambda>(k, v). if ign \<and> is_JNull v then [] else [(k, f v)]) ms) =
     map (\<lambda>(k, v). (k, f v)) (filter (\<lambda>(k, v). \<not> (ign \<and> is_JNull v)) ms)"
  by (induction ms) auto

lemma first_of_subset: "set (first_of ms) \<subseteq> set ms"
  by (induction ms rule: first_of.induct) auto

lemma int32_int64: "int32_range i \<Longrightarrow> int64_range i"
  by (simp add: int32_range_def int64_range_def)

lemma converted_means: "means (jsonValueToHessianValueInternal rnd ign d v) (sent rnd ign d v)"
proof (induction rnd ign d v rule: sent.induct)
  case (2 rnd ign d vs)
  then show ?case
    by (auto simp: jsonValueToHessianValueInternal.simps list_to_hessian_map list_all2_conv_all_nth intro: means.intros)
next
  case (3 rnd ign d ms)
  show ?case
  proof (cases "50 \<le> d")
    case False
    let ?ms = "first_of (filter (\<lambda>(k, v). \<not> (ign \<and> is_JNull v)) ms)"
    have "means (jsonValueToHessianValueInternal rnd ign (d + 1) v) (sent rnd ign (d + 1) v)" if "(k, v) \<in> set ?ms" for k v
      using 3 [OF False, of "(k, v)" k v] that first_of_subset [of "filter (\<lambda>(k, v). \<not> (ign \<and> is_JNull v)) ms"] by auto
    then have "list_all2 (\<lambda>p m. fst p = HString (fst m) \<and> means (snd p) (snd m))
        (map (\<lambda>(k, v). (HString k, jsonValueToHessianValueInternal rnd ign (d + 1) v)) ?ms)
        (map (\<lambda>(k, v). (k, sent rnd ign (d + 1) v)) ?ms)"
      by (auto simp: list_all2_conv_all_nth split_beta) (metis nth_mem prod.collapse)
    with False show ?thesis
      by (simp add: jsonValueToHessianValueInternal.simps members_first kept_members first_of_map means.map)
  qed (simp add: jsonValueToHessianValueInternal.simps means.intros)
qed (auto simp: jsonValueToHessianValueInternal.simps int32_int64 intro: means.intros)

lemma same_means: "same_value t t' \<Longrightarrow> means t v \<Longrightarrow> \<exists>w. same_json v w \<and> means t' w"
proof (induction arbitrary: v rule: same_value.induct)
  case (same t)
  then show ?case by (blast intro: same_json.same)
next
  case (list ts us)
  from list.prems obtain vs where v: "v = JArray vs" "list_all2 means ts vs" by (rule means_HListE)
  have "\<exists>ws. list_all2 same_json vs ws \<and> list_all2 means us ws"
    using list.IH v(2)
  proof (induction arbitrary: vs rule: list_all2_induct)
    case (Cons t ts u us)
    from Cons.prems obtain x xs where vs: "vs = x # xs" "means t x" "list_all2 means ts xs" by (auto simp: list_all2_Cons1)
    from Cons.hyps(1) vs(2) obtain y where y: "same_json x y" "means u y" by blast
    from Cons.IH [OF vs(3)] obtain ys where "list_all2 same_json xs ys" "list_all2 means us ys" by blast
    with y vs(1) have "list_all2 same_json vs (y # ys) \<and> list_all2 means (u # us) (y # ys)" by simp
    then show ?case by blast
  qed auto
  with v(1) show ?case by (blast intro: same_json.array means.list)
next
  case (map ps qs rs)
  let ?R = "\<lambda>p m. fst p = HString (fst m) \<and> means (snd p) (snd m)" and ?S = "\<lambda>m n. fst m = fst n \<and> same_json (snd m) (snd n)"
  from map.prems obtain ms where v: "v = JObject ms" "list_all2 ?R ps ms" by (rule means_HMapE)
  have key: "same_value (HString k) x \<Longrightarrow> x = HString k" for k x by (auto elim: same_value.cases)
  have "\<exists>ns. list_all2 ?S ms ns \<and> list_all2 ?R qs ns"
    using map.IH v(2)
  proof (induction arbitrary: ms rule: list_all2_induct)
    case (Cons p ps q qs)
    from Cons.prems obtain x xs where ms: "ms = x # xs" "?R p x" "list_all2 ?R ps xs" by (auto simp: list_all2_Cons1)
    from Cons.hyps(1) ms(2) obtain y where y: "same_json (snd x) y" "means (snd q) y" by blast
    have "fst q = HString (fst x)" using Cons.hyps(1) ms(2) key by auto
    moreover from Cons.IH [OF ms(3)] obtain ys where "list_all2 ?S xs ys" "list_all2 ?R qs ys" by blast
    ultimately have "list_all2 ?S ms ((fst x, y) # ys) \<and> list_all2 ?R (q # qs) ((fst x, y) # ys)" using y ms(1) by simp
    then show ?case by blast
  qed auto
  then obtain ns where ns: "list_all2 ?S ms ns" "list_all2 ?R qs ns" by blast
  from list_all2_reorder_left_invariance [OF ns(2) map.hyps [symmetric]] obtain os where
    os: "list_all2 ?R rs os" "mset os = mset ns" by blast
  have "same_json (JObject ms) (JObject os)" by (rule same_json.object [OF ns(1)]) (simp add: os(2))
  with v(1) means.map [OF os(1)] show ?case by blast
qed (auto elim: means_noE)

section \<open>The text of a stored value\<close>

text \<open>The writer makes no difference between a key and a string.\<close>

fun as_text :: "json_event \<Rightarrow> json_event" where
  "as_text (WKey s) = WString s"
| "as_text e = e"

abbreviation text_of :: "json \<Rightarrow> json_event list" where
  "text_of v \<equiv> map as_text (json_events v)"

fun tree_of :: "hessian \<Rightarrow> rtree" where
  "tree_of HNull = RLeaf NNull"
| "tree_of (HBool b) = RLeaf (NBool b)"
| "tree_of (HInt i) = RLeaf (NInt i)"
| "tree_of (HLong i) = RLeaf (NLong i)"
| "tree_of (HDouble d) = RLeaf (NDouble d)"
| "tree_of (HString s) = RLeaf (NString s)"
| "tree_of (HList ts) = RList None (map tree_of ts)"
| "tree_of (HMap qs) = RMap (map (\<lambda>(k, v). (tree_of k, tree_of v)) qs)"
| "tree_of _ = RMissing"

lemma in_order_Cons: "in_order (Inr a # rs) = map_sum id (\<lambda>b. a @ b) (in_order rs)"
  by (simp add: in_order_def join_def)

lemma bracket_Inr: "bracket b (Inr evs) e = Inr (b # evs @ [e])"
  by (simp add: bracket_def join_def)

lemma print_all:
  "list_all2 (\<lambda>t v. print_tree L (tree_of t) = Inr (text_of v)) ts vs \<Longrightarrow>
     in_order (map (print_tree L \<circ> tree_of) ts) = Inr (concat (map text_of vs))"
  by (induction rule: list_all2_induct) (simp_all add: in_order_Cons, simp add: in_order_def)

lemma print_pairs:
  "list_all2 (\<lambda>p m. fst p = HString (fst m) \<and> print_tree L (tree_of (snd p)) = Inr (text_of (snd m))) ps ms \<Longrightarrow>
     in_order (map (\<lambda>p. join (key_text L (tree_of (fst p)) (print_tree L (tree_of (fst p)))) (print_tree L (tree_of (snd p)))) ps) =
     Inr (concat (map (\<lambda>m. WString (fst m) # text_of (snd m)) ms))"
proof (induction rule: list_all2_induct)
  case (Cons p ps m ms)
  then have "join (key_text L (tree_of (fst p)) (print_tree L (tree_of (fst p)))) (print_tree L (tree_of (snd p))) =
      Inr (WString (fst m) # text_of (snd m))" by (simp add: key_text_def join_def)
  with Cons show ?case by (simp add: in_order_Cons)
qed (simp add: in_order_def)

lemma print_means: "means t v \<Longrightarrow> print_tree L (tree_of t) = Inr (text_of v)"
proof (induction rule: means.induct)
  case (list ts vs)
  then have "list_all2 (\<lambda>t v. print_tree L (tree_of t) = Inr (text_of v)) ts vs" by (auto elim: list_all2_mono)
  from print_all [OF this] show ?case by (simp add: bracket_Inr map_concat comp_def)
next
  case (map ps ms)
  then have "list_all2 (\<lambda>p m. fst p = HString (fst m) \<and> print_tree L (tree_of (snd p)) = Inr (text_of (snd m))) ps ms"
    by (auto elim: list_all2_mono)
  from print_pairs [OF this] show ?case by (simp add: bracket_Inr map_concat comp_def split_beta)
qed simp_all

text \<open>The heap stores a value at an address (for the kinds of object that the JSON conversion makes).\<close>

inductive stores :: "heap \<Rightarrow> address \<Rightarrow> hessian \<Rightarrow> bool" for h where
  "h a = Some NNull \<Longrightarrow> stores h a HNull"
| "h a = Some (NBool b) \<Longrightarrow> stores h a (HBool b)"
| "h a = Some (NInt i) \<Longrightarrow> stores h a (HInt i)"
| "h a = Some (NLong i) \<Longrightarrow> stores h a (HLong i)"
| "h a = Some (NDouble d) \<Longrightarrow> stores h a (HDouble d)"
| "h a = Some (NString s) \<Longrightarrow> stores h a (HString s)"
| list: "h a = Some (NUntypedList as) \<Longrightarrow> list_all2 (stores h) as ts \<Longrightarrow> stores h a (HList ts)"
| map: "h a = Some (NUntypedMap ps) \<Longrightarrow>
    list_all2 (\<lambda>p q. stores h (fst p) (fst q) \<and> stores h (snd p) (snd q)) ps qs \<Longrightarrow> stores h a (HMap qs)"

inductive_cases stores_cases: "stores h a t"

lemma stores_unique: "stores h a t \<Longrightarrow> stores h a t' \<Longrightarrow> t = t'"
proof (induction arbitrary: t' rule: stores.induct)
  case (list a as ts)
  then have "list_all2 (\<lambda>a t. \<forall>t'. stores h a t' \<longrightarrow> t = t') as ts" by (auto elim: list_all2_mono)
  moreover obtain ts' where "t' = HList ts'" "list_all2 (stores h) as ts'"
    using list.prems list.hyps(1) by cases auto
  ultimately show ?case using list_all2_unique [of "stores h" as ts ts'] by simp
next
  case (map a ps qs)
  let ?R = "\<lambda>p q. stores h (fst p) (fst q) \<and> stores h (snd p) (snd q)"
  from map.IH have "list_all2 (\<lambda>p q. \<forall>q'. ?R p q' \<longrightarrow> q = q') ps qs"
    by (rule list_all2_mono) (auto simp: prod_eq_iff)
  moreover obtain qs' where "t' = HMap qs'" "list_all2 ?R ps qs'"
    using map.prems map.hyps(1) by cases auto
  ultimately show ?case using list_all2_unique [of ?R ps qs qs'] by simp
qed (auto elim: stores.cases)

text \<open>The number of nodes below lists and values of maps; an object is never met below itself, as its parts are smaller.\<close>

fun nodes :: "hessian \<Rightarrow> nat" where
  "nodes (HList ts) = Suc (sum_list (map nodes ts))"
| "nodes (HMap qs) = Suc (sum_list (map (\<lambda>q. nodes (snd q)) qs))"
| "nodes _ = 1"

lemma nodes_elem: "t \<in> set ts \<Longrightarrow> nodes t < nodes (HList ts)" "q \<in> set qs \<Longrightarrow> nodes (snd q) < nodes (HMap qs)"
  using member_le_sum_list [of "nodes t" "map nodes ts"]
    member_le_sum_list [of "nodes (snd q)" "map (\<lambda>q. nodes (snd q)) qs"] by auto

definition larger :: "heap \<Rightarrow> address set \<Rightarrow> hessian \<Rightarrow> bool" where
  "larger h P t \<longleftrightarrow> (\<forall>p\<in>P. \<exists>t'. stores h p t' \<and> nodes t < nodes t')"

lemma larger_notin: "larger h P t \<Longrightarrow> stores h a t \<Longrightarrow> a \<notin> P"
  by (auto simp: larger_def dest: stores_unique)

lemma larger_insert: "larger h P t \<Longrightarrow> stores h a t \<Longrightarrow> nodes t' < nodes t \<Longrightarrow> larger h (insert a P) t'"
  by (auto simp: larger_def) (meson less_trans)

lemma list_all2_mono_in:
  "list_all2 R xs ys \<Longrightarrow> (\<And>x y. y \<in> set ys \<Longrightarrow> R x y \<Longrightarrow> S x y) \<Longrightarrow> list_all2 S xs ys"
  by (auto simp: list_all2_conv_all_nth)

lemma stores_unfolds: "stores h a t \<Longrightarrow> larger h P t \<Longrightarrow> unfolds h P a (tree_of t)"
proof (induction arbitrary: P rule: stores.induct)
  case (list a as ts)
  then have st: "stores h a (HList ts)" by (auto intro: stores.list elim: list_all2_mono)
  have "list_all2 (\<lambda>b t. unfolds h (insert a P) b (tree_of t)) as ts"
    using list.IH by (rule list_all2_mono_in) (use larger_insert [OF list.prems st nodes_elem(1)] in blast)
  with list.hyps larger_notin [OF list.prems st] show ?case by (simp add: unfolds.list list_all2_map2)
next
  case (map a ps qs)
  then have st: "stores h a (HMap qs)" by (auto intro: stores.map elim: list_all2_mono)
  have empty: "larger h {} t" for t by (simp add: larger_def)
  have "list_all2 (\<lambda>p q. unfolds h {} (fst p) (tree_of (fst q)) \<and> unfolds h (insert a P) (snd p) (tree_of (snd q))) ps qs"
    using map.IH by (rule list_all2_mono_in) (use larger_insert [OF map.prems st nodes_elem(2)] empty in blast)
  then have "list_all2 (\<lambda>p q. unfolds h {} (fst p) (fst q) \<and> unfolds h (insert a P) (snd p) (snd q)) ps
      (map (\<lambda>(k, v). (tree_of k, tree_of v)) qs)"
    by (simp add: list_all2_map2 split_beta)
  then show ?case using map.hyps larger_notin [OF map.prems st] by (auto intro: unfolds.map)
qed (auto intro: unfolds.leaf)

lemma stored_text:
  assumes "stores h a t" and "means t v"
  shows "\<exists>n0. \<forall>n\<ge>n0. hessianValueToJsonString L h n a = Some (Inr (render L (text_of v)))"
proof -
  have "unfolds h {} a (tree_of t)" using assms(1) by (rule stores_unfolds) (simp add: larger_def)
  from unfolds_converts [OF this, of L] print_means [OF assms(2)] obtain n0 where
    "\<And>n. n0 \<le> n \<Longrightarrow> hessianValueToJsonStringInternal L h n a {} = Some (Inr (text_of v, {}))"
    by (auto simp: gives_def result_of_def)
  then have "\<forall>n\<ge>n0. hessianValueToJsonString L h n a = Some (Inr (render L (text_of v)))"
    by (simp add: hessianValueToJsonString_def)
  then show ?thesis by blast
qed

section \<open>Typed arguments\<close>

lemma loadable_argument:
  assumes "loadableJsonConverter L p v ign = Inr t" and "\<And>s. \<not> p (JString s)"
    and "ty \<in> set loaded_types" "ty \<noteq> ''java.lang.String''"
  shows "t = jsonValueToHessianValueInternal (to_double L) ign 0 (argument_json L ty v)"
  using assms by (cases v) (auto simp: loadableJsonConverter_def argument_json_def split: if_splits option.splits)

lemma strict_argument:
  assumes "strictJsonConverter L p v ign = Inr t" and "ty \<notin> set loaded_types" "ty \<noteq> ''java.lang.String''"
  shows "t = jsonValueToHessianValueInternal (to_double L) ign 0 (argument_json L ty v)"
  using assms by (cases v) (auto simp: strictJsonConverter_def argument_json_def split: if_splits)

lemma string_argument:
  "stringJsonConverter L v ign = Inr t \<Longrightarrow>
     t = jsonValueToHessianValueInternal (to_double L) ign 0 (argument_json L ''java.lang.String'' v)"
  by (cases v) (auto simp: stringJsonConverter_def argument_json_def loaded_types_def java_type_defs
      jsonValueToHessianValueInternal.simps)

lemma checks_no_strings:
  "\<not> is_Bool (JString s)" "\<not> is_Number (JString s)" "\<not> is_Int (JString s)" "\<not> is_Int64 (JString s)" "\<not> is_Array (JString s)"
  "\<not> is_Object (JString s)" "null_or p (JString s) = p (JString s)"
  by (simp_all add: null_or_def)

lemma table_arguments:
  "\<forall>(ty, conv)\<in>set (TypedJsonConverters L). \<forall>v ign t. conv v ign = Inr t \<longrightarrow>
     t = jsonValueToHessianValueInternal (to_double L) ign 0 (argument_json L ty v)"
  unfolding TypedJsonConverters_def
  by (simp only: list.set ball_simps(5,7) prod.case simp_thms; intro conjI allI impI)
    (((erule loadable_argument strict_argument string_argument);
      simp add: checks_no_strings loaded_types_def java_type_defs)+)

lemma converted_argument:
  assumes "jsonValueToHessianValue L v ty ign = Inr t"
  shows "t = jsonValueToHessianValueInternal (to_double L) ign 0 (argument_json L ty v)"
proof (cases "map_of (TypedJsonConverters L) ty")
  case None
  then have "ty \<notin> fst ` set (TypedJsonConverters L)" by (simp add: map_of_eq_None_iff)
  then have "ty \<notin> set loaded_types" "ty \<noteq> ''java.lang.String''"
    by (auto simp: TypedJsonConverters_def loaded_types_def java_type_defs)
  then have "argument_json L ty v = v" by (simp add: argument_json_def split: json.split)
  with assms None show ?thesis by (simp add: jsonValueToHessianValue_def)
next
  case (Some conv)
  with assms have "conv v ign = Inr t" by (simp add: jsonValueToHessianValue_def)
  with table_arguments [of L] map_of_SomeD [OF Some] show ?thesis by fast
qed

section \<open>Properties\<close>


text \<open>An object with two members, which come back in the other order.\<close>

definition example_reply :: heap where
  "example_reply = [7 \<mapsto> NUntypedMap [(8, 9), (10, 11)], 8 \<mapsto> NString ''b'', 9 \<mapsto> NInt 2, 10 \<mapsto> NString ''a'', 11 \<mapsto> NBool True]"


end
