(* ===== verification/Dubbo_Request.thy ===== *)
theory Dubbo_Request
  imports Dubbo_Json
begin

text \<open>
  From an HTTP request to a Dubbo request: parameters, bridge context, request encoding and generic type
  information of \<^verbatim>\<open>source/common/dubbo/utility.{h,cc}\<close>, and the argument getters of
  \<^verbatim>\<open>source/bridge/dubbo/simple/config.{h,cc}\<close>.

  \<^item> The Hessian encoder is the parameter \<open>hessian_encoder\<close>; it has a state of its own, which is threaded
    through the calls. A byte is a character.
  \<^item> Splitting a path at the dots, parsing a query string and parsing cookies are parameters.
\<close>

section \<open>Generic types\<close>

text \<open>The object is changed in place; here the changed object is returned.\<close>

primrec populateSingleGenericType :: "string list \<Rightarrow> string \<Rightarrow> hessian \<Rightarrow> hessian" where
  "populateSingleGenericType [] ty = (\<lambda>ob.
     case ob of
       HMap m \<Rightarrow> HMap (emplace (HString ''class'') (HString ty) m)
     | _ \<Rightarrow> ob)"
| "populateSingleGenericType (first_sub_path # path) ty = (\<lambda>ob.
     if first_sub_path = ''*''
     then (case ob of
             HList vs \<Rightarrow> HList (map (populateSingleGenericType path ty) vs)
           | HMap m \<Rightarrow> HMap (map (\<lambda>(k, v). (k, populateSingleGenericType path ty v)) m)
           | _ \<Rightarrow> ob)
     else (case ob of
             HMap m \<Rightarrow> HMap (map (\<lambda>(k, v). if k = HString first_sub_path then (k, populateSingleGenericType path ty v)
                                          else (k, v)) m)
           | _ \<Rightarrow> ob))"

record generic_type =
  gt_path :: string
  splited_path :: "string list"
  gt_type :: string

definition populateGenericTypes :: "generic_type list \<Rightarrow> hessian \<Rightarrow> hessian" where
  "populateGenericTypes generic_types ob =
     fold (\<lambda>g. populateSingleGenericType (splited_path g) (gt_type g)) generic_types ob"

section \<open>Parameters and context\<close>

record parameter =
  p_index :: nat
  p_type :: string
  p_name :: string
  p_required :: bool
  p_default :: hessian
  p_generic :: "generic_type list"

record proto_parameter =
  pp_type :: string
  pp_name :: string
  pp_required :: bool
  pp_default :: string
  pp_generic :: "(string \<times> string) list"

definition Parameter :: "json_lib \<Rightarrow> (string \<Rightarrow> string list) \<Rightarrow> nat \<Rightarrow> proto_parameter \<Rightarrow> bool \<Rightarrow> parameter throws" where
  "Parameter L split index config ignore_null =
     (case (if pp_default config \<noteq> ''''
            then (case parse L (pp_default config) of
                    None \<Rightarrow> Inl (''Dubbo bridge: default value: '' @ pp_name config @ ''/'' @ pp_type config @ '' of ''
                                 @ pp_default config @ '' is invalid Json'')
                  | Some default_document \<Rightarrow>
                      jsonValueToHessianValue L default_document (pp_type config) ignore_null)
            else Inr HNull) of
        Inl err \<Rightarrow> Inl err
      | Inr dflt \<Rightarrow>
          Inr \<lparr>p_index = index, p_type = pp_type config, p_name = pp_name config, p_required = pp_required config,
               p_default = dflt,
               p_generic = map (\<lambda>(path, ty). \<lparr>gt_path = path, splited_path = split path, gt_type = ty\<rparr>)
                             (pp_generic config)\<rparr>)"

datatype attachment_source = StaticAttachment string | HeaderAttachment string | CookieAttachment string | NoAttachment

datatype argument_source = SourceBody | SourceQuery

record proto_context =
  pc_service :: string
  pc_version :: string
  pc_method :: string
  pc_group :: string
  pc_attachments :: "(string \<times> attachment_source) list"
  pc_parameters :: "proto_parameter list"
  pc_http_query :: bool
  pc_ignore_null_map_pair :: bool

record bridge_context =
  service :: string
  version :: string
  dubbo_method :: string
  static_attachs :: "(string \<times> string) list"
  header_attachs :: "(string \<times> string) list"
  cookie_attachs :: "(string \<times> string) list"
  params :: "parameter list"
  lost_parameter_name :: bool
  bridge_source :: argument_source
  ignore_null_map_pair :: bool

text \<open>\<^verbatim>\<open>insert\<close> of the hash map keeps an earlier value of the same name.\<close>

definition add_attachment :: "string \<times> attachment_source \<Rightarrow> bridge_context \<Rightarrow> bridge_context" where
  "add_attachment a c =
     (case snd a of
        StaticAttachment v \<Rightarrow> c\<lparr>static_attachs := emplace (fst a) v (static_attachs c)\<rparr>
      | HeaderAttachment v \<Rightarrow> c\<lparr>header_attachs := emplace (fst a) (lower v) (header_attachs c)\<rparr>
      | CookieAttachment v \<Rightarrow> c\<lparr>cookie_attachs := emplace (fst a) v (cookie_attachs c)\<rparr>
      | NoAttachment \<Rightarrow> c)"

fun make_parameters ::
    "json_lib \<Rightarrow> (string \<Rightarrow> string list) \<Rightarrow> bool \<Rightarrow> nat \<Rightarrow> proto_parameter list \<Rightarrow> parameter list throws" where
  "make_parameters L split ignore_null i [] = Inr []"
| "make_parameters L split ignore_null i (p # ps) =
     (case Parameter L split i p ignore_null of
        Inl err \<Rightarrow> Inl err
      | Inr param \<Rightarrow>
          (case make_parameters L split ignore_null (Suc i) ps of
             Inl err \<Rightarrow> Inl err
           | Inr rest \<Rightarrow> Inr (param # rest)))"

definition DubboBridgeContext :: "json_lib \<Rightarrow> (string \<Rightarrow> string list) \<Rightarrow> proto_context \<Rightarrow> bridge_context throws" where
  "DubboBridgeContext L split pc =
     (case make_parameters L split (pc_ignore_null_map_pair pc) 0 (pc_parameters pc) of
        Inl err \<Rightarrow> Inl err
      | Inr ps \<Rightarrow>
          Inr (fold add_attachment (pc_attachments pc)
            \<lparr>service = pc_service pc, version = pc_version pc, dubbo_method = pc_method pc,
             static_attachs = (if pc_group pc \<noteq> '''' then [(''group'', pc_group pc)] else []),
             header_attachs = [], cookie_attachs = [], params = ps,
             lost_parameter_name = (\<exists>p\<in>set (pc_parameters pc). pp_name p = ''''),
             bridge_source = (if pc_http_query pc then SourceQuery else SourceBody),
             ignore_null_map_pair = pc_ignore_null_map_pair pc\<rparr>))"

section \<open>Argument getters\<close>

text \<open>The request: its headers by name, its cookies and its body.\<close>

record srcs_request =
  getHeader :: "string \<Rightarrow> string option"
  getCookie :: "string \<Rightarrow> string option"
  getBody :: string

datatype argument_getter = EmptyGetter | QueryGetter "(string \<times> string) list" bool | BodyGetter json bool

definition make_QueryGetter ::
    "(string \<Rightarrow> (string \<times> string) list) \<Rightarrow> bridge_context \<Rightarrow> srcs_request \<Rightarrow> argument_getter throws" where
  "make_QueryGetter parse_query c r =
     (if lost_parameter_name c
      then Inl ''Dubbo bridge: no parameter name is not allowed for query type source''
      else Inr (QueryGetter (parse_query (case getHeader r '':path'' of Some p \<Rightarrow> p | None \<Rightarrow> ''/''))
                  (ignore_null_map_pair c)))"

definition make_BodyGetter :: "json_lib \<Rightarrow> bridge_context \<Rightarrow> srcs_request \<Rightarrow> argument_getter throws" where
  "make_BodyGetter L c r =
     (case parse L (getBody r) of
        None \<Rightarrow> Inl ''Dubbo bridge: HTTP request body not valid Json string''
      | Some doc \<Rightarrow>
          (if lost_parameter_name c \<and> \<not> is_Array doc
           then Inl ''Dubbo bridge: no parameter name is only allowed for HTTP request body of type Json array''
           else Inr (BodyGetter doc (ignore_null_map_pair c))))"

definition SimpleArgumentGetter ::
    "json_lib \<Rightarrow> (string \<Rightarrow> (string \<times> string) list) \<Rightarrow> bridge_context \<Rightarrow> srcs_request \<Rightarrow> argument_getter throws" where
  "SimpleArgumentGetter L parse_query c r =
     (if length (params c) = 0 then Inr EmptyGetter
      else case bridge_source c of
             SourceBody \<Rightarrow> make_BodyGetter L c r
           | SourceQuery \<Rightarrow> make_QueryGetter parse_query c r)"

definition optional_value :: "hessian throws \<Rightarrow> hessian option throws" where
  "optional_value r = map_sum id Some r"

text \<open>\<open>None\<close> is the null pointer: the request has no such argument.\<close>

fun getArgumentByParameter :: "json_lib \<Rightarrow> argument_getter \<Rightarrow> parameter \<Rightarrow> hessian option throws" where
  "getArgumentByParameter L EmptyGetter p = Inr None"
| "getArgumentByParameter L (QueryGetter query ignore_null) p =
     (case map_of query (p_name p) of
        None \<Rightarrow> Inr None
      | Some v \<Rightarrow>
          (case parse L v of
             None \<Rightarrow> Inl ''Dubbo bridge: query value not valid Json string''
           | Some doc \<Rightarrow> optional_value (jsonValueToHessianValue L doc (p_type p) ignore_null)))"
| "getArgumentByParameter L (BodyGetter doc ignore_null) p =
     (case doc of
        JArray vs \<Rightarrow>
          (if p_index p < length vs
           then optional_value (jsonValueToHessianValue L (vs ! p_index p) (p_type p) ignore_null)
           else Inr None)
      | JObject ms \<Rightarrow>
          (case map_of ms (p_name p) of
             Some v \<Rightarrow> optional_value (jsonValueToHessianValue L v (p_type p) ignore_null)
           | None \<Rightarrow> Inr None)
      | _ \<Rightarrow> Inr None)"

section \<open>Encoding\<close>

record 's hessian_encoder =
  enc_init :: 's
  enc_string :: "string \<Rightarrow> 's \<Rightarrow> string \<times> 's"
  enc_int :: "int \<Rightarrow> 's \<Rightarrow> string \<times> 's"
  enc_object :: "hessian \<Rightarrow> 's \<Rightarrow> string \<times> 's"

text \<open>Writing into the buffer with the state of the encoder.\<close>

type_synonym 's writing = "string \<times> 's"

definition encode :: "('s \<Rightarrow> string \<times> 's) \<Rightarrow> 's writing \<Rightarrow> 's writing" where
  "encode f w = (let (bytes, s) = f (snd w) in (fst w @ bytes, s))"

definition writeByte :: "nat \<Rightarrow> 's writing \<Rightarrow> 's writing" where
  "writeByte b w = (fst w @ [char_of (b mod 256)], snd w)"

definition writeListBegin :: "'s hessian_encoder \<Rightarrow> int \<Rightarrow> 's writing \<Rightarrow> 's writing" where
  "writeListBegin Enc n w =
     (if n \<le> 7 then writeByte (nat ((0x78 + n) mod 256)) w
      else encode (enc_int Enc n) (writeByte 0x58 w))"

definition encode_strings :: "'s hessian_encoder \<Rightarrow> string list \<Rightarrow> 's writing \<Rightarrow> 's writing" where
  "encode_strings Enc ss w = fold (\<lambda>s. encode (enc_string Enc s)) ss w"

definition attachment_strings :: "(string \<times> string) list \<Rightarrow> (string \<Rightarrow> string option) \<Rightarrow> string list" where
  "attachment_strings attachs value =
     concat (map (\<lambda>(name, key). case value key of Some v \<Rightarrow> [name, v] | None \<Rightarrow> []) attachs)"

definition writeStaticAttachments :: "'s hessian_encoder \<Rightarrow> bridge_context \<Rightarrow> 's writing \<Rightarrow> 's writing" where
  "writeStaticAttachments Enc c w =
     encode_strings Enc (concat (map (\<lambda>(name, v). [name, v]) (static_attachs c))) w"

definition writeHeaderAttachments :: "'s hessian_encoder \<Rightarrow> bridge_context \<Rightarrow> srcs_request \<Rightarrow> 's writing \<Rightarrow> 's writing" where
  "writeHeaderAttachments Enc c r w = encode_strings Enc (attachment_strings (header_attachs c) (getHeader r)) w"

definition writeCookieAttachments :: "'s hessian_encoder \<Rightarrow> bridge_context \<Rightarrow> srcs_request \<Rightarrow> 's writing \<Rightarrow> 's writing" where
  "writeCookieAttachments Enc c r w =
     (if cookie_attachs c = [] then w
      else encode_strings Enc (attachment_strings (cookie_attachs c) (getCookie r)) w)"

definition argument_of :: "json_lib \<Rightarrow> argument_getter \<Rightarrow> parameter \<Rightarrow> hessian throws" where
  "argument_of L getter p =
     (case getArgumentByParameter L getter p of
        Inl err \<Rightarrow> Inl err
      | Inr (Some ob) \<Rightarrow> Inr (populateGenericTypes (p_generic p) ob)
      | Inr None \<Rightarrow>
          (if p_required p
           then Inl (''Dubbo bridge: '' @ decimal_nat (p_index p) @ ''/'' @ p_name p @ ''/'' @ p_type p
                     @ '' is required but not provided'')
           else Inr (p_default p)))"

fun encode_arguments :: "json_lib \<Rightarrow> 's hessian_encoder \<Rightarrow> argument_getter \<Rightarrow> parameter list \<Rightarrow> 's writing \<Rightarrow> 's writing throws" where
  "encode_arguments L Enc getter [] w = Inr w"
| "encode_arguments L Enc getter (p # ps) w =
     (case argument_of L getter p of
        Inl err \<Rightarrow> Inl err
      | Inr ob \<Rightarrow> encode_arguments L Enc getter ps (encode (enc_object Enc ob) w))"

text \<open>
  \<open>params_length\<close> is an \<^verbatim>\<open>int32_t\<close>; \<open>extra\<close> are the attachments that the getter itself adds.
\<close>

definition writeRequestBody ::
    "json_lib \<Rightarrow> 's hessian_encoder \<Rightarrow> bridge_context \<Rightarrow> srcs_request \<Rightarrow> argument_getter \<Rightarrow>
     (string \<times> string) list option \<Rightarrow> string throws" where
  "writeRequestBody L Enc c r getter extra =
     (let params_length = signed_take_bit 31 (int (length (params c)));
          w1 = encode_strings Enc [''2.0.2'', service c, version c, ''$invoke'',
                 ''Ljava/lang/String;[Ljava/lang/String;[Ljava/lang/Object;'', dubbo_method c] ('''', enc_init Enc);
          w2 = encode_strings Enc (map p_type (params c)) (writeListBegin Enc params_length w1)
      in case encode_arguments L Enc getter (params c) (writeListBegin Enc params_length w2) of
           Inl err \<Rightarrow> Inl err
         | Inr w3 \<Rightarrow>
             (let w4 = writeCookieAttachments Enc c r (writeHeaderAttachments Enc c r
                         (writeStaticAttachments Enc c (writeByte 72 w3)));
                  w5 = (case extra of
                          None \<Rightarrow> w4
                        | Some as \<Rightarrow> encode_strings Enc (concat (map (\<lambda>(name, v). [name, v]) as)) w4)
              in Inr (fst (writeByte 90 w5))))"

text \<open>\<^verbatim>\<open>writeBEInt\<close> of a number of \<open>w\<close> bytes.\<close>

definition be :: "nat \<Rightarrow> nat \<Rightarrow> string" where
  "be w n = map (\<lambda>i. char_of (n div 256 ^ i mod 256)) (rev [0..<w])"

definition DUBBO_MAGIC_NUMBER :: nat where "DUBBO_MAGIC_NUMBER = 0xdabb"
definition DUBBO_FLAG_REQ_HESSIAN2 :: nat where "DUBBO_FLAG_REQ_HESSIAN2 = 0xc2"
definition DUBBO_HEADER_SIZE :: nat where "DUBBO_HEADER_SIZE = 16"

text \<open>The request identifier is a counter shared by all requests.\<close>

definition dubboRequestId :: "u64 \<Rightarrow> u64 \<times> u64" where
  "dubboRequestId GLOBAL_REQUEST_ID = (GLOBAL_REQUEST_ID, GLOBAL_REQUEST_ID + 1)"

definition writeDubboRequest ::
    "json_lib \<Rightarrow> 's hessian_encoder \<Rightarrow> bridge_context \<Rightarrow> srcs_request \<Rightarrow> argument_getter \<Rightarrow>
     (string \<times> string) list option \<Rightarrow> u64 \<Rightarrow> string throws \<times> u64" where
  "writeDubboRequest L Enc c r getter extra ids =
     (let (request_id, ids') = dubboRequestId ids
      in (case writeRequestBody L Enc c r getter extra of
            Inl err \<Rightarrow> Inl err
          | Inr dubbo_body \<Rightarrow>
              Inr (be 2 DUBBO_MAGIC_NUMBER @ [char_of DUBBO_FLAG_REQ_HESSIAN2] @ [char_of (0::nat)]
                   @ be 8 (unat request_id) @ be 4 (length dubbo_body mod 2 ^ 32) @ dubbo_body), ids'))"

section \<open>Lemmas on generic types\<close>

text \<open>The values that a path leads to.\<close>

primrec reached :: "string list \<Rightarrow> hessian \<Rightarrow> hessian list" where
  "reached [] = (\<lambda>ob. [ob])"
| "reached (p # path) = (\<lambda>ob.
     case ob of
       HList vs \<Rightarrow> if p = ''*'' then concat (map (reached path) vs) else []
     | HMap m \<Rightarrow> concat (map (\<lambda>(k, v). if p = ''*'' \<or> k = HString p then reached path v else []) m)
     | _ \<Rightarrow> [])"

definition is_map :: "hessian \<Rightarrow> bool" where
  "is_map ob = (case ob of HMap m \<Rightarrow> True | _ \<Rightarrow> False)"

definition has_class :: "hessian \<Rightarrow> bool" where
  "has_class ob = (case ob of HMap m \<Rightarrow> HString ''class'' \<in> fst ` set m | _ \<Rightarrow> False)"

lemma emplace_twice: "emplace k v (emplace k w m) = emplace k w m"
  by (simp add: emplace_def)

lemma populate_twice:
  "populateSingleGenericType path ty (populateSingleGenericType path ty ob) = populateSingleGenericType path ty ob"
proof (induction path arbitrary: ob)
  case Nil
  show ?case by (cases ob) (simp_all add: emplace_twice)
next
  case (Cons p path)
  show ?case by (cases ob) (auto simp: Cons.IH)
qed

lemma populate_reached:
  "w \<in> set (reached path (populateSingleGenericType path ty ob)) \<Longrightarrow> is_map w \<Longrightarrow> has_class w"
proof (induction path arbitrary: ob w)
  case Nil
  then show ?case by (cases ob) (auto simp: is_map_def has_class_def emplace_def)
next
  case (Cons p path)
  then show ?case by (cases ob) (fastforce split: if_splits)+
qed

lemma populate_unreached:
  "(\<And>w. w \<in> set (reached path ob) \<Longrightarrow> \<not> is_map w) \<Longrightarrow> populateSingleGenericType path ty ob = ob"
proof (induction path arbitrary: ob)
  case Nil
  then show ?case by (cases ob) (auto simp: is_map_def)
next
  case (Cons p path)
  show ?case
  proof (cases ob)
    case (HList vs)
    with Cons show ?thesis by (auto intro!: map_idI)
  next
    case (HMap m)
    have "populateSingleGenericType path ty v = v" if "(k, v) \<in> set m" "p = ''*'' \<or> k = HString p" for k v
      by (rule Cons.IH) (use Cons.prems HMap that in force)
    with HMap show ?thesis by (auto intro!: map_idI split: if_splits)
  qed auto
qed

section \<open>Lemmas on the frame\<close>

text \<open>The reader of a big endian number, the reference for \<open>be\<close>.\<close>

definition read_be :: "string \<Rightarrow> nat" where
  "read_be s = foldl (\<lambda>n c. n * 256 + of_char c) 0 s"

lemma length_be [simp]: "length (be w n) = w"
  by (simp add: be_def)

lemma read_be_shift: "foldl (\<lambda>n c. n * 256 + of_char c) a s = a * 256 ^ length s + read_be s"
proof (induction s arbitrary: a)
  case (Cons c s)
  have "read_be (c # s) = of_char c * 256 ^ length s + read_be s"
    using Cons.IH [of "of_char c"] by (simp add: read_be_def)
  with Cons.IH [of "a * 256 + of_char c"] show ?case by (simp add: algebra_simps)
qed (simp add: read_be_def)

lemma read_be_be: "read_be (be w n) = n mod 256 ^ w"
proof (induction w)
  case 0
  show ?case by (simp add: read_be_def be_def)
next
  case (Suc w)
  have "be (Suc w) n = char_of (n div 256 ^ w mod 256) # be w n" by (simp add: be_def)
  then have "read_be (be (Suc w) n) = foldl (\<lambda>n c. n * 256 + of_char c) (n div 256 ^ w mod 256) (be w n)"
    by (simp add: read_be_def)
  also have "\<dots> = n div 256 ^ w mod 256 * 256 ^ w + n mod 256 ^ w" by (simp add: read_be_shift Suc.IH)
  also have "\<dots> = n mod 256 ^ Suc w"
    using mod_mult2_eq [of n "256 ^ w" 256] by (simp add: mult.commute)
  finally show ?case .
qed

text \<open>A reader of a Dubbo frame: magic, flag, status, identifier, and the body of the given length.\<close>

definition read_frame :: "string \<Rightarrow> (nat \<times> nat \<times> nat \<times> nat \<times> string) option" where
  "read_frame s =
     (if length s < DUBBO_HEADER_SIZE then None
      else let n = read_be (take 4 (drop 12 s))
           in if length s < DUBBO_HEADER_SIZE + n then None
              else Some (read_be (take 2 s), read_be (take 1 (drop 2 s)), read_be (take 1 (drop 3 s)),
                         read_be (take 8 (drop 4 s)), take n (drop DUBBO_HEADER_SIZE s)))"

lemma read_be_byte: "read_be [char_of n] = n mod 256"
  by (simp add: read_be_def)

lemma encode_arguments_ok:
  "encode_arguments L Enc getter ps w = Inr w' \<Longrightarrow>
     \<exists>obs. list_all2 (\<lambda>p ob. argument_of L getter p = Inr ob) ps obs \<and> w' = fold (\<lambda>ob. encode (enc_object Enc ob)) obs w"
proof (induction ps arbitrary: w)
  case (Cons p ps)
  then obtain ob where ob: "argument_of L getter p = Inr ob" by (auto split: sum.splits)
  with Cons obtain obs where "list_all2 (\<lambda>p ob. argument_of L getter p = Inr ob) ps obs"
      "w' = fold (\<lambda>ob. encode (enc_object Enc ob)) obs (encode (enc_object Enc ob) w)"
    by fastforce
  with ob show ?case by (intro exI [of _ "ob # obs"]) simp
qed simp

lemma argument_cases:
  "argument_of L getter p = Inr ob \<Longrightarrow>
     (\<exists>v. getArgumentByParameter L getter p = Inr (Some v) \<and> ob = populateGenericTypes (p_generic p) v) \<or>
     (getArgumentByParameter L getter p = Inr None \<and> \<not> p_required p \<and> ob = p_default p)"
  by (auto simp: argument_of_def split: sum.splits option.splits if_splits)

section \<open>A reader of the body\<close>

text \<open>
  The other side of \<^verbatim>\<open>writeRequestBody\<close>: a provider that reads a generic call. The Hessian decoder is a parameter, and
  \<open>codec_laws\<close> is that it reads what the encoder has written: strings and integers as they were, objects up to the order
  of the entries of maps. \<open>R\<close> relates the states of encoder and decoder, \<open>ok_string\<close> and \<open>ok_object\<close> are what they can
  represent. A string never begins with \<open>Z\<close>, the end of a map.
\<close>

record 'd hessian_decoder =
  dec_init :: 'd
  dec_string :: "string \<Rightarrow> 'd \<Rightarrow> (string \<times> string \<times> 'd) option"
  dec_int :: "string \<Rightarrow> 'd \<Rightarrow> (int \<times> string \<times> 'd) option"
  dec_object :: "string \<Rightarrow> 'd \<Rightarrow> (hessian \<times> string \<times> 'd) option"

fun read_many ::
    "(string \<Rightarrow> 'd \<Rightarrow> ('a \<times> string \<times> 'd) option) \<Rightarrow> nat \<Rightarrow> string \<Rightarrow> 'd \<Rightarrow> ('a list \<times> string \<times> 'd) option" where
  "read_many rd 0 bytes d = Some ([], bytes, d)"
| "read_many rd (Suc n) bytes d =
     (case rd bytes d of
        None \<Rightarrow> None
      | Some (x, bytes1, d1) \<Rightarrow>
          (case read_many rd n bytes1 d1 of None \<Rightarrow> None | Some (xs, rest) \<Rightarrow> Some (x # xs, rest)))"

definition read_list_begin :: "'d hessian_decoder \<Rightarrow> string \<Rightarrow> 'd \<Rightarrow> (int \<times> string \<times> 'd) option" where
  "read_list_begin Dec bytes d =
     (case bytes of
        [] \<Rightarrow> None
      | b # rest \<Rightarrow>
          (if of_char b = (0x58 :: nat) then dec_int Dec rest d
           else if (0x78 :: nat) \<le> of_char b \<and> (of_char b :: nat) \<le> 0x7f then Some (int (of_char b) - 0x78, rest, d)
           else None))"

fun read_map :: "'d hessian_decoder \<Rightarrow> nat \<Rightarrow> string \<Rightarrow> 'd \<Rightarrow> ((string \<times> string) list \<times> string) option" where
  "read_map Dec 0 bytes d = None"
| "read_map Dec (Suc n) bytes d =
     (if bytes = [] then None
      else if hd bytes = CHR ''Z'' then Some ([], tl bytes)
      else case dec_string Dec bytes d of
        None \<Rightarrow> None
      | Some (k, bytes1, d1) \<Rightarrow>
          (case dec_string Dec bytes1 d1 of
             None \<Rightarrow> None
           | Some (v, bytes2, d2) \<Rightarrow>
               (case read_map Dec n bytes2 d2 of None \<Rightarrow> None | Some (ps, rest) \<Rightarrow> Some ((k, v) # ps, rest))))"

text \<open>The six strings, the types, the arguments and the attachments; nothing may be left over.\<close>

definition read_invocation ::
    "'d hessian_decoder \<Rightarrow> string \<Rightarrow> (string list \<times> string list \<times> hessian list \<times> (string \<times> string) list) option" where
  "read_invocation Dec bytes =
     (case read_many (dec_string Dec) 6 bytes (dec_init Dec) of None \<Rightarrow> None | Some (names, bytes1, d1) \<Rightarrow>
     (case read_list_begin Dec bytes1 d1 of None \<Rightarrow> None | Some (n, bytes2, d2) \<Rightarrow>
     (case read_many (dec_string Dec) (nat n) bytes2 d2 of None \<Rightarrow> None | Some (types, bytes3, d3) \<Rightarrow>
     (case read_list_begin Dec bytes3 d3 of None \<Rightarrow> None | Some (m, bytes4, d4) \<Rightarrow>
     (case read_many (dec_object Dec) (nat m) bytes4 d4 of None \<Rightarrow> None | Some (obs, bytes5, d5) \<Rightarrow>
     (if bytes5 = [] \<or> hd bytes5 \<noteq> CHR ''H'' then None
      else case read_map Dec (length bytes) (tl bytes5) d5 of
             Some (atts, []) \<Rightarrow> Some (names, types, obs, atts)
           | _ \<Rightarrow> None))))))"

text \<open>What \<open>f\<close> writes is read by \<open>rd\<close> as something with the property \<open>Q\<close>, whatever follows.\<close>

definition reads_back ::
    "('s \<Rightarrow> 'd \<Rightarrow> bool) \<Rightarrow> (string \<Rightarrow> 'd \<Rightarrow> ('a \<times> string \<times> 'd) option) \<Rightarrow> ('s \<Rightarrow> string \<times> 's) \<Rightarrow> ('a \<Rightarrow> bool) \<Rightarrow> bool" where
  "reads_back R rd f Q \<longleftrightarrow>
     (\<forall>s d. R s d \<longrightarrow> (\<exists>x d'. R (snd (f s)) d' \<and> Q x \<and> (\<forall>rest. rd (fst (f s) @ rest) d = Some (x, rest, d'))))"

definition codec_laws ::
    "'s hessian_encoder \<Rightarrow> 'd hessian_decoder \<Rightarrow> ('s \<Rightarrow> 'd \<Rightarrow> bool) \<Rightarrow> (string \<Rightarrow> bool) \<Rightarrow> (hessian \<Rightarrow> bool) \<Rightarrow> bool" where
  "codec_laws Enc Dec R ok_string ok_object \<longleftrightarrow>
     R (enc_init Enc) (dec_init Dec) \<and>
     (\<forall>x. ok_string x \<longrightarrow> reads_back R (dec_string Dec) (enc_string Enc x) (\<lambda>y. y = x) \<and>
        (\<forall>s. fst (enc_string Enc x s) \<noteq> [] \<and> hd (fst (enc_string Enc x s)) \<noteq> CHR ''Z'')) \<and>
     (\<forall>i. 0 \<le> i \<and> i < 2 ^ 31 \<longrightarrow> reads_back R (dec_int Dec) (enc_int Enc i) (\<lambda>j. j = i)) \<and>
     (\<forall>v. ok_object v \<longrightarrow> reads_back R (dec_object Dec) (enc_object Enc v) (same_value v))"

lemma encode_appends: "encode f (b, s) = (b @ fst (f s), snd (f s))"
  by (simp add: encode_def split_beta)

text \<open>Writing items one after the other, and reading as many.\<close>

lemma encode_many:
  assumes "list_all2 (reads_back R rd) fs Qs" and "R s d"
  shows "\<exists>bytes s' xs d'. (\<forall>b. fold encode fs (b, s) = (b @ bytes, s')) \<and> R s' d' \<and> list_all2 (\<lambda>Q x. Q x) Qs xs \<and>
    (\<forall>rest. read_many rd (length fs) (bytes @ rest) d = Some (xs, rest, d'))"
  using assms
proof (induction arbitrary: s d rule: list_all2_induct)
  case (Cons f fs Q Qs)
  from Cons.hyps(1) Cons.prems obtain x d1 where x: "R (snd (f s)) d1" "Q x"
      "\<And>rest. rd (fst (f s) @ rest) d = Some (x, rest, d1)" unfolding reads_back_def by blast
  from Cons.IH [OF x(1)] obtain bytes s' xs d' where
    rest: "\<And>b. fold encode fs (b, snd (f s)) = (b @ bytes, s')" "R s' d'" "list_all2 (\<lambda>Q x. Q x) Qs xs"
      "\<And>rest. read_many rd (length fs) (bytes @ rest) d1 = Some (xs, rest, d')" by blast
  show ?case
    by (intro exI [of _ "fst (f s) @ bytes"] exI [of _ s'] exI [of _ "x # xs"] exI [of _ d'])
      (simp add: encode_appends x rest)
qed auto

lemma exact_items: "list_all2 (\<lambda>Q x. Q x) (map (\<lambda>x y. y = x) ss) xs \<longleftrightarrow> xs = ss"
  by (induction ss arbitrary: xs) (auto simp: list_all2_Cons1)

lemma encode_strings_fold: "encode_strings Enc ss = fold encode (map (enc_string Enc) ss)"
  by (simp add: encode_strings_def fold_map comp_def fun_eq_iff)

lemma strings_read:
  assumes laws: "codec_laws Enc Dec R ok_string ok_object" and ok: "\<And>x. x \<in> set ss \<Longrightarrow> ok_string x" and "R s d"
  shows "\<exists>bytes s' d'. (\<forall>b. encode_strings Enc ss (b, s) = (b @ bytes, s')) \<and> R s' d' \<and>
    (\<forall>rest. read_many (dec_string Dec) (length ss) (bytes @ rest) d = Some (ss, rest, d'))"
proof -
  have "list_all2 (reads_back R (dec_string Dec)) (map (enc_string Enc) ss) (map (\<lambda>x y. y = x) ss)"
    using laws ok by (simp add: codec_laws_def list_all2_conv_all_nth)
  from encode_many [OF this assms(3)] show ?thesis by (auto simp: encode_strings_fold exact_items)
qed

lemma objects_read:
  assumes laws: "codec_laws Enc Dec R ok_string ok_object" and ok: "\<And>v. v \<in> set obs \<Longrightarrow> ok_object v" and "R s d"
  shows "\<exists>bytes s' d' obs'. (\<forall>b. fold (\<lambda>ob. encode (enc_object Enc ob)) obs (b, s) = (b @ bytes, s')) \<and> R s' d' \<and>
    list_all2 same_value obs obs' \<and>
    (\<forall>rest. read_many (dec_object Dec) (length obs) (bytes @ rest) d = Some (obs', rest, d'))"
proof -
  have "list_all2 (reads_back R (dec_object Dec)) (map (enc_object Enc) obs) (map same_value obs)"
    using laws ok by (simp add: codec_laws_def list_all2_conv_all_nth)
  from encode_many [OF this assms(3)] show ?thesis by (auto simp: fold_map comp_def list_all2_map1)
qed

lemma list_begin_read:
  assumes laws: "codec_laws Enc Dec R ok_string ok_object" and n: "0 \<le> n" "n < 2 ^ 31" and "R s d"
  shows "\<exists>bytes s' d'. (\<forall>b. writeListBegin Enc n (b, s) = (b @ bytes, s')) \<and> R s' d' \<and>
    (\<forall>rest. read_list_begin Dec (bytes @ rest) d = Some (n, rest, d'))"
proof (cases "n \<le> 7")
  case True
  define k where "k = nat (120 + n)"
  have k: "k < 256" "120 \<le> k" "k \<le> 127" "int k = 120 + n" using True n(1) by (auto simp: k_def)
  have "nat ((120 + n) mod 256) = k" using True n(1) by (simp add: k_def)
  then have "writeListBegin Enc n (b, s) = (b @ [char_of k], s)" for b using True k(1) by (simp add: writeListBegin_def writeByte_def)
  moreover have "read_list_begin Dec ([char_of k] @ rest) d = Some (n, rest, d)" for rest
    using k by (simp add: read_list_begin_def)
  ultimately show ?thesis using assms(4) by blast
next
  case False
  have "reads_back R (dec_int Dec) (enc_int Enc n) (\<lambda>j. j = n)" using laws n by (simp add: codec_laws_def)
  then obtain d' where d': "R (snd (enc_int Enc n s)) d'"
      "\<And>rest. dec_int Dec (fst (enc_int Enc n s) @ rest) d = Some (n, rest, d')"
    using assms(4) unfolding reads_back_def by blast
  have "writeListBegin Enc n (b, s) = (b @ char_of (0x58::nat) # fst (enc_int Enc n s), snd (enc_int Enc n s))" for b
    using False by (simp add: writeListBegin_def writeByte_def encode_appends)
  moreover have "read_list_begin Dec ((char_of (0x58::nat) # fst (enc_int Enc n s)) @ rest) d = Some (n, rest, d')" for rest
    by (simp add: read_list_begin_def d'(2))
  ultimately show ?thesis using d'(1) by blast
qed

definition flat :: "(string \<times> string) list \<Rightarrow> string list" where
  "flat ps = concat (map (\<lambda>(k, v). [k, v]) ps)"

lemma flat_append [simp]: "flat (as @ bs) = flat as @ flat bs" "flat [] = []"
  by (simp_all add: flat_def)

lemma map_read:
  assumes laws: "codec_laws Enc Dec R ok_string ok_object" and ok: "\<And>x. x \<in> set (flat ps) \<Longrightarrow> ok_string x" and "R s d"
  shows "\<exists>bytes s'. (\<forall>b. encode_strings Enc (flat ps) (b, s) = (b @ bytes, s')) \<and> length ps \<le> length bytes \<and>
    (\<forall>rest n. length ps < n \<longrightarrow> read_map Dec n (bytes @ CHR ''Z'' # rest) d = Some (ps, rest))"
  using ok assms(3)
proof (induction ps arbitrary: s d)
  case Nil
  have "read_map Dec n (CHR ''Z'' # rest) d = Some ([], rest)" if "0 < n" for n rest using that by (cases n) simp_all
  then show ?case by (intro exI [of _ "[]"] exI [of _ s]) (simp add: flat_def encode_strings_def)
next
  case (Cons p ps)
  obtain k v where p: "p = (k, v)" by (cases p)
  have okk: "ok_string k" "ok_string v" using Cons.prems(1) by (auto simp: p flat_def)
  obtain d1 where d1: "R (snd (enc_string Enc k s)) d1"
      "\<And>rest. dec_string Dec (fst (enc_string Enc k s) @ rest) d = Some (k, rest, d1)"
    using laws okk(1) Cons.prems(2) unfolding codec_laws_def reads_back_def by blast
  define s1 where "s1 = snd (enc_string Enc k s)"
  obtain d2 where d2: "R (snd (enc_string Enc v s1)) d2"
      "\<And>rest. dec_string Dec (fst (enc_string Enc v s1) @ rest) d1 = Some (v, rest, d2)"
    using laws okk(2) d1(1) unfolding codec_laws_def reads_back_def s1_def by blast
  have "ok_string x" if "x \<in> set (flat ps)" for x using Cons.prems(1) that by (auto simp: p flat_def)
  from Cons.IH [OF this d2(1)] obtain bytes s' where
    IH: "\<And>b. encode_strings Enc (flat ps) (b, snd (enc_string Enc v s1)) = (b @ bytes, s')" "length ps \<le> length bytes"
      "\<And>rest n. length ps < n \<Longrightarrow> read_map Dec n (bytes @ CHR ''Z'' # rest) d2 = Some (ps, rest)" by blast
  let ?bk = "fst (enc_string Enc k s)" and ?bv = "fst (enc_string Enc v s1)"
  have bk: "?bk \<noteq> []" "hd ?bk \<noteq> CHR ''Z''" using laws okk(1) by (auto simp: codec_laws_def)
  have "encode_strings Enc (flat (p # ps)) (b, s) = (b @ ?bk @ ?bv @ bytes, s')" for b
    using IH(1) by (simp add: p flat_def encode_strings_def encode_appends s1_def)
  moreover have "length (p # ps) \<le> length (?bk @ ?bv @ bytes)" using IH(2) bk(1) by (cases ?bk) simp_all
  moreover have "read_map Dec n ((?bk @ ?bv @ bytes) @ CHR ''Z'' # rest) d = Some (p # ps, rest)" if n: "length (p # ps) < n" for n rest
  proof -
    from n obtain m where "n = Suc m" "length ps < m" by (cases n) auto
    with IH(3) d1(2) d2(2) bk show ?thesis by (simp add: p)
  qed
  ultimately show ?case by blast
qed

text \<open>The attachments that a request gets from its headers or cookies.\<close>

definition found_attachments :: "(string \<times> string) list \<Rightarrow> (string \<Rightarrow> string option) \<Rightarrow> (string \<times> string) list" where
  "found_attachments attachs value =
     concat (map (\<lambda>(name, key). case value key of Some v \<Rightarrow> [(name, v)] | None \<Rightarrow> []) attachs)"

lemma attachment_strings_flat: "attachment_strings attachs value = flat (found_attachments attachs value)"
proof -
  have "(case value key of Some v \<Rightarrow> [name, v] | None \<Rightarrow> []) =
      flat (case value key of Some v \<Rightarrow> [(name, v)] | None \<Rightarrow> [])" for name key
    by (simp add: flat_def split: option.split)
  then show ?thesis
    by (induction attachs) (simp_all add: attachment_strings_def found_attachments_def split_beta)
qed

definition all_attachments :: "bridge_context \<Rightarrow> srcs_request \<Rightarrow> (string \<times> string) list option \<Rightarrow> (string \<times> string) list" where
  "all_attachments c r extra =
     static_attachs c @ found_attachments (header_attachs c) (getHeader r) @ found_attachments (cookie_attachs c) (getCookie r) @
     (case extra of None \<Rightarrow> [] | Some as \<Rightarrow> as)"

definition invocation_names :: "bridge_context \<Rightarrow> string list" where
  "invocation_names c = [''2.0.2'', service c, version c, ''$invoke'',
     ''Ljava/lang/String;[Ljava/lang/String;[Ljava/lang/Object;'', dubbo_method c]"

definition all_strings :: "bridge_context \<Rightarrow> srcs_request \<Rightarrow> (string \<times> string) list option \<Rightarrow> string list" where
  "all_strings c r extra = invocation_names c @ map p_type (params c) @ flat (all_attachments c r extra)"

lemma encode_strings_append: "encode_strings Enc bs (encode_strings Enc as w) = encode_strings Enc (as @ bs) w"
  by (simp add: encode_strings_def)

lemma body_parts:
  assumes "writeRequestBody L Enc c r getter extra = Inr body" and "length (params c) < 2 ^ 31"
  shows "\<exists>obs. list_all2 (\<lambda>p ob. argument_of L getter p = Inr ob) (params c) obs \<and>
    body = fst (writeByte 90 (encode_strings Enc (flat (all_attachments c r extra)) (writeByte 72
      (fold (\<lambda>ob. encode (enc_object Enc ob)) obs (writeListBegin Enc (int (length (params c)))
        (encode_strings Enc (map p_type (params c)) (writeListBegin Enc (int (length (params c)))
          (encode_strings Enc (invocation_names c) ('''', enc_init Enc)))))))))"
proof -
  let ?n = "int (length (params c))"
  have n: "signed_take_bit 31 ?n = ?n" using assms(2) by (simp add: signed_take_bit_int_eq_self)
  let ?w = "writeListBegin Enc ?n (encode_strings Enc (map p_type (params c)) (writeListBegin Enc ?n
      (encode_strings Enc (invocation_names c) ('''', enc_init Enc))))"
  obtain w3 where w3: "encode_arguments L Enc getter (params c) ?w = Inr w3"
    using assms(1) by (auto simp: writeRequestBody_def Let_def n invocation_names_def split: sum.splits)
  then have "body = fst (writeByte 90 (encode_strings Enc (flat (all_attachments c r extra)) (writeByte 72 w3)))"
    using assms(1)
    by (auto simp: writeRequestBody_def Let_def n invocation_names_def [symmetric] writeStaticAttachments_def
        writeHeaderAttachments_def writeCookieAttachments_def attachment_strings_flat flat_def [symmetric]
        encode_strings_append all_attachments_def found_attachments_def split: option.splits if_splits)
  with encode_arguments_ok [OF w3] show ?thesis by blast
qed

lemma invocation_read:
  assumes laws: "codec_laws Enc Dec R ok_string ok_object"
    and body: "writeRequestBody L Enc c r getter extra = Inr body" and few: "length (params c) < 2 ^ 31"
    and strings: "\<forall>x\<in>set (all_strings c r extra). ok_string x"
    and objects: "\<forall>p\<in>set (params c). \<forall>ob. argument_of L getter p = Inr ob \<longrightarrow> ok_object ob"
  shows "\<exists>obs obs'. list_all2 (\<lambda>p ob. argument_of L getter p = Inr ob) (params c) obs \<and> list_all2 same_value obs obs' \<and>
    read_invocation Dec body = Some (invocation_names c, map p_type (params c), obs', all_attachments c r extra)"
proof -
  let ?n = "int (length (params c))" and ?names = "invocation_names c" and ?atts = "all_attachments c r extra"
  from body_parts [OF body few] obtain obs where obs: "list_all2 (\<lambda>p ob. argument_of L getter p = Inr ob) (params c) obs"
    and b: "body = fst (writeByte 90 (encode_strings Enc (flat ?atts) (writeByte 72
      (fold (\<lambda>ob. encode (enc_object Enc ob)) obs (writeListBegin Enc ?n
        (encode_strings Enc (map p_type (params c)) (writeListBegin Enc ?n
          (encode_strings Enc ?names ('''', enc_init Enc)))))))))" by blast
  have n: "0 \<le> ?n" "?n < 2 ^ 31" using few by simp_all
  have len: "length obs = length (params c)" using list_all2_lengthD [OF obs] by simp
  have okobs: "ok_object v" if "v \<in> set obs" for v
  proof -
    from that obtain i where i: "i < length obs" "v = obs ! i" by (auto simp: in_set_conv_nth)
    with obs have "argument_of L getter (params c ! i) = Inr v" by (simp add: list_all2_conv_all_nth)
    moreover have "params c ! i \<in> set (params c)" using i(1) len by simp
    ultimately show ?thesis using objects by blast
  qed
  have R0: "R (enc_init Enc) (dec_init Dec)" using laws by (simp add: codec_laws_def)
  obtain b1 s1 d1 where 1: "\<And>b. encode_strings Enc ?names (b, enc_init Enc) = (b @ b1, s1)" "R s1 d1"
      "\<And>rest. read_many (dec_string Dec) (length ?names) (b1 @ rest) (dec_init Dec) = Some (?names, rest, d1)"
    using strings_read [OF laws _ R0, of ?names] strings by (auto simp: all_strings_def)
  obtain b2 s2 d2 where 2: "\<And>b. writeListBegin Enc ?n (b, s1) = (b @ b2, s2)" "R s2 d2"
      "\<And>rest. read_list_begin Dec (b2 @ rest) d1 = Some (?n, rest, d2)"
    using list_begin_read [OF laws n 1(2)] by blast
  obtain b3 s3 d3 where 3: "\<And>b. encode_strings Enc (map p_type (params c)) (b, s2) = (b @ b3, s3)" "R s3 d3"
      "\<And>rest. read_many (dec_string Dec) (length (map p_type (params c))) (b3 @ rest) d2 = Some (map p_type (params c), rest, d3)"
    using strings_read [OF laws _ 2(2), of "map p_type (params c)"] strings by (auto simp: all_strings_def)
  obtain b4 s4 d4 where 4: "\<And>b. writeListBegin Enc ?n (b, s3) = (b @ b4, s4)" "R s4 d4"
      "\<And>rest. read_list_begin Dec (b4 @ rest) d3 = Some (?n, rest, d4)"
    using list_begin_read [OF laws n 3(2)] by blast
  obtain b5 s5 d5 obs' where 5: "\<And>b. fold (\<lambda>ob. encode (enc_object Enc ob)) obs (b, s4) = (b @ b5, s5)" "R s5 d5"
      "list_all2 same_value obs obs'" "\<And>rest. read_many (dec_object Dec) (length obs) (b5 @ rest) d4 = Some (obs', rest, d5)"
    using objects_read [OF laws okobs 4(2)] by blast
  obtain b6 s6 where 6: "\<And>b. encode_strings Enc (flat ?atts) (b, s5) = (b @ b6, s6)" "length ?atts \<le> length b6"
      "\<And>rest k. length ?atts < k \<Longrightarrow> read_map Dec k (b6 @ CHR ''Z'' # rest) d5 = Some (?atts, rest)"
    using map_read [OF laws _ 5(2), of ?atts] strings by (auto simp: all_strings_def)
  have bytes: "char_of (72 :: nat) = CHR ''H''" "char_of (90 :: nat) = CHR ''Z''" by code_simp+
  have body': "body = b1 @ b2 @ b3 @ b4 @ b5 @ CHR ''H'' # b6 @ CHR ''Z'' # []"
    unfolding b by (simp add: 1 2 3 4 5 6 writeByte_def bytes)
  have "length ?atts < length body" using 6(2) by (simp add: body')
  then have atts: "read_map Dec (length body) (b6 @ ''Z'') d5 = Some (?atts, [])" using 6(3) by simp
  have "length ?names = 6" by (simp add: invocation_names_def)
  then have "read_many (dec_string Dec) 6 body (dec_init Dec) = Some (?names, b2 @ b3 @ b4 @ b5 @ CHR ''H'' # b6 @ ''Z'', d1)"
    using 1(3) body' by simp
  then have "read_invocation Dec body = Some (?names, map p_type (params c), obs', ?atts)"
    using 2(3) 3(3) 4(3) 5(4) len atts by (simp add: read_invocation_def del: read_map.simps read_many.simps)
  with obs 5(3) show ?thesis by blast
qed

section \<open>Properties\<close>

text \<open>
  Generic types are put where the path leads. Populating marks every map that the path reaches with a
  class, changes nothing if the path reaches no map, and doing it again changes nothing.
\<close>

theorem populate_generic_types:
  "(\<forall>w. w \<in> set (reached path (populateSingleGenericType path ty ob)) \<longrightarrow> is_map w \<longrightarrow> has_class w) \<and>
   ((\<forall>w. w \<in> set (reached path ob) \<longrightarrow> \<not> is_map w) \<longrightarrow> populateSingleGenericType path ty ob = ob) \<and>
   populateSingleGenericType path ty (populateSingleGenericType path ty ob) = populateSingleGenericType path ty ob"
  using populate_reached populate_unreached populate_twice by blast

theorem populate_generic_types_witness:
  "populateSingleGenericType [''*'', ''a''] ''T'' (HList [HMap [(HString ''a'', HMap [])], HNull]) =
     HList [HMap [(HString ''a'', HMap [(HString ''class'', HString ''T'')])], HNull] \<and>
   has_class (HMap [(HString ''class'', HString ''T'')])"
  using populate_generic_types [of "[''*'', ''a'']" "''T''" "HList [HMap [(HString ''a'', HMap [])], HNull]"]
  by (simp add: emplace_def is_map_def)

text \<open>
  C21: The request frame. The bytes that are sent begin with a header of sixteen bytes whose magic, flag,
  status, identifier and length read back as written, and a reader of the frame gets exactly the encoded
  body and no byte is left over, as long as the body is shorter than \<open>2 ^ 32\<close> bytes; each request gets the
  next identifier.
\<close>

theorem dubbo_request_frame:
  assumes "writeDubboRequest L Enc c r getter extra ids = (Inr bytes, ids')"
    and "writeRequestBody L Enc c r getter extra = Inr body" and "length body < 2 ^ 32"
  shows "read_frame bytes = Some (0xdabb, 0xc2, 0, unat ids, body) \<and> length bytes = 16 + length body \<and> ids' = ids + 1"
proof -
  have bytes: "bytes = be 2 0xdabb @ [char_of (0xc2::nat)] @ [char_of (0::nat)] @ be 8 (unat ids) @ be 4 (length body) @ body"
    and ids: "ids' = ids + 1"
    using assms by (auto simp: writeDubboRequest_def dubboRequestId_def DUBBO_MAGIC_NUMBER_def DUBBO_FLAG_REQ_HESSIAN2_def)
  have "unat ids < 2 ^ 64" by (rule order_less_le_trans [OF unsigned_less]) simp
  then have "unat ids mod 256 ^ 8 = unat ids" by simp
  then show ?thesis
    using assms(3)
    by (simp add: bytes ids read_frame_def DUBBO_HEADER_SIZE_def Let_def read_be_be read_be_byte del: length_0_conv)
qed

definition example_encoder :: "unit hessian_encoder" where
  "example_encoder = \<lparr>enc_init = (), enc_string = \<lambda>s u. (s, ()), enc_int = \<lambda>i u. (''I'', ()), enc_object = \<lambda>ob u. (''O'', ())\<rparr>"

definition example_context :: bridge_context where
  "example_context = \<lparr>service = ''s'', version = ''1'', dubbo_method = ''m'', static_attachs = [], header_attachs = [],
     cookie_attachs = [], params = [], lost_parameter_name = False, bridge_source = SourceBody, ignore_null_map_pair = False\<rparr>"

definition example_request :: srcs_request where
  "example_request = \<lparr>getHeader = \<lambda>k. None, getCookie = \<lambda>k. None, getBody = ''''\<rparr>"

theorem dubbo_request_frame_witness:
  "\<exists>bytes body. writeDubboRequest example_json_lib example_encoder example_context example_request EmptyGetter None 7 = (Inr bytes, 8) \<and>
     read_frame bytes = Some (0xdabb, 0xc2, 0, 7, body)"
proof -
  let ?w = "writeRequestBody example_json_lib example_encoder example_context example_request EmptyGetter None"
  obtain body where body: "?w = Inr body" "length body < 2 ^ 32"
    by (simp add: writeRequestBody_def Let_def example_context_def example_encoder_def encode_strings_def encode_def
        writeListBegin_def writeByte_def writeStaticAttachments_def writeHeaderAttachments_def
        writeCookieAttachments_def attachment_strings_def)
  obtain bytes where bytes: "writeDubboRequest example_json_lib example_encoder example_context example_request EmptyGetter None 7 = (Inr bytes, 8)"
    using body(1) by (simp add: writeDubboRequest_def dubboRequestId_def)
  from dubbo_request_frame [OF this body] show ?thesis using bytes by auto
qed

text \<open>
  C22: A provider reads from the body of a request what the configuration says. For every decoder that reads what the
  encoder writes, the body is one generic call to the configured service and method with the configured parameter types,
  and nothing is left over. There is exactly one argument for every parameter, in the order of the configuration: the
  value that the request has for it, with its generic types, or its default, if the request has none and the parameter
  is not required. The attachments are the static ones and those found in the headers, the cookies and by the getter,
  in some order.
\<close>

theorem dubbo_request_arguments:
  assumes laws: "codec_laws Enc Dec R ok_string ok_object"
    and body: "writeRequestBody L Enc c r getter extra = Inr body" and few: "length (params c) < 2 ^ 31"
    and strings: "\<forall>x\<in>set (all_strings c r extra). ok_string x"
    and objects: "\<forall>p\<in>set (params c). \<forall>ob. argument_of L getter p = Inr ob \<longrightarrow> ok_object ob"
  shows "\<exists>args atts. read_invocation Dec body =
      Some ([''2.0.2'', service c, version c, ''$invoke'', ''Ljava/lang/String;[Ljava/lang/String;[Ljava/lang/Object;'',
             dubbo_method c], map p_type (params c), args, atts) \<and>
    list_all2 (\<lambda>p arg. \<exists>ob. same_value ob arg \<and>
      ((\<exists>v. getArgumentByParameter L getter p = Inr (Some v) \<and> ob = populateGenericTypes (p_generic p) v) \<or>
       (getArgumentByParameter L getter p = Inr None \<and> \<not> p_required p \<and> ob = p_default p))) (params c) args \<and>
    mset atts = mset (static_attachs c) + mset (found_attachments (header_attachs c) (getHeader r)) +
      mset (found_attachments (cookie_attachs c) (getCookie r)) + mset (case extra of None \<Rightarrow> [] | Some as \<Rightarrow> as)"
proof -
  from invocation_read [OF assms] obtain obs args where
    obs: "list_all2 (\<lambda>p ob. argument_of L getter p = Inr ob) (params c) obs" and args: "list_all2 same_value obs args"
    and read: "read_invocation Dec body = Some (invocation_names c, map p_type (params c), args, all_attachments c r extra)"
    by blast
  have "list_all2 (\<lambda>p arg. \<exists>ob. same_value ob arg \<and> argument_of L getter p = Inr ob) (params c) args"
    by (rule list_all2_trans [OF _ obs args]) blast
  then have "list_all2 (\<lambda>p arg. \<exists>ob. same_value ob arg \<and>
      ((\<exists>v. getArgumentByParameter L getter p = Inr (Some v) \<and> ob = populateGenericTypes (p_generic p) v) \<or>
       (getArgumentByParameter L getter p = Inr None \<and> \<not> p_required p \<and> ob = p_default p))) (params c) args"
    by (rule list_all2_mono) (use argument_cases in blast)
  then show ?thesis using read by (simp add: invocation_names_def all_attachments_def add.assoc)
qed

subsection \<open>A concrete encoding\<close>

text \<open>Strings with their length in front, written in strokes; of the objects only the natural numbers.\<close>

definition strokes :: "nat \<Rightarrow> string" where
  "strokes n = replicate n (CHR ''1'') @ ''0''"

definition read_strokes :: "string \<Rightarrow> nat \<times> string" where
  "read_strokes bytes = (let n = length (takeWhile (\<lambda>b. b = CHR ''1'') bytes) in (n, drop (Suc n) bytes))"

lemma read_strokes: "read_strokes (strokes n @ rest) = (n, rest)"
proof -
  have "takeWhile (\<lambda>b. b = CHR ''1'') (strokes n @ rest) = replicate n (CHR ''1'')"
    by (induction n) (simp_all add: strokes_def)
  then show ?thesis by (simp add: read_strokes_def strokes_def)
qed

definition stroke_encoder :: "unit hessian_encoder" where
  "stroke_encoder =
     \<lparr>enc_init = (), enc_string = \<lambda>s u. (strokes (length s) @ s, ()), enc_int = \<lambda>i u. (strokes (nat i), ()),
      enc_object = \<lambda>ob u. (case ob of HInt i \<Rightarrow> strokes (nat i) | _ \<Rightarrow> '''', ())\<rparr>"

definition stroke_decoder :: "unit hessian_decoder" where
  "stroke_decoder =
     \<lparr>dec_init = (), dec_string = \<lambda>bytes u. (let (n, rest) = read_strokes bytes in Some (take n rest, drop n rest, ())),
      dec_int = \<lambda>bytes u. (let (n, rest) = read_strokes bytes in Some (int n, rest, ())),
      dec_object = \<lambda>bytes u. (let (n, rest) = read_strokes bytes in Some (HInt (int n), rest, ()))\<rparr>"

lemma stroke_laws: "codec_laws stroke_encoder stroke_decoder (\<lambda>s d. True) (\<lambda>x. True) (\<lambda>v. \<exists>i. 0 \<le> i \<and> v = HInt i)"
proof -
  have "hd (strokes n) \<noteq> CHR ''Z''" "strokes n \<noteq> []" for n by (cases n; simp add: strokes_def)+
  then show ?thesis
    by (auto simp: codec_laws_def reads_back_def stroke_encoder_def stroke_decoder_def read_strokes same_value.same)
qed

definition optional_parameter :: "string \<Rightarrow> int \<Rightarrow> parameter" where
  "optional_parameter name i =
     \<lparr>p_index = 0, p_type = ''int'', p_name = name, p_required = False, p_default = HInt i, p_generic = []\<rparr>"

theorem dubbo_request_arguments_witness:
  "\<exists>body atts. writeRequestBody example_json_lib stroke_encoder
       (example_context\<lparr>params := [optional_parameter ''a'' 3, optional_parameter ''b'' 4]\<rparr>) example_request EmptyGetter
       (Some [(''k'', ''v'')]) = Inr body \<and>
     read_invocation stroke_decoder body =
       Some ([''2.0.2'', ''s'', ''1'', ''$invoke'', ''Ljava/lang/String;[Ljava/lang/String;[Ljava/lang/Object;'', ''m''],
             [''int'', ''int''], [HInt 3, HInt 4], atts) \<and> mset atts = {#(''k'', ''v'')#}"
proof -
  let ?ps = "[optional_parameter ''a'' 3, optional_parameter ''b'' 4]" and ?extra = "Some [(''k'', ''v'')]"
  let ?c = "example_context\<lparr>params := ?ps\<rparr>" and ?L = example_json_lib
  obtain body where body: "writeRequestBody ?L stroke_encoder ?c example_request EmptyGetter ?extra = Inr body"
    by (simp add: writeRequestBody_def Let_def argument_of_def optional_parameter_def)
  have few: "length (params ?c) < 2 ^ 31" and strings: "\<forall>x\<in>set (all_strings ?c example_request ?extra). True" by simp_all
  have objects: "\<forall>p\<in>set (params ?c). \<forall>ob. argument_of ?L EmptyGetter p = Inr ob \<longrightarrow> (\<exists>i. 0 \<le> i \<and> ob = HInt i)"
    by (simp add: argument_of_def optional_parameter_def)
  from dubbo_request_arguments [OF stroke_laws body few strings objects]
  obtain args atts where read: "read_invocation stroke_decoder body = Some ([''2.0.2'', service ?c, version ?c, ''$invoke'',
        ''Ljava/lang/String;[Ljava/lang/String;[Ljava/lang/Object;'', dubbo_method ?c], map p_type (params ?c), args, atts)"
    and args: "list_all2 (\<lambda>p arg. \<exists>ob. same_value ob arg \<and> \<not> p_required p \<and> ob = p_default p) (params ?c) args"
    and atts: "mset atts = mset (static_attachs ?c) + mset (found_attachments (header_attachs ?c) (getHeader example_request)) +
        mset (found_attachments (cookie_attachs ?c) (getCookie example_request)) + {#(''k'', ''v'')#}"
    by auto
  have "same_value (HInt i) t \<Longrightarrow> t = HInt i" for i t by (auto elim: same_value.cases)
  with args have "args = [HInt 3, HInt 4]" by (auto simp: optional_parameter_def list_all2_Cons1)
  with read atts body show ?thesis
    by (auto simp: example_context_def optional_parameter_def found_attachments_def)
qed

end
