(* ===== verification/Dubbo_Upstream.thy ===== *)
theory Dubbo_Upstream
  imports Dubbo_Request
begin

text \<open>
  Reading Dubbo responses (\<^verbatim>\<open>DubboResponse::decodeDubboFromBuffer\<close> of \<^verbatim>\<open>source/common/dubbo/utility.cc\<close>) and
  the upstream that sends one HTTP request as a Dubbo request and answers it
  (\<^verbatim>\<open>source/upstreams/http/dubbo/upstream_request.{h,cc}\<close>).

  \<^item> The header decoder, the Hessian decoder and the codes of the response types belong to Envoy and to the
    Hessian library: they are the parameter \<open>dubbo_codec\<close>. A header decodes to a frame, or to \<open>None\<close> while
    bytes are missing.
  \<^item> What the upstream does on its connection and towards the router is a list of outputs. Callbacks that
    are posted to the dispatcher are in the state until they run.
  \<^item> The conversion of the request is a function of the body, the conversion of a value to text the
    function \<open>to_text\<close>, which may throw and may give a status code of its own.
\<close>

section \<open>Frames\<close>

datatype message_type =
  Response | Request | Oneway | ExceptionMessage | HeartbeatRequest | HeartbeatResponse

record dubbo_frame =
  bodySize :: nat
  messageType :: message_type
  status_ok :: bool

datatype rpc_response_type =
    ResponseWithException
  | ResponseWithValue
  | ResponseWithNullValue
  | ResponseWithExceptionWithAttachments
  | ResponseValueWithAttachments
  | ResponseNullValueWithAttachments

record 'v dubbo_codec =
  decodeHeader :: "string \<Rightarrow> dubbo_frame option throws"
  decode_object :: "string \<Rightarrow> nat \<Rightarrow> ('v option \<times> nat) throws"
  decode_int :: "string \<Rightarrow> nat \<Rightarrow> (int option \<times> nat) throws"
  rpc_type :: "int \<Rightarrow> rpc_response_type option"
  message_type_number :: "message_type \<Rightarrow> nat"

definition is_heartbeat :: "dubbo_frame \<Rightarrow> bool" where
  "is_heartbeat f \<longleftrightarrow> messageType f = HeartbeatRequest \<or> messageType f = HeartbeatResponse"

definition complete :: "string \<Rightarrow> dubbo_frame \<Rightarrow> bool" where
  "complete buffer f \<longleftrightarrow> bodySize f + DUBBO_HEADER_SIZE \<le> length buffer"

text \<open>
  The loop that drops heartbeats: the buffer it ends with and either the exception of the header decoder,
  when there is no context, or the context and whether its frame is completely in the buffer.
\<close>

function skip_heartbeats ::
    "'v dubbo_codec \<Rightarrow> string \<Rightarrow> dubbo_frame \<Rightarrow> string \<times> (dubbo_frame option \<times> bool) throws" where
  "skip_heartbeats D buffer f =
     (if is_heartbeat f
      then let buffer' = drop (bodySize f + DUBBO_HEADER_SIZE) buffer
           in case decodeHeader D buffer' of
                Inl err \<Rightarrow> (buffer', Inl err)
              | Inr None \<Rightarrow> (buffer', Inr (None, False))
              | Inr (Some f') \<Rightarrow>
                  (if \<not> complete buffer' f' then (buffer', Inr (Some f', False))
                   else skip_heartbeats D buffer' f')
      else (buffer, Inr (Some f, True)))"
  by pat_completeness auto
termination
  by (relation "measure (\<lambda>(D, buffer, f). length buffer)") (auto simp: complete_def DUBBO_HEADER_SIZE_def)

declare skip_heartbeats.simps [simp del]

text \<open>Up to the point where a complete frame that is no heartbeat is in the buffer.\<close>

definition next_frame ::
    "'v dubbo_codec \<Rightarrow> string \<Rightarrow> dubbo_frame option \<Rightarrow> string \<times> (dubbo_frame option \<times> bool) throws" where
  "next_frame D buffer context =
     (case (case context of None \<Rightarrow> decodeHeader D buffer | Some f \<Rightarrow> Inr (Some f)) of
        Inl err \<Rightarrow> (buffer, Inl err)
      | Inr None \<Rightarrow> (buffer, Inr (None, False))
      | Inr (Some f) \<Rightarrow> (if \<not> complete buffer f then (buffer, Inr (Some f, False)) else skip_heartbeats D buffer f))"

section \<open>Decoding a response\<close>

record 'v dubbo_response =
  resp_context :: "dubbo_frame option"
  is_exception :: bool
  close_connection :: bool
  resp_value :: "'v option"

definition DubboResponse :: "'v dubbo_response" where
  "DubboResponse = \<lparr>resp_context = None, is_exception = False, close_connection = False, resp_value = None\<rparr>"

datatype decode_status = DecodeOK | DecodeWaiting

definition size_error :: "nat \<Rightarrow> nat \<Rightarrow> string" where
  "size_error offset body_size =
     ''RpcResult size('' @ decimal_nat offset @ '') large than body size('' @ decimal_nat body_size @ '')''"

definition value_kind_of :: "rpc_response_type \<Rightarrow> bool \<times> bool" where
  "value_kind_of t =
     (case t of
        ResponseWithException \<Rightarrow> (True, True)
      | ResponseWithExceptionWithAttachments \<Rightarrow> (True, True)
      | ResponseWithValue \<Rightarrow> (True, False)
      | ResponseValueWithAttachments \<Rightarrow> (True, False)
      | ResponseWithNullValue \<Rightarrow> (False, False)
      | ResponseNullValueWithAttachments \<Rightarrow> (False, False))"

text \<open>The part after the header has been drained; \<open>body\<close> is the buffer then.\<close>

definition decode_body :: "'v dubbo_codec \<Rightarrow> dubbo_frame \<Rightarrow> string \<Rightarrow> 'v dubbo_response \<Rightarrow> 'v dubbo_response throws" where
  "decode_body D f body r =
     (if \<not> status_ok f
      then (case decode_object D body 0 of
              Inl err \<Rightarrow> Inl err
            | Inr (v, offset) \<Rightarrow>
                (if bodySize f < offset then Inl (size_error offset (bodySize f))
                 else Inr (r\<lparr>resp_value := v, is_exception := True, close_connection := True\<rparr>)))
      else case decode_int D body 0 of
        Inl err \<Rightarrow> Inl err
      | Inr (None, offset) \<Rightarrow> Inl ''No response type get from dubbo response and do nothing''
      | Inr (Some ty, offset) \<Rightarrow>
          (case rpc_type D ty of
             None \<Rightarrow> Inl (''not supported return type '' @ decimal_nat (unat (word_of_int ty :: u8)))
           | Some t \<Rightarrow>
               (case (if fst (value_kind_of t)
                      then (case decode_object D body offset of
                              Inl err \<Rightarrow> Inl err
                            | Inr (v, offset') \<Rightarrow>
                                Inr (r\<lparr>resp_value := v, is_exception := snd (value_kind_of t)\<rparr>, offset'))
                      else Inr (r, offset)) of
                  Inl err \<Rightarrow> Inl err
                | Inr (r', offset') \<Rightarrow>
                    (if bodySize f < offset' then Inl (size_error offset' (bodySize f)) else Inr r'))))"

text \<open>A heartbeat that was dropped has reset the response; it shortens the buffer.\<close>

definition decodeDubboFromBuffer ::
    "'v dubbo_codec \<Rightarrow> string \<Rightarrow> 'v dubbo_response \<Rightarrow> (decode_status \<times> string \<times> 'v dubbo_response) throws" where
  "decodeDubboFromBuffer D buffer r =
     (case next_frame D buffer (resp_context r) of
        (buffer', Inl err) \<Rightarrow> Inl err
      | (buffer', Inr (context, False)) \<Rightarrow>
          Inr (DecodeWaiting, buffer',
            (if length buffer' < length buffer then DubboResponse else r)\<lparr>resp_context := context\<rparr>)
      | (buffer', Inr (context, True)) \<Rightarrow>
          (let f = the context; r1 = (if length buffer' < length buffer then DubboResponse else r)\<lparr>resp_context := context\<rparr>
           in case messageType f of
                Response \<Rightarrow>
                  (case decode_body D f (drop DUBBO_HEADER_SIZE buffer') r1 of
                     Inl err \<Rightarrow> Inl err
                   | Inr r2 \<Rightarrow> Inr (DecodeOK, drop DUBBO_HEADER_SIZE buffer', r2))
              | _ \<Rightarrow> Inl (''Expected response message but get '' @ decimal_nat (message_type_number D (messageType f)))))"

section \<open>The upstream\<close>

datatype response_kind = ValueResponse | ExceptionResponse | LocalResponse

datatype 'v response_value = Decoded "'v option" | Raw string

record 'v dubbo_bridge =
  br_protocol_error_code :: "u32 option"
  br_resp_exception_code :: "u32 option"
  br_convert :: "string \<Rightarrow> string throws"
  br_to_text :: "'v response_value \<Rightarrow> response_kind \<Rightarrow> (string \<times> u32 option) throws"

definition protocolErrorCode :: "'v dubbo_bridge \<Rightarrow> u32" where
  "protocolErrorCode b = (case br_protocol_error_code b of Some c \<Rightarrow> c | None \<Rightarrow> 501)"

definition respExceptionCode :: "'v dubbo_bridge \<Rightarrow> u32" where
  "respExceptionCode b = (case br_resp_exception_code b of Some c \<Rightarrow> c | None \<Rightarrow> 503)"

text \<open>The conversion for a given context creator and getter creator.\<close>

definition convertHttpToDubbo ::
    "json_lib \<Rightarrow> 's hessian_encoder \<Rightarrow> (srcs_request \<Rightarrow> bridge_context throws) \<Rightarrow>
     (bridge_context \<Rightarrow> srcs_request \<Rightarrow> argument_getter throws) \<Rightarrow> srcs_request \<Rightarrow> u64 \<Rightarrow> string throws \<times> u64" where
  "convertHttpToDubbo L Enc get_context make_getter r ids =
     (case get_context r of
        Inl err \<Rightarrow> (Inl err, ids)
      | Inr c \<Rightarrow>
          (case make_getter c r of
             Inl err \<Rightarrow> (Inl err, ids)
           | Inr getter \<Rightarrow> writeDubboRequest L Enc c r getter None ids))"

datatype upstream_output =
    WriteUpstream string
  | DecodeHeaders u32 nat bool bool
  | DecodeData string
  | CloseUpstream
  | ResetDownstream
  | Uncaught string

record upstream =
  bufferd_body :: string
  dubbo_response_buffer :: string
  request_complete :: bool
  responded :: bool
  response_context :: "dubbo_frame option"
  protocol_error_code :: u32
  resp_exception_code :: u32
  has_getter :: bool
  upstream_request :: bool
  upstream_conn_data :: bool
  to_close_upstream_connection :: bool
  reset_guard :: bool
  posted :: "string list"

definition DubboUpstream :: upstream where
  "DubboUpstream =
     \<lparr>bufferd_body = '''', dubbo_response_buffer = '''', request_complete = False, responded = False,
      response_context = None, protocol_error_code = 501, resp_exception_code = 503, has_getter = False,
      upstream_request = True, upstream_conn_data = True, to_close_upstream_connection = False,
      reset_guard = True, posted = []\<rparr>"

type_synonym upstream_action = "upstream \<Rightarrow> upstream_output list \<times> upstream"

definition cleanup :: "bool \<Rightarrow> upstream_action" where
  "cleanup close u =
     (if close \<and> upstream_conn_data u then [CloseUpstream] else [],
      u\<lparr>reset_guard := False, upstream_request := False, upstream_conn_data := False\<rparr>)"

definition destroy_upstream :: upstream_action where
  "destroy_upstream u = cleanup (to_close_upstream_connection u \<or> \<not> responded u) u"

text \<open>
  \<open>resets\<close> tells whether the router resets this upstream while it takes the headers (for a retry, say),
  which clears \<^verbatim>\<open>upstream_request_\<close>.
\<close>

definition handleRawResponse :: "bool \<Rightarrow> u32 \<Rightarrow> string \<Rightarrow> bool \<Rightarrow> upstream_action" where
  "handleRawResponse resets code body close u =
     (let u1 = u\<lparr>responded := True, to_close_upstream_connection := (close \<or> to_close_upstream_connection u)\<rparr>;
          end_stream = (body = '''');
          (out, u2) = (if resets then cleanup True u1 else ([], u1))
      in if end_stream \<or> \<not> upstream_request u2
         then (DecodeHeaders code (length body) close end_stream # out, u2)
         else (DecodeHeaders code (length body) close end_stream # out @ [DecodeData body], u2))"

text \<open>
  The text of the value: made by the configured getter if there is one yet, and otherwise by \<open>default_text\<close>,
  the JSON conversion. An exception leaves before anything is sent.
\<close>

definition handleResponse ::
    "('v response_value \<Rightarrow> string throws) \<Rightarrow> 'v dubbo_bridge \<Rightarrow> bool \<Rightarrow> u32 \<Rightarrow> response_kind \<Rightarrow> 'v response_value \<Rightarrow> bool \<Rightarrow>
     upstream \<Rightarrow> (upstream_output list \<times> upstream) throws" where
  "handleResponse default_text b resets code kind v close u =
     (if has_getter u
      then (case br_to_text b v kind of
              Inl err \<Rightarrow> Inl err
            | Inr (text, code') \<Rightarrow>
                Inr (handleRawResponse resets (case code' of Some c \<Rightarrow> c | None \<Rightarrow> code) text close u))
      else (case default_text v of
              Inl err \<Rightarrow> Inl err
            | Inr text \<Rightarrow> Inr (handleRawResponse resets code text close u)))"

definition no_context_error :: string where
  "no_context_error = ''No valid dubbo conversion context for current route or request''"

definition writeRequestToUpstream :: "'v dubbo_bridge option \<Rightarrow> upstream_action" where
  "writeRequestToUpstream bridge u =
     (if request_complete u then ([], u)
      else let u1 = u\<lparr>request_complete := True\<rparr>
           in case bridge of
                None \<Rightarrow> ([], u1\<lparr>posted := posted u1 @ [no_context_error]\<rparr>)
              | Some b \<Rightarrow>
                  (let u2 = u1\<lparr>protocol_error_code := protocolErrorCode b, resp_exception_code := respExceptionCode b,
                              has_getter := True\<rparr>
                   in case br_convert b (bufferd_body u) of
                        Inl err \<Rightarrow> ([], u2\<lparr>posted := posted u2 @ [err]\<rparr>)
                      | Inr bytes \<Rightarrow> ([WriteUpstream bytes], u2)))"

definition up_encodeHeaders :: "'v dubbo_bridge option \<Rightarrow> bool \<Rightarrow> upstream_action" where
  "up_encodeHeaders bridge end_stream u = (if end_stream then writeRequestToUpstream bridge u else ([], u))"

definition up_encodeData :: "'v dubbo_bridge option \<Rightarrow> string \<Rightarrow> bool \<Rightarrow> upstream_action" where
  "up_encodeData bridge data end_stream u =
     (let u1 = u\<lparr>bufferd_body := bufferd_body u @ data\<rparr>
      in if end_stream then writeRequestToUpstream bridge u1 else ([], u1))"

definition up_encodeTrailers :: "'v dubbo_bridge option \<Rightarrow> upstream_action" where
  "up_encodeTrailers bridge u = writeRequestToUpstream bridge u"

text \<open>
  What a complete frame is answered with: the code, the kind and the value of the response, and whether the
  connection is closed; an exception of a decoder or an unknown response type is thrown.
\<close>

definition frame_response ::
    "'v dubbo_codec \<Rightarrow> upstream \<Rightarrow> dubbo_frame \<Rightarrow> string \<Rightarrow> (u32 \<times> response_kind \<times> 'v response_value \<times> bool) throws" where
  "frame_response D u f body =
     (let perr = protocol_error_code u
      in if messageType f \<noteq> Response
         then Inr (perr, ExceptionResponse,
                Raw (''Expected response message but get '' @ decimal_nat (message_type_number D (messageType f))), True)
         else if \<not> status_ok f
         then (case decode_object D body 0 of
                 Inl err \<Rightarrow> Inl err
               | Inr (v, offset) \<Rightarrow>
                   (if bodySize f < offset then Inr (perr, ExceptionResponse, Raw (size_error offset (bodySize f)), True)
                    else Inr (perr, ExceptionResponse, Decoded v, True)))
         else case decode_int D body 0 of
           Inl err \<Rightarrow> Inl err
         | Inr (None, offset) \<Rightarrow>
             Inr (perr, ExceptionResponse, Raw ''No response type get from dubbo response and do nothing'', True)
         | Inr (Some ty, offset) \<Rightarrow>
             (case rpc_type D ty of
                None \<Rightarrow> Inl (''not supported return type '' @ decimal_nat (unat (word_of_int ty :: u8)))
              | Some t \<Rightarrow>
                  (let code = (if snd (value_kind_of t) then resp_exception_code u else 200);
                       kind = (if snd (value_kind_of t) then ExceptionResponse else ValueResponse)
                   in if fst (value_kind_of t)
                      then (case decode_object D body offset of
                              Inl err \<Rightarrow> Inl err
                            | Inr (v, offset') \<Rightarrow>
                                (if bodySize f < offset'
                                 then Inr (perr, ExceptionResponse, Raw (size_error offset' (bodySize f)), True)
                                 else Inr (code, kind, Decoded v, False)))
                      else Inr (code, kind, Decoded None, False))))"

text \<open>The first component tells whether a response was given (\<^verbatim>\<open>OK\<close>) or more bytes are awaited.\<close>

definition readResponseFromUpstream ::
    "'v dubbo_codec \<Rightarrow> ('v response_value \<Rightarrow> string throws) \<Rightarrow> 'v dubbo_bridge \<Rightarrow> bool \<Rightarrow> upstream \<Rightarrow>
     (string + bool \<times> upstream_output list) \<times> upstream" where
  "readResponseFromUpstream D default_text b resets u =
     (case next_frame D (dubbo_response_buffer u) (response_context u) of
        (buffer, Inl err) \<Rightarrow> (Inl err, u\<lparr>dubbo_response_buffer := buffer, response_context := None\<rparr>)
      | (buffer, Inr (context, False)) \<Rightarrow>
          (Inr (False, []), u\<lparr>dubbo_response_buffer := buffer, response_context := context\<rparr>)
      | (buffer, Inr (context, True)) \<Rightarrow>
          (let f = the context;
               u1 = u\<lparr>response_context := context,
                      dubbo_response_buffer := (if messageType f = Response then drop 16 buffer else buffer)\<rparr>
           in case frame_response D u1 f (drop 16 buffer) of
                Inl err \<Rightarrow> (Inl err, u1)
              | Inr (code, kind, v, close) \<Rightarrow>
                  (case handleResponse default_text b resets code kind v close u1 of
                     Inl err \<Rightarrow> (Inl err, u1)
                   | Inr (out, u2) \<Rightarrow> (Inr (True, out), u2))))"

text \<open>
  When the text conversion of the error message itself throws, the exception leaves the callback
  (\<open>Uncaught\<close>).
\<close>

definition error_response ::
    "('v response_value \<Rightarrow> string throws) \<Rightarrow> 'v dubbo_bridge \<Rightarrow> bool \<Rightarrow> string \<Rightarrow> upstream_action" where
  "error_response default_text b resets msg u =
     (case handleResponse default_text b resets (protocol_error_code u) ExceptionResponse (Raw msg) True u of
        Inl err \<Rightarrow> ([Uncaught err], u)
      | Inr r \<Rightarrow> r)"

definition onUpstreamData ::
    "'v dubbo_codec \<Rightarrow> ('v response_value \<Rightarrow> string throws) \<Rightarrow> 'v dubbo_bridge \<Rightarrow> bool \<Rightarrow> string \<Rightarrow> bool \<Rightarrow> upstream_action" where
  "onUpstreamData D default_text b resets data end_stream u =
     (if \<not> upstream_request u \<or> responded u \<or> length data = 0 then ([], u)
      else case readResponseFromUpstream D default_text b resets
                  (u\<lparr>dubbo_response_buffer := dubbo_response_buffer u @ data\<rparr>) of
             (Inr (True, out), u1) \<Rightarrow> (out, u1)
           | (Inr (False, out), u1) \<Rightarrow>
               (if end_stream
                then error_response default_text b resets ''More data is necessary for upstream but end stream'' u1
                else ([], u1))
           | (Inl err, u1) \<Rightarrow> error_response default_text b resets err u1)"

definition up_onEvent :: "bool \<Rightarrow> upstream_action" where
  "up_onEvent is_connected u =
     (if is_connected then ([], u)
      else if \<not> upstream_request u then ([], u)
      else if responded u then cleanup False u
      else let (out, u1) = cleanup False u in (out @ [ResetDownstream], u1))"

definition resetStream :: upstream_action where
  "resetStream u = cleanup True u"

definition run_posted ::
    "('v response_value \<Rightarrow> string throws) \<Rightarrow> 'v dubbo_bridge \<Rightarrow> bool \<Rightarrow> upstream_action" where
  "run_posted default_text b resets u =
     (case posted u of
        [] \<Rightarrow> ([], u)
      | msg # rest \<Rightarrow>
          (let u1 = u\<lparr>posted := rest\<rparr>
           in if reset_guard u1
              then (case handleResponse default_text b resets 400 LocalResponse (Raw msg) False u1 of
                      Inl err \<Rightarrow> ([Uncaught err], u1)
                    | Inr r \<Rightarrow> r)
              else ([], u1)))"

section \<open>Bytes arrive in pieces\<close>

lemma complete_append [simp]: "complete s f \<Longrightarrow> complete (s @ t) f"
  by (simp add: complete_def)

lemma drop_frame_append: "complete s f \<Longrightarrow> bodySize f + DUBBO_HEADER_SIZE - length s = 0"
  by (simp add: complete_def)

lemma skip_heartbeats_next:
  "skip_heartbeats D s f =
     (if is_heartbeat f then next_frame D (drop (bodySize f + DUBBO_HEADER_SIZE) s) None else (s, Inr (Some f, True)))"
  by (subst skip_heartbeats.simps) (simp add: next_frame_def Let_def)

lemma drop_frame_shorter: "complete s f \<Longrightarrow> length (drop (bodySize f + DUBBO_HEADER_SIZE) s) < length s"
  by (simp add: complete_def DUBBO_HEADER_SIZE_def)

lemma next_frame_Some:
  "next_frame D s (Some f) = (if \<not> complete s f then (s, Inr (Some f, False)) else skip_heartbeats D s f)"
  by (simp add: next_frame_def)

text \<open>
  What the framing relies on: once the header decoder has an answer, later bytes do not change it.
\<close>

locale dubbo_header_laws =
  fixes D :: "'v dubbo_codec"
  assumes header_stable: "decodeHeader D s = Inr (Some f) \<Longrightarrow> decodeHeader D (s @ t) = Inr (Some f)"
    and header_error_stable: "decodeHeader D s = Inl err \<Longrightarrow> decodeHeader D (s @ t) = Inl err"
begin

lemma next_frame_None_Some: "decodeHeader D s = Inr (Some f) \<Longrightarrow> next_frame D (s @ t) None = next_frame D (s @ t) (Some f)"
  by (simp add: next_frame_def header_stable)

lemma next_frame_resume:
  "next_frame D s c = (s', Inr (c', False)) \<Longrightarrow> next_frame D (s' @ t) c' = next_frame D (s @ t) c"
proof (induction s arbitrary: c rule: length_induct)
  case (1 s)
  have framed: "next_frame D (s' @ t) c' = next_frame D (s @ t) (Some f)"
    if f: "next_frame D s (Some f) = (s', Inr (c', False))" for f
  proof (cases "complete s f")
    case True
    then have hb: "is_heartbeat f" and rest: "next_frame D (drop (bodySize f + DUBBO_HEADER_SIZE) s) None = (s', Inr (c', False))"
      using f by (auto simp: next_frame_Some skip_heartbeats_next split: if_splits)
    show ?thesis
      using 1(1)[rule_format, OF drop_frame_shorter[OF True] rest] True hb
      by (simp add: next_frame_Some skip_heartbeats_next drop_frame_append)
  qed (use f in \<open>auto simp: next_frame_Some\<close>)
  show ?case
  proof (cases c)
    case None
    show ?thesis
    proof (cases "decodeHeader D s")
      case (Inr h)
      then show ?thesis
        using framed 1(2) None next_frame_None_Some[of s]
        by (cases h) (auto simp: next_frame_def)
    qed (use 1(2) None in \<open>simp add: next_frame_def\<close>)
  qed (use framed 1(2) in simp)
qed

lemma next_frame_waiting_prefix:
  "next_frame D (s @ t) c = (s', Inr (c', False)) \<Longrightarrow> \<exists>s1 c1. next_frame D s c = (s1, Inr (c1, False))"
proof (induction s arbitrary: c rule: length_induct)
  case (1 s)
  have framed: "\<exists>s1 c1. next_frame D s (Some f) = (s1, Inr (c1, False))"
    if f: "next_frame D (s @ t) (Some f) = (s', Inr (c', False))" for f
  proof (cases "complete s f")
    case True
    then have hb: "is_heartbeat f" and rest: "next_frame D (drop (bodySize f + DUBBO_HEADER_SIZE) s @ t) None = (s', Inr (c', False))"
      using f by (auto simp: next_frame_Some skip_heartbeats_next drop_frame_append split: if_splits)
    show ?thesis
      using 1(1)[rule_format, OF drop_frame_shorter[OF True] rest] True hb
      by (simp add: next_frame_Some skip_heartbeats_next)
  qed (simp add: next_frame_Some)
  show ?case
  proof (cases c)
    case None
    show ?thesis
    proof (cases "decodeHeader D s")
      case (Inl err)
      then show ?thesis using 1(2) None header_error_stable[OF Inl, of t] by (simp add: next_frame_def)
    next
      case (Inr h)
      then show ?thesis
        using framed 1(2) None next_frame_None_Some[of s]
        by (cases h) (auto simp: next_frame_def)
    qed
  qed (use framed 1(2) in simp)
qed

text \<open>A complete heartbeat at the front of the buffer makes no difference.\<close>

lemma next_frame_heartbeat:
  assumes "decodeHeader D hb = Inr (Some f)" and "is_heartbeat f" and "length hb = bodySize f + DUBBO_HEADER_SIZE"
  shows "next_frame D (hb @ rest) None = next_frame D rest None"
  using assms header_stable[OF assms(1), of rest]
  by (simp add: next_frame_def[of D "hb @ rest"] complete_def skip_heartbeats_next)

end

text \<open>
  The header of the wire format, an instance of the laws: two bytes of magic, a byte of flags, a byte of
  status, eight bytes of identifier and four bytes of length.
\<close>

definition wire_header :: "string \<Rightarrow> dubbo_frame option throws" where
  "wire_header s =
     (if length s < 16 then Inr None
      else if take 2 s \<noteq> [CHR 0xDA, CHR 0xBB] then Inl ''invalid dubbo message magic number''
      else let flag = s ! 2
           in Inr (Some
                \<lparr>bodySize = read_be (take 4 (drop 12 s)),
                 messageType =
                   (if digit5 flag then (if digit7 flag then HeartbeatRequest else HeartbeatResponse)
                    else if digit7 flag then (if digit6 flag then Request else Oneway) else Response),
                 status_ok = (s ! 3 = CHR 0x14)\<rparr>))"

definition wire_codec :: "string dubbo_codec" where
  "wire_codec =
     \<lparr>decodeHeader = wire_header,
      decode_object = \<lambda>s n. (if n < length s then Inr (Some [s ! n], n + 1) else Inr (None, n)),
      decode_int = \<lambda>s n. (if n < length s then Inr (Some (of_char (s ! n)), n + 1) else Inr (None, n)),
      rpc_type = \<lambda>i. (if i = 0 then Some ResponseWithException else if i = 1 then Some ResponseWithValue
                     else if i = 2 then Some ResponseWithNullValue else None),
      message_type_number = \<lambda>m. 0\<rparr>"

lemma take_drop_append: "i + n \<le> length s \<Longrightarrow> take n (drop i (s @ t)) = take n (drop i s)"
  by simp

lemma wire_header_append: "16 \<le> length s \<Longrightarrow> wire_header (s @ t) = wire_header s"
  using take_drop_append [of 0 2 s t] take_drop_append [of 12 4 s t]
  by (simp add: wire_header_def Let_def nth_append del: take_append drop_append)

interpretation wire: dubbo_header_laws wire_codec
proof
  fix s t f assume "decodeHeader wire_codec s = Inr (Some f)"
  then show "decodeHeader wire_codec (s @ t) = Inr (Some f)"
    using wire_header_append [of s t] by (cases "length s < 16") (auto simp: wire_codec_def wire_header_def)
next
  fix s t err assume "decodeHeader wire_codec s = Inl err"
  then show "decodeHeader wire_codec (s @ t) = Inl err"
    using wire_header_append [of s t] by (cases "length s < 16") (auto simp: wire_codec_def wire_header_def)
qed

section \<open>Runs of the upstream\<close>

lemma readResponse_waiting:
  "next_frame D (dubbo_response_buffer u) (response_context u) = (s, Inr (c, False)) \<Longrightarrow>
   readResponseFromUpstream D dt b resets u =
     (Inr (False, []), u\<lparr>dubbo_response_buffer := s, response_context := c\<rparr>)"
  by (simp add: readResponseFromUpstream_def)

text \<open>\<open>waits_after D u s\<close>: with the bytes \<open>s\<close> the response is not complete.\<close>

definition waits_after :: "'v dubbo_codec \<Rightarrow> upstream \<Rightarrow> string \<Rightarrow> bool" where
  "waits_after D u s \<longleftrightarrow>
     (case next_frame D (dubbo_response_buffer u @ s) (response_context u) of (_, Inr (_, ok)) \<Rightarrow> \<not> ok | (_, Inl _) \<Rightarrow> False)"

definition listening :: "upstream \<Rightarrow> bool" where
  "listening u \<longleftrightarrow> upstream_request u \<and> \<not> responded u"

definition receive ::
    "'v dubbo_codec \<Rightarrow> ('v response_value \<Rightarrow> string throws) \<Rightarrow> 'v dubbo_bridge \<Rightarrow> bool \<Rightarrow> string list \<Rightarrow> upstream_action" where
  "receive D dt b resets ds u =
     fold (\<lambda>d (out, u). let (out', u') = onUpstreamData D dt b resets d False u in (out @ out', u')) ds ([], u)"

lemma waits_afterE:
  assumes "waits_after D u s"
  obtains s' c' where "next_frame D (dubbo_response_buffer u @ s) (response_context u) = (s', Inr (c', False))"
  using assms
  by (cases "next_frame D (dubbo_response_buffer u @ s) (response_context u)")
     (auto simp: waits_after_def split: sum.splits)

lemma onUpstreamData_waiting:
  assumes "listening u" and "d \<noteq> []" and "next_frame D (dubbo_response_buffer u @ d) (response_context u) = (s', Inr (c', False))"
  shows "onUpstreamData D dt b resets d False u = ([], u\<lparr>dubbo_response_buffer := s', response_context := c'\<rparr>)"
  using assms readResponse_waiting [of D "u\<lparr>dubbo_response_buffer := dubbo_response_buffer u @ d\<rparr>" s' c' dt b resets]
  by (simp add: onUpstreamData_def listening_def)

context dubbo_header_laws
begin

lemma data_in_two_chunks:
  assumes u: "listening u" "d1 \<noteq> []" "d2 \<noteq> []" and w: "waits_after D u d1"
  shows "onUpstreamData D dt b resets d1 False u = ([], snd (onUpstreamData D dt b resets d1 False u)) \<and>
         onUpstreamData D dt b resets d2 e (snd (onUpstreamData D dt b resets d1 False u)) =
         onUpstreamData D dt b resets (d1 @ d2) e u"
proof -
  obtain s' c' where n: "next_frame D (dubbo_response_buffer u @ d1) (response_context u) = (s', Inr (c', False))"
    by (rule waits_afterE [OF w])
  have "next_frame D (s' @ d2) c' = next_frame D (dubbo_response_buffer u @ d1 @ d2) (response_context u)"
    using next_frame_resume [OF n, of d2] by simp
  then have "readResponseFromUpstream D dt b resets
               (u\<lparr>response_context := c', dubbo_response_buffer := s' @ d2\<rparr>) =
             readResponseFromUpstream D dt b resets (u\<lparr>dubbo_response_buffer := dubbo_response_buffer u @ d1 @ d2\<rparr>)"
    by (simp add: readResponseFromUpstream_def Let_def split: sum.splits prod.splits bool.splits)
  then show ?thesis
    using u onUpstreamData_waiting [OF u(1,2) n, of dt b resets]
    by (simp add: onUpstreamData_def [where data = d2] onUpstreamData_def [where data = "d1 @ d2"] listening_def)
qed

lemma waits_after_prefix: "waits_after D u (s @ t) \<Longrightarrow> waits_after D u s"
  using next_frame_waiting_prefix [of "dubbo_response_buffer u @ s" t]
  by (fastforce simp: waits_after_def elim!: waits_afterE)

lemma receive_chunks:
  assumes u: "listening u"
  shows "\<forall>d \<in> set ds. d \<noteq> [] \<Longrightarrow> ds \<noteq> [] \<Longrightarrow> waits_after D u (concat (butlast ds)) \<Longrightarrow>
    receive D dt b resets ds u = onUpstreamData D dt b resets (concat ds) False u"
proof (induction ds rule: rev_induct)
  case (snoc d ds)
  show ?case
  proof (cases "ds = []")
    case False
    have w: "waits_after D u (concat ds)" using snoc.prems by simp
    moreover have "concat ds = concat (butlast ds) @ last ds"
      using arg_cong [OF append_butlast_last_id [OF False], of concat] by simp
    ultimately have "waits_after D u (concat (butlast ds))" using waits_after_prefix by simp
    then have IH: "receive D dt b resets ds u = onUpstreamData D dt b resets (concat ds) False u"
      using snoc False by simp
    have "concat ds \<noteq> []" using False snoc.prems(1) by (cases ds) auto
    then show ?thesis
      using data_in_two_chunks [OF u _ _ w, of d dt b resets False] snoc.prems(1) IH
      by (auto simp: receive_def split: prod.splits)
  qed (simp add: receive_def)
qed simp

end

text \<open>
  A run of the upstream: the router encodes the request, posted callbacks run, bytes and events of the
  connection arrive and the router may reset the stream or destroy the upstream, in any order, where the
  router encodes nothing after a reset. The trace of a run lists what the upstream gives out and the bytes it gets.
\<close>

datatype upstream_item = Gives upstream_output | Gets string

inductive upstream_run ::
    "'v dubbo_codec \<Rightarrow> ('v response_value \<Rightarrow> string throws) \<Rightarrow> 'v dubbo_bridge option \<Rightarrow> 'v dubbo_bridge \<Rightarrow>
     upstream \<Rightarrow> upstream_item list \<Rightarrow> bool" for D dt route b where
  run_start: "upstream_run D dt route b DubboUpstream []"
| run_headers: "upstream_run D dt route b u tr \<Longrightarrow> upstream_request u \<Longrightarrow>
    up_encodeHeaders route e u = (out, u') \<Longrightarrow> upstream_run D dt route b u' (tr @ map Gives out)"
| run_data: "upstream_run D dt route b u tr \<Longrightarrow> upstream_request u \<Longrightarrow>
    up_encodeData route d e u = (out, u') \<Longrightarrow> upstream_run D dt route b u' (tr @ map Gives out)"
| run_trailers: "upstream_run D dt route b u tr \<Longrightarrow> upstream_request u \<Longrightarrow>
    up_encodeTrailers route u = (out, u') \<Longrightarrow> upstream_run D dt route b u' (tr @ map Gives out)"
| run_callback: "upstream_run D dt route b u tr \<Longrightarrow>
    run_posted dt b resets u = (out, u') \<Longrightarrow> upstream_run D dt route b u' (tr @ map Gives out)"
| run_bytes: "upstream_run D dt route b u tr \<Longrightarrow>
    onUpstreamData D dt b resets d e u = (out, u') \<Longrightarrow> upstream_run D dt route b u' (tr @ Gets d # map Gives out)"
| run_event: "upstream_run D dt route b u tr \<Longrightarrow>
    up_onEvent is_connected u = (out, u') \<Longrightarrow> upstream_run D dt route b u' (tr @ map Gives out)"
| run_reset: "upstream_run D dt route b u tr \<Longrightarrow>
    resetStream u = (out, u') \<Longrightarrow> upstream_run D dt route b u' (tr @ map Gives out)"
| run_destroy: "upstream_run D dt route b u tr \<Longrightarrow>
    destroy_upstream u = (out, u') \<Longrightarrow> upstream_run D dt route b u' (tr @ map Gives out)"

fun given :: "upstream_item list \<Rightarrow> upstream_output list" where
  "given [] = []"
| "given (Gives x # tr) = x # given tr"
| "given (Gets d # tr) = given tr"

lemma given_append [simp]: "given (xs @ ys) = given xs @ given ys"
  by (induction xs rule: given.induct) simp_all

lemma given_map [simp]: "given (map Gives out) = out"
  by (induction out) simp_all

text \<open>The server speaks only when it is spoken to: bytes come from it only after a request was written to it.\<close>

definition server_waits :: "upstream_item list \<Rightarrow> bool" where
  "server_waits tr \<longleftrightarrow> (\<forall>i < length tr. \<forall>d. tr ! i = Gets d \<longrightarrow> (\<exists>w. Gives (WriteUpstream w) \<in> set (take i tr)))"

lemma given_set: "x \<in> set (given tr) \<longleftrightarrow> Gives x \<in> set tr"
  by (induction tr rule: given.induct) auto

lemma server_waits_append:
  assumes "server_waits (tr @ tr')"
  shows "server_waits tr"
  unfolding server_waits_def
proof (intro allI impI)
  fix i d
  assume "i < length tr" and "tr ! i = Gets d"
  then show "\<exists>w. Gives (WriteUpstream w) \<in> set (take i tr)"
    using assms by (auto simp: server_waits_def nth_append dest!: spec [of _ i])
qed

lemma server_waits_bytes:
  assumes "server_waits (tr @ Gets d # tr')"
  shows "\<exists>w. WriteUpstream w \<in> set (given tr)"
  using assms by (auto simp: server_waits_def given_set dest!: spec [of _ "length tr"])

fun is_answer :: "upstream_output \<Rightarrow> bool" where
  "is_answer (DecodeHeaders c n close e) = True"
| "is_answer ResetDownstream = True"
| "is_answer _ = False"

definition answers :: "upstream_output list \<Rightarrow> nat" where
  "answers out = length (filter is_answer out)"

lemma answers_append [simp]: "answers (xs @ ys) = answers xs + answers ys"
  by (simp add: answers_def)

lemma answers_simps [simp]: "answers [] = 0" "answers (x # xs) = (if is_answer x then 1 else 0) + answers xs"
  by (simp_all add: answers_def)

text \<open>
  The invariant: no answer yet, or one; in the first case the stream is not answered, in the second it is
  answered or released, and then no callback that is pending is run.
\<close>

definition upstream_inv :: "upstream \<Rightarrow> nat \<Rightarrow> bool" where
  "upstream_inv u n \<longleftrightarrow>
     reset_guard u = upstream_request u \<and> n \<le> 1 \<and> (responded u \<longrightarrow> n = 1 \<and> request_complete u) \<and>
     (upstream_request u \<longrightarrow> responded u = (n = 1)) \<and>
     (posted u \<noteq> [] \<longrightarrow> request_complete u \<and> (upstream_request u \<longrightarrow> n = 0)) \<and> length (posted u) \<le> 1"

lemma cleanup_inv:
  "cleanup close u = (out, u') \<Longrightarrow> upstream_inv u n \<Longrightarrow> upstream_inv u' n \<and> answers out = 0"
  by (auto simp: cleanup_def upstream_inv_def)

lemma handleRawResponse_inv:
  "handleRawResponse resets code body close u = (out, u') \<Longrightarrow> upstream_inv u n \<Longrightarrow> upstream_request u \<Longrightarrow> posted u = [] \<Longrightarrow>
   request_complete u \<Longrightarrow> \<not> responded u \<Longrightarrow> upstream_inv u' (n + answers out) \<and> answers out = 1"
  by (auto simp: handleRawResponse_def upstream_inv_def cleanup_def Let_def split: if_splits)

lemma handleResponse_inv:
  "handleResponse dt b resets code kind v close u = Inr (out, u') \<Longrightarrow> upstream_inv u n \<Longrightarrow> upstream_request u \<Longrightarrow> posted u = [] \<Longrightarrow>
   request_complete u \<Longrightarrow> \<not> responded u \<Longrightarrow> upstream_inv u' (n + answers out) \<and> answers out = 1"
  by (auto simp: handleResponse_def split: if_splits sum.splits dest: handleRawResponse_inv)

lemma error_response_inv:
  "error_response dt b resets msg u = (out, u') \<Longrightarrow> upstream_inv u n \<Longrightarrow> upstream_request u \<Longrightarrow> posted u = [] \<Longrightarrow>
   request_complete u \<Longrightarrow> \<not> responded u \<Longrightarrow> upstream_inv u' (n + answers out)"
  by (auto simp: error_response_def split: sum.splits dest: handleResponse_inv)

lemma upstream_inv_buffer [simp]:
  "upstream_inv (u\<lparr>dubbo_response_buffer := s\<rparr>) n = upstream_inv u n"
  "upstream_inv (u\<lparr>response_context := c\<rparr>) n = upstream_inv u n"
  "upstream_inv (u\<lparr>bufferd_body := s\<rparr>) n = upstream_inv u n"
  by (simp_all add: upstream_inv_def)

lemma read_inv:
  assumes "readResponseFromUpstream D dt b resets u = (r, u')" and "upstream_inv u n" and "upstream_request u"
    and "posted u = []" and "request_complete u" and "\<not> responded u"
  shows "(case r of Inr (True, out) \<Rightarrow> upstream_inv u' (n + answers out)
          | _ \<Rightarrow> upstream_inv u' n \<and> upstream_request u' \<and> posted u' = [] \<and> request_complete u' \<and> \<not> responded u')"
  using assms
  by (auto simp: readResponseFromUpstream_def Let_def split: prod.splits sum.splits bool.splits
      dest!: handleResponse_inv [where n = n])

lemma onUpstreamData_inv:
  assumes "onUpstreamData D dt b resets d e u = (out, u')" and "upstream_inv u n" and "posted u = []" and "request_complete u"
  shows "upstream_inv u' (n + answers out)"
proof (cases "\<not> upstream_request u \<or> responded u \<or> length d = 0")
  case False
  obtain r u1 where r: "readResponseFromUpstream D dt b resets (u\<lparr>dubbo_response_buffer := dubbo_response_buffer u @ d\<rparr>) = (r, u1)"
    by fastforce
  from read_inv [OF this, of n] False assms
  show ?thesis
    by (auto simp: onUpstreamData_def r split: sum.splits prod.splits bool.splits if_splits
        dest: error_response_inv)
qed (use assms in \<open>auto simp: onUpstreamData_def\<close>)

lemma writeRequest_inv:
  "writeRequestToUpstream route u = (out, u') \<Longrightarrow> upstream_inv u n \<Longrightarrow> upstream_request u \<Longrightarrow>
   upstream_inv u' (n + answers out)"
  by (auto simp: writeRequestToUpstream_def upstream_inv_def Let_def split: if_splits option.splits sum.splits)


lemma run_posted_inv:
  assumes "run_posted dt b resets u = (out, u')" and "upstream_inv u n"
  shows "upstream_inv u' (n + answers out)"
proof (cases "posted u")
  case (Cons msg rest)
  with assms(2) have r: "rest = []" "request_complete u" "upstream_inv (u\<lparr>posted := rest\<rparr>) n"
    "reset_guard u = upstream_request u" "upstream_request u \<Longrightarrow> \<not> responded u"
    by (auto simp: upstream_inv_def)
  then show ?thesis
    using assms(1) Cons handleResponse_inv [of dt b resets 400 LocalResponse "Raw msg" False "u\<lparr>posted := rest\<rparr>" out u' n]
    by (auto simp: run_posted_def Let_def split: if_splits sum.splits)
qed (use assms in \<open>auto simp: run_posted_def\<close>)

lemma onEvent_inv:
  "up_onEvent is_connected u = (out, u') \<Longrightarrow> upstream_inv u n \<Longrightarrow> upstream_inv u' (n + answers out)"
  by (auto simp: up_onEvent_def cleanup_def upstream_inv_def split: if_splits)

lemma encode_inv:
  "up_encodeHeaders route e u = (out, u') \<Longrightarrow> upstream_inv u n \<Longrightarrow> upstream_request u \<Longrightarrow> upstream_inv u' (n + answers out)"
  "up_encodeData route d e u = (out, u') \<Longrightarrow> upstream_inv u n \<Longrightarrow> upstream_request u \<Longrightarrow> upstream_inv u' (n + answers out)"
  "up_encodeTrailers route u = (out, u') \<Longrightarrow> upstream_inv u n \<Longrightarrow> upstream_request u \<Longrightarrow> upstream_inv u' (n + answers out)"
  by (auto simp: up_encodeHeaders_def up_encodeData_def up_encodeTrailers_def Let_def split: if_splits
      dest: writeRequest_inv [where n = n])

text \<open>Only the request is ever written, and once it is, no local reply is pending.\<close>

definition request_sent :: "upstream_output list \<Rightarrow> bool" where
  "request_sent out \<longleftrightarrow> (\<exists>w. WriteUpstream w \<in> set out)"

definition keeps_request :: "upstream \<Rightarrow> upstream_output list \<times> upstream \<Rightarrow> bool" where
  "keeps_request u r \<longleftrightarrow>
     \<not> request_sent (fst r) \<and> request_complete (snd r) = request_complete u \<and> set (posted (snd r)) \<subseteq> set (posted u)"

lemma request_sent_append [simp]: "request_sent (xs @ ys) \<longleftrightarrow> request_sent xs \<or> request_sent ys"
  by (auto simp: request_sent_def)

lemma request_sent_simps [simp]: "\<not> request_sent []" "request_sent (x # xs) \<longleftrightarrow> (\<exists>w. x = WriteUpstream w) \<or> request_sent xs"
  by (auto simp: request_sent_def)

lemma keeps_cleanup: "keeps_request u (cleanup c u)"
  by (simp add: keeps_request_def cleanup_def)

lemma keeps_handleRaw: "keeps_request u (handleRawResponse resets code body close u)"
  by (simp add: keeps_request_def handleRawResponse_def cleanup_def Let_def)

lemma keeps_handleResponse: "handleResponse dt b resets code kind v close u = Inr r \<Longrightarrow> keeps_request u r"
  by (auto simp: handleResponse_def keeps_handleRaw split: if_splits sum.splits)

lemma keeps_error: "keeps_request u (error_response dt b resets msg u)"
  by (auto simp: error_response_def split: sum.splits dest: keeps_handleResponse) (simp add: keeps_request_def)

lemma keeps_read:
  "readResponseFromUpstream D dt b resets u = (r, u') \<Longrightarrow>
   keeps_request u (case r of Inr (_, out) \<Rightarrow> out | Inl _ \<Rightarrow> [], u')"
  by (auto simp: readResponseFromUpstream_def Let_def split: prod.splits sum.splits bool.splits
      dest!: keeps_handleResponse) (simp_all add: keeps_request_def)

lemma keeps_trans: "keeps_request u ([], u1) \<Longrightarrow> keeps_request u1 r \<Longrightarrow> keeps_request u r"
  by (auto simp: keeps_request_def)

lemma read_waiting_silent: "readResponseFromUpstream D dt b resets u = (Inr (False, out), u') \<Longrightarrow> out = []"
  by (auto simp: readResponseFromUpstream_def Let_def split: prod.splits sum.splits bool.splits)

lemma keeps_onUpstreamData: "keeps_request u (onUpstreamData D dt b resets d e u)"
proof (cases "\<not> upstream_request u \<or> responded u \<or> length d = 0")
  case True
  then show ?thesis by (auto simp: onUpstreamData_def keeps_request_def)
next
  case False
  let ?u = "u\<lparr>dubbo_response_buffer := dubbo_response_buffer u @ d\<rparr>"
  obtain r u1 where r: "readResponseFromUpstream D dt b resets ?u = (r, u1)" by fastforce
  have keeps: "keeps_request u (case r of Inr (_, out) \<Rightarrow> out | Inl _ \<Rightarrow> [], u1)"
    using keeps_read [OF r] by (simp add: keeps_request_def)
  have eq: "onUpstreamData D dt b resets d e u =
     (case r of Inr (True, out) \<Rightarrow> (out, u1)
      | Inr (False, out) \<Rightarrow>
          (if e then error_response dt b resets ''More data is necessary for upstream but end stream'' u1 else ([], u1))
      | Inl err \<Rightarrow> error_response dt b resets err u1)"
    using False r by (simp add: onUpstreamData_def split: sum.splits)
  show ?thesis
  proof (cases r)
    case (Inl err)
    then show ?thesis using keeps keeps_trans [OF _ keeps_error] by (simp add: eq)
  next
    case (Inr a)
    then obtain ok out where a: "r = Inr (ok, out)" by (cases a) simp
    then show ?thesis
      using keeps r read_waiting_silent [of D dt b resets ?u out u1] keeps_trans [OF _ keeps_error] by (cases ok) (auto simp: eq)
  qed
qed

lemma keeps_run_posted: "keeps_request u (run_posted dt b resets u)"
  by (auto simp: run_posted_def Let_def split: list.splits sum.splits dest!: keeps_handleResponse)
     (auto simp: keeps_request_def)

lemma keeps_onEvent: "keeps_request u (up_onEvent is_connected u)"
  by (auto simp: up_onEvent_def keeps_request_def cleanup_def)

definition written_inv :: "upstream \<Rightarrow> upstream_output list \<Rightarrow> bool" where
  "written_inv u out \<longleftrightarrow> (request_sent out \<longrightarrow> request_complete u \<and> posted u = [])"

lemma written_keeps: "keeps_request u (out', u') \<Longrightarrow> written_inv u out \<Longrightarrow> written_inv u' (out @ out')"
  by (auto simp: keeps_request_def written_inv_def)

lemma written_writeRequest:
  "writeRequestToUpstream route u = (out', u') \<Longrightarrow> written_inv u out \<Longrightarrow> upstream_inv u n \<Longrightarrow> written_inv u' (out @ out')"
  by (auto simp: writeRequestToUpstream_def written_inv_def upstream_inv_def Let_def split: if_splits option.splits sum.splits)

lemma written_inv_body [simp]: "written_inv (u\<lparr>bufferd_body := s\<rparr>) out = written_inv u out"
  by (simp add: written_inv_def)

lemma written_encode:
  "up_encodeHeaders route e u = (out', u') \<Longrightarrow> written_inv u out \<Longrightarrow> upstream_inv u n \<Longrightarrow> written_inv u' (out @ out')"
  "up_encodeData route d e u = (out', u') \<Longrightarrow> written_inv u out \<Longrightarrow> upstream_inv u n \<Longrightarrow> written_inv u' (out @ out')"
  "up_encodeTrailers route u = (out', u') \<Longrightarrow> written_inv u out \<Longrightarrow> upstream_inv u n \<Longrightarrow> written_inv u' (out @ out')"
  by (auto simp: up_encodeHeaders_def up_encodeData_def up_encodeTrailers_def Let_def split: if_splits
      dest!: written_writeRequest [where n = n and out = out])

lemmas keeps_actions = keeps_run_posted keeps_onUpstreamData keeps_onEvent keeps_cleanup

lemma upstream_run_inv:
  "upstream_run D dt route b u tr \<Longrightarrow> server_waits tr \<Longrightarrow> upstream_inv u (answers (given tr)) \<and> written_inv u (given tr)"
proof (induction rule: upstream_run.induct)
  case run_start
  show ?case by (simp add: upstream_inv_def DubboUpstream_def written_inv_def)
next
  case (run_headers u tr e out u')
  then show ?case
    using written_encode(1)[of route e u out u' "given tr" "answers (given tr)"] server_waits_append [of tr]
    by (simp add: encode_inv)
next
  case (run_data u tr d e out u')
  then show ?case
    using written_encode(2)[of route d e u out u' "given tr" "answers (given tr)"] server_waits_append [of tr]
    by (simp add: encode_inv)
next
  case (run_trailers u tr out u')
  then show ?case
    using written_encode(3)[of route u out u' "given tr" "answers (given tr)"] server_waits_append [of tr]
    by (simp add: encode_inv)
next
  case (run_callback u tr resets out u')
  then show ?case
    using written_keeps [of u out u'] keeps_run_posted [of u dt b resets] server_waits_append [of tr]
    by (simp add: run_posted_inv)
next
  case (run_bytes u tr resets d e out u')
  then have IH: "upstream_inv u (answers (given tr)) \<and> written_inv u (given tr)" using server_waits_append [of tr] by simp
  moreover from this have "posted u = []" "request_complete u"
    using server_waits_bytes [OF run_bytes.prems] by (auto simp: written_inv_def request_sent_def)
  ultimately show ?case
    using run_bytes written_keeps [of u out u'] keeps_onUpstreamData [of u D dt b resets d e] by (simp add: onUpstreamData_inv)
next
  case (run_event u tr is_connected out u')
  then show ?case
    using written_keeps [of u out u'] keeps_onEvent [of u is_connected] server_waits_append [of tr] by (simp add: onEvent_inv)
next
  case (run_reset u tr out u')
  then show ?case
    using written_keeps [of u out u'] keeps_cleanup [of u True] cleanup_inv [of True u out u' "answers (given tr)"]
      server_waits_append [of tr]
    by (simp add: resetStream_def)
next
  case (run_destroy u tr out u')
  let ?c = "to_close_upstream_connection u \<or> \<not> responded u"
  show ?case
    using run_destroy written_keeps [of u out u'] keeps_cleanup [of u ?c] cleanup_inv [of ?c u out u' "answers (given tr)"]
      server_waits_append [of tr]
    by (simp add: destroy_upstream_def)
qed

section \<open>Properties\<close>

definition frame_bytes :: "char \<Rightarrow> string \<Rightarrow> string" where
  "frame_bytes flag body =
     [CHR 0xDA, CHR 0xBB, flag, CHR 0x14] @ replicate 11 (CHR 0x00) @ [char_of (length body)] @ body"

definition example_bridge :: "string dubbo_bridge" where
  "example_bridge =
     \<lparr>br_protocol_error_code = None, br_resp_exception_code = None, br_convert = Inr,
      br_to_text = \<lambda>v k. Inr (case v of Decoded (Some s) \<Rightarrow> s | Decoded None \<Rightarrow> ''null'' | Raw s \<Rightarrow> s, None)\<rparr>"

abbreviation example_text :: "string response_value \<Rightarrow> string throws" where
  "example_text \<equiv> \<lambda>v. Inr (case v of Decoded (Some s) \<Rightarrow> s | Decoded None \<Rightarrow> ''null'' | Raw s \<Rightarrow> s)"

text \<open>
  C27: The upstream answers at most once if the server waits for the request. Over every order of encoding,
  posted local replies, bytes and events of the connection, resets and destruction in which the server sends
  bytes only after a request was written to it, the router gets at most one response head or stream reset.
\<close>

theorem upstream_answers_once:
  assumes "upstream_run D dt route b u tr" and "server_waits tr"
  shows "length (filter is_answer (given tr)) \<le> 1"
  using upstream_run_inv [OF assms] by (simp add: upstream_inv_def answers_def)

theorem upstream_answers_once_witness:
  "\<exists>u tr. upstream_run wire_codec example_text (Some example_bridge) example_bridge u tr \<and> server_waits tr \<and>
     DecodeHeaders 200 1 False False \<in> set (given tr) \<and> length (filter is_answer (given tr)) \<le> 1"
proof -
  let ?run = "upstream_run wire_codec example_text (Some example_bridge) example_bridge"
  let ?bytes = "frame_bytes (CHR 0x02) [CHR 0x01, CHR ''x'']"
  let ?tr = "[Gives (WriteUpstream ''q''), Gets ?bytes, Gives (DecodeHeaders 200 1 False False), Gives (DecodeData ''x'')]"
  define o1 where "o1 = fst (up_encodeData (Some example_bridge) ''q'' True DubboUpstream)"
  define u1 where "u1 = snd (up_encodeData (Some example_bridge) ''q'' True DubboUpstream)"
  define o2 where "o2 = fst (onUpstreamData wire_codec example_text example_bridge False ?bytes False u1)"
  define u2 where "u2 = snd (onUpstreamData wire_codec example_text example_bridge False ?bytes False u1)"
  have "?run u1 ([] @ map Gives o1)"
    by (rule run_data [OF run_start, where d = "''q''" and e = True]) (simp_all add: o1_def u1_def DubboUpstream_def)
  moreover have o1: "o1 = [WriteUpstream ''q'']" unfolding o1_def by code_simp
  ultimately have "?run u2 (map Gives o1 @ Gets ?bytes # map Gives o2)"
    by (intro run_bytes [where e = False and resets = False and u = u1]) (simp_all add: o2_def u2_def)
  moreover have "o2 = [DecodeHeaders 200 1 False False, DecodeData ''x'']" unfolding o2_def u1_def by code_simp
  ultimately have run: "?run u2 ?tr" using o1 by simp
  moreover have waits: "server_waits ?tr" by (auto simp: server_waits_def less_Suc_eq)
  ultimately show ?thesis
    using upstream_answers_once [OF run waits] by (intro exI [of _ u2] exI [of _ ?tr]) simp
qed


text \<open>
  C28: Chunks do not matter. Let the bytes of a response come in any number of non-empty pieces of which
  only the last completes it, heartbeats before it included. Then the upstream sends exactly what it would
  have sent, and ends in the state it would have ended in, had all the bytes come at once.
\<close>

theorem response_in_chunks:
  assumes "dubbo_header_laws D" and "listening u" and "ds \<noteq> []" and "\<forall>d \<in> set ds. d \<noteq> []"
    and "waits_after D u (concat (butlast ds))"
  shows "receive D dt b resets ds u = onUpstreamData D dt b resets (concat ds) False u"
  using dubbo_header_laws.receive_chunks [OF assms(1,2,4,3,5)] .

theorem response_in_chunks_witness:
  "receive wire_codec example_text example_bridge False
     [take 5 (frame_bytes (CHR 0x22) ''N''), drop 5 (frame_bytes (CHR 0x22) ''N'') @ [CHR 0xDA], drop 1 (frame_bytes (CHR 0x02) [CHR 0x01, CHR ''x''])]
     DubboUpstream =
   onUpstreamData wire_codec example_text example_bridge False
     (concat [take 5 (frame_bytes (CHR 0x22) ''N''), drop 5 (frame_bytes (CHR 0x22) ''N'') @ [CHR 0xDA], drop 1 (frame_bytes (CHR 0x02) [CHR 0x01, CHR ''x''])])
     False DubboUpstream"
proof (rule response_in_chunks [OF wire.dubbo_header_laws_axioms])
  show "listening DubboUpstream" by code_simp
  show "\<forall>d \<in> set [take 5 (frame_bytes (CHR 0x22) ''N''), drop 5 (frame_bytes (CHR 0x22) ''N'') @ [CHR 0xDA],
    drop 1 (frame_bytes (CHR 0x02) [CHR 0x01, CHR ''x''])]. d \<noteq> []" by code_simp
  show "waits_after wire_codec DubboUpstream (concat (butlast [take 5 (frame_bytes (CHR 0x22) ''N''),
    drop 5 (frame_bytes (CHR 0x22) ''N'') @ [CHR 0xDA], drop 1 (frame_bytes (CHR 0x02) [CHR 0x01, CHR ''x''])]))" by code_simp
qed simp

definition heartbeat_bytes :: "'v dubbo_codec \<Rightarrow> string \<Rightarrow> bool" where
  "heartbeat_bytes D hb \<longleftrightarrow>
     (case decodeHeader D hb of
        Inr (Some f) \<Rightarrow> is_heartbeat f \<and> length hb = bodySize f + DUBBO_HEADER_SIZE
      | _ \<Rightarrow> False)"

lemma fresh_context [simp]: "resp_context DubboResponse = None"
  by (simp add: DubboResponse_def)

lemma exception_has_value: "snd (value_kind_of t) \<Longrightarrow> fst (value_kind_of t)"
  by (simp add: value_kind_of_def split: rpc_response_type.splits)

lemma next_frame_heartbeats:
  assumes "dubbo_header_laws D"
  shows "list_all (heartbeat_bytes D) hbs \<Longrightarrow> next_frame D (concat hbs @ rest) None = next_frame D rest None"
proof (induction hbs)
  case (Cons hb hbs)
  then obtain f where "decodeHeader D hb = Inr (Some f)" "is_heartbeat f" "length hb = bodySize f + DUBBO_HEADER_SIZE"
    by (auto simp: heartbeat_bytes_def split: sum.splits option.splits)
  from dubbo_header_laws.next_frame_heartbeat [OF assms this, of "concat hbs @ rest"] Cons show ?case by simp
qed simp

text \<open>
  Heartbeats are transparent. However many complete heartbeat frames precede it in the buffer, a
  response decodes to the same status, the same rest of the buffer and the same value as without them.
\<close>

theorem heartbeats_are_transparent:
  assumes "dubbo_header_laws D" and "list_all (heartbeat_bytes D) hbs"
  shows "decodeDubboFromBuffer D (concat hbs @ rest) DubboResponse = decodeDubboFromBuffer D rest DubboResponse"
  using next_frame_heartbeats [OF assms, of rest]
  by (simp add: decodeDubboFromBuffer_def Let_def split: prod.split sum.split bool.split)

theorem heartbeats_are_transparent_witness:
  "decodeDubboFromBuffer wire_codec
     (concat [frame_bytes (CHR 0x22) ''N'', frame_bytes (CHR 0xA2) ''NN''] @ frame_bytes (CHR 0x02) [CHR 0x01, CHR ''x'']) DubboResponse =
   decodeDubboFromBuffer wire_codec (frame_bytes (CHR 0x02) [CHR 0x01, CHR ''x'']) DubboResponse"
proof (rule heartbeats_are_transparent [OF wire.dubbo_header_laws_axioms])
  show "list_all (heartbeat_bytes wire_codec) [frame_bytes (CHR 0x22) ''N'', frame_bytes (CHR 0xA2) ''NN'']" by code_simp
qed

text \<open>
  C29: The two decoders of responses agree. When the decoder of the library accepts a frame, the upstream
  answers it with the same value: 200 for a value, the exception code for an exception, and the protocol
  error code with a closed connection for a response whose status is not ok.
\<close>

theorem response_decoders_agree:
  assumes "messageType f = Response" and "decode_body D f body DubboResponse = Inr r"
  shows "frame_response D u f body =
     Inr (if close_connection r then protocol_error_code u else if is_exception r then resp_exception_code u else 200,
          if is_exception r then ExceptionResponse else ValueResponse, Decoded (resp_value r), close_connection r)"
  using assms
  by (auto simp: decode_body_def frame_response_def DubboResponse_def Let_def
      split: if_splits sum.splits prod.splits option.splits dest: exception_has_value)

theorem response_decoders_agree_witness:
  "frame_response wire_codec DubboUpstream \<lparr>bodySize = 2, messageType = Response, status_ok = True\<rparr> [CHR 0x00, CHR ''x''] =
     Inr (503, ExceptionResponse, Decoded (Some ''x''), False)"
proof -
  let ?f = "\<lparr>bodySize = 2, messageType = Response, status_ok = True\<rparr>"
  let ?r = "\<lparr>resp_context = None, is_exception = True, close_connection = False, resp_value = Some ''x''\<rparr>"
  have "decode_body wire_codec ?f [CHR 0x00, CHR ''x''] DubboResponse = Inr ?r" by code_simp
  from response_decoders_agree [OF _ this, of DubboUpstream] show ?thesis by (simp add: DubboUpstream_def)
qed

end
