(* ===== verification/Dubbo_Conn_Pool.thy ===== *)
theory Dubbo_Conn_Pool
  imports Dubbo_Upstream
begin

text \<open>
  How the router gets a Dubbo upstream: the connection pool, its factory and the configuration of the bridge,
  \<^verbatim>\<open>source/upstreams/http/dubbo/upstream_request.{h,cc}\<close> and \<^verbatim>\<open>config.cc\<close>, and the flow control of an upstream.

  \<^item> The TCP pool belongs to Envoy. What it answers to a request for a connection is an argument: it calls back at once
    and gives no handle, or gives a handle and calls back later unless the handle is cancelled.
  \<^item> The factories of getters are looked up by name in Envoy's registry; \<open>lookup\<close> gives what a factory makes of its
    configuration.
  \<^item> \<open>pool_run\<close> is the relation of all runs of a pool with the TCP pool behind it.
\<close>

section \<open>The connection pool\<close>

record conn_pool =
  conn_pool_data :: bool
  upstream_handle :: "nat option"

datatype pool_answer = InHand nat | ReadyNow | FailedNow string

datatype pool_call = CancelHandle nat | NotifyReady | NotifyFailure string

definition DubboConnPool :: "bool \<Rightarrow> conn_pool" where
  "DubboConnPool has_pool = \<lparr>conn_pool_data = has_pool, upstream_handle = None\<rparr>"

definition createGenericConnPool :: "bool \<Rightarrow> conn_pool option" where
  "createGenericConnPool has_pool =
     (let ret = DubboConnPool has_pool in if conn_pool_data ret then Some ret else None)"

definition onPoolReady :: "conn_pool \<Rightarrow> conn_pool \<times> pool_call list" where
  "onPoolReady p = (p\<lparr>upstream_handle := None\<rparr>, [NotifyReady])"

definition onPoolFailure :: "string \<Rightarrow> conn_pool \<Rightarrow> conn_pool \<times> pool_call list" where
  "onPoolFailure reason p = (p\<lparr>upstream_handle := None\<rparr>, [NotifyFailure reason])"

text \<open>The handle is assigned after \<^verbatim>\<open>newConnection\<close> has returned; a callback at once comes with a null handle.\<close>

definition newStream :: "pool_answer \<Rightarrow> conn_pool \<Rightarrow> (conn_pool \<times> pool_call list) option" where
  "newStream a p =
     (if \<not> conn_pool_data p then None
      else Some (case a of
                   InHand h \<Rightarrow> (p\<lparr>upstream_handle := Some h\<rparr>, [])
                 | ReadyNow \<Rightarrow> (let (p', cs) = onPoolReady p in (p'\<lparr>upstream_handle := None\<rparr>, cs))
                 | FailedNow r \<Rightarrow> (let (p', cs) = onPoolFailure r p in (p'\<lparr>upstream_handle := None\<rparr>, cs))))"

definition cancelAnyPendingStream :: "conn_pool \<Rightarrow> bool \<times> conn_pool \<times> pool_call list" where
  "cancelAnyPendingStream p =
     (case upstream_handle p of
        None \<Rightarrow> (False, p, [])
      | Some h \<Rightarrow> (True, p\<lparr>upstream_handle := None\<rparr>, [CancelHandle h]))"

text \<open>
  Runs: the pool, the request that the TCP pool has in hand, the number of streams that were started, and the calls
  that were made. The router starts a stream when none is under way.
\<close>

inductive pool_run :: "conn_pool \<Rightarrow> nat option \<Rightarrow> nat \<Rightarrow> pool_call list \<Rightarrow> bool" where
  created: "createGenericConnPool has_pool = Some p \<Longrightarrow> pool_run p None 0 []"
| started: "pool_run p None n cs \<Longrightarrow> newStream a p = Some (p', cs') \<Longrightarrow>
    pool_run p' (case a of InHand h \<Rightarrow> Some h | _ \<Rightarrow> None) (Suc n) (cs @ cs')"
| ready: "pool_run p (Some h) n cs \<Longrightarrow> onPoolReady p = (p', cs') \<Longrightarrow> pool_run p' None n (cs @ cs')"
| failed: "pool_run p (Some h) n cs \<Longrightarrow> onPoolFailure r p = (p', cs') \<Longrightarrow> pool_run p' None n (cs @ cs')"
| cancelled: "pool_run p t n cs \<Longrightarrow> cancelAnyPendingStream p = (b, p', cs') \<Longrightarrow>
    pool_run p' (if cs' = [] then t else None) n (cs @ cs')"

text \<open>The pool's handle is always the request that the TCP pool has in hand, and every stream has one outcome.\<close>

lemma pool_run_inv:
  "pool_run p t n cs \<Longrightarrow>
     conn_pool_data p \<and> upstream_handle p = t \<and> n = length cs + (case t of None \<Rightarrow> 0 | Some _ \<Rightarrow> 1)"
proof (induction rule: pool_run.induct)
  case (started p n cs a p' cs')
  then show ?case
    by (cases a) (auto simp: newStream_def onPoolReady_def onPoolFailure_def split: if_splits)
next
  case (cancelled p t n cs b p' cs')
  then show ?case by (auto simp: cancelAnyPendingStream_def split: option.splits)
qed (auto simp: createGenericConnPool_def DubboConnPool_def onPoolReady_def onPoolFailure_def Let_def split: if_splits)

lemma pool_outcomes:
  assumes "pool_run p t n cs"
  shows "upstream_handle p = None \<Longrightarrow> length cs = n" and "upstream_handle p \<noteq> None \<Longrightarrow> Suc (length cs) = n"
    and "fst (cancelAnyPendingStream p) \<longleftrightarrow> length cs < n"
  using pool_run_inv [OF assms] by (auto simp: cancelAnyPendingStream_def split: option.splits)

lemma pool_never_invalid: "pool_run p t n cs \<Longrightarrow> newStream a p \<noteq> None"
  using pool_run_inv [of p t n cs] by (auto simp: newStream_def)

section \<open>The configuration of the bridge\<close>

datatype bridge_context_source = StaticContext proto_context | DynamicContext string

record bridge_proto =
  bp_context :: bridge_context_source
  bp_argument_getter :: "(string \<times> string) option"
  bp_response_getter :: "(string \<times> string) option"
  bp_protocol_error_code :: "u32 option"
  bp_resp_exception_code :: "u32 option"

definition defaultArgumentGetterName :: "(string \<Rightarrow> string option) \<Rightarrow> string" where
  "defaultArgumentGetterName getenv =
     (case getenv ''DUBBO_BRIDGE_DEFAULT_ARGUMENT_GETTER'' of
        Some n \<Rightarrow> n | None \<Rightarrow> ''proxy.dubbo_bridge.argument_getter.simple'')"

definition defaultResponseGetterName :: "(string \<Rightarrow> string option) \<Rightarrow> string" where
  "defaultResponseGetterName getenv =
     (case getenv ''DUBBO_BRIDGE_DEFAULT_RESPONSE_GETTER'' of
        Some n \<Rightarrow> n | None \<Rightarrow> ''proxy.dubbo_bridge.response_getter.simple'')"

text \<open>\<open>lookup name config\<close> is the factory of that name applied to its configuration; an unknown name throws.\<close>

definition getter_creator ::
    "(string \<Rightarrow> string \<Rightarrow> 'c throws) \<Rightarrow> (string \<times> string) option \<Rightarrow> string \<Rightarrow> 'c throws" where
  "getter_creator lookup getter default_name =
     (case getter of Some (name, config) \<Rightarrow> lookup name config | None \<Rightarrow> lookup default_name '''')"

record ('d, 'a, 'r) bridge_config =
  bc_context :: "bridge_context + 'd"
  bc_argument_getter_creator :: 'a
  bc_response_getter_creator :: 'r
  bc_protocol_error_code :: u32
  bc_resp_exception_code :: u32

definition DubboBridge ::
    "(proto_context \<Rightarrow> bridge_context throws) \<Rightarrow> (string \<Rightarrow> 'd throws) \<Rightarrow> (string \<Rightarrow> string \<Rightarrow> 'a throws) \<Rightarrow>
     (string \<Rightarrow> string \<Rightarrow> 'r throws) \<Rightarrow> (string \<Rightarrow> string option) \<Rightarrow> bridge_proto \<Rightarrow> ('d, 'a, 'r) bridge_config throws" where
  "DubboBridge static dynamic arguments responses getenv config =
     (case (case bp_context config of
              StaticContext c \<Rightarrow> map_sum id Inl (static c)
            | DynamicContext g \<Rightarrow> map_sum id Inr (dynamic g)) of
        Inl e \<Rightarrow> Inl e
      | Inr ctx \<Rightarrow>
        (case getter_creator arguments (bp_argument_getter config) (defaultArgumentGetterName getenv) of
           Inl e \<Rightarrow> Inl e
         | Inr a \<Rightarrow>
           (case getter_creator responses (bp_response_getter config) (defaultResponseGetterName getenv) of
              Inl e \<Rightarrow> Inl e
            | Inr r \<Rightarrow>
                Inr \<lparr>bc_context = ctx, bc_argument_getter_creator = a, bc_response_getter_creator = r,
                     bc_protocol_error_code = (case bp_protocol_error_code config of Some c \<Rightarrow> c | None \<Rightarrow> 501),
                     bc_resp_exception_code = (case bp_resp_exception_code config of Some c \<Rightarrow> c | None \<Rightarrow> 503)\<rparr>)))"

definition getContext :: "('s \<Rightarrow> 'd \<Rightarrow> bridge_context) \<Rightarrow> 's \<Rightarrow> ('d, 'a, 'r) bridge_config \<Rightarrow> bridge_context" where
  "getContext run source b = (case bc_context b of Inl c \<Rightarrow> c | Inr d \<Rightarrow> run source d)"

text \<open>A static context is the same for every request.\<close>

lemma static_context_shared:
  assumes "DubboBridge static dynamic arguments responses getenv config = Inr b" and "bp_context config = StaticContext c"
  shows "static c = Inr (getContext run source b)"
  using assms by (auto simp: DubboBridge_def getContext_def split: sum.splits) (cases "static c"; simp)+

section \<open>Flow control\<close>

datatype flow_call = ReadDisable bool | AboveHighWatermark | BelowLowWatermark

definition readDisable :: "bool \<Rightarrow> bool \<Rightarrow> upstream \<Rightarrow> flow_call list" where
  "readDisable connection_open disable u =
     (if \<not> upstream_conn_data u then [] else if \<not> connection_open then [] else [ReadDisable disable])"

definition onAboveWriteBufferHighWatermark :: "upstream \<Rightarrow> flow_call list" where
  "onAboveWriteBufferHighWatermark u = (if upstream_request u then [AboveHighWatermark] else [])"

definition onBelowWriteBufferLowWatermark :: "upstream \<Rightarrow> flow_call list" where
  "onBelowWriteBufferLowWatermark u = (if upstream_request u then [BelowLowWatermark] else [])"

text \<open>An upstream that has been cleaned up asks nothing of the router or the connection any more.\<close>

lemma cleanup_quiet:
  "snd (cleanup close u) = u' \<Longrightarrow> readDisable connection_open disable u' = [] \<and>
     onAboveWriteBufferHighWatermark u' = [] \<and> onBelowWriteBufferLowWatermark u' = []"
  by (auto simp: cleanup_def readDisable_def onAboveWriteBufferHighWatermark_def onBelowWriteBufferLowWatermark_def)

end
