(* ===== verification/Escape_Filter.thy ===== *)
theory Escape_Filter
  imports Http_Base
begin

text \<open>
  The access log filter that escapes headers, \<^verbatim>\<open>source/filters/access_log/escape_filter/escape_filter.{h,cc}\<close>: it lets
  every request be logged, and before that rewrites the first value of the configured headers in place, so that a log
  in JSON format stays well formed.

  Writing the value of an entry in place is Envoy's \<^verbatim>\<open>HeaderEntry::value\<close>, the parameter \<open>setv\<close>; \<open>value_setter\<close> is what
  it promises.
\<close>

datatype to_escape = RqxHeader string | RpxHeader string | ToEscapeNotSet

record escape_filter =
  escape_rqx :: "string list"
  escape_rpx :: "string list"

definition add_escape :: "to_escape \<Rightarrow> escape_filter \<Rightarrow> escape_filter" where
  "add_escape e f =
     (case e of
        RqxHeader n \<Rightarrow> f\<lparr>escape_rqx := escape_rqx f @ [lower n]\<rparr>
      | RpxHeader n \<Rightarrow> f\<lparr>escape_rpx := escape_rpx f @ [lower n]\<rparr>
      | ToEscapeNotSet \<Rightarrow> f)"

definition EscapeFilter :: "to_escape list \<Rightarrow> escape_filter" where
  "EscapeFilter to_escapes = fold add_escape to_escapes \<lparr>escape_rqx = [], escape_rpx = []\<rparr>"

fun escape_headers ::
    "'h header_map_ops \<Rightarrow> (string \<Rightarrow> string \<Rightarrow> 'h \<Rightarrow> 'h) \<Rightarrow> string list \<Rightarrow> 'h \<Rightarrow> 'h" where
  "escape_headers H setv [] h = h"
| "escape_headers H setv (n # ns) h =
     (case hm_get H n h of
        [] \<Rightarrow> escape_headers H setv ns h
      | e # _ \<Rightarrow> escape_headers H setv ns (setv n (escapeForJson (snd e)) h))"

definition ef_evaluate ::
    "'h header_map_ops \<Rightarrow> (string \<Rightarrow> string \<Rightarrow> 'h \<Rightarrow> 'h) \<Rightarrow> escape_filter \<Rightarrow> 'h \<Rightarrow> 'h \<Rightarrow> bool \<times> 'h \<times> 'h" where
  "ef_evaluate H setv f request_headers response_headers =
     (True, escape_headers H setv (escape_rqx f) request_headers, escape_headers H setv (escape_rpx f) response_headers)"

section \<open>What the log reads\<close>

definition value_setter :: "'h header_map_ops \<Rightarrow> (string \<Rightarrow> string \<Rightarrow> 'h \<Rightarrow> 'h) \<Rightarrow> bool" where
  "value_setter H setv \<longleftrightarrow>
     (\<forall>n v h k. hm_get H n h \<noteq> [] \<longrightarrow>
        hm_get H k (setv n v h) = (if k = n then (n, v) # tl (hm_get H n h) else hm_get H k h))"

text \<open>The entries of one name after its first value has been escaped \<open>i\<close> times.\<close>

definition escaped_entries :: "nat \<Rightarrow> string \<Rightarrow> (string \<times> string) list \<Rightarrow> (string \<times> string) list" where
  "escaped_entries i n es =
     (case es of [] \<Rightarrow> [] | e # es' \<Rightarrow> (if i = 0 then e else (n, (escapeForJson ^^ i) (snd e))) # es')"

lemma escaped_entries_step:
  "es \<noteq> [] \<Longrightarrow>
   escaped_entries i n ((n, escapeForJson (snd (hd es))) # tl es) = escaped_entries (Suc i) n es"
  by (cases es) (auto simp: escaped_entries_def funpow_swap1)

lemma escape_headers_get:
  assumes set: "value_setter H setv"
  shows "hm_get H k (escape_headers H setv ns h) = escaped_entries (count_list ns k) k (hm_get H k h)"
proof (induction ns arbitrary: h)
  case Nil
  then show ?case by (simp add: escaped_entries_def split: list.split)
next
  case (Cons n ns)
  show ?case
  proof (cases "hm_get H n h")
    case Nil
    with Cons show ?thesis by (auto simp: escaped_entries_def split: list.split)
  next
    case (Cons e es)
    have "hm_get H k (setv n (escapeForJson (snd e)) h) =
        (if k = n then (n, escapeForJson (snd e)) # es else hm_get H k h)"
      using set Cons by (simp add: value_setter_def)
    moreover have "hm_get H k (escape_headers H setv (n # ns) h) =
        escaped_entries (count_list ns k) k (hm_get H k (setv n (escapeForJson (snd e)) h))"
      using Cons Cons.IH by simp
    ultimately show ?thesis using escaped_entries_step [of "hm_get H n h" "count_list ns n" n] Cons by auto
  qed
qed

lemma count_list_distinct: "distinct ns \<Longrightarrow> count_list ns k = (if k \<in> set ns then 1 else 0)"
  by (induction ns) auto

text \<open>Reading a text from the inside of a JSON string \<open>i\<close> times over; \<open>None\<close> when one of the texts is not legal there.\<close>

fun unescape_times :: "nat \<Rightarrow> string \<Rightarrow> string option" where
  "unescape_times 0 w = Some w"
| "unescape_times (Suc i) w = (case json_unescape w of None \<Rightarrow> None | Some v \<Rightarrow> unescape_times i v)"

lemma unescape_times_escaped: "unescape_times i ((escapeForJson ^^ i) v) = Some v"
  by (induction i) (simp_all add: escapeForJson_roundtrip)

text \<open>
  The values of one name before and after, when the names \<open>ns\<close> are configured: the first value is escaped as often as
  the name is configured, once in the ordinary case and not at all when it is missing in \<open>ns\<close>; the others are as they
  were.
\<close>

definition readable :: "string list \<Rightarrow> string \<Rightarrow> string list \<Rightarrow> string list \<Rightarrow> bool" where
  "readable ns k vs ws \<longleftrightarrow>
     (case vs of
        [] \<Rightarrow> ws = []
      | v # vs' \<Rightarrow> \<exists>w. ws = w # vs' \<and> unescape_times (count_list ns k) w = Some v)"

lemma readable_escaped: "readable ns k (map snd es) (map snd (escaped_entries (count_list ns k) k es))"
proof (cases es)
  case (Cons e es')
  then show ?thesis
    using unescape_times_escaped [of "count_list ns k" "snd e"] by (auto simp: readable_def escaped_entries_def)
qed (simp add: readable_def escaped_entries_def)

text \<open>
  C40: Escaping for the log is reversible. The filter lets every request be logged. Afterwards the first value of a
  request header that is configured is legal inside a JSON string and denotes the value it had; a header that is
  configured \<open>i\<close> times is escaped \<open>i\<close> times over, so it has to be read back \<open>i\<close> times. The second and later values of a
  name are never escaped, and headers that are not configured are unchanged. The same holds of the response headers.
\<close>

theorem escape_filter_roundtrip:
  assumes "value_setter H setv"
  shows "\<exists>rq' rp'. ef_evaluate H setv f rq rp = (True, rq', rp') \<and>
    (\<forall>k. readable (escape_rqx f) k (map snd (hm_get H k rq)) (map snd (hm_get H k rq')) \<and>
         readable (escape_rpx f) k (map snd (hm_get H k rp)) (map snd (hm_get H k rp')))"
  using assms by (simp add: ef_evaluate_def escape_headers_get readable_escaped)

text \<open>Two access logs with this filter: the second one finds the headers escaped and escapes them again.\<close>

lemma second_log_escapes_again:
  assumes "value_setter H setv" and "distinct (escape_rqx f)" and "k \<in> set (escape_rqx f)"
    and "ef_evaluate H setv f rq rp = (b, rq1, rp1)" and "ef_evaluate H setv f rq1 rp1 = (b', rq2, rp2)"
    and "hm_get H k rq = [(k, v)]"
  shows "hm_get H k rq2 = [(k, escapeForJson (escapeForJson v))]"
  using assms by (auto simp: ef_evaluate_def escape_headers_get escaped_entries_def count_list_distinct)

subsection \<open>A concrete log\<close>

fun list_setv :: "string \<Rightarrow> string \<Rightarrow> (string \<times> string) list \<Rightarrow> (string \<times> string) list" where
  "list_setv n v [] = []"
| "list_setv n v (e # es) = (if fst e = n then (n, v) # es else e # list_setv n v es)"

lemma list_setv_laws: "value_setter list_headers list_setv"
proof -
  have "filter (\<lambda>e. fst e = n) h \<noteq> [] \<Longrightarrow> filter (\<lambda>e. fst e = k) (list_setv n v h) =
      (if k = n then (n, v) # tl (filter (\<lambda>e. fst e = n) h) else filter (\<lambda>e. fst e = k) h)" for n v h k
    by (induction n v h rule: list_setv.induct) auto
  then show ?thesis by (simp add: value_setter_def list_headers_def)
qed

theorem escape_filter_roundtrip_witness:
  "\<exists>rq'. ef_evaluate list_headers list_setv (EscapeFilter [RqxHeader ''UA'']) [(''ua'', [CHR 0x22])] [] = (True, rq', []) \<and>
     readable [''ua''] ''ua'' [[CHR 0x22]] (map snd (filter (\<lambda>e. fst e = ''ua'') rq')) \<and>
     rq' = [(''ua'', [CHR 0x5C, CHR 0x22])]"
proof -
  let ?f = "EscapeFilter [RqxHeader ''UA'']"
  have low: "lower ''UA'' = ''ua''" by code_simp
  have f: "escape_rqx ?f = [''ua'']" "escape_rpx ?f = []" by (simp_all add: EscapeFilter_def add_escape_def low)
  have run: "ef_evaluate list_headers list_setv ?f [(''ua'', [CHR 0x22])] [] = (True, [(''ua'', [CHR 0x5C, CHR 0x22])], [])"
    by (simp add: ef_evaluate_def f list_headers_def escapeForJson_def escape_char_def)
  from escape_filter_roundtrip [OF list_setv_laws, of ?f "[(''ua'', [CHR 0x22])]" "[]"]
  have "readable [''ua''] ''ua'' (map snd (hm_get list_headers ''ua'' [(''ua'', [CHR 0x22])]))
      (map snd (hm_get list_headers ''ua'' [(''ua'', [CHR 0x5C, CHR 0x22])]))"
    unfolding run f by simp
  with run show ?thesis by (simp add: list_headers_def)
qed

end
