(* ===== verification/Rider_Coroutines.thy ===== *)
theory Rider_Coroutines
  imports Rider_Filter
begin

text \<open>
  Scripts that create coroutines of their own. \<open>Rider_Stream\<close> takes a script to make its calls in the coroutine that the
  filter runs, where \<^verbatim>\<open>lua_yield\<close> in \<^verbatim>\<open>StreamWrapper::luaRespond\<close>, \<^verbatim>\<open>luaHttpCall\<close> and \<^verbatim>\<open>luaBody\<close> suspends the script
  (\<^verbatim>\<open>source/filters/http/rider/filter.cc\<close>). Here a call may also be made in a function that the script runs with
  \<^verbatim>\<open>coroutine.wrap\<close>: the yield then ends that inner coroutine only and the script goes on behind the call of the wrapped
  function, which gives it no values. An error of the call is passed on by the wrapped function in either case.

  \<^item> \<open>run_wrapped\<close> runs such a script on the same functions of the filter.
  \<^item> \<open>run_wrapped_of_script\<close>: on scripts without inner coroutines it is \<open>run_lua\<close>, so what is proved of the filter holds
    of the scripts here that make no call in an inner coroutine.
  \<^item> \<open>wrapped_script_responds_twice\<close>: with one, the filter responds twice.
\<close>

section \<open>Scripts with inner coroutines\<close>

text \<open>The flag of a call tells whether it is made in an inner coroutine.\<close>

datatype wrapped_script =
    WFinish
  | WFail "string option"
  | WFfiCall ffi_call "ffi_result \<Rightarrow> wrapped_script"
  | WGetBody bool stream_direction "string + lua_values \<Rightarrow> wrapped_script"
  | WHttpCall bool "lua_arg list" "string + lua_values \<Rightarrow> wrapped_script"
  | WRespond bool "lua_arg list" "string + lua_values \<Rightarrow> wrapped_script"
  | WYield "lua_values \<Rightarrow> wrapped_script"

datatype wrapped_outcome = WReturned | WRaised "string option" | WYielded "lua_values \<Rightarrow> wrapped_script"

text \<open>How a call goes on: with an error or values in the script, or with a yield of the coroutine it was made in.\<close>

definition after_call ::
    "bool \<Rightarrow> (string + lua_values \<Rightarrow> 'h rider_filter \<Rightarrow> (wrapped_outcome \<times> 'h rider_filter) option) \<Rightarrow>
     (lua_values \<Rightarrow> wrapped_script) \<Rightarrow> (api_result \<times> 'h rider_filter) option \<Rightarrow> (wrapped_outcome \<times> 'h rider_filter) option" where
  "after_call inner go k r =
     (case r of
        None \<Rightarrow> None
      | Some (ApiError e, f) \<Rightarrow> go (Inl e) f
      | Some (ApiValues v, f) \<Rightarrow> go (Inr v) f
      | Some (ApiYield, f) \<Rightarrow> (if inner then go (Inr NoValues) f else Some (WYielded k, f)))"

primrec run_wrapped ::
    "'h rider_env \<Rightarrow> 'h respond_fn \<Rightarrow> stream_direction \<Rightarrow> wrapped_script \<Rightarrow> 'h rider_filter \<Rightarrow>
     (wrapped_outcome \<times> 'h rider_filter) option" where
  "run_wrapped E rsp d WFinish = (\<lambda>f. Some (WReturned, f))"
| "run_wrapped E rsp d (WFail m) = (\<lambda>f. Some (WRaised m, f))"
| "run_wrapped E rsp d (WFfiCall c k) =
     (\<lambda>f. case ffi_step (re_api E) c (rf_ctx f) of
            None \<Rightarrow> None
          | Some (r, c') \<Rightarrow> run_wrapped E rsp d (k r) (f\<lparr>rf_ctx := c'\<rparr>))"
| "run_wrapped E rsp d (WGetBody inner d' k) =
     (\<lambda>f. after_call inner (\<lambda>r. run_wrapped E rsp d (k r)) (\<lambda>v. k (Inr v)) (luaBody d' f))"
| "run_wrapped E rsp d (WHttpCall inner args k) =
     (\<lambda>f. after_call inner (\<lambda>r. run_wrapped E rsp d (k r)) (\<lambda>v. k (Inr v)) (luaHttpCall E d (call_stack d args) f))"
| "run_wrapped E rsp d (WRespond inner args k) =
     (\<lambda>f. after_call inner (\<lambda>r. run_wrapped E rsp d (k r)) (\<lambda>v. k (Inr v)) (luaRespond E rsp d (call_stack d args) f))"
| "run_wrapped E rsp d (WYield k) = (\<lambda>f. Some (WYielded k, f))"

section \<open>Scripts without inner coroutines\<close>

primrec wrapped_of :: "lua_script \<Rightarrow> wrapped_script" where
  "wrapped_of Finish = WFinish"
| "wrapped_of (Fail m) = WFail m"
| "wrapped_of (FfiCall c k) = WFfiCall c (\<lambda>r. wrapped_of (k r))"
| "wrapped_of (GetBody d k) = WGetBody False d (\<lambda>r. wrapped_of (k r))"
| "wrapped_of (HttpCallScript args k) = WHttpCall False args (\<lambda>r. wrapped_of (k r))"
| "wrapped_of (Respond args k) = WRespond False args (\<lambda>r. wrapped_of (k r))"
| "wrapped_of (CoYield k) = WYield (\<lambda>v. wrapped_of (k v))"

fun wrapped_outcome_of :: "lua_outcome \<Rightarrow> wrapped_outcome" where
  "wrapped_outcome_of Returned = WReturned"
| "wrapped_outcome_of (Raised m) = WRaised m"
| "wrapped_outcome_of (Yielded k) = WYielded (\<lambda>v. wrapped_of (k v))"

lemma run_wrapped_of_script:
  "run_wrapped E rsp d (wrapped_of s) f = map_option (map_prod wrapped_outcome_of id) (run_lua E rsp d s f)"
  by (induction s arbitrary: f) (simp_all add: after_call_def split: option.split prod.split api_result.split)

text \<open>Every script without a call in an inner coroutine is one of \<open>Rider_Stream\<close>.\<close>

primrec no_inner :: "wrapped_script \<Rightarrow> bool" where
  "no_inner WFinish = True"
| "no_inner (WFail m) = True"
| "no_inner (WFfiCall c k) = (\<forall>r. no_inner (k r))"
| "no_inner (WGetBody inner d k) = (\<not> inner \<and> (\<forall>r. no_inner (k r)))"
| "no_inner (WHttpCall inner args k) = (\<not> inner \<and> (\<forall>r. no_inner (k r)))"
| "no_inner (WRespond inner args k) = (\<not> inner \<and> (\<forall>r. no_inner (k r)))"
| "no_inner (WYield k) = (\<forall>v. no_inner (k v))"

primrec unwrapped :: "wrapped_script \<Rightarrow> lua_script" where
  "unwrapped WFinish = Finish"
| "unwrapped (WFail m) = Fail m"
| "unwrapped (WFfiCall c k) = FfiCall c (\<lambda>r. unwrapped (k r))"
| "unwrapped (WGetBody inner d k) = GetBody d (\<lambda>r. unwrapped (k r))"
| "unwrapped (WHttpCall inner args k) = HttpCallScript args (\<lambda>r. unwrapped (k r))"
| "unwrapped (WRespond inner args k) = Respond args (\<lambda>r. unwrapped (k r))"
| "unwrapped (WYield k) = CoYield (\<lambda>v. unwrapped (k v))"

lemma no_inner_iff: "no_inner w \<longleftrightarrow> w = wrapped_of (unwrapped w)"
  by (induction w) (auto simp: fun_eq_iff)

section \<open>Two responses\<close>

text \<open>A script that answers 403 in an inner coroutine and again behind it.\<close>

definition twice_script :: wrapped_script where
  "twice_script =
     WRespond True [ArgTable [('':status'', ArgString ''403'')], ArgString ''a'']
       (\<lambda>_. WRespond False [ArgTable [('':status'', ArgString ''403'')], ArgString ''b''] (\<lambda>_. WFinish))"

text \<open>
  The restriction of \<open>Rider_Stream\<close> is needed: on a new stream, with the wrapper that \<^verbatim>\<open>doHeaders\<close> makes for the request, this
  script sends two direct responses in its first run. Only an assertion that release builds leave out tests whether the
  stream has been answered (\<^verbatim>\<open>filter.cc:932\<close>).
\<close>

theorem wrapped_script_responds_twice:
  "\<exists>out f. run_wrapped (example_rider_env Finish) (respond_of (example_rider_env Finish) DownstreamToUpstream)
      DownstreamToUpstream twice_script
      (set_wrapper DownstreamToUpstream (StreamWrapper False) (RiderFilter example_rider_ctx)) = Some (out, f) \<and>
    filter (\<lambda>x. case x of RiderEncodeHeaders _ _ \<Rightarrow> True | _ \<Rightarrow> False) (rf_calls f) =
      [RiderEncodeHeaders [('':status'', ''403''), (''content-length'', ''1'')] False,
       RiderEncodeHeaders [('':status'', ''403''), (''content-length'', ''1'')] False]"
proof -
  let ?r = "run_wrapped (example_rider_env Finish) (respond_of (example_rider_env Finish) DownstreamToUpstream)
      DownstreamToUpstream twice_script
      (set_wrapper DownstreamToUpstream (StreamWrapper False) (RiderFilter example_rider_ctx))"
  have "map_option (\<lambda>r. filter (\<lambda>x. case x of RiderEncodeHeaders _ _ \<Rightarrow> True | _ \<Rightarrow> False) (rf_calls (snd r))) ?r =
      Some [RiderEncodeHeaders [('':status'', ''403''), (''content-length'', ''1'')] False,
            RiderEncodeHeaders [('':status'', ''403''), (''content-length'', ''1'')] False]"
    by code_simp
  then show ?thesis by (auto simp: map_option_eq_Some)
qed

end
