(* ===== verification/Service_Clients.thy ===== *)
theory Service_Clients
  imports Prelude
begin

text \<open>
  The two clients of external services that no filter of the repository uses yet: the blocking Redis client,
  \<^verbatim>\<open>source/common/redis/client.{h,cc}\<close>, and the Kafka producer, \<^verbatim>\<open>source/common/kafka/producer.{h,cc}\<close>.

  \<^item> redis++ and librdkafka are not part of the repository. Whether redis++ can connect, and what librdkafka answers in
    one attempt to create a producer, are arguments; the calls that are made on them are in the result.
  \<^item> \<open>atoi\<close> is \<^verbatim>\<open>absl::SimpleAtoi<int>\<close>.
\<close>

section \<open>The Redis client\<close>

text \<open>\<^verbatim>\<open>StringUtil::splitToken\<close> without empty parts.\<close>

fun splitToken_acc :: "char \<Rightarrow> string \<Rightarrow> string \<Rightarrow> string list" where
  "splitToken_acc c [] part = (if part = '''' then [] else [rev part])"
| "splitToken_acc c (x # s) part =
     (if x = c then (if part = '''' then splitToken_acc c s '''' else rev part # splitToken_acc c s '''')
      else splitToken_acc c s (x # part))"

definition splitToken :: "char \<Rightarrow> string \<Rightarrow> string list" where
  "splitToken c s = splitToken_acc c s ''''"

datatype redis_type = Cluster | Sentinel | General

record client_options =
  co_hosts :: string
  co_password :: string
  co_redis_type :: redis_type
  co_connect_timeout :: int
  co_socket_timeout :: int
  co_pool_size :: u64
  co_keep_alive :: bool

definition node_of :: "(string \<Rightarrow> int option) \<Rightarrow> string \<Rightarrow> (string \<times> int) list" where
  "node_of atoi s =
     (case splitToken (CHR '':'') s of
        [host, p] \<Rightarrow> (case atoi p of Some port \<Rightarrow> [(host, port)] | None \<Rightarrow> [])
      | _ \<Rightarrow> [])"

definition parseRedisNodes :: "(string \<Rightarrow> int option) \<Rightarrow> string \<Rightarrow> (string \<times> int) list" where
  "parseRedisNodes atoi src = (if src = '''' then [] else concat (map (node_of atoi) (splitToken (CHR '','') src)))"

text \<open>The options that are passed to redis++; the timeouts and the size have its defaults, zero and one, if unset.\<close>

record connection_options =
  cn_host :: string
  cn_port :: int
  cn_password :: string
  cn_connect_timeout :: int
  cn_socket_timeout :: int
  cn_keep_alive :: bool
  cn_pool_size :: u64

definition connectToGeneral :: "(string \<Rightarrow> int option) \<Rightarrow> client_options \<Rightarrow> connection_options throws" where
  "connectToGeneral atoi opt =
     (case parseRedisNodes atoi (co_hosts opt) of
        [] \<Rightarrow> Inl ''no valid redis host''
      | (host, port) # _ \<Rightarrow>
          (let c = \<lparr>cn_host = host, cn_port = port, cn_password = co_password opt, cn_connect_timeout = 0,
                    cn_socket_timeout = 0, cn_keep_alive = False, cn_pool_size = 1\<rparr>;
               c1 = (if co_connect_timeout opt \<noteq> 0 then c\<lparr>cn_connect_timeout := co_connect_timeout opt\<rparr> else c);
               c2 = (if co_socket_timeout opt \<noteq> 0 then c1\<lparr>cn_connect_timeout := co_socket_timeout opt\<rparr> else c1);
               c3 = c2\<lparr>cn_keep_alive := co_keep_alive opt\<rparr>
           in Inr (if 0 < co_pool_size opt then c3\<lparr>cn_pool_size := co_pool_size opt\<rparr> else c3)))"

definition RedisClient ::
    "(string \<Rightarrow> int option) \<Rightarrow> (connection_options \<Rightarrow> unit throws) \<Rightarrow> client_options \<Rightarrow> connection_options throws" where
  "RedisClient atoi connect opt =
     (case connectToGeneral atoi opt of
        Inl e \<Rightarrow> Inl e
      | Inr c \<Rightarrow> (case connect c of Inl e \<Rightarrow> Inl e | Inr _ \<Rightarrow> Inr c))"

text \<open>The parts are the longest runs without the separator.\<close>

lemma splitToken_acc_parts:
  "c \<notin> set part \<Longrightarrow> p \<in> set (splitToken_acc c s part) \<Longrightarrow> p \<noteq> '''' \<and> c \<notin> set p"
  by (induction c s part rule: splitToken_acc.induct) (auto split: if_splits)

lemma splitToken_acc_content:
  "c \<notin> set part \<Longrightarrow> concat (splitToken_acc c s part) = rev part @ filter (\<lambda>x. x \<noteq> c) s"
  by (induction c s part rule: splitToken_acc.induct) auto

lemma splitToken_parts: "p \<in> set (splitToken c s) \<Longrightarrow> p \<noteq> '''' \<and> c \<notin> set p"
  unfolding splitToken_def by (rule splitToken_acc_parts) auto

lemma splitToken_content: "concat (splitToken c s) = filter (\<lambda>x. x \<noteq> c) s"
  using splitToken_acc_content [of c "''''" s] by (simp add: splitToken_def)

text \<open>Every node that is parsed has a name without separators, and a port that the text has.\<close>

lemma parsed_node:
  assumes "(host, port) \<in> set (parseRedisNodes atoi src)"
  shows "host \<noteq> '''' \<and> CHR '':'' \<notin> set host \<and> (\<exists>p. atoi p = Some port \<and> p \<noteq> '''')"
proof -
  from assms obtain s where "(host, port) \<in> set (node_of atoi s)"
    by (auto simp: parseRedisNodes_def split: if_splits)
  then obtain p where "splitToken (CHR '':'') s = [host, p]" "atoi p = Some port"
    unfolding node_of_def by (force split: list.split_asm option.split_asm)
  then show ?thesis using splitToken_parts [of host "CHR '':''" s] splitToken_parts [of p "CHR '':''" s] by auto
qed

text \<open>The timeout of the sockets is never set, and replaces the timeout of connecting.\<close>

lemma socket_timeout_lost:
  assumes "connectToGeneral atoi opt = Inr c"
  shows "cn_socket_timeout c = 0 \<and>
    (co_socket_timeout opt \<noteq> 0 \<longrightarrow> cn_connect_timeout c = co_socket_timeout opt)"
  using assms by (auto simp: connectToGeneral_def Let_def split: list.splits if_splits)

section \<open>The Kafka producer\<close>

text \<open>What librdkafka answers in one attempt: which of the four objects it creates, and whether it takes the servers.\<close>

record kafka_attempt =
  ka_conf :: bool
  ka_topic_conf :: bool
  ka_set_ok :: bool
  ka_producer :: bool
  ka_topic :: bool

datatype kafka_call = CreateProducer string | CreateTopic string | Produce string | Flush nat

record kafka_producer =
  kp_brokers :: string
  kp_topic_string :: string
  kp_producer :: bool
  kp_topic :: bool

definition createProducer :: "kafka_attempt \<Rightarrow> kafka_producer \<Rightarrow> kafka_producer \<times> kafka_call list" where
  "createProducer a k =
     (if kp_brokers k = '''' \<or> kp_topic_string k = '''' then (k, [])
      else if \<not> ka_conf a \<or> \<not> ka_topic_conf a then (k, [])
      else if \<not> ka_set_ok a then (k, [])
      else let k1 = k\<lparr>kp_producer := ka_producer a\<rparr>
           in if \<not> ka_producer a then (k1, [CreateProducer (kp_brokers k)])
              else (k1\<lparr>kp_topic := ka_topic a\<rparr>, [CreateProducer (kp_brokers k), CreateTopic (kp_topic_string k)]))"

definition KafkaProducer :: "kafka_attempt \<Rightarrow> string \<Rightarrow> string \<Rightarrow> kafka_producer \<times> kafka_call list" where
  "KafkaProducer a brokers topic =
     createProducer a \<lparr>kp_brokers = brokers, kp_topic_string = topic, kp_producer = False, kp_topic = False\<rparr>"

definition kp_produce :: "kafka_attempt \<Rightarrow> string \<Rightarrow> kafka_producer \<Rightarrow> kafka_producer \<times> kafka_call list" where
  "kp_produce a message k =
     (if kp_topic k \<and> kp_producer k then (k, [Produce message])
      else let (k', calls) = createProducer a k
           in if kp_topic k' \<and> kp_producer k' then (k', calls @ [Produce message]) else (k', calls))"

definition destroy_KafkaProducer :: "kafka_producer \<Rightarrow> kafka_call list" where
  "destroy_KafkaProducer k = (if kp_topic k \<and> kp_producer k then [Flush 20] else [])"

text \<open>A topic exists only together with its producer, so a message is sent exactly if both exist afterwards.\<close>

definition kafka_ok :: "kafka_producer \<Rightarrow> bool" where
  "kafka_ok k \<longleftrightarrow> (kp_topic k \<longrightarrow> kp_producer k \<and> kp_brokers k \<noteq> '''' \<and> kp_topic_string k \<noteq> '''')"

lemma createProducer_ok: "\<not> kp_topic k \<Longrightarrow> kafka_ok (fst (createProducer a k))"
  by (simp add: createProducer_def kafka_ok_def Let_def)

lemma KafkaProducer_ok: "kafka_ok (fst (KafkaProducer a brokers topic))"
  by (simp add: KafkaProducer_def createProducer_ok)

lemma produce_ok:
  assumes "kafka_ok k"
  shows "kafka_ok (fst (kp_produce a m k)) \<and>
    (Produce m \<in> set (snd (kp_produce a m k)) \<longleftrightarrow> kp_topic (fst (kp_produce a m k)))"
proof (cases "kp_topic k")
  case True
  with assms show ?thesis by (simp add: kp_produce_def kafka_ok_def)
next
  case False
  have "Produce m \<notin> set (snd (createProducer a k))" by (simp add: createProducer_def Let_def)
  with False createProducer_ok [OF False, of a] show ?thesis
    by (auto simp: kp_produce_def kafka_ok_def split: prod.splits)
qed

end
