(* ===== verification/Spec2Isabelle.thy ===== *)
theory Spec2Isabelle
  imports Filter_Factories Dubbo_Roundtrip Dubbo_BigInteger Dubbo_Conn_Pool Header_Restriction Ip_Restriction
    Static_Downgrade Dynamic_Downgrade Super_Cache Header_Rewrite Local_Limit Traffic_Mark Metadata_Hub Escape_Filter
    Detailed_Stats Waf Rider_Filter Rider_Coroutines Rider_Sandbox Service_Clients
begin

text \<open>
  Verification of the Envoy extensions of the Hango gateway: HTTP filters, an access log filter, a Dubbo upstream and
  the libraries they share, all C++ under \<^verbatim>\<open>source/\<close>. The gateway is an Envoy proxy; every request runs through a chain
  of filters, each of which sees the headers and the body in callbacks on the thread of the connection and answers with
  a status that lets the chain go on or stops it.

  \<^bold>\<open>How the parts interact.\<close> Filters with a cache (\<^verbatim>\<open>super_cache\<close>, \<^verbatim>\<open>dynamic_downgrade\<close>) ask a cache sender, which goes
  through a list of local and Redis caches. Downgrading filters replace a response by a configured one, by the answer
  of another service through the HTTP sender, or by a cached one. The circuit breaker and the rate limiter count in
  rolling numbers and token buckets. Restrictions, matchers and rewriting look at the headers of a request. The Dubbo
  upstream turns an HTTP request into a Dubbo call and the answer back into JSON. The metadata hub, the traffic marks
  and the statistics pass values of the request to load balancing, logs and counters. The web application firewall
  inspects requests and responses, and the Rider filter runs Lua plugins on them, which may answer a request themselves.

  \<^bold>\<open>Theories and sources.\<close>
  \<^item> \<open>Prelude\<close>: machine integers, filter statuses, exceptions as sums, association lists, decimal numbers.
    \<open>Header_Map\<close>: Envoy's header maps and rapidjson's documents as parameters with named laws, and a concrete header
    map on which the laws hold.
  \<^item> \<open>Cache_Base\<close> (\<^verbatim>\<open>common/cache/cache_base.h\<close>): cache entries and the locale \<open>common_cache\<close>, the contract of a cache.
    \<open>Lru_Cache\<close>, \<open>Local_Cache\<close> (\<^verbatim>\<open>local_cache_impl\<close>): the list with its index of iterators, its 64 bit memory account and
    the sixteen shards, which interpret \<open>common_cache\<close>. \<open>Redis_Cache\<close> (\<^verbatim>\<open>common/redis/async_client\<close>, \<^verbatim>\<open>redis_cache_impl\<close>): the
    connection as a state machine with its pending callbacks. \<open>Http_Cache_Entry\<close>: entries with HTTP messages.
    \<open>Cache_Sender\<close> (\<^verbatim>\<open>common/sender/cache_request_sender\<close>): the lookup through several caches. \<open>Cache_Admin\<close>: the removal of
    entries through the administration interface.
  \<^item> \<open>Http_Base\<close> (\<^verbatim>\<open>common/http/proxy_base\<close>, \<^verbatim>\<open>common/common\<close>): messages, URIs, escaping, hashes. \<open>Proxy_Matcher\<close>: request
    matchers with a lazily filled context, and when their construction throws. \<open>Regex\<close>: the fragment of regular expressions that the fixed patterns use.
    \<open>Response_Stream\<close>: how the filter manager drives the response side of a filter, and the locales \<open>body_replacement\<close> and
    \<open>body_storing\<close>, which the downgrading and caching filters interpret.
  \<^item> \<open>Rolling_Number\<close>, \<open>Circuit_Breaker\<close>, \<open>Circuit_Breaker_Traffic\<close>, \<open>Local_Limit\<close>: counting windows, the breaker with its
    manager and filter, the filters of many streams and routes on one manager with the specification they refine,
    token buckets and the rate limit.
  \<^item> \<open>Static_Downgrade\<close>, \<open>Service_Downgrade\<close> (with the HTTP sender), \<open>Dynamic_Downgrade\<close>, \<open>Super_Cache\<close>: the filters that
    replace or cache responses. \<open>Header_Restriction\<close>, \<open>Ip_Restriction\<close>, \<open>Header_Rewrite\<close>: the filters on the headers of a
    request.
  \<^item> \<open>Dubbo_Json\<close>, \<open>Dubbo_BigInteger\<close>, \<open>Dubbo_Output\<close>, \<open>Dubbo_Request\<close>, \<open>Dubbo_Upstream\<close>, \<open>Dubbo_Conn_Pool\<close>
    (\<^verbatim>\<open>common/dubbo/utility\<close>, \<^verbatim>\<open>bridge/dubbo/simple\<close>, \<^verbatim>\<open>upstreams/http/dubbo\<close>): the conversion of JSON to Hessian values and back, the frames, and
    the state machine of an upstream request with its connection pool and configuration; the locale
    \<open>dubbo_header_laws\<close> states what a codec of headers promises and is interpreted on a codec of Dubbo's frame format.
    \<open>Dubbo_Graph\<close> relates the conversion of a response to the tree that its object graph unfolds to, and
    \<open>Dubbo_Roundtrip\<close> composes both conversions.
  \<^item> \<open>Metadata_Values\<close>, \<open>Traffic_Mark\<close>, \<open>Metadata_Hub\<close>, \<open>Escape_Filter\<close>, \<open>Stats_Scopes\<close>, \<open>Detailed_Stats\<close>: metadata, colours
    for load balancing, filter state for logs, escaping for logs, and statistics with shared scopes.
  \<^item> \<open>Waf\<close> (\<^verbatim>\<open>filters/http/waf\<close>): rule sets and the inspection of requests and responses by two transactions of ModSecurity.
    \<open>Rider_Plugin\<close>, \<open>Rider_Api\<close>, \<open>Rider_Stream\<close>, \<open>Rider_Filter\<close> (\<^verbatim>\<open>filters/http/rider\<close>): Lua plugins with their loading, the
    functions they call, the coroutines and the stream wrapper of both plugin versions, and runs over any sequence of
    events; a script is the tree of the calls it makes in the coroutine that the filter runs, and \<open>Rider_Coroutines\<close> has
    the scripts that make calls in coroutines of their own. The locale \<open>filter_callbacks\<close> is the interface of the same name and is
    interpreted for the encoder and the decoder. \<open>Rider_Sandbox\<close>: the tables of globals, threads and coroutines of the Lua
    machine that all streams of a worker share, with the context that a script finds there; the locale \<open>private_stores\<close>
    states that a thread's globals are its own, and is interpreted on the machine. \<open>Service_Clients\<close> (\<^verbatim>\<open>common/redis/client\<close>, \<^verbatim>\<open>common/kafka/producer\<close>): two
    clients that no filter uses yet.
  \<^item> \<open>Filter_Factories\<close> (\<^verbatim>\<open>config.{h,cc}\<close>, \<^verbatim>\<open>*_factory.{h,cc}\<close>): what each factory adds to a new stream, when it rejects its
    configuration (the locale \<open>config_factory\<close>), and the registered names.

  The state of a class is a record with the fields of the class, an operation is a function from the state (and the
  clock, where the code reads it) to the new state with the calls it makes on its environment, and an exception is the
  left part of a sum. Callbacks that arrive in any order are steps of an \<open>inductive\<close> relation or a list of events.

  \<^bold>\<open>What the lemmas show.\<close> Every component has an invariant that its operations keep, and its operations are related to
  a specification: the LRU list to a list of most recent entries, the rolling number to the sum of a window, the
  breaker to its history, the matchers to the conditions of their configuration, the converters to the value ranges of
  the Java types and to the document that a graph unfolds to. On these rest the properties of whole filters: what a client receives, which calls are made, and
  what is refused. This theory adds the composition of the caching filters with the sender, the entries and the local
  cache: a response that one request stores is what a later request is served.

  \<^bold>\<open>Loops.\<close> Recursion over data is structural. The eviction loop of the LRU cache and the division loop of big integers may
  not end for an arbitrary state, so they are \<open>partial_function\<close>s with values in \<open>option\<close>; each is proved to return from
  every state that satisfies the invariant. The conversion of Hessian object graphs takes fuel, and a graph with a
  finite unfolding is converted with enough of it; that a certain cyclic graph is never converted is a property of its own. A
  script of a plugin is a finite tree of calls, so its run is structural recursion. An access to a Lua global follows at
  most a hundred tables, which is the limit of LuaJIT itself.

  \<^bold>\<open>Parameters.\<close> Code that is not in the repository is an argument: header maps, filter state, metadata helpers, string
  matchers, cluster manager and asynchronous client of Envoy, rapidjson, RE2, the template engine, hiredis, the Hessian
  codec, the bucket of tokens, ModSecurity, LuaJIT, redis++ and librdkafka. What a property needs of
  them is a named hypothesis that states their documentation, and the witness of the property gives a concrete instance.

  \<^bold>\<open>Not modelled.\<close>
  \<^item> The parsing of protobuf messages, including the factories of typed metadata, which hand a message to a converter of
    Envoy and construct the configuration object, whose constructor is modelled.
  \<^item> The mechanics of Lua beyond tables of globals: garbage collection, and scripts that replace environments or metatables.
    The filter as a whole is run on scripts that make their calls in the coroutine the filter resumes; of scripts with
    coroutines of their own only a single run is modelled.
  \<^item> The exceptions of Envoy's header and query matchers for invalid regular expressions, except in \<open>Proxy_Matcher\<close> and the
    filters built on it: the other filters take the lists of matchers of their configuration as already made.
  \<^item> The text that goes to the logs, and the debugging dump of the Lua stack.
\<close>

section \<open>From the response to the cache and back\<close>

lemma same_message_trans:
  "same_message H m m' \<Longrightarrow> same_message H m' m'' \<Longrightarrow> same_message H m m''"
  by (simp add: same_message_def)

text \<open>
  What it takes for a local cache to return a response at time \<open>t\<close> that was stored at time \<open>now\<close>: at most 512 KB, a
  lifetime that has not passed, and room in the shard of the key.
\<close>

definition storable ::
    "'h header_map_ops \<Rightarrow> u64 \<Rightarrow> u64 \<Rightarrow> u64 \<Rightarrow> 'h http_message \<Rightarrow> cache_key \<Rightarrow> 'h http_entry local_cache \<Rightarrow> bool" where
  "storable H now lifetime t m k c \<longleftrightarrow>
     hm_byteSize H (msg_headers m) + of_nat (length (msg_body m)) \<le> MAX_CACHE_ENTRY_SIZE \<and>
     lifetime \<noteq> 0 \<and> now \<le> now + lifetime \<and> t < now + lifetime \<and>
     he_cache_length (HttpCacheEntryBase H (Some m) 0) \<le> max_cache_length (c ! shard k) \<and>
     he_cache_length (HttpCacheEntryBase H (Some (makeMessageCopy H m)) 0) \<le> max_cache_length (c ! shard k)"

text \<open>
  A stored response is found: after a miss, every local cache of the list that can store it returns a message with
  the body and the headers of the response, up to the two framing headers.
\<close>

lemma stored_response_found:
  assumes H: "header_map_laws H inl valid"
    and E: "E = http_entry_ops H write_json read_json response_required"
    and calls: "calls = fst (insertResponse H E ttl used now key m g)"
    and miss: "hit_in_cache g = -1" "gs_cache_key (setCacheKey key g) = k"
    and cache: "i < length used" "lc_inv E c"
    and st: "storable H now (ttl (used ! i) (header_value H '':status'' (msg_headers m))) t m k c"
  shows "\<exists>c' r m'. run_steps (lc_step E) (ops_for i calls) c = Some c' \<and>
    fst (lc_lookup E t k c') = Some r \<and> cache_message r = Some m' \<and> same_message H m m'"
proof -
  let ?code = "header_value H '':status'' (msg_headers m)"
  define lifetime where "lifetime = ttl (used ! i) ?code"
  let ?e = "HttpCacheEntryBase H (Some m) 0"
  let ?e' = "HttpCacheEntryBase H (Some (makeMessageCopy H m)) 0"
  let ?g = "setCacheKey key g"
  define e where "e = (if Suc i = length used then ?e else ?e')\<lparr>he_cache_expire := now + lifetime\<rparr>"
  note st' = st [unfolded storable_def, folded lifetime_def]
  have copy: "createCopy E ?e = Some ?e'"
    by (simp add: E http_entry_ops_def he_createCopy_def HttpCacheEntryBase_def)
  have hit: "hit_in_cache ?g = -1" using miss(1) by (simp add: setCacheKey_def)
  have expire: "set_cacheExpire E t x = x\<lparr>he_cache_expire := t\<rparr>" for t x
    by (simp add: E http_entry_ops_def)
  have "calls = insertCache E ttl used now ?e ?code ?g"
    using calls st' by (auto simp: insertResponse_def Let_def not_less [symmetric])
  then have ops: "ops_for i calls = [Insert k e]"
    using insertCache_on [of i used ?g ttl ?code E ?e ?e' now, OF cache(1) hit _ copy] st'
    by (simp only: miss(2) e_def expire lifetime_def) simp
  have exp: "cacheExpire E e = now + lifetime" by (simp add: E http_entry_ops_def e_def)
  have "cacheLength E e \<le> max_cache_length (c ! shard k)"
    using st' by (simp add: E http_entry_ops_def e_def)
  from lc_insert_stores [OF cache(2) this] obtain c' where
    c': "lc_insert E k e c = Some c'" "lc_inv E c'" "lc_view c' k = Some e" by blast
  let ?m = "if Suc i = length used then m else makeMessageCopy H m"
  have m: "cache_message e = Some ?m" by (simp add: e_def HttpCacheEntryBase_def)
  have "fst (lc_lookup E t k c') = createCopy E e"
    using lc.lookup_result [OF c'(2), of t k] c'(3) st' by (simp add: exp not_le [symmetric])
  also have "\<dots> = Some (HttpCacheEntryBase H (Some (makeMessageCopy H ?m)) 0)"
    using m by (simp add: E http_entry_ops_def he_createCopy_def)
  finally have "fst (lc_lookup E t k c') = Some (HttpCacheEntryBase H (Some (makeMessageCopy H ?m)) 0)" .
  moreover have "same_message H m (makeMessageCopy H ?m)"
    using makeMessageCopy_same [OF H]
      same_message_trans [OF makeMessageCopy_same [OF H] makeMessageCopy_same [OF H], of m] by simp
  moreover have "run_steps (lc_step E) (ops_for i calls) c = Some c'"
    using c'(1) by (simp add: ops lc_step_def)
  ultimately show ?thesis by (intro exI conjI) (auto simp: HttpCacheEntryBase_def)
qed

section \<open>The dynamic downgrade and its caches\<close>


section \<open>The super cache\<close>

text \<open>
  C5: The super cache serves a response it has stored. A request that may be cached asks the first cache; when all
  caches miss it goes on, its response gets the key and the mark \<^verbatim>\<open>MISS\<close> and passes with its body unchanged, however it
  is cut into chunks, and the response as it came from upstream, without the service time of Envoy, is stored. A later
  request with the same key whose first cache is a local cache that can store the response is answered with its
  headers (up to the two framing headers) with the marks \<^verbatim>\<open>HIT\<close> and the name of the cache, and exactly its body; what
  is served from the first cache is not stored again.
\<close>

theorem super_cache_serves_cached:
  assumes H: "header_map_laws (sc_H S) inl valid"
      "\<not> inl ''x-cache-key''" "\<not> inl ''x-cache-status''" "\<not> inl ''x-cache-hit''"
    and E: "sc_E S = http_entry_ops (sc_H S) write_json read_json response_required"
    and used: "sc_used S = name # names" "length (sc_used S) < 2 ^ 32"
    and first: "isCacheableRequest (sc_H S) rqx1" "checkEnable (sc_match S) c rqx1 RQ"
      "sc_decodeHeaders S (Some (Some c)) rqx1 fin1 HttpCacheFilter = (status1, asks1, outs1, f1)"
      "sc_misses S (length (sc_used S)) f1 = (asks2, outs2, f2)"
      "isCacheableResponse S rpx1" "checkEnable (sc_match S) c rpx1 RP"
      "sc_encodeHeaders S now rpx1 False f2 = (status3, ops3, h3, f3)"
    and m: "m = sc_message S rpx1 (concat (d # ds))"
    and key: "sc_key S c rqx1 = k" "sc_key S c rqx2 = k"
    and cache: "lc_inv (sc_E S) cache"
      "storable (sc_H S) now (cacheTTL (sc_regex S) (sc_cache_config c) name
         (header_value (sc_H S) '':status'' (msg_headers m))) t m k cache"
    and second: "isCacheableRequest (sc_H S) rqx2" "checkEnable (sc_match S) c rqx2 RQ"
      "sc_decodeHeaders S (Some (Some c)) rqx2 fin2 HttpCacheFilter = (status4, asks4, outs4, f4)"
  shows "status1 \<noteq> Continue \<and> asks1 = [(0, k)] \<and> outs1 = [] \<and> outs2 = [ScContinueDecoding] \<and>
    status3 = Continue \<and> ops3 = [] \<and>
    map snd (hm_get (sc_H S) n h3) =
      map snd (hm_get (sc_H S) n rpx1) @ (if n = ''x-cache-key'' then [k] else if n = ''x-cache-status'' then [''MISS''] else []) \<and>
    fst (encode_body (\<lambda>d fin f. fst (sc_encodeData S now d fin f)) False (d # ds) f3) = concat (d # ds) \<and>
    asks4 = [(0, k)] \<and> outs4 = [] \<and>
    (\<exists>cache' r m' h5 f5.
       run_steps (lc_step (sc_E S)) (ops_for 0 (encode_ops (sc_encodeData S now) False (d # ds) f3)) cache = Some cache' \<and>
       fst (lc_lookup (sc_E S) t k cache') = Some r \<and> cache_message r = Some m' \<and> same_message (sc_H S) m m' \<and>
       sc_reply S (Some r) f4 =
         ([], EncodeHeaders h5 (concat (d # ds) = '''') #
              (if concat (d # ds) = '''' then [] else [EncodeData (concat (d # ds)) True]), f5) \<and>
       map snd (hm_get (sc_H S) n h5) =
         map snd (hm_get (sc_H S) n (msg_headers m')) @
           (if n = ''x-cache-status'' then [''HIT''] else if n = ''x-cache-hit'' then [name] else []) \<and>
       (case sc_encodeHeaders S now2 h5 (concat (d # ds) = '''') f5 of (status6, ops6, h6, f6) \<Rightarrow>
          ops6 = [] \<and> encode_ops (sc_encodeData S now2) trailers chunks f6 = []))"
proof -
  note asks = sc_decodeHeaders_asks [OF first(1,2) _ first(3)] sc_decodeHeaders_asks [OF second(1,2) _ second(3)]
  from asks used(1) have a: "status1 \<noteq> Continue" "asks1 = [(0, k)]" "outs1 = []" "asks4 = [(0, k)]" "outs4 = []"
    "sc_request_sender f1 = Some (sender_at k 0)" "enable_caches f1" "\<not> hit_in_caches f1" "sc_route_config_ptr f1 = Some c"
    "sc_request_sender f4 = Some (waiting_sender k)"
    by (simp_all add: key sender_at_0 [symmetric] HttpCacheFilter_def)
  from sc_misses_all [OF _ _ used(2) a(7,8,9,6)] used first(4)
  have missed: "outs2 = [ScContinueDecoding]" "sc_missed c k f2" by auto
  from sc_encodeHeaders_missed [OF missed(2) first(5-7)] obtain s where
    enc: "status3 = Continue" "ops3 = []" "sc_storing c s (sc_message S rpx1 '''') '''' f3"
      "h3 = hm_addCopy (sc_H S) ''x-cache-status'' ''MISS'' (hm_addCopy (sc_H S) ''x-cache-key'' k rpx1)"
    and s: "has_cache_key s" "gs_cache_key s = k" "hit_in_cache s = -1" by auto
  let ?ops = "encode_ops (sc_encodeData S now) False (d # ds) f3"
  have ops: "?ops = sc_stored S now c s m"
    using sc_store.stored [OF enc(3), of "d # ds"] by (simp add: m sc_message_def del: encode_ops.simps)
  from stored_response_found [OF H(1) E ops [unfolded sc_stored_def], of k 0 cache t] cache s
  obtain cache' r m' where found: "run_steps (lc_step (sc_E S)) (ops_for 0 ?ops) cache = Some cache'"
      "fst (lc_lookup (sc_E S) t k cache') = Some r" "cache_message r = Some m'" "same_message (sc_H S) m m'"
    by (auto simp: used(1) getter_setter.defs setCacheKey_def simp del: encode_ops.simps)
  then have body: "msg_body m' = concat (d # ds)" by (simp add: same_message_def m sc_message_def)
  define h5 f5 where "h5 = hm_addCopy (sc_H S) ''x-cache-hit'' name
      (hm_addCopy (sc_H S) ''x-cache-status'' ''HIT'' (hm_copy (sc_H S) (msg_headers m')))"
    and "f5 = f4\<lparr>sc_request_sender := Some (hit_sender k), hit_in_caches := True, stats_hit := stats_hit f4 + 1\<rparr>"
  note reply = sc_reply_hit [OF a(10) found(3) used(1), folded h5_def f5_def, unfolded body Let_def, folded h5_def]
  obtain status6 ops6 h6 f6 where again:
    "sc_encodeHeaders S now2 h5 (concat (d # ds) = '''') f5 = (status6, ops6, h6, f6)" by (rule prod_cases4)
  have "hit_in_cache x = 0" if "sc_request_sender f5 = Some x" for x
    using that by (auto simp: f5_def hit_sender_def)
  note no = not_stored_again [OF this again]
  have "map snd (hm_get (sc_H S) n h5) = map snd (hm_get (sc_H S) n (msg_headers m')) @
      (if n = ''x-cache-status'' then [''HIT''] else if n = ''x-cache-hit'' then [name] else [])"
    using H(3,4) by (simp add: h5_def header_map_lawsD(6,9) [OF H(1)])
  moreover have "map snd (hm_get (sc_H S) n h3) = map snd (hm_get (sc_H S) n rpx1) @
      (if n = ''x-cache-key'' then [k] else if n = ''x-cache-status'' then [''MISS''] else [])"
    using H(2,3) by (simp add: enc(4) header_map_lawsD(6) [OF H(1)])
  moreover have "fst (encode_body (\<lambda>d fin f. fst (sc_encodeData S now d fin f)) False (d # ds) f3) = concat (d # ds)"
    by (rule sc.passed_body) simp
  ultimately show ?thesis
    using a(1-5) missed(1) enc(1,2) found reply no again by (intro conjI) auto
qed

text \<open>A filter with one local cache, which stores responses with status 200 and replaces those with 503.\<close>

definition example_cache_config :: "string specific_cache_config" where
  "example_cache_config =
     \<lparr>cache_ttls = [(LocalCacheName, 1000, [])], cache_key_prefix = ''downgrade'',
      key_maker_config = \<lparr>exclude_path = False, exclude_host = True, query_params = [], headers_keys = [], ignore_case = False\<rparr>\<rparr>"

definition example_dd_config :: "(string \<times> string, string) dd_route_config" where
  "example_dd_config =
     \<lparr>dd_downgrade_rqx = [], dd_downgrade_rpx = [('':status'', ''503'')], dd_cache_rpx_rpx = [('':status'', ''200'')],
      dd_has_no_downgrade_rpx = False, downgradeWithCache = True, dd_cache_config = Some example_cache_config,
      dd_downgrade_uri = None, dd_override_remote = None\<rparr>"

definition example_dd :: "((string \<times> string) list, string \<times> string, string) dd_env" where
  "example_dd =
     \<lparr>dd_H = list_headers, dd_E = http_entry_ops list_headers (\<lambda>evs. '''') (\<lambda>s. None) response_required,
      dd_A = example_client, dd_match = \<lambda>h ms. \<forall>m \<in> set ms. m \<in> set h,
      dd_keys = \<lparr>md5_hex = \<lambda>s. s, removeQueryAndFragment = \<lambda>s. s, parseQueryString = \<lambda>s. []\<rparr>,
      dd_regex = \<lambda>r s. r = s, dd_used = [LocalCacheName], dd_remote = None\<rparr>"


text \<open>A filter with a local cache and a Redis cache.\<close>

definition example_sc_config :: "(string \<times> string, string) sc_route_config" where
  "example_sc_config =
     \<lparr>enable_rqx = [], enable_rpx = [('':status'', ''200'')], sc_cache_config = example_cache_config, low_level_fill = True\<rparr>"

definition example_sc :: "((string \<times> string) list, string \<times> string, string) sc_env" where
  "example_sc =
     \<lparr>sc_H = list_headers, sc_E = http_entry_ops list_headers (\<lambda>evs. '''') (\<lambda>s. None) response_required,
      sc_match = \<lambda>h ms. \<forall>m \<in> set ms. m \<in> set h, caseFindToken = \<lambda>s sep token. s = token,
      sc_keys = \<lparr>md5_hex = \<lambda>s. s, removeQueryAndFragment = \<lambda>s. s, parseQueryString = \<lambda>s. []\<rparr>,
      sc_regex = \<lambda>r s. r = s, sc_used = [LocalCacheName, RedisCacheName]\<rparr>"

definition example_get :: "(string \<times> string) list" where
  "example_get = [('':method'', ''GET''), ('':path'', ''/''), ('':authority'', ''a'')]"

theorem super_cache_serves_cached_witness:
  "case sc_decodeHeaders example_sc (Some (Some example_sc_config)) example_get True HttpCacheFilter of
     (status1, asks1, outs1, f1) \<Rightarrow>
       (case sc_misses example_sc 2 f1 of (asks2, outs2, f2) \<Rightarrow>
          (case sc_encodeHeaders example_sc 5 [('':status'', ''200'')] False f2 of (status3, ops3, h3, f3) \<Rightarrow>
             outs2 = [ScContinueDecoding] \<and> map snd (hm_get list_headers ''x-cache-status'' h3) = [''MISS''] \<and>
             (\<exists>cache' r h5 f5.
                run_steps (lc_step (sc_E example_sc))
                  (ops_for 0 (encode_ops (sc_encodeData example_sc 5) False [''ab'', ''c''] f3)) (LocalCache None) = Some cache' \<and>
                fst (lc_lookup (sc_E example_sc) 100 ''downgradeGET/'' cache') = Some r \<and>
                sc_reply example_sc (Some r) f1 = ([], [EncodeHeaders h5 False, EncodeData ''abc'' True], f5))))"
proof -
  let ?rpx = "[('':status'', ''200'')]"
  obtain status1 asks1 outs1 f1 where run1: "sc_decodeHeaders example_sc (Some (Some example_sc_config)) example_get True
      HttpCacheFilter = (status1, asks1, outs1, f1)" by (rule prod_cases4)
  obtain asks2 outs2 f2 where run2: "sc_misses example_sc (length (sc_used example_sc)) f1 = (asks2, outs2, f2)"
    by (rule prod_cases3)
  obtain status3 ops3 h3 f3 where run3: "sc_encodeHeaders example_sc 5 ?rpx False f2 = (status3, ops3, h3, f3)"
    by (rule prod_cases4)
  have H: "header_map_laws (sc_H example_sc) (\<lambda>k. False) (\<lambda>h. \<forall>e\<in>set h. name_ok (fst e) \<and> text_ok (snd e))"
    using list_headers_laws by (simp add: example_sc_def)
  have env: "sc_H example_sc = list_headers" "sc_E example_sc = http_entry_ops list_headers (\<lambda>evs. '''') (\<lambda>s. None) response_required"
    "sc_used example_sc = LocalCacheName # [RedisCacheName]" by (simp_all add: example_sc_def)
  have key: "sc_key example_sc example_sc_config example_get = ''downgradeGET/''"
    by (simp add: sc_key_def cacheKey_def raw_cache_key_def header_value_def example_sc_def example_sc_config_def
        example_cache_config_def example_get_def list_headers_def)
  have req: "isCacheableRequest (sc_H example_sc) example_get" "checkEnable (sc_match example_sc) example_sc_config example_get RQ"
    by (simp_all add: isCacheableRequest_def checkEnable_def example_sc_def example_sc_config_def example_get_def list_headers_def)
  have rsp: "isCacheableResponse example_sc ?rpx" "checkEnable (sc_match example_sc) example_sc_config ?rpx RP"
    by (simp_all add: isCacheableResponse_def checkEnable_def example_sc_def example_sc_config_def list_headers_def)
  let ?m = "sc_message example_sc ?rpx (concat [''ab'', ''c''])"
  have st: "storable (sc_H example_sc) 5 (cacheTTL (sc_regex example_sc) (sc_cache_config example_sc_config) LocalCacheName
      (header_value (sc_H example_sc) '':status'' (msg_headers ?m))) 100 ?m ''downgradeGET/'' (LocalCache None)"
    by (simp add: storable_def cacheTTL_def example_sc_def example_sc_config_def example_cache_config_def list_headers_def
        sc_message_def MAX_CACHE_ENTRY_SIZE_def HttpCacheEntryBase_def makeMessageCopy_def LocalCache_def LruCacheImpl_def
        max_cache_size_def DEFAULT_MAX_CACHE_SIZE_def cache_list_number_def shard_def decimal_nat.simps)
  have n: "length (sc_used example_sc) < 2 ^ 32" by (simp add: env(3))
  have E: "sc_E example_sc = http_entry_ops (sc_H example_sc) (\<lambda>evs. '''') (\<lambda>s. None) response_required"
    by (simp add: env)
  have nf: "\<not> False" by simp
  note served = super_cache_serves_cached [OF H nf nf nf E env(3) n req run1 run2 rsp run3 refl key key LocalCache_inv st req run1,
      where n = "''x-cache-status''" and ?now2.0 = 50 and trailers = False and chunks = "[''abc'']"]
  from served have "outs2 = [ScContinueDecoding]" by (elim conjE)
  moreover from served have "map snd (hm_get (sc_H example_sc) ''x-cache-status'' h3) =
      map snd (hm_get (sc_H example_sc) ''x-cache-status'' ?rpx) @ (if ''x-cache-status'' = ''x-cache-key'' then [''downgradeGET/'']
        else if ''x-cache-status'' = ''x-cache-status'' then [''MISS''] else [])" by (elim conjE)
  then have "map snd (hm_get list_headers ''x-cache-status'' h3) = [''MISS'']"
    unfolding env(1) by simp (simp add: list_headers_def)
  moreover from served obtain cache' r h5 f5 where "run_steps (lc_step (sc_E example_sc))
        (ops_for 0 (encode_ops (sc_encodeData example_sc 5) False [''ab'', ''c''] f3)) (LocalCache None) = Some cache'"
      "fst (lc_lookup (sc_E example_sc) 100 ''downgradeGET/'' cache') = Some r"
      "sc_reply example_sc (Some r) f1 = ([], EncodeHeaders h5 (concat [''ab'', ''c''] = '''') #
         (if concat [''ab'', ''c''] = '''' then [] else [EncodeData (concat [''ab'', ''c'']) True]), f5)"
    by (elim conjE exE)
  moreover have "sc_misses example_sc 2 f1 = (asks2, outs2, f2)"
    using run2 by (simp add: env(3) numeral_2_eq_2)
  ultimately show ?thesis
    unfolding run1 prod.case by (simp add: run3 del: encode_ops.simps sc_misses.simps)
qed

end
